(* ===== verification/Prelude.thy ===== *)
theory Prelude
  imports Complex_Main "HOL-Library.AList" "HOL-Library.Char_ord" "HOL-Library.List_Lexorder"
    "HOL-Library.Product_Lexorder"
begin

section \<open>Shared vocabulary: results, loops over results, Python dictionaries and strings\<close>

text \<open>
  The Python code signals failure by raising.  A computation that may raise returns a value of
  \<open>'a result\<close>: \<open>Inl\<close> carries the exception, \<open>Inr\<close> the value.  An \<open>AppError\<close>
  (\<^verbatim>\<open>src/backend/app/core/errors.py\<close>) keeps its \<open>code\<close> and its HTTP
  \<open>status_code\<close>; the human readable message is dropped.  The other constructors are the
  built-in exceptions and pydantic's \<open>ValidationError\<close>.

  A Python \<open>dict\<close> is an association list in insertion order: \<open>map_of\<close> reads it and
  \<open>AList.update\<close> writes it, which, like the dict, overwrites in place or appends.
\<close>

datatype py_error =
    AppError (err_code: string) (err_status: nat)
  | ValidationError
  | KeyError
  | ValueError
  | IndexError
  | TypeError
  | OverflowError
  | RecursionError
  | AssertionError

type_synonym 'a result = "py_error + 'a"
type_synonym ('k, 'v) dict = "('k \<times> 'v) list"

named_theorems result_simps \<open>case analysis of computations that may raise\<close>
named_theorems dict_simps \<open>insertion ordered dictionaries\<close>

subsection \<open>Sequencing\<close>

fun and_then :: "'a result \<Rightarrow> ('a \<Rightarrow> 'b result) \<Rightarrow> 'b result" where
  "and_then (Inl e) f = Inl e"
| "and_then (Inr x) f = f x"

text \<open>\<open>for x in xs: s = f(x, s)\<close>, leaving at the first raise.\<close>

fun foldE :: "('a \<Rightarrow> 's \<Rightarrow> 's result) \<Rightarrow> 'a list \<Rightarrow> 's \<Rightarrow> 's result" where
  "foldE f [] s = Inr s"
| "foldE f (x # xs) s = and_then (f x s) (foldE f xs)"

text \<open>\<open>[f(x) for x in xs]\<close>, leaving at the first raise.\<close>

fun mapE :: "('a \<Rightarrow> 'b result) \<Rightarrow> 'a list \<Rightarrow> 'b list result" where
  "mapE f [] = Inr []"
| "mapE f (x # xs) = and_then (f x) (\<lambda>y. and_then (mapE f xs) (\<lambda>ys. Inr (y # ys)))"

text \<open>\<open>for x in xs: check(x)\<close>, where the check only raises or returns.\<close>

fun eachE :: "('a \<Rightarrow> unit result) \<Rightarrow> 'a list \<Rightarrow> unit result" where
  "eachE f [] = Inr ()"
| "eachE f (x # xs) = and_then (f x) (\<lambda>_. eachE f xs)"

text \<open>\<open>any(p(x) for x in xs)\<close> and \<open>all(p(x) for x in xs)\<close>: stop at the first decision or raise.\<close>

fun anyE :: "('a \<Rightarrow> bool result) \<Rightarrow> 'a list \<Rightarrow> bool result" where
  "anyE p [] = Inr False"
| "anyE p (x # xs) = and_then (p x) (\<lambda>b. if b then Inr True else anyE p xs)"

fun allE :: "('a \<Rightarrow> bool result) \<Rightarrow> 'a list \<Rightarrow> bool result" where
  "allE p [] = Inr True"
| "allE p (x # xs) = and_then (p x) (\<lambda>b. if b then allE p xs else Inr False)"

text \<open>\<open>if cond: raise e\<close>.\<close>

definition raise_if :: "bool \<Rightarrow> py_error \<Rightarrow> unit result" where
  "raise_if b e = (if b then Inl e else Inr ())"

text \<open>\<open>try: r except Exception: raise e\<close>.\<close>

fun or_raise :: "'a result \<Rightarrow> py_error \<Rightarrow> 'a result" where
  "or_raise (Inr x) e = Inr x"
| "or_raise (Inl _) e = Inl e"

fun opt_or :: "'a option \<Rightarrow> py_error \<Rightarrow> 'a result" where
  "opt_or (Some x) e = Inr x"
| "opt_or None e = Inl e"

lemma and_then_Inr_iff [simp, result_simps]:
  "and_then r f = Inr y \<longleftrightarrow> (\<exists>x. r = Inr x \<and> f x = Inr y)"
  by (cases r) auto

lemma and_then_Inl_iff [result_simps]:
  "and_then r f = Inl e \<longleftrightarrow> r = Inl e \<or> (\<exists>x. r = Inr x \<and> f x = Inl e)"
  by (cases r) auto

lemma and_then_assoc [simp]:
  "and_then (and_then r f) g = and_then r (\<lambda>x. and_then (f x) g)"
  by (cases r) auto

lemma and_then_cong [fundef_cong]:
  "r = r' \<Longrightarrow> (\<And>x. r' = Inr x \<Longrightarrow> f x = g x) \<Longrightarrow> and_then r f = and_then r' g"
  by (cases r') auto

lemma if_Inl_eq_Inr [simp, result_simps]: "(if b then Inl e else r) = Inr y \<longleftrightarrow> \<not> b \<and> r = Inr y"
  by auto

lemma raise_if_Inr_iff [simp, result_simps]: "raise_if b e = Inr u \<longleftrightarrow> \<not> b"
  by (cases u) (simp add: raise_if_def)

lemma raise_if_Inl_iff [simp, result_simps]: "raise_if b e = Inl e' \<longleftrightarrow> b \<and> e' = e"
  by (auto simp: raise_if_def)

lemma raise_if_simps [simp]: "raise_if True e = Inl e" "raise_if False e = Inr ()"
  by (simp_all add: raise_if_def)

lemma or_raise_Inr_iff [simp, result_simps]: "or_raise r e = Inr y \<longleftrightarrow> r = Inr y"
  by (cases r) auto

lemma or_raise_Inl_iff [simp, result_simps]:
  "or_raise r e = Inl e' \<longleftrightarrow> e' = e \<and> (\<exists>x. r = Inl x)"
  by (cases r) auto

lemma opt_or_Inr_iff [simp, result_simps]: "opt_or x e = Inr y \<longleftrightarrow> x = Some y"
  by (cases x) auto

lemma opt_or_Inl_iff [simp, result_simps]: "opt_or x e = Inl e' \<longleftrightarrow> x = None \<and> e' = e"
  by (cases x) auto

lemma eachE_Inr_iff [simp, result_simps]:
  "eachE f xs = Inr u \<longleftrightarrow> (\<forall>x \<in> set xs. f x = Inr ())"
  by (induction xs) (auto simp: old.unit.exhaust)

lemma eachE_Inl: "eachE f xs = Inl e \<Longrightarrow> \<exists>x \<in> set xs. f x = Inl e"
  by (induction xs) (auto simp: and_then_Inl_iff)

lemma mapE_Inr_iff [result_simps]:
  "mapE f xs = Inr ys \<longleftrightarrow> list_all2 (\<lambda>x y. f x = Inr y) xs ys"
  by (induction xs arbitrary: ys) (auto simp: list_all2_Cons1)

lemma mapE_Inl: "mapE f xs = Inl e \<Longrightarrow> \<exists>x \<in> set xs. f x = Inl e"
  by (induction xs) (auto simp: and_then_Inl_iff)

lemma allE_True_iff [simp, result_simps]: "allE p xs = Inr True \<longleftrightarrow> (\<forall>x \<in> set xs. p x = Inr True)"
  by (induction xs) auto

lemma anyE_False_iff [simp, result_simps]: "anyE p xs = Inr False \<longleftrightarrow> (\<forall>x \<in> set xs. p x = Inr False)"
proof (induction xs)
  case (Cons x xs)
  then show ?case
    by (cases "p x") auto
qed simp

lemma anyE_cong [fundef_cong]:
  "xs = ys \<Longrightarrow> (\<And>x. x \<in> set ys \<Longrightarrow> p x = q x) \<Longrightarrow> anyE p xs = anyE q ys"
  by (induction ys arbitrary: xs) (auto intro: and_then_cong)

lemma allE_cong [fundef_cong]:
  "xs = ys \<Longrightarrow> (\<And>x. x \<in> set ys \<Longrightarrow> p x = q x) \<Longrightarrow> allE p xs = allE q ys"
  by (induction ys arbitrary: xs) (auto intro: and_then_cong)

text \<open>Negation turns one into the other, raises included.\<close>

lemma anyE_allE: "anyE p xs = and_then (allE (\<lambda>x. and_then (p x) (\<lambda>b. Inr (\<not> b))) xs) (\<lambda>b. Inr (\<not> b))"
proof (induction xs)
  case (Cons x xs)
  then show ?case
    by (cases "p x") auto
qed simp

lemma mapE_total:
  assumes "\<And>x. x \<in> set xs \<Longrightarrow> \<exists>y. f x = Inr y"
  shows "\<exists>ys. mapE f xs = Inr ys"
  using assms
proof (induction xs)
  case (Cons x xs)
  then obtain y ys where "f x = Inr y" "mapE f xs = Inr ys"
    by fastforce
  then show ?case
    by simp
qed simp

lemma mapE_cong [fundef_cong]:
  "xs = ys \<Longrightarrow> (\<And>x. x \<in> set ys \<Longrightarrow> f x = g x) \<Longrightarrow> mapE f xs = mapE g ys"
  by (induction ys arbitrary: xs) auto

lemma foldE_append: "foldE f (xs @ ys) s = and_then (foldE f xs s) (foldE f ys)"
proof (induction xs arbitrary: s)
  case (Cons x xs)
  then have "foldE f (xs @ ys) = (\<lambda>t. and_then (foldE f xs t) (foldE f ys))"
    by (rule ext)
  then show ?case
    by simp
qed simp

lemma foldE_total:
  assumes "\<And>x s. x \<in> set xs \<Longrightarrow> \<exists>t. f x s = Inr t"
  shows "\<exists>t. foldE f xs s = Inr t"
  using assms by (induction xs arbitrary: s) fastforce+

text \<open>The loop rule: an invariant of the state, indexed by the elements already consumed.\<close>

lemma foldE_invariant:
  assumes "foldE f xs s = Inr s'" and "I [] s"
    and "\<And>done x s t. I done s \<Longrightarrow> x \<in> set xs \<Longrightarrow> f x s = Inr t \<Longrightarrow> I (done @ [x]) t"
  shows "I xs s'"
proof -
  have "foldE f zs s = Inr s' \<Longrightarrow> I ys s \<Longrightarrow> set zs \<subseteq> set xs \<Longrightarrow> I (ys @ zs) s'" for zs ys s
  proof (induction zs arbitrary: ys s)
    case (Cons z zs)
    from Cons.prems obtain t where t: "f z s = Inr t" "foldE f zs t = Inr s'"
      by auto
    with assms(3) [OF Cons.prems(2) _ t(1)] Cons.prems(3) have "I (ys @ [z]) t"
      by simp
    from Cons.IH [OF t(2) this] Cons.prems(3) show ?case
      by simp
  qed auto
  from this [OF assms(1), of "[]"] assms(2) show ?thesis
    by simp
qed

text \<open>The simpler rule, for an invariant that does not look at the elements consumed.\<close>

lemma foldE_preserves:
  assumes "foldE f xs s = Inr s'" and "P s"
    and "\<And>x s t. P s \<Longrightarrow> x \<in> set xs \<Longrightarrow> f x s = Inr t \<Longrightarrow> P t"
  shows "P s'"
  using foldE_invariant [where I = "\<lambda>_. P"] assms by metis

subsection \<open>Which exceptions a computation can raise\<close>

definition only_raises :: "(py_error \<Rightarrow> bool) \<Rightarrow> 'a result \<Rightarrow> bool" where
  "only_raises P r \<longleftrightarrow> (case r of Inl e \<Rightarrow> P e | Inr _ \<Rightarrow> True)"

named_theorems raises_intros \<open>one rule per construct of the code\<close>

lemma only_raisesD: "only_raises P r \<Longrightarrow> r = Inl e \<Longrightarrow> P e"
  by (simp add: only_raises_def)

lemma only_raisesI: "(\<And>e. r = Inl e \<Longrightarrow> P e) \<Longrightarrow> only_raises P r"
  by (simp add: only_raises_def split: sum.split)

lemma only_raises_mono: "only_raises P r \<Longrightarrow> (\<And>e. P e \<Longrightarrow> Q e) \<Longrightarrow> only_raises Q r"
  by (simp add: only_raises_def split: sum.splits)

lemma only_raises_Inr [simp, raises_intros]: "only_raises P (Inr x)"
  by (simp add: only_raises_def)

lemma only_raises_Inl [simp]: "only_raises P (Inl e) = P e"
  by (simp add: only_raises_def)

lemma only_raises_Inl_intro [raises_intros]: "P e \<Longrightarrow> only_raises P (Inl e)"
  by simp

lemma only_raises_and_then [raises_intros]:
  "only_raises P r \<Longrightarrow> (\<And>x. r = Inr x \<Longrightarrow> only_raises P (f x)) \<Longrightarrow> only_raises P (and_then r f)"
  by (cases r) (simp_all add: only_raises_def)

lemma only_raises_if [raises_intros]:
  "(c \<Longrightarrow> only_raises P r) \<Longrightarrow> (\<not> c \<Longrightarrow> only_raises P s) \<Longrightarrow> only_raises P (if c then r else s)"
  by simp

lemma only_raises_option [raises_intros]:
  "(x = None \<Longrightarrow> only_raises P r) \<Longrightarrow> (\<And>y. x = Some y \<Longrightarrow> only_raises P (f y))
     \<Longrightarrow> only_raises P (case x of None \<Rightarrow> r | Some y \<Rightarrow> f y)"
  by (cases x) simp_all

lemma only_raises_prod [raises_intros]:
  "(\<And>a b. p = (a, b) \<Longrightarrow> only_raises P (f a b)) \<Longrightarrow> only_raises P (case p of (a, b) \<Rightarrow> f a b)"
  by (cases p) simp

lemma only_raises_raise_if [raises_intros]: "(c \<Longrightarrow> P e) \<Longrightarrow> only_raises P (raise_if c e)"
  by (simp add: raise_if_def)

lemma only_raises_opt_or [raises_intros]: "(x = None \<Longrightarrow> P e) \<Longrightarrow> only_raises P (opt_or x e)"
  by (cases x) simp_all

lemma only_raises_or_raise [raises_intros]: "P e \<Longrightarrow> only_raises P (or_raise r e)"
  by (cases r) simp_all

lemma only_raises_eachE [raises_intros]:
  "(\<And>x. x \<in> set xs \<Longrightarrow> only_raises P (f x)) \<Longrightarrow> only_raises P (eachE f xs)"
  by (induction xs) (auto intro: only_raises_and_then)

lemma only_raises_mapE [raises_intros]:
  "(\<And>x. x \<in> set xs \<Longrightarrow> only_raises P (f x)) \<Longrightarrow> only_raises P (mapE f xs)"
  by (induction xs) (auto intro!: only_raises_and_then)

lemma only_raises_foldE [raises_intros]:
  "(\<And>x s. x \<in> set xs \<Longrightarrow> only_raises P (f x s)) \<Longrightarrow> only_raises P (foldE f xs s)"
  by (induction xs arbitrary: s) (auto intro: only_raises_and_then)

lemma only_raises_anyE [raises_intros]:
  "(\<And>x. x \<in> set xs \<Longrightarrow> only_raises P (f x)) \<Longrightarrow> only_raises P (anyE f xs)"
  by (induction xs) (auto intro!: only_raises_and_then)

lemma only_raises_allE [raises_intros]:
  "(\<And>x. x \<in> set xs \<Longrightarrow> only_raises P (f x)) \<Longrightarrow> only_raises P (allE f xs)"
  by (induction xs) (auto intro!: only_raises_and_then)

subsection \<open>Dictionaries\<close>

definition dict_set :: "'k \<Rightarrow> 'v \<Rightarrow> ('k, 'v) dict \<Rightarrow> ('k, 'v) dict" where
  "dict_set k v d = AList.update k v d"

text \<open>\<open>{k: v for k, v in kvs}\<close>: later pairs overwrite earlier ones.\<close>

definition dict_of :: "('k \<times> 'v) list \<Rightarrow> ('k, 'v) dict" where
  "dict_of kvs = fold (\<lambda>(k, v). dict_set k v) kvs []"

text \<open>\<open>d[k]\<close>, raising on a missing key.\<close>

definition dict_at :: "('k, 'v) dict \<Rightarrow> 'k \<Rightarrow> 'v result" where
  "dict_at d k = opt_or (map_of d k) KeyError"

text \<open>\<open>d.get(k, default)\<close>.\<close>

definition dict_get :: "('k, 'v) dict \<Rightarrow> 'k \<Rightarrow> 'v \<Rightarrow> 'v" where
  "dict_get d k v = (case map_of d k of None \<Rightarrow> v | Some x \<Rightarrow> x)"

text \<open>\<open>d.setdefault(k, []).append(v)\<close>.\<close>

definition dict_append :: "'k \<Rightarrow> 'v \<Rightarrow> ('k, 'v list) dict \<Rightarrow> ('k, 'v list) dict" where
  "dict_append k v d = dict_set k (dict_get d k [] @ [v]) d"

text \<open>\<open>d.setdefault(k, [])\<close>.\<close>

definition dict_default :: "'k \<Rightarrow> ('k, 'v list) dict \<Rightarrow> ('k, 'v list) dict" where
  "dict_default k d = (if map_of d k = None then d @ [(k, [])] else d)"

abbreviation dict_keys :: "('k, 'v) dict \<Rightarrow> 'k list" where
  "dict_keys d \<equiv> map fst d"

abbreviation dict_values :: "('k, 'v) dict \<Rightarrow> 'v list" where
  "dict_values d \<equiv> map snd d"

lemma map_of_dict_set [simp, dict_simps]: "map_of (dict_set k v d) = (map_of d)(k \<mapsto> v)"
  by (simp add: dict_set_def update_conv')

lemma distinct_dict_set [simp, dict_simps]:
  "distinct (dict_keys d) \<Longrightarrow> distinct (dict_keys (dict_set k v d))"
  by (simp add: dict_set_def distinct_update)

lemma set_keys_dict_set [simp, dict_simps]:
  "fst ` set (dict_set k v d) = insert k (fst ` set d)"
  using dom_update [of k v d] by (simp add: dict_set_def dom_map_of_conv_image_fst)

lemma dict_set_new: "k \<notin> fst ` set d \<Longrightarrow> dict_set k v d = d @ [(k, v)]"
  by (induction d) (auto simp: dict_set_def)

lemma dict_of_Nil [simp]: "dict_of [] = []"
  by (simp add: dict_of_def)

lemma dict_of_append [simp]: "dict_of (xs @ [(k, v)]) = dict_set k v (dict_of xs)"
  by (simp add: dict_of_def)

lemma map_of_dict_of [dict_simps]: "map_of (dict_of kvs) = map_of (rev kvs)"
  by (induction kvs rule: rev_induct) auto

lemma distinct_dict_of [simp, dict_simps]: "distinct (dict_keys (dict_of kvs))"
  by (induction kvs rule: rev_induct) auto

lemma keys_dict_of [simp, dict_simps]: "fst ` set (dict_of kvs) = fst ` set kvs"
proof (induction kvs rule: rev_induct)
  case (snoc kv kvs)
  then show ?case
    by (cases kv) simp
qed simp

text \<open>A comprehension over distinct keys is the list of its pairs.\<close>

lemma dict_of_distinct: "distinct (map fst kvs) \<Longrightarrow> dict_of kvs = kvs"
  by (induction kvs rule: rev_induct) (auto simp: dict_set_new)

text \<open>\<open>len(d) == len(kvs)\<close> is how the code tests that the keys are unique.\<close>

lemma length_dict_of: "length (dict_of kvs) = card (set (map fst kvs))"
  using distinct_card [OF distinct_dict_of, of kvs] by simp

lemma length_dict_of_iff: "length (dict_of kvs) = length kvs \<longleftrightarrow> distinct (map fst kvs)"
  by (metis length_dict_of card_distinct distinct_card length_map)

lemma map_of_distinct_rev: "distinct (map fst kvs) \<Longrightarrow> map_of (rev kvs) = map_of kvs"
  by (induction kvs) (auto simp: map_add_upd_left dom_map_of_conv_image_fst)

lemma dict_at_Inr_iff [simp, dict_simps]: "dict_at d k = Inr v \<longleftrightarrow> map_of d k = Some v"
  by (simp add: dict_at_def)

lemma dict_at_Inl_iff [simp, dict_simps]: "dict_at d k = Inl e \<longleftrightarrow> map_of d k = None \<and> e = KeyError"
  by (simp add: dict_at_def)

lemma map_of_dict_append [simp, dict_simps]:
  "map_of (dict_append k v d) = (map_of d)(k \<mapsto> dict_get d k [] @ [v])"
  by (simp add: dict_append_def)

lemma map_of_dict_default [simp, dict_simps]:
  "map_of (dict_default k d) = (map_of d)(k \<mapsto> dict_get d k [])"
  by (rule ext) (auto simp: dict_default_def dict_get_def map_add_def split: option.splits)

lemma dict_get_set [simp, dict_simps]:
  "dict_get (dict_set k v d) k' x = (if k' = k then v else dict_get d k' x)"
  by (simp add: dict_get_def)

lemma dict_get_append [simp, dict_simps]:
  "dict_get (dict_append k v d) k' [] = (if k' = k then dict_get d k [] @ [v] else dict_get d k' [])"
  by (simp add: dict_get_def)

lemma dict_get_default [simp, dict_simps]: "dict_get (dict_default k d) k' [] = dict_get d k' []"
  by (simp add: dict_get_def)

lemma keys_dict_append [simp, dict_simps]:
  "fst ` set (dict_append k v d) = insert k (fst ` set d)"
  by (simp add: dict_append_def)

lemma keys_dict_default [simp, dict_simps]:
  "fst ` set (dict_default k d) = insert k (fst ` set d)"
  by (auto simp: dict_default_def map_of_eq_None_iff image_iff)

lemma distinct_dict_append [simp, dict_simps]:
  "distinct (dict_keys d) \<Longrightarrow> distinct (dict_keys (dict_append k v d))"
  by (simp add: dict_append_def)

lemma distinct_dict_default [simp, dict_simps]:
  "distinct (dict_keys d) \<Longrightarrow> distinct (dict_keys (dict_default k d))"
  by (auto simp: dict_default_def map_of_eq_None_iff)

lemma map_of_dict_values: "map_of d k = Some v \<Longrightarrow> v \<in> set (dict_values d)"
  by (drule map_of_SomeD) (force simp: image_iff)

lemma in_dict_getD: "x \<in> set (dict_get d k []) \<Longrightarrow> \<exists>xs. map_of d k = Some xs \<and> x \<in> set xs"
  by (cases "map_of d k") (auto simp: dict_get_def)

subsection \<open>Searching a list\<close>

text \<open>\<open>next((x for x in xs if p(x)), None)\<close> is \<open>find p xs\<close>.\<close>

lemma find_SomeD: "find p xs = Some x \<Longrightarrow> p x \<and> x \<in> set xs"
  by (auto simp: find_Some_iff)

lemma find_None_iff': "find p xs = None \<longleftrightarrow> (\<forall>x \<in> set xs. \<not> p x)"
  by (auto simp: find_None_iff)

text \<open>A key that is unique in a list determines the element found under it.\<close>

lemma find_unique:
  "distinct (map f xs) \<Longrightarrow> x \<in> set xs \<Longrightarrow> find (\<lambda>y. f y = f x) xs = Some x"
  by (induction xs) auto

end
