(* ===== verification/Json.thy ===== *)
theory Json
  imports Prelude
begin

section \<open>JSON values as the Python program holds them\<close>

text \<open>
  Every JSONB column and every plan fragment is a Python object built from \<open>None\<close>, \<open>bool\<close>,
  \<open>int\<close>, \<open>float\<close>, \<open>str\<close>, \<open>list\<close> and \<open>dict\<close>.  Integers are unbounded.
  A finite float is its exact rational value (the code compares floats, and never computes with the
  ones it finds in JSON), and the three non-finite floats are kept apart.  A string is a list of
  characters, read as the code points below 256.  An object is a dictionary, so its keys
  are distinct (\<open>wf_json\<close>).  The nesting depth Python's stack allows is not modelled.
\<close>

datatype pyfloat = Finite rat | PosInf | NegInf | NaN

datatype json =
    JNull
  | JBool bool
  | JInt int
  | JFloat pyfloat
  | JStr string
  | JList "json list"
  | JObj "(string, json) dict"

fun is_bool :: "json \<Rightarrow> bool" where
  "is_bool (JBool _) = True"
| "is_bool _ = False"

fun is_str :: "json \<Rightarrow> bool" where
  "is_str (JStr _) = True"
| "is_str _ = False"

fun is_list :: "json \<Rightarrow> bool" where
  "is_list (JList _) = True"
| "is_list _ = False"

fun is_dict :: "json \<Rightarrow> bool" where
  "is_dict (JObj _) = True"
| "is_dict _ = False"

text \<open>
  The \<open>isinstance\<close> tests as projections.  \<open>as_int\<close> is an \<open>int\<close> that is no \<open>bool\<close>, which
  the code spells out because \<open>bool\<close> is a subclass.
\<close>

fun as_int :: "json \<Rightarrow> int option" where
  "as_int (JInt i) = Some i"
| "as_int _ = None"

fun as_bool :: "json \<Rightarrow> bool option" where
  "as_bool (JBool b) = Some b"
| "as_bool _ = None"

fun as_str :: "json \<Rightarrow> string option" where
  "as_str (JStr s) = Some s"
| "as_str _ = None"

fun as_list :: "json \<Rightarrow> json list option" where
  "as_list (JList xs) = Some xs"
| "as_list _ = None"

fun as_dict :: "json \<Rightarrow> (string, json) dict option" where
  "as_dict (JObj kvs) = Some kvs"
| "as_dict _ = None"

lemma as_eq_Some_iff [simp]:
  "as_int v = Some i \<longleftrightarrow> v = JInt i"
  "as_bool v = Some b \<longleftrightarrow> v = JBool b"
  "as_str v = Some s \<longleftrightarrow> v = JStr s"
  "as_list v = Some xs \<longleftrightarrow> v = JList xs"
  "as_dict v = Some kvs \<longleftrightarrow> v = JObj kvs"
  by (cases v; simp)+

text \<open>\<open>value.get(k)\<close> on a dictionary, with a test of the result's type.\<close>

definition get_int :: "(string, json) dict \<Rightarrow> string \<Rightarrow> int option" where
  "get_int d k = Option.bind (map_of d k) as_int"

definition get_bool :: "(string, json) dict \<Rightarrow> string \<Rightarrow> bool option" where
  "get_bool d k = Option.bind (map_of d k) as_bool"

definition get_str :: "(string, json) dict \<Rightarrow> string \<Rightarrow> string option" where
  "get_str d k = Option.bind (map_of d k) as_str"

definition get_list :: "(string, json) dict \<Rightarrow> string \<Rightarrow> json list option" where
  "get_list d k = Option.bind (map_of d k) as_list"

lemma get_eq_Some_iff [simp]:
  "get_int d k = Some i \<longleftrightarrow> map_of d k = Some (JInt i)"
  "get_bool d k = Some b \<longleftrightarrow> map_of d k = Some (JBool b)"
  "get_str d k = Some s \<longleftrightarrow> map_of d k = Some (JStr s)"
  "get_list d k = Some xs \<longleftrightarrow> map_of d k = Some (JList xs)"
  by (auto simp: get_int_def get_bool_def get_str_def get_list_def Option.bind_eq_Some_conv)

text \<open>\<open>value.get(k)\<close> on a dictionary.\<close>

fun obj_get :: "json \<Rightarrow> string \<Rightarrow> json option" where
  "obj_get (JObj kvs) k = map_of kvs k"
| "obj_get _ k = None"

text \<open>Well-formed: the keys of every object are distinct.\<close>

fun wf_json :: "json \<Rightarrow> bool" where
  "wf_json (JList xs) = list_all wf_json xs"
| "wf_json (JObj kvs) = (distinct (dict_keys kvs) \<and> list_all (\<lambda>(k, v). wf_json v) kvs)"
| "wf_json _ = True"

text \<open>Every number in the value is finite.\<close>

fun finite_json :: "json \<Rightarrow> bool" where
  "finite_json (JFloat f) = (case f of Finite _ \<Rightarrow> True | _ \<Rightarrow> False)"
| "finite_json (JList xs) = list_all finite_json xs"
| "finite_json (JObj kvs) = list_all (\<lambda>(k, v). finite_json v) kvs"
| "finite_json _ = True"

subsection \<open>Python's \<open>==\<close>\<close>

text \<open>
  \<open>==\<close> on such objects: booleans are integers (\<open>True == 1\<close>), an integer equals the float
  of the same value, \<open>nan\<close> equals nothing, lists compare element by element and dictionaries by
  key.  The evidence checks of the runtime compare whole snapshots with it.
\<close>

datatype pynum = Num rat | Inf | MinusInf | NotANumber

fun pynum_of :: "json \<Rightarrow> pynum option" where
  "pynum_of (JBool b) = Some (Num (if b then 1 else 0))"
| "pynum_of (JInt i) = Some (Num (of_int i))"
| "pynum_of (JFloat (Finite r)) = Some (Num r)"
| "pynum_of (JFloat PosInf) = Some Inf"
| "pynum_of (JFloat NegInf) = Some MinusInf"
| "pynum_of (JFloat NaN) = Some NotANumber"
| "pynum_of _ = None"

fun pynum_eq :: "pynum \<Rightarrow> pynum \<Rightarrow> bool" where
  "pynum_eq NotANumber _ = False"
| "pynum_eq x y = (x = y)"

fun py_eq :: "json \<Rightarrow> json \<Rightarrow> bool"
  and py_eq_list :: "json list \<Rightarrow> json list \<Rightarrow> bool"
  and py_eq_items :: "(string \<times> json) list \<Rightarrow> (string, json) dict \<Rightarrow> bool"
where
  "py_eq a b =
     (case (a, b) of
        (JNull, JNull) \<Rightarrow> True
      | (JStr s, JStr t) \<Rightarrow> s = t
      | (JList xs, JList ys) \<Rightarrow> py_eq_list xs ys
      | (JObj kvs, JObj kvs') \<Rightarrow> length kvs = length kvs' \<and> py_eq_items kvs kvs'
      | _ \<Rightarrow> (case (pynum_of a, pynum_of b) of
                (Some x, Some y) \<Rightarrow> pynum_eq x y
              | _ \<Rightarrow> False))"
| "py_eq_list [] [] = True"
| "py_eq_list (x # xs) (y # ys) = (py_eq x y \<and> py_eq_list xs ys)"
| "py_eq_list [] (y # ys) = False"
| "py_eq_list (x # xs) [] = False"
| "py_eq_items [] d = True"
| "py_eq_items ((k, v) # kvs) d =
     (case map_of d k of None \<Rightarrow> False | Some v' \<Rightarrow> py_eq v v' \<and> py_eq_items kvs d)"

declare py_eq.simps [simp del]

lemma py_eq_simps [simp]:
  "py_eq JNull b = (b = JNull)"
  "py_eq (JStr s) b = (b = JStr s)"
  "py_eq (JList xs) (JList ys) = py_eq_list xs ys"
  "py_eq (JObj kvs) (JObj kvs') = (length kvs = length kvs' \<and> py_eq_items kvs kvs')"
  "py_eq (JBool p) (JBool q) = (p = q)"
  "py_eq (JInt i) (JInt j) = (i = j)"
  "py_eq (JBool p) (JInt i) = (i = (if p then 1 else 0))"
  "py_eq (JInt i) (JBool p) = (i = (if p then 1 else 0))"
  by (cases b; auto simp: py_eq.simps)+

lemma py_eq_list_iff: "py_eq_list xs ys \<longleftrightarrow> list_all2 py_eq xs ys"
  by (induction xs ys rule: list_induct2') auto

lemma py_eq_items_iff:
  "py_eq_items kvs d \<longleftrightarrow> (\<forall>(k, v) \<in> set kvs. \<exists>v'. map_of d k = Some v' \<and> py_eq v v')"
  by (induction kvs) (auto split: option.splits)

text \<open>A well-formed value without \<open>nan\<close> equals itself, so an exact copy passes the checks.\<close>

fun nan_free :: "json \<Rightarrow> bool" where
  "nan_free (JFloat f) = (f \<noteq> NaN)"
| "nan_free (JList xs) = list_all nan_free xs"
| "nan_free (JObj kvs) = list_all (\<lambda>(k, v). nan_free v) kvs"
| "nan_free _ = True"

lemma py_eq_refl: "wf_json a \<Longrightarrow> nan_free a \<Longrightarrow> py_eq a a"
proof (induction a)
  case (JFloat f)
  then show ?case
    by (cases f) (auto simp: py_eq.simps)
next
  case (JList xs)
  then show ?case
    by (auto simp: py_eq_list_iff list_all_iff list_all2_same)
next
  case (JObj kvs)
  then show ?case
    by (fastforce simp: py_eq_items_iff list_all_iff)
qed (auto simp: py_eq.simps)

subsection \<open>Exact key sets\<close>

text \<open>\<open>set(d.keys()) == {...}\<close>.\<close>

definition has_keys :: "(string, json) dict \<Rightarrow> string list \<Rightarrow> bool" where
  "has_keys kvs ks \<longleftrightarrow> set (dict_keys kvs) = set ks"

end
