(* ===== verification/PyStr.thy ===== *)
theory PyStr
  imports Prelude
begin

section \<open>The string operations of the Python standard library the program uses\<close>

text \<open>
  Characters are read as the code points below 256.  \<open>str_split\<close>, \<open>str_replace\<close>,
  \<open>str_strip\<close>, \<open>str_isdigit\<close>, \<open>int()\<close>, decimal and hexadecimal formatting, and
  \<open>re.fullmatch\<close> on regular expressions without captures, the last one by
  derivatives with a proof that it decides the language of the expression.
\<close>

subsection \<open>Splitting, replacing, stripping\<close>

text \<open>\<open>s.split(c)\<close> for a one character separator.\<close>

fun str_split :: "char \<Rightarrow> string \<Rightarrow> string list" where
  "str_split c [] = [[]]"
| "str_split c (x # xs) =
     (if x = c then [] # str_split c xs
      else (case str_split c xs of [] \<Rightarrow> [[x]] | w # ws \<Rightarrow> (x # w) # ws))"

text \<open>\<open>s.split(c, n)\<close>: at most \<open>n\<close> splits.\<close>

fun str_split_max :: "nat \<Rightarrow> char \<Rightarrow> string \<Rightarrow> string list" where
  "str_split_max 0 c s = [s]"
| "str_split_max (Suc n) c [] = [[]]"
| "str_split_max (Suc n) c (x # xs) =
     (if x = c then [] # str_split_max n c xs
      else (case str_split_max (Suc n) c xs of [] \<Rightarrow> [[x]] | w # ws \<Rightarrow> (x # w) # ws))"

text \<open>\<open>s.replace(old, new)\<close> for a non-empty \<open>old\<close>: left to right, without overlaps.\<close>

function str_replace :: "string \<Rightarrow> string \<Rightarrow> string \<Rightarrow> string" where
  "str_replace old new [] = []"
| "str_replace old new (x # xs) =
     (if old \<noteq> [] \<and> take (length old) (x # xs) = old
      then new @ str_replace old new (drop (length old) (x # xs))
      else x # str_replace old new xs)"
  by pat_completeness auto
termination
  by (relation "measure (\<lambda>(old, new, s). length s)") (auto simp: Suc_le_eq)

text \<open>The white space of \<open>str.strip\<close> and \<open>str.split\<close> among those code points.\<close>

definition py_space :: "char \<Rightarrow> bool" where
  "py_space c \<longleftrightarrow> (let n = (of_char c :: nat) in
     9 \<le> n \<and> n \<le> 13 \<or> 28 \<le> n \<and> n \<le> 32 \<or> n = 133 \<or> n = 160)"

definition str_strip :: "string \<Rightarrow> string" where
  "str_strip s = rev (dropWhile py_space (rev (dropWhile py_space s)))"

text \<open>\<open>s.strip(chars)\<close>.\<close>

definition str_strip_chars :: "string \<Rightarrow> string \<Rightarrow> string" where
  "str_strip_chars cs s =
     rev (dropWhile (\<lambda>c. c \<in> set cs) (rev (dropWhile (\<lambda>c. c \<in> set cs) s)))"

lemma str_split_nonempty [simp]: "str_split c s \<noteq> []"
  by (induction s) (auto split: list.splits)

lemma str_split_no_sep: "c \<notin> set s \<Longrightarrow> str_split c s = [s]"
  by (induction s) auto

lemma str_split_append_sep: "c \<notin> set s \<Longrightarrow> str_split c (s @ c # t) = s # str_split c t"
  by (induction s) auto

lemma str_split_pieces: "w \<in> set (str_split c s) \<Longrightarrow> c \<notin> set w"
  by (induction s arbitrary: w) (auto split: if_splits list.splits)

text \<open>Joining the pieces with the separator gives the string back.\<close>

fun str_join :: "char \<Rightarrow> string list \<Rightarrow> string" where
  "str_join c [] = []"
| "str_join c [w] = w"
| "str_join c (w # ws) = w @ c # str_join c ws"

lemma str_join_Cons: "ws \<noteq> [] \<Longrightarrow> str_join c (w # ws) = w @ c # str_join c ws"
  by (cases ws) auto

lemma str_join_split: "str_join c (str_split c s) = s"
proof (induction s)
  case (Cons x xs)
  show ?case
  proof (cases "str_split c xs")
    case (Cons w ws)
    with Cons.IH show ?thesis
      by (cases ws) auto
  qed (use str_split_nonempty in blast)
qed simp

lemma str_split_join:
  "ws \<noteq> [] \<Longrightarrow> (\<And>w. w \<in> set ws \<Longrightarrow> c \<notin> set w) \<Longrightarrow> str_split c (str_join c ws) = ws"
proof (induction ws rule: induct_list012)
  case (3 w v ws)
  then show ?case
    by (simp add: str_split_append_sep)
qed (auto simp: str_split_no_sep)

lemma str_split_max_second:
  "str_split_max 2 c (c # s) ! 1 = hd (str_split c s)"
proof -
  have ne: "str_split_max (Suc 0) c s \<noteq> []" for s
    by (cases s) (auto split: list.splits)
  have "hd (str_split_max (Suc 0) c s) = hd (str_split c s)" for s
    by (induction s) (auto split: list.splits simp: ne)
  with ne show ?thesis
    by (simp add: numeral_2_eq_2 hd_conv_nth)
qed

subsection \<open>Digits\<close>

definition ascii_digit :: "char \<Rightarrow> bool" where
  "ascii_digit c \<longleftrightarrow> c \<in> set ''0123456789''"

text \<open>
  \<open>str.isdigit\<close> also accepts the superscript digits two, three and one (code points 178, 179
  and 185), which \<open>int()\<close> rejects.
\<close>

definition py_digit :: "char \<Rightarrow> bool" where
  "py_digit c \<longleftrightarrow> ascii_digit c \<or> of_char c \<in> {178, 179, 185 :: nat}"

definition str_isdigit :: "string \<Rightarrow> bool" where
  "str_isdigit s \<longleftrightarrow> s \<noteq> [] \<and> list_all py_digit s"

definition digit_val :: "char \<Rightarrow> nat" where
  "digit_val c = of_char c - 48"

definition nat_of_digits :: "string \<Rightarrow> nat" where
  "nat_of_digits s = foldl (\<lambda>n c. 10 * n + digit_val c) 0 s"

text \<open>
  \<open>int(s)\<close> on a string without sign, space or underscore: \<open>ValueError\<close> for a character that
  is no decimal digit and for more than 4300 digits, CPython's default limit.
\<close>

definition py_int_digits :: "string \<Rightarrow> nat result" where
  "py_int_digits s =
     (if s \<noteq> [] \<and> list_all ascii_digit s \<and> length s \<le> 4300 then Inr (nat_of_digits s)
      else Inl ValueError)"

text \<open>Decimal notation, \<open>str(n)\<close>, and zero padded decimal, \<open>f"{n:06d}"\<close>.\<close>

definition digit_char :: "nat \<Rightarrow> char" where
  "digit_char n = char_of (48 + n)"

fun nat_dec :: "nat \<Rightarrow> string" where
  "nat_dec n = (if n < 10 then [digit_char n] else nat_dec (n div 10) @ [digit_char (n mod 10)])"

declare nat_dec.simps [simp del]

definition zero_pad :: "nat \<Rightarrow> string \<Rightarrow> string" where
  "zero_pad w s = replicate (w - length s) (CHR ''0'') @ s"

lemma digit_val_char [simp]: "n < 10 \<Longrightarrow> digit_val (digit_char n) = n"
  by (simp add: digit_val_def digit_char_def)

lemma ascii_digit_iff: "ascii_digit c \<longleftrightarrow> 48 \<le> (of_char c :: nat) \<and> of_char c < (58 :: nat)"
proof -
  have eq: "c = d \<longleftrightarrow> (of_char c :: nat) = of_char d" for d
    by auto
  have "ascii_digit c \<longleftrightarrow> (of_char c :: nat) \<in> {48, 49, 50, 51, 52, 53, 54, 55, 56, 57}"
    unfolding ascii_digit_def by (simp only: list.set insert_iff empty_iff eq) simp
  also have "\<dots> \<longleftrightarrow> 48 \<le> (of_char c :: nat) \<and> of_char c < (58 :: nat)"
    unfolding insert_iff empty_iff by presburger
  finally show ?thesis .
qed

lemma ascii_digit_char [simp]: "n < 10 \<Longrightarrow> ascii_digit (digit_char n)"
  by (simp add: ascii_digit_iff digit_char_def)

lemma digit_val_less [simp]: "ascii_digit c \<Longrightarrow> digit_val c < 10"
  by (auto simp: ascii_digit_iff digit_val_def)

lemma nat_of_digits_snoc: "nat_of_digits (s @ [c]) = 10 * nat_of_digits s + digit_val c"
  by (simp add: nat_of_digits_def)

lemma nat_of_digits_dec [simp]: "nat_of_digits (nat_dec n) = n"
proof (induction n rule: nat_dec.induct)
  case (1 n)
  show ?case
  proof (cases "n < 10")
    case True
    then show ?thesis
      by (simp add: nat_dec.simps [of n]) (simp add: nat_of_digits_def)
  next
    case False
    with 1 show ?thesis
      by (simp add: nat_dec.simps [of n] nat_of_digits_snoc)
  qed
qed

lemma nat_dec_digits: "list_all ascii_digit (nat_dec n)"
proof (induction n rule: nat_dec.induct)
  case (1 n)
  then show ?case
    by (cases "n < 10") (auto simp: nat_dec.simps [of n])
qed

lemma nat_dec_nonempty [simp]: "nat_dec n \<noteq> []"
  by (simp add: nat_dec.simps [of n])

lemma nat_of_digits_zeros: "nat_of_digits (replicate k (CHR ''0'') @ s) = nat_of_digits s"
  by (induction k) (simp_all add: nat_of_digits_def digit_val_def)

lemma zero_pad_inj: "zero_pad w (nat_dec m) = zero_pad w (nat_dec n) \<Longrightarrow> m = n"
  by (metis zero_pad_def nat_of_digits_zeros nat_of_digits_dec)

lemma zero_pad_digits: "list_all ascii_digit (zero_pad w (nat_dec n))"
proof -
  have "ascii_digit (CHR ''0'')"
    by (simp add: ascii_digit_iff)
  with nat_dec_digits [of n] show ?thesis
    by (auto simp: zero_pad_def list_all_iff)
qed

text \<open>A digit string without leading zero is the decimal notation of its value.\<close>

lemma digit_char_val: "ascii_digit c \<Longrightarrow> digit_char (digit_val c) = c"
  by (auto simp: ascii_digit_iff digit_char_def digit_val_def)

lemma nat_dec_hd: "hd (nat_dec n) = CHR ''0'' \<longleftrightarrow> n = 0"
proof (induction n rule: nat_dec.induct)
  case (1 n)
  show ?case
  proof (cases "n < 10")
    case True
    then have "digit_char n = CHR ''0'' \<longleftrightarrow> n = 0"
      using digit_val_char [of n] digit_char_val [of "CHR ''0''"]
      by (auto simp: ascii_digit_def digit_val_def)
    with True show ?thesis
      by (simp add: nat_dec.simps)
  next
    case False
    with 1 have "hd (nat_dec (n div 10)) \<noteq> CHR ''0''"
      by simp
    with False show ?thesis
      by (subst nat_dec.simps) simp
  qed
qed

lemma nat_dec_of_digits:
  "s \<noteq> [] \<Longrightarrow> list_all ascii_digit s \<Longrightarrow> s = ''0'' \<or> hd s \<noteq> CHR ''0'' \<Longrightarrow> nat_dec (nat_of_digits s) = s"
proof (induction s rule: rev_induct)
  case (snoc c u)
  show ?case
  proof (cases "u = []")
    case True
    with snoc.prems show ?thesis
      by (simp add: nat_of_digits_def nat_dec.simps digit_char_val)
  next
    case False
    with snoc.prems have u: "list_all ascii_digit u" "hd u \<noteq> CHR ''0''" and c: "ascii_digit c"
      by auto
    with snoc.IH False have IH: "nat_dec (nat_of_digits u) = u"
      by simp
    with u(2) have "nat_of_digits u \<noteq> 0"
      using nat_dec_hd by metis
    with c IH show ?thesis
      by (subst nat_dec.simps) (simp add: nat_of_digits_snoc digit_char_val)
  qed
qed simp

subsection \<open>\<open>re.fullmatch\<close> by derivatives\<close>

datatype rx = REps | RCls "char \<Rightarrow> bool" | RSeq rx rx | RAlt rx rx | RStar rx | REmpty

definition RPlus :: "rx \<Rightarrow> rx" where "RPlus r = RSeq r (RStar r)"
definition ROpt :: "rx \<Rightarrow> rx" where "ROpt r = RAlt r REps"
definition RChar :: "char \<Rightarrow> rx" where "RChar c = RCls (\<lambda>x. x = c)"

fun nullable :: "rx \<Rightarrow> bool" where
  "nullable REps = True"
| "nullable (RCls p) = False"
| "nullable (RSeq r s) = (nullable r \<and> nullable s)"
| "nullable (RAlt r s) = (nullable r \<or> nullable s)"
| "nullable (RStar r) = True"
| "nullable REmpty = False"

fun deriv :: "char \<Rightarrow> rx \<Rightarrow> rx" where
  "deriv c REps = REmpty"
| "deriv c (RCls p) = (if p c then REps else REmpty)"
| "deriv c (RSeq r s) =
     (if nullable r then RAlt (RSeq (deriv c r) s) (deriv c s) else RSeq (deriv c r) s)"
| "deriv c (RAlt r s) = RAlt (deriv c r) (deriv c s)"
| "deriv c (RStar r) = RSeq (deriv c r) (RStar r)"
| "deriv c REmpty = REmpty"

fun fullmatch :: "rx \<Rightarrow> string \<Rightarrow> bool" where
  "fullmatch r [] = nullable r"
| "fullmatch r (c # s) = fullmatch (deriv c r) s"

text \<open>The language of an expression, and that \<open>fullmatch\<close> decides it.\<close>

inductive_set star :: "string set \<Rightarrow> string set" for L where
  star_Nil: "[] \<in> star L"
| star_app: "u \<in> L \<Longrightarrow> v \<in> star L \<Longrightarrow> u @ v \<in> star L"

fun lang :: "rx \<Rightarrow> string set" where
  "lang REps = {[]}"
| "lang (RCls p) = {[c] |c. p c}"
| "lang (RSeq r s) = {u @ v |u v. u \<in> lang r \<and> v \<in> lang s}"
| "lang (RAlt r s) = lang r \<union> lang s"
| "lang (RStar r) = star (lang r)"
| "lang REmpty = {}"

lemma nullable_iff: "nullable r \<longleftrightarrow> [] \<in> lang r"
  by (induction r) (auto intro: star_Nil)

lemma star_Cons_iff:
  "c # w \<in> star L \<longleftrightarrow> (\<exists>u v. w = u @ v \<and> c # u \<in> L \<and> v \<in> star L)"
proof
  assume "c # w \<in> star L"
  then show "\<exists>u v. w = u @ v \<and> c # u \<in> L \<and> v \<in> star L"
  proof (induction "c # w" arbitrary: w rule: star.induct)
    case (star_app u v)
    then show ?case
      by (cases u) auto
  qed
next
  assume "\<exists>u v. w = u @ v \<and> c # u \<in> L \<and> v \<in> star L"
  then show "c # w \<in> star L"
    by (metis append_Cons star_app)
qed

lemma lang_deriv: "w \<in> lang (deriv c r) \<longleftrightarrow> c # w \<in> lang r"
proof (induction r arbitrary: w)
  case (RSeq r s)
  have "c # w \<in> lang (RSeq r s) \<longleftrightarrow>
      ([] \<in> lang r \<and> c # w \<in> lang s) \<or> (\<exists>u v. w = u @ v \<and> c # u \<in> lang r \<and> v \<in> lang s)"
    by (auto simp: Cons_eq_append_conv)
  then show ?case
    using RSeq by (auto simp: nullable_iff)
next
  case (RStar r)
  then show ?case
    by (auto simp: star_Cons_iff)
qed auto

theorem fullmatch_lang: "fullmatch r s \<longleftrightarrow> s \<in> lang r"
  by (induction s arbitrary: r) (auto simp: nullable_iff lang_deriv)

lemma star_concat: "w \<in> star L \<longleftrightarrow> (\<exists>ws. set ws \<subseteq> L \<and> w = concat ws)"
proof
  assume "w \<in> star L"
  then show "\<exists>ws. set ws \<subseteq> L \<and> w = concat ws"
  proof induction
    case star_Nil
    show ?case
      by (rule exI [of _ "[]"]) simp
  next
    case (star_app u v)
    then obtain ws where "set ws \<subseteq> L" "v = concat ws"
      by blast
    with star_app.hyps(1) show ?case
      by (intro exI [of _ "u # ws"]) simp
  qed
next
  assume "\<exists>ws. set ws \<subseteq> L \<and> w = concat ws"
  then obtain ws where "set ws \<subseteq> L" "w = concat ws"
    by blast
  then show "w \<in> star L"
    by (induction ws arbitrary: w) (auto intro: star.intros)
qed

lemma lang_RPlus:
  assumes "[] \<notin> lang r"
  shows "w \<in> lang (RPlus r) \<longleftrightarrow> w \<noteq> [] \<and> w \<in> star (lang r)"
proof (cases w)
  case Nil
  with assms show ?thesis
    by (simp add: RPlus_def)
next
  case (Cons c w')
  then have "w \<in> lang (RPlus r) \<longleftrightarrow> (\<exists>u v. w' = u @ v \<and> c # u \<in> lang r \<and> v \<in> star (lang r))"
    using assms by (auto simp: RPlus_def Cons_eq_append_conv)
  with Cons show ?thesis
    by (simp add: star_Cons_iff)
qed

end
