(* ===== verification/JsonPointer.thy ===== *)
theory JsonPointer
  imports Json PyStr
begin

section \<open>The JSON Pointer subset of RFC 6901\<close>

text \<open>
  \<^verbatim>\<open>src/backend/app/schemas/plan_binding.py\<close> validates a pointer and
  \<^verbatim>\<open>src/backend/app/execution/json_pointer.py\<close> evaluates it.  The sentinel
  \<open>MISSING\<close> is \<open>Missing\<close>, kept apart from the JSON value \<open>null\<close>.
\<close>

subsection \<open>Validation\<close>

text \<open>\<open>(?:[^~/]|~0|~1)\<close>, one unit of a reference token.\<close>

definition pointer_unit :: rx where
  "pointer_unit =
     RAlt (RCls (\<lambda>c. c \<noteq> CHR ''~'' \<and> c \<noteq> CHR ''/''))
       (RAlt (RSeq (RChar (CHR ''~'')) (RChar (CHR ''0'')))
             (RSeq (RChar (CHR ''~'')) (RChar (CHR ''1''))))"

text \<open>\<open>^/(?:unit+(?:/unit+)*)?$\<close>, used with \<open>fullmatch\<close>.\<close>

definition JSON_POINTER_RE :: rx where
  "JSON_POINTER_RE =
     RSeq (RChar (CHR ''/''))
       (ROpt (RSeq (RPlus pointer_unit)
                (RStar (RSeq (RChar (CHR ''/'')) (RPlus pointer_unit)))))"

fun has_double_slash :: "string \<Rightarrow> bool" where
  "has_double_slash (x # y # s) =
     (x = CHR ''/'' \<and> y = CHR ''/'' \<or> has_double_slash (y # s))"
| "has_double_slash _ = False"

definition is_valid_json_pointer_subset :: "string \<Rightarrow> bool" where
  "is_valid_json_pointer_subset path =
     (if path = [] then False
      else if hd path \<noteq> CHR ''/'' then False
      else if CHR ''#'' \<in> set path then False
      else if has_double_slash path then False
      else if path = ''/'' then True
      else fullmatch JSON_POINTER_RE path)"

subsection \<open>Evaluation\<close>

datatype pointed = Missing | Found json

definition decode_pointer_token :: "string \<Rightarrow> string" where
  "decode_pointer_token token = str_replace ''~0'' ''~'' (str_replace ''~1'' ''/'' token)"

definition pointer_tokens :: "string \<Rightarrow> string list result" where
  "pointer_tokens path =
     (if \<not> is_valid_json_pointer_subset path then Inl ValueError
      else if path = ''/'' then Inr []
      else Inr (map decode_pointer_token (tl (str_split (CHR ''/'') path))))"

text \<open>
  One turn of the loop of \<open>resolve_json_pointer\<close>.  \<open>int(token)\<close> comes after
  \<open>token.isdigit()\<close>, which a superscript digit passes, so it can raise \<open>ValueError\<close>.
\<close>

definition pointer_step :: "json \<Rightarrow> string \<Rightarrow> pointed result" where
  "pointer_step current token =
     (case current of
        JObj kvs \<Rightarrow> (case map_of kvs token of None \<Rightarrow> Inr Missing | Some v \<Rightarrow> Inr (Found v))
      | JList xs \<Rightarrow>
          (if \<not> str_isdigit token then Inr Missing
           else if token \<noteq> ''0'' \<and> hd token = CHR ''0'' then Inr Missing
           else and_then (py_int_digits token) (\<lambda>index.
             if index \<ge> length xs then Inr Missing else Inr (Found (xs ! index))))
      | _ \<Rightarrow> Inr Missing)"

fun pointer_walk :: "json \<Rightarrow> string list \<Rightarrow> pointed result" where
  "pointer_walk current [] = Inr (Found current)"
| "pointer_walk current (token # tokens) =
     and_then (pointer_step current token) (\<lambda>p.
       case p of Missing \<Rightarrow> Inr Missing | Found v \<Rightarrow> pointer_walk v tokens)"

definition resolve_json_pointer :: "json \<Rightarrow> string \<Rightarrow> pointed result" where
  "resolve_json_pointer doc path = and_then (pointer_tokens path) (pointer_walk doc)"

subsection \<open>What the validation accepts\<close>

text \<open>A reference token as RFC 6901 writes it: a tilde only in the escapes \<open>~0\<close> and \<open>~1\<close>.\<close>

fun escaped_token :: "string \<Rightarrow> bool" where
  "escaped_token [] = True"
| "escaped_token (CHR ''~'' # CHR ''0'' # s) = escaped_token s"
| "escaped_token (CHR ''~'' # CHR ''1'' # s) = escaped_token s"
| "escaped_token (c # s) = (c \<noteq> CHR ''~'' \<and> c \<noteq> CHR ''/'' \<and> escaped_token s)"

fun path_of_tokens :: "string list \<Rightarrow> string" where
  "path_of_tokens [] = []"
| "path_of_tokens (t # ts) = CHR ''/'' # t @ path_of_tokens ts"

lemma lang_unit:
  "lang pointer_unit = {[c] |c. c \<noteq> CHR ''~'' \<and> c \<noteq> CHR ''/''} \<union> {''~0'', ''~1''}"
  by (auto simp: pointer_unit_def RChar_def)

lemma escaped_token_Cons:
  "c \<noteq> CHR ''~'' \<Longrightarrow> c \<noteq> CHR ''/'' \<Longrightarrow> escaped_token (c # s) = escaped_token s"
  by (cases "c # s" rule: escaped_token.cases) auto

lemma star_unit_iff: "w \<in> star (lang pointer_unit) \<longleftrightarrow> escaped_token w"
proof
  assume "w \<in> star (lang pointer_unit)"
  then show "escaped_token w"
    by induction (auto simp: lang_unit escaped_token_Cons)
next
  assume "escaped_token w"
  then show "w \<in> star (lang pointer_unit)"
  proof (induction w rule: escaped_token.induct)
    case 1
    show ?case
      by (rule star_Nil)
  next
    case (2 s)
    then show ?case
      using star_app [of "''~0''" "lang pointer_unit" s] by (auto simp: lang_unit)
  next
    case (3 s)
    then show ?case
      using star_app [of "''~1''" "lang pointer_unit" s] by (auto simp: lang_unit)
  qed (use star_app [of "[_]" "lang pointer_unit"] in \<open>auto simp: lang_unit\<close>)
qed

lemma lang_plus_unit: "w \<in> lang (RPlus pointer_unit) \<longleftrightarrow> w \<noteq> [] \<and> escaped_token w"
proof -
  have "[] \<notin> lang pointer_unit"
    by (simp add: lang_unit)
  from lang_RPlus [OF this] show ?thesis
    by (simp add: star_unit_iff)
qed

definition raw_token :: "string \<Rightarrow> bool" where
  "raw_token t \<longleftrightarrow> t \<noteq> [] \<and> escaped_token t \<and> CHR ''#'' \<notin> set t"

lemma escaped_no_slash: "escaped_token t \<Longrightarrow> CHR ''/'' \<notin> set t"
  by (induction t rule: escaped_token.induct) auto

lemma path_of_tokens_join: "ts \<noteq> [] \<Longrightarrow> path_of_tokens ts = str_join (CHR ''/'') ([] # ts)"
proof (induction ts)
  case (Cons t ts)
  then show ?case
    by (cases ts) auto
qed simp

lemma concat_path_of_tokens:
  assumes "set ws \<subseteq> {u @ v |u v. u \<in> lang (RChar (CHR ''/'')) \<and> v \<in> lang (RPlus pointer_unit)}"
  shows "\<exists>ts. concat ws = path_of_tokens ts \<and> (\<forall>t \<in> set ts. t \<noteq> [] \<and> escaped_token t)"
  using assms
proof (induction ws)
  case Nil
  show ?case
    by (rule exI [of _ "[]"]) simp
next
  case (Cons w ws)
  then obtain ts where "concat ws = path_of_tokens ts" "\<forall>t \<in> set ts. t \<noteq> [] \<and> escaped_token t"
    by auto
  moreover from Cons.prems obtain t where "w = CHR ''/'' # t" "t \<noteq> [] \<and> escaped_token t"
    by (auto simp: RChar_def lang_plus_unit)
  ultimately show ?case
    by (intro exI [of _ "t # ts"]) auto
qed

lemma path_of_tokens_concat:
  "(\<forall>t \<in> set ts. t \<noteq> [] \<and> escaped_token t) \<Longrightarrow>
     path_of_tokens ts \<in> star (lang (RSeq (RChar (CHR ''/'')) (RPlus pointer_unit)))"
proof (induction ts)
  case (Cons t ts)
  have "CHR ''/'' # t \<in> lang (RSeq (RChar (CHR ''/'')) (RPlus pointer_unit))"
    using Cons.prems by (auto simp: RChar_def lang_plus_unit)
  from star_app [OF this] Cons show ?case
    by simp
qed (simp add: star_Nil)

lemma fullmatch_pointer_iff:
  "fullmatch JSON_POINTER_RE path \<longleftrightarrow>
     path = ''/'' \<or> (\<exists>ts. ts \<noteq> [] \<and> path = path_of_tokens ts \<and>
                     (\<forall>t \<in> set ts. t \<noteq> [] \<and> escaped_token t))"
  (is "?L = ?R")
proof
  assume ?L
  then consider "path = ''/''" | u ws where "path = CHR ''/'' # u @ concat ws"
      "u \<noteq> []" "escaped_token u"
      "set ws \<subseteq> {u @ v |u v. u \<in> lang (RChar (CHR ''/'')) \<and> v \<in> lang (RPlus pointer_unit)}"
    by (auto simp: fullmatch_lang JSON_POINTER_RE_def ROpt_def lang_plus_unit star_concat RChar_def)
  then show ?R
  proof cases
    case 2
    from concat_path_of_tokens [OF 2(4)] obtain ts where
      "concat ws = path_of_tokens ts" "\<forall>t \<in> set ts. t \<noteq> [] \<and> escaped_token t"
      by blast
    with 2 show ?thesis
      by (intro disjI2 exI [of _ "u # ts"]) auto
  qed simp
next
  assume ?R
  then show ?L
  proof
    assume "path = ''/''"
    then show ?L
      by (simp add: fullmatch_lang JSON_POINTER_RE_def ROpt_def RChar_def)
  next
    assume "\<exists>ts. ts \<noteq> [] \<and> path = path_of_tokens ts \<and> (\<forall>t \<in> set ts. t \<noteq> [] \<and> escaped_token t)"
    then obtain t ts where p: "path = CHR ''/'' # t @ path_of_tokens ts"
        and "t \<noteq> [] \<and> escaped_token t" and "\<forall>t \<in> set ts. t \<noteq> [] \<and> escaped_token t"
      by (metis list.exhaust list.set_intros path_of_tokens.simps(2))
    with path_of_tokens_concat have "t \<in> lang (RPlus pointer_unit)"
        "path_of_tokens ts \<in> lang (RStar (RSeq (RChar (CHR ''/'')) (RPlus pointer_unit)))"
      by (auto simp: lang_plus_unit)
    then have "t @ path_of_tokens ts \<in> lang (ROpt (RSeq (RPlus pointer_unit)
        (RStar (RSeq (RChar (CHR ''/'')) (RPlus pointer_unit)))))"
      unfolding ROpt_def lang.simps by blast
    with p show ?L
      unfolding fullmatch_lang JSON_POINTER_RE_def lang.simps(3)
      by (auto simp: RChar_def simp del: lang.simps(3,4,5))
  qed
qed

lemma no_double_slash:
  "\<forall>t \<in> set ts. t \<noteq> [] \<and> escaped_token t \<Longrightarrow> \<not> has_double_slash (path_of_tokens ts)"
proof (induction ts)
  case (Cons t ts)
  have skip: "CHR ''/'' \<notin> set u \<Longrightarrow> \<not> has_double_slash v \<Longrightarrow> \<not> has_double_slash (u @ v)" for u v
    by (induction u rule: induct_list012) (cases v; auto)+
  obtain c u where t: "t = c # u"
    using Cons.prems by (cases t) auto
  with Cons.prems escaped_no_slash [of t] have "CHR ''/'' \<notin> set (c # u)" "c \<noteq> CHR ''/''"
    by auto
  with skip [of "c # u"] Cons t show ?case
    by simp
qed simp

lemma hash_path_of_tokens:
  "CHR ''#'' \<in> set (path_of_tokens ts) \<longleftrightarrow> (\<exists>t \<in> set ts. CHR ''#'' \<in> set t)"
  by (induction ts) auto

lemma valid_pointer_iff:
  "is_valid_json_pointer_subset path \<longleftrightarrow>
     path = ''/'' \<or> (\<exists>ts. ts \<noteq> [] \<and> path = path_of_tokens ts \<and> (\<forall>t \<in> set ts. raw_token t))"
proof (cases "path = ''/''")
  case True
  then show ?thesis
    by (simp add: is_valid_json_pointer_subset_def)
next
  case False
  have "is_valid_json_pointer_subset path \<longleftrightarrow> path \<noteq> [] \<and> hd path = CHR ''/'' \<and>
      CHR ''#'' \<notin> set path \<and> \<not> has_double_slash path \<and> fullmatch JSON_POINTER_RE path"
    using False by (auto simp: is_valid_json_pointer_subset_def)
  also have "\<dots> \<longleftrightarrow> (\<exists>ts. ts \<noteq> [] \<and> path = path_of_tokens ts \<and> (\<forall>t \<in> set ts. raw_token t))"
    (is "?A \<longleftrightarrow> ?B")
  proof
    assume ?A
    with False obtain ts where "ts \<noteq> []" "path = path_of_tokens ts"
        "\<forall>t \<in> set ts. t \<noteq> [] \<and> escaped_token t" "CHR ''#'' \<notin> set path"
      unfolding fullmatch_pointer_iff by blast
    then show ?B
      unfolding raw_token_def by (metis hash_path_of_tokens)
  next
    assume ?B
    then obtain t ts where p: "path = path_of_tokens (t # ts)"
        and raw: "\<forall>t \<in> set (t # ts). raw_token t"
      by (metis neq_Nil_conv)
    then have esc: "\<forall>t \<in> set (t # ts). t \<noteq> [] \<and> escaped_token t"
      by (auto simp: raw_token_def)
    then have "fullmatch JSON_POINTER_RE path"
      unfolding fullmatch_pointer_iff p by blast
    moreover have "CHR ''#'' \<notin> set path"
      using raw unfolding p hash_path_of_tokens by (simp add: raw_token_def)
    moreover have "\<not> has_double_slash path"
      unfolding p by (rule no_double_slash [OF esc])
    ultimately show ?A
      unfolding p by simp
  qed
  finally show ?thesis
    using False by simp
qed

subsection \<open>Escaping\<close>

text \<open>The escaping RFC 6901 prescribes; the repository only decodes.\<close>

fun encode_pointer_token :: "string \<Rightarrow> string" where
  "encode_pointer_token [] = []"
| "encode_pointer_token (c # s) =
     (if c = CHR ''~'' then ''~0'' else if c = CHR ''/'' then ''~1'' else [c])
     @ encode_pointer_token s"

lemma decode_simps [simp]:
  "decode_pointer_token [] = []"
  "decode_pointer_token (CHR ''~'' # CHR ''0'' # s) = CHR ''~'' # decode_pointer_token s"
  "decode_pointer_token (CHR ''~'' # CHR ''1'' # s) = CHR ''/'' # decode_pointer_token s"
  "c \<noteq> CHR ''~'' \<Longrightarrow> decode_pointer_token (c # s) = c # decode_pointer_token s"
  by (simp_all add: decode_pointer_token_def)

lemma decode_encode [simp]: "decode_pointer_token (encode_pointer_token t) = t"
  by (induction t) auto

lemma encode_decode: "escaped_token t \<Longrightarrow> encode_pointer_token (decode_pointer_token t) = t"
  by (induction t rule: escaped_token.induct) auto

lemma escaped_encode [simp]: "escaped_token (encode_pointer_token t)"
  by (induction t) (auto simp: escaped_token_Cons)

lemma encode_eq_Nil_iff [simp]: "encode_pointer_token t = [] \<longleftrightarrow> t = []"
  by (cases t) auto

lemma hash_encode [simp]: "CHR ''#'' \<in> set (encode_pointer_token t) \<longleftrightarrow> CHR ''#'' \<in> set t"
  by (induction t) auto

lemma pointer_tokens_path:
  assumes "ts \<noteq> []" and "\<forall>t \<in> set ts. raw_token t"
  shows "pointer_tokens (path_of_tokens ts) = Inr (map decode_pointer_token ts)"
proof -
  have "CHR ''/'' \<notin> set w" if "w \<in> set ([] # ts)" for w
    using that assms(2) escaped_no_slash by (auto simp: raw_token_def)
  then have "str_split (CHR ''/'') (path_of_tokens ts) = [] # ts"
    unfolding path_of_tokens_join [OF assms(1)] by (intro str_split_join) auto
  moreover have "path_of_tokens ts \<noteq> ''/''"
    using assms by (cases ts; cases "tl ts") (auto simp: raw_token_def)
  moreover have "is_valid_json_pointer_subset (path_of_tokens ts)"
    using assms valid_pointer_iff by blast
  ultimately show ?thesis
    by (simp add: pointer_tokens_def)
qed

lemma pointer_tokens_root [simp]: "pointer_tokens ''/'' = Inr []"
  by (simp add: pointer_tokens_def is_valid_json_pointer_subset_def)

lemma pointer_tokens_Inl_iff: "pointer_tokens path = Inl e \<longleftrightarrow>
    \<not> is_valid_json_pointer_subset path \<and> e = ValueError"
  by (auto simp: pointer_tokens_def)

subsection \<open>Walking\<close>

lemma pointer_walk_append:
  "pointer_walk doc (ts @ us) =
     and_then (pointer_walk doc ts) (\<lambda>p. case p of Missing \<Rightarrow> Inr Missing | Found v \<Rightarrow> pointer_walk v us)"
proof (induction ts arbitrary: doc)
  case (Cons t ts)
  then show ?case
    by (cases "pointer_step doc t") (auto split: pointed.splits)
qed simp

lemma pointer_walk_Found_iff:
  "pointer_walk doc (t # ts) = Inr (Found v) \<longleftrightarrow>
     (\<exists>x. pointer_step doc t = Inr (Found x) \<and> pointer_walk x ts = Inr (Found v))"
proof (cases "pointer_step doc t")
  case (Inr p)
  then show ?thesis
    by (cases p) auto
qed simp

text \<open>A walk stays inside the document, so it keeps whatever holds of all parts of it.\<close>

inductive part_of :: "json \<Rightarrow> json \<Rightarrow> bool" where
  part_refl: "part_of v v"
| part_list: "x \<in> set xs \<Longrightarrow> part_of v x \<Longrightarrow> part_of v (JList xs)"
| part_obj: "map_of kvs k = Some x \<Longrightarrow> part_of v x \<Longrightarrow> part_of v (JObj kvs)"

lemma part_nth: "i < length xs \<Longrightarrow> part_of (xs ! i) (JList xs)"
  by (rule part_list [OF nth_mem part_refl])

lemma pointer_step_part: "pointer_step doc t = Inr (Found v) \<Longrightarrow> part_of v doc"
  by (auto simp: pointer_step_def split: json.splits option.splits if_splits
      intro: part_nth part_of.intros)

lemma part_of_trans: "part_of v x \<Longrightarrow> part_of u v \<Longrightarrow> part_of u x"
  by (induction rule: part_of.induct) (auto intro: part_of.intros)

lemma pointer_walk_part: "pointer_walk doc ts = Inr (Found v) \<Longrightarrow> part_of v doc"
proof (induction ts arbitrary: doc)
  case (Cons t ts)
  then obtain x where "pointer_step doc t = Inr (Found x)" "pointer_walk x ts = Inr (Found v)"
    unfolding pointer_walk_Found_iff by blast
  then show ?case
    using Cons.IH pointer_step_part part_of_trans by blast
qed (simp add: part_refl)

subsection \<open>Addresses\<close>

text \<open>The meaning of a token sequence, independent of the evaluation loop.\<close>

inductive at_path :: "json \<Rightarrow> string list \<Rightarrow> json \<Rightarrow> bool" where
  at_here: "at_path v [] v"
| at_key: "map_of kvs k = Some x \<Longrightarrow> at_path x ts v \<Longrightarrow> at_path (JObj kvs) (k # ts) v"
| at_index: "i < length xs \<Longrightarrow> at_path (xs ! i) ts v \<Longrightarrow> at_path (JList xs) (nat_dec i # ts) v"

inductive_cases at_path_ConsE: "at_path doc (t # ts) v"
inductive_simps at_path_Nil [simp]: "at_path doc [] v"

lemma ascii_isdigit: "s \<noteq> [] \<Longrightarrow> list_all ascii_digit s \<Longrightarrow> str_isdigit s"
  by (auto simp: str_isdigit_def py_digit_def list_all_iff)

lemma pointer_step_Found_iff:
  assumes "length t \<le> 4300"
  shows "pointer_step doc t = Inr (Found x) \<longleftrightarrow>
    (\<exists>kvs. doc = JObj kvs \<and> map_of kvs t = Some x) \<or>
    (\<exists>xs i. doc = JList xs \<and> t = nat_dec i \<and> i < length xs \<and> x = xs ! i)"
proof (cases "is_list doc")
  case True
  then obtain xs where doc: "doc = JList xs"
    by (cases doc) auto
  show ?thesis
  proof
    assume found: "pointer_step doc t = Inr (Found x)"
    then have "t \<noteq> []" "list_all ascii_digit t" "t = ''0'' \<or> hd t \<noteq> CHR ''0''"
      by (auto simp: pointer_step_def doc py_int_digits_def split: if_splits)
    from nat_dec_of_digits [OF this] found
    have "t = nat_dec (nat_of_digits t) \<and> nat_of_digits t < length xs \<and> x = xs ! nat_of_digits t"
      by (auto simp: pointer_step_def doc py_int_digits_def split: if_splits)
    with doc show "(\<exists>kvs. doc = JObj kvs \<and> map_of kvs t = Some x) \<or>
        (\<exists>xs i. doc = JList xs \<and> t = nat_dec i \<and> i < length xs \<and> x = xs ! i)"
      by blast
  next
    assume "(\<exists>kvs. doc = JObj kvs \<and> map_of kvs t = Some x) \<or>
        (\<exists>xs i. doc = JList xs \<and> t = nat_dec i \<and> i < length xs \<and> x = xs ! i)"
    with doc obtain i where i: "t = nat_dec i" "i < length xs" "x = xs ! i"
      by auto
    have "nat_dec i = ''0''" if "hd (nat_dec i) = CHR ''0''"
      using that nat_dec_hd [of i] by (simp add: nat_dec.simps digit_char_def)
    with i assms show "pointer_step doc t = Inr (Found x)"
      using nat_dec_digits [of i]
      by (auto simp: pointer_step_def doc py_int_digits_def ascii_isdigit)
  qed
qed (cases doc; auto simp: pointer_step_def split: option.splits)

lemma pointer_walk_at_path:
  "\<forall>t \<in> set ts. length t \<le> 4300 \<Longrightarrow> pointer_walk doc ts = Inr (Found v) \<longleftrightarrow> at_path doc ts v"
proof (induction ts arbitrary: doc)
  case (Cons t ts)
  then have "pointer_walk doc (t # ts) = Inr (Found v) \<longleftrightarrow>
      (\<exists>x. pointer_step doc t = Inr (Found x) \<and> at_path x ts v)"
    by (simp only: pointer_walk_Found_iff) simp
  also have "\<dots> \<longleftrightarrow> at_path doc (t # ts) v"
    using Cons.prems by (subst pointer_step_Found_iff) (auto elim!: at_path_ConsE intro: at_path.intros)
  finally show ?case .
qed auto

lemma pointer_step_ascii:
  assumes "\<forall>c \<in> set t. (of_char c :: nat) < 128" and "length t \<le> 4300"
  shows "\<exists>p. pointer_step doc t = Inr p"
proof -
  have "py_digit c \<longleftrightarrow> ascii_digit c" if "c \<in> set t" for c
    using assms(1) that by (auto simp: py_digit_def)
  then have "str_isdigit t \<Longrightarrow> t \<noteq> [] \<and> list_all ascii_digit t"
    by (simp add: str_isdigit_def list_all_iff)
  with assms(2) show ?thesis
    by (cases doc) (auto simp: pointer_step_def py_int_digits_def split: option.splits)
qed

lemma pointer_walk_ascii:
  "\<forall>t \<in> set ts. (\<forall>c \<in> set t. (of_char c :: nat) < 128) \<and> length t \<le> 4300 \<Longrightarrow>
     \<exists>p. pointer_walk doc ts = Inr p"
proof (induction ts arbitrary: doc)
  case (Cons t ts)
  then obtain p where "pointer_step doc t = Inr p"
    using pointer_step_ascii by (metis list.set_intros(1))
  with Cons show ?case
    by (cases p) auto
qed simp

lemma decode_shorter: "length (decode_pointer_token t) \<le> length t"
  "\<forall>c \<in> set t. (of_char c :: nat) < 128 \<Longrightarrow> \<forall>c \<in> set (decode_pointer_token t). (of_char c :: nat) < 128"
  if "escaped_token t"
  using that by (induction t rule: escaped_token.induct) auto

lemma set_path_of_tokens: "t \<in> set ts \<Longrightarrow> set t \<subseteq> set (path_of_tokens ts) \<and> length t \<le> length (path_of_tokens ts)"
  by (induction ts) auto

lemma raw_encode: "t \<noteq> [] \<Longrightarrow> CHR ''#'' \<notin> set t \<Longrightarrow> raw_token (encode_pointer_token t)"
  by (simp add: raw_token_def)

subsection \<open>Properties\<close>

text \<open>The pointers the validator accepts are exactly the root \<open>/\<close> and the sequences of one or more
  non-empty tokens, each introduced by a slash, without \<open>#\<close> and with a tilde only in the escapes
  \<open>~0\<close> and \<open>~1\<close>.\<close>

theorem valid_pointer_characterisation:
  "is_valid_json_pointer_subset path \<longleftrightarrow> path = ''/'' \<or>
     (\<exists>ts. ts \<noteq> [] \<and> path = path_of_tokens ts \<and>
        (\<forall>t \<in> set ts. t \<noteq> [] \<and> escaped_token t \<and> CHR ''#'' \<notin> set t))"
  unfolding valid_pointer_iff raw_token_def ..

theorem valid_pointer_characterisation_witness:
  "is_valid_json_pointer_subset ''/a~1b/0''"
  by (rule iffD2 [OF valid_pointer_characterisation])
    (rule disjI2, rule exI [of _ "[''a~1b'', ''0'']"], simp)

text \<open>C40: Escaping a sequence of keys and indexes into a pointer and resolving it reads exactly the value at
  that address of the document: keys select in objects, decimal indexes without leading zero select
  in lists, and nothing else is found.\<close>

theorem pointer_resolution_address:
  assumes "ts \<noteq> []" and "\<forall>t \<in> set ts. t \<noteq> [] \<and> CHR ''#'' \<notin> set t \<and> length t \<le> 4300"
  shows "resolve_json_pointer doc (path_of_tokens (map encode_pointer_token ts)) = Inr (Found v)
    \<longleftrightarrow> at_path doc ts v"
proof -
  have "pointer_tokens (path_of_tokens (map encode_pointer_token ts)) = Inr ts"
    using assms by (subst pointer_tokens_path) (auto simp: raw_encode comp_def)
  with assms(2) show ?thesis
    by (simp add: resolve_json_pointer_def pointer_walk_at_path)
qed

theorem pointer_resolution_address_witness:
  "resolve_json_pointer (JObj [(''a/b'', JList [JNull, JInt 5])]) ''/a~1b/1'' = Inr (Found (JInt 5))"
proof -
  have one: "nat_dec 1 = ''1''"
    using digit_char_val [of "CHR ''1''"] by (simp add: nat_dec.simps ascii_digit_def digit_val_def)
  have "at_path (JList [JNull, JInt 5]) [nat_dec 1] (JInt 5)"
    by (rule at_index) (auto intro: at_here)
  then have "at_path (JObj [(''a/b'', JList [JNull, JInt 5])]) [''a/b'', ''1''] (JInt 5)"
    unfolding one by (intro at_key) simp_all
  then show ?thesis
    using pointer_resolution_address [of "[''a/b'', ''1'']" "JObj [(''a/b'', JList [JNull, JInt 5])]" "JInt 5"]
    by simp
qed

text \<open>On a valid ASCII pointer resolution never raises: it finds a value or reports it missing.\<close>

theorem pointer_resolution_total:
  assumes "is_valid_json_pointer_subset path" and "\<forall>c \<in> set path. (of_char c :: nat) < 128"
    and "length path \<le> 4300"
  shows "\<exists>p. resolve_json_pointer doc path = Inr p"
proof (cases "path = ''/''")
  case True
  then show ?thesis
    by (simp add: resolve_json_pointer_def)
next
  case False
  with assms(1) obtain ts where ts: "ts \<noteq> []" "path = path_of_tokens ts" "\<forall>t \<in> set ts. raw_token t"
    unfolding valid_pointer_iff by blast
  have "(\<forall>c \<in> set (decode_pointer_token t). (of_char c :: nat) < 128) \<and>
      length (decode_pointer_token t) \<le> 4300" if "t \<in> set ts" for t
    using that ts(3) decode_shorter [of t] set_path_of_tokens [OF that] assms(2,3)
    unfolding ts(2) raw_token_def by fastforce
  with ts show ?thesis
    by (simp add: resolve_json_pointer_def pointer_tokens_path pointer_walk_ascii)
qed

theorem pointer_resolution_total_witness:
  "\<exists>p. resolve_json_pointer (JList [JNull]) ''/a~1b/0'' = Inr p"
proof (rule pointer_resolution_total)
  show "is_valid_json_pointer_subset ''/a~1b/0''"
    unfolding valid_pointer_iff raw_token_def
    by (rule disjI2, rule exI [of _ "[''a~1b'', ''0'']"], simp)
qed simp_all

text \<open>Outside ASCII the evaluation can raise where the documented answer is MISSING: a superscript two
  passes \<open>str.isdigit\<close> but not \<open>int\<close>, so it raises \<open>ValueError\<close> on a list.\<close>

theorem superscript_index_raises:
  "is_valid_json_pointer_subset [CHR ''/'', CHR 0xB2] \<and>
   resolve_json_pointer (JList xs) [CHR ''/'', CHR 0xB2] = Inl ValueError"
proof -
  have raw: "raw_token [CHR 0xB2]"
    by (simp add: raw_token_def)
  then have "pointer_tokens (path_of_tokens [[CHR 0xB2]]) = Inr [[CHR 0xB2]]"
    by (subst pointer_tokens_path) simp_all
  moreover have "is_valid_json_pointer_subset (path_of_tokens [[CHR 0xB2]])"
    using raw unfolding valid_pointer_iff by (intro disjI2 exI [of _ "[[CHR 0xB2]]"]) simp
  moreover have "str_isdigit [CHR 0xB2]" "\<not> ascii_digit (CHR 0xB2)"
    by (simp_all add: str_isdigit_def py_digit_def ascii_digit_iff)
  ultimately show ?thesis
    by (simp add: resolve_json_pointer_def pointer_step_def py_int_digits_def)
qed

end
