(* ===== verification/Sha256.thy ===== *)
theory Sha256
  imports PyStr "HOL-Library.Word"
begin

unbundle bit_operations_syntax

section \<open>\<open>hashlib.sha256(s.encode("utf-8")).hexdigest()\<close>\<close>

text \<open>
  SHA-256 (FIPS 180-4) over the UTF-8 encoding of a string, as lower case hexadecimal.  The runtime
  uses the digest as opaque evidence; what its checks rely on is the shape of the result, 64 lower
  case hexadecimal characters.
\<close>

type_synonym u8 = "8 word"
type_synonym u32 = "32 word"
type_synonym hash_state = "u32 \<times> u32 \<times> u32 \<times> u32 \<times> u32 \<times> u32 \<times> u32 \<times> u32"

subsection \<open>Bytes and hexadecimal\<close>

text \<open>UTF-8 of the code points below 256.\<close>

definition utf8_char :: "char \<Rightarrow> u8 list" where
  "utf8_char c =
     (let n = (of_char c :: nat) in
      if n < 128 then [of_nat n] else [of_nat (192 + n div 64), of_nat (128 + n mod 64)])"

definition utf8_encode :: "string \<Rightarrow> u8 list" where
  "utf8_encode s = concat (map utf8_char s)"

definition hex_char :: "nat \<Rightarrow> char" where
  "hex_char n = ''0123456789abcdef'' ! n"

definition is_hex_char :: "char \<Rightarrow> bool" where
  "is_hex_char c \<longleftrightarrow> c \<in> set ''0123456789abcdef''"

text \<open>The \<open>k\<close> low hexadecimal digits of a number, most significant first.\<close>

fun hex_digits :: "nat \<Rightarrow> nat \<Rightarrow> string" where
  "hex_digits 0 n = []"
| "hex_digits (Suc k) n = hex_digits k (n div 16) @ [hex_char (n mod 16)]"

subsection \<open>The hash\<close>

text \<open>
  The constants are computed as the standard defines them: the first 32 bits of the fractional parts
  of the cube roots of the first 64 primes, and of the square roots of the first 8 primes.
\<close>

fun int_root :: "nat \<Rightarrow> nat \<Rightarrow> nat \<Rightarrow> nat \<Rightarrow> nat" where
  "int_root e n 0 acc = acc"
| "int_root e n (Suc b) acc =
     int_root e n b (if (acc + 2 ^ b) ^ e \<le> n then acc + 2 ^ b else acc)"

definition small_primes :: "nat list" where
  "small_primes = filter (\<lambda>p. list_all (\<lambda>d. \<not> d dvd p) [2..<p]) [2..<312]"

definition frac_root :: "nat \<Rightarrow> nat \<Rightarrow> u32" where
  "frac_root e p = of_nat (int_root e (p * 2 ^ (32 * e)) 40 0)"

definition sha_K :: "u32 list" where
  "sha_K = map (frac_root 3) small_primes"

definition sha_H :: hash_state where
  "sha_H = (frac_root 2 2, frac_root 2 3, frac_root 2 5, frac_root 2 7,
            frac_root 2 11, frac_root 2 13, frac_root 2 17, frac_root 2 19)"

definition be64 :: "nat \<Rightarrow> u8 list" where
  "be64 n = map (\<lambda>i. of_nat (n div 256 ^ (7 - i))) [0..<8]"

definition sha_pad :: "u8 list \<Rightarrow> u8 list" where
  "sha_pad m = m @ [0x80] @ replicate ((119 - length m mod 64) mod 64) 0 @ be64 (8 * length m)"

fun be_words :: "u8 list \<Rightarrow> u32 list" where
  "be_words (a # b # c # d # r) =
     (push_bit 24 (ucast a) OR push_bit 16 (ucast b) OR push_bit 8 (ucast c) OR ucast d) # be_words r"
| "be_words _ = []"

definition small_sigma0 :: "u32 \<Rightarrow> u32" where
  "small_sigma0 x = word_rotr 7 x XOR word_rotr 18 x XOR drop_bit 3 x"

definition small_sigma1 :: "u32 \<Rightarrow> u32" where
  "small_sigma1 x = word_rotr 17 x XOR word_rotr 19 x XOR drop_bit 10 x"

definition big_sigma0 :: "u32 \<Rightarrow> u32" where
  "big_sigma0 x = word_rotr 2 x XOR word_rotr 13 x XOR word_rotr 22 x"

definition big_sigma1 :: "u32 \<Rightarrow> u32" where
  "big_sigma1 x = word_rotr 6 x XOR word_rotr 11 x XOR word_rotr 25 x"

text \<open>The message schedule: 16 words of the block, then 48 derived ones.\<close>

fun sha_schedule :: "nat \<Rightarrow> u32 list \<Rightarrow> u32 list" where
  "sha_schedule 0 w = w"
| "sha_schedule (Suc k) w =
     (let t = length w in
      sha_schedule k
        (w @ [small_sigma1 (w ! (t - 2)) + w ! (t - 7) + small_sigma0 (w ! (t - 15)) + w ! (t - 16)]))"

fun sha_round :: "u32 \<times> u32 \<Rightarrow> hash_state \<Rightarrow> hash_state" where
  "sha_round (k, w) (a, b, c, d, e, f, g, h) =
     (let t1 = h + big_sigma1 e + ((e AND f) XOR (NOT e AND g)) + k + w;
          t2 = big_sigma0 a + ((a AND b) XOR (a AND c) XOR (b AND c))
      in (t1 + t2, a, b, c, d + t1, e, f, g))"

fun add_state :: "hash_state \<Rightarrow> hash_state \<Rightarrow> hash_state" where
  "add_state (a, b, c, d, e, f, g, h) (a', b', c', d', e', f', g', h') =
     (a + a', b + b', c + c', d + d', e + e', f + f', g + g', h + h')"

definition sha_block :: "u8 list \<Rightarrow> hash_state \<Rightarrow> hash_state" where
  "sha_block bytes s = add_state s (fold sha_round (zip sha_K (sha_schedule 48 (be_words bytes))) s)"

function sha_blocks :: "u8 list \<Rightarrow> hash_state \<Rightarrow> hash_state" where
  "sha_blocks bytes s =
     (if bytes = [] then s else sha_blocks (drop 64 bytes) (sha_block (take 64 bytes) s))"
  by pat_completeness auto
termination
  by (relation "measure (\<lambda>(bytes, s). length bytes)") auto

declare sha_blocks.simps [simp del]

fun state_hex :: "hash_state \<Rightarrow> string" where
  "state_hex (a, b, c, d, e, f, g, h) =
     concat (map (\<lambda>w. hex_digits 8 (unat w)) [a, b, c, d, e, f, g, h])"

definition sha256_hexdigest :: "string \<Rightarrow> string" where
  "sha256_hexdigest s = state_hex (sha_blocks (sha_pad (utf8_encode s)) sha_H)"

subsection \<open>The shape of a digest\<close>

lemma length_hex_digits [simp]: "length (hex_digits k n) = k"
  by (induction k arbitrary: n) auto

lemma is_hex_char_hex_char [simp]: "n < 16 \<Longrightarrow> is_hex_char (hex_char n)"
  unfolding is_hex_char_def hex_char_def by (rule nth_mem) simp

lemma hex_digits_hex: "list_all is_hex_char (hex_digits k n)"
  by (induction k arbitrary: n) auto

definition is_sha256_hex :: "string \<Rightarrow> bool" where
  "is_sha256_hex s \<longleftrightarrow> length s = 64 \<and> list_all is_hex_char s"

lemma is_sha256_hex_digest [simp]: "is_sha256_hex (sha256_hexdigest s)"
proof -
  obtain a b c d e f g h where
    "sha_blocks (sha_pad (utf8_encode s)) sha_H = (a, b, c, d, e, f, g, h)"
    by (metis prod.exhaust)
  then show ?thesis
    using hex_digits_hex by (simp add: is_sha256_hex_def sha256_hexdigest_def)
qed

lemma hex_char_inj: "m < 16 \<Longrightarrow> n < 16 \<Longrightarrow> hex_char m = hex_char n \<Longrightarrow> m = n"
  unfolding hex_char_def by (subst (asm) nth_eq_iff_index_eq) simp_all

lemma hex_digits_inj: "m < 16 ^ k \<Longrightarrow> n < 16 ^ k \<Longrightarrow> hex_digits k m = hex_digits k n \<Longrightarrow> m = n"
proof (induction k arbitrary: m n)
  case (Suc k)
  from Suc.prems(3) have q: "hex_digits k (m div 16) = hex_digits k (n div 16)"
      and r: "hex_char (m mod 16) = hex_char (n mod 16)"
    by auto
  from r have "m mod 16 = n mod 16"
    by (intro hex_char_inj) auto
  moreover from Suc.prems have "m div 16 < 16 ^ k" "n div 16 < 16 ^ k"
    by (auto simp: less_mult_imp_div_less)
  with Suc.IH q have "m div 16 = n div 16"
    by blast
  ultimately show ?case
    by (metis div_mult_mod_eq)
qed simp


end
