(* ===== verification/PyUuid.thy ===== *)
theory PyUuid
  imports Sha256
begin

section \<open>\<open>uuid.UUID\<close>\<close>

text \<open>
  A UUID is its 128 bit integer.  \<open>uuid_hex\<close> is the \<open>hex\<close> attribute, \<open>uuid_str\<close> is
  \<open>str(u)\<close> and \<open>uuid_parse\<close> is \<open>uuid.UUID(s)\<close>, with \<open>None\<close> for \<open>ValueError\<close>:
  the constructor drops \<open>urn:\<close>, \<open>uuid:\<close>, surrounding braces and all dashes, wants 32
  characters and reads them with \<open>int(s, 16)\<close>.
\<close>

type_synonym uuid = "128 word"

definition uuid_hex :: "uuid \<Rightarrow> string" where
  "uuid_hex u = hex_digits 32 (unat u)"

definition uuid_str :: "uuid \<Rightarrow> string" where
  "uuid_str u =
     (let h = uuid_hex u in
      take 8 h @ ''-'' @ take 4 (drop 8 h) @ ''-'' @ take 4 (drop 12 h) @ ''-''
        @ take 4 (drop 16 h) @ ''-'' @ drop 20 h)"

subsection \<open>\<open>int(s, 16)\<close>\<close>

definition hex_val :: "char \<Rightarrow> nat option" where
  "hex_val c =
     (let n = (of_char c :: nat) in
      if 48 \<le> n \<and> n \<le> 57 then Some (n - 48)
      else if 97 \<le> n \<and> n \<le> 102 then Some (n - 87)
      else if 65 \<le> n \<and> n \<le> 70 then Some (n - 55)
      else None)"

text \<open>Digits after the first one; a single underscore may stand between two digits.\<close>

fun hex_rest :: "nat \<Rightarrow> string \<Rightarrow> nat option" where
  "hex_rest n [] = Some n"
| "hex_rest n (c # s) =
     (if c = CHR ''_'' then
        (case s of [] \<Rightarrow> None
         | d # s' \<Rightarrow> (case hex_val d of None \<Rightarrow> None | Some v \<Rightarrow> hex_rest (16 * n + v) s'))
      else (case hex_val c of None \<Rightarrow> None | Some v \<Rightarrow> hex_rest (16 * n + v) s))"

definition hex_number :: "string \<Rightarrow> nat option" where
  "hex_number s =
     (case s of [] \<Rightarrow> None
      | c # s' \<Rightarrow> (case hex_val c of None \<Rightarrow> None | Some v \<Rightarrow> hex_rest v s'))"

definition drop_hex_prefix :: "string \<Rightarrow> string" where
  "drop_hex_prefix s =
     (if take 2 s = ''0x'' \<or> take 2 s = ''0X''
      then (case drop 2 s of c # r \<Rightarrow> (if c = CHR ''_'' then r else c # r) | [] \<Rightarrow> [])
      else s)"

definition py_int16 :: "string \<Rightarrow> int option" where
  "py_int16 s =
     (case str_strip s of
        [] \<Rightarrow> None
      | c # r \<Rightarrow>
          if c = CHR ''-'' then map_option (\<lambda>n. - int n) (hex_number (drop_hex_prefix r))
          else if c = CHR ''+'' then map_option int (hex_number (drop_hex_prefix r))
          else map_option int (hex_number (drop_hex_prefix (c # r))))"

definition uuid_parse :: "string \<Rightarrow> uuid option" where
  "uuid_parse s =
     (let h = str_replace ''-'' [] (str_strip_chars ''{}''
                (str_replace ''uuid:'' [] (str_replace ''urn:'' [] s)))
      in if length h \<noteq> 32 then None
         else (case py_int16 h of
                 None \<Rightarrow> None
               | Some n \<Rightarrow> if 0 \<le> n \<and> n < 2 ^ 128 then Some (of_int n) else None))"

subsection \<open>Parsing undoes printing\<close>

lemma length_uuid_hex [simp]: "length (uuid_hex u) = 32"
  by (simp add: uuid_hex_def)

lemma uuid_hex_hex: "list_all is_hex_char (uuid_hex u)"
  by (simp add: uuid_hex_def hex_digits_hex)

lemma uuid_hex_inj: "uuid_hex u = uuid_hex v \<Longrightarrow> u = v"
proof -
  have "unat w < 16 ^ 32" for w :: uuid
    using unsigned_less [of w, where ?'a = nat] by simp
  then show "uuid_hex u = uuid_hex v \<Longrightarrow> u = v"
    unfolding uuid_hex_def by (metis hex_digits_inj word_unat_eq_iff)
qed

lemma str_replace_absent: "old \<noteq> [] \<Longrightarrow> hd old \<notin> set s \<Longrightarrow> str_replace old new s = s"
  by (induction s) (auto simp: neq_Nil_conv)

lemma str_replace_char: "str_replace [c] [] s = filter (\<lambda>x. x \<noteq> c) s"
  by (induction s) auto

lemma dropWhile_none: "(\<And>x. x \<in> set s \<Longrightarrow> \<not> P x) \<Longrightarrow> dropWhile P s = s"
  by (cases s) auto

lemma str_strip_chars_absent: "set cs \<inter> set s = {} \<Longrightarrow> str_strip_chars cs s = s"
  unfolding str_strip_chars_def by (subst (1 2) dropWhile_none) auto

lemma hex_chars: "is_hex_char c \<Longrightarrow>
    c \<noteq> CHR ''-'' \<and> c \<noteq> CHR ''+'' \<and> c \<noteq> CHR ''_'' \<and> c \<noteq> CHR ''x'' \<and> c \<noteq> CHR ''X'' \<and> c \<noteq> CHR ''u''
    \<and> c \<noteq> CHR ''{'' \<and> c \<noteq> CHR ''}'' \<and> c \<noteq> CHR '':'' \<and> \<not> py_space c"
  by (auto simp: is_hex_char_def py_space_def Let_def)

lemma hex_val_hex_char: "n < 16 \<Longrightarrow> hex_val (hex_char n) = Some n"
proof -
  have "\<forall>n < 16. hex_val (hex_char n) = Some n"
    by (simp add: hex_val_def hex_char_def Let_def numeral_eq_Suc All_less_Suc)
  then show "n < 16 \<Longrightarrow> hex_val (hex_char n) = Some n"
    by blast
qed

lemma hex_rest_append:
  "list_all is_hex_char s \<Longrightarrow> hex_rest n (s @ t) =
     (case hex_rest n s of None \<Rightarrow> None | Some m \<Rightarrow> hex_rest m t)"
proof (induction s arbitrary: n)
  case (Cons c s)
  then show ?case
    using hex_chars [of c] by (auto split: option.splits)
qed simp

lemma hex_rest_digits: "hex_rest m (hex_digits k n) = Some (16 ^ k * m + n mod 16 ^ k)"
proof (induction k arbitrary: n)
  case (Suc k)
  have "hex_rest (16 ^ k * m + n div 16 mod 16 ^ k) [hex_char (n mod 16)]
      = Some (16 * (16 ^ k * m + n div 16 mod 16 ^ k) + n mod 16)"
    using hex_chars [of "hex_char (n mod 16)"] by (simp add: hex_val_hex_char)
  moreover have "n mod (16 * 16 ^ k) = 16 * (n div 16 mod 16 ^ k) + n mod 16"
    by (simp add: mod_mult2_eq)
  ultimately show ?case
    by (simp add: hex_rest_append hex_digits_hex Suc.IH)
qed simp

lemma str_strip_hex: "list_all is_hex_char s \<Longrightarrow> str_strip s = s"
  unfolding str_strip_def
  by (subst (1 2) dropWhile_none) (auto simp: list_all_iff hex_chars)

lemma py_int16_digits:
  assumes "0 < k"
  shows "py_int16 (hex_digits k n) = Some (int (n mod 16 ^ k))"
proof -
  obtain c s where cs: "hex_digits k n = c # s"
    using assms length_hex_digits [of k n] by (cases "hex_digits k n") auto
  with hex_digits_hex [of k n] have hex: "is_hex_char c" "list_all is_hex_char s"
    by auto
  have "take 2 (c # s) \<noteq> ''0x'' \<and> take 2 (c # s) \<noteq> ''0X''"
    using hex hex_chars by (cases s) auto
  then have "drop_hex_prefix (c # s) = c # s"
    unfolding drop_hex_prefix_def by argo
  moreover have "hex_number (c # s) = Some (n mod 16 ^ k)"
    using hex_rest_digits [of 0 k n] hex_chars [OF hex(1)]
    by (auto simp: hex_number_def cs split: option.splits)
  moreover have "str_strip (c # s) = c # s"
    using hex by (intro str_strip_hex) simp
  ultimately show ?thesis
    using hex_chars [OF hex(1)] by (simp add: py_int16_def cs)
qed

lemma uuid_str_filter: "filter (\<lambda>x. x \<noteq> CHR ''-'') (uuid_str u) = uuid_hex u"
proof -
  have keep: "filter (\<lambda>x. x \<noteq> CHR ''-'') w = w" if "set w \<subseteq> set (uuid_hex u)" for w
    using that uuid_hex_hex [of u] hex_chars by (auto simp: filter_id_conv list_all_iff)
  have split: "drop n w = take m (drop n w) @ drop (n + m) w" for n m and w :: string
    by (metis append_take_drop_id drop_drop add.commute)
  have parts: "uuid_hex u = take 8 (uuid_hex u) @ take 4 (drop 8 (uuid_hex u))
      @ take 4 (drop 12 (uuid_hex u)) @ take 4 (drop 16 (uuid_hex u)) @ drop 20 (uuid_hex u)"
    using split [of 0 "uuid_hex u" 8] split [of 8 "uuid_hex u" 4] split [of 12 "uuid_hex u" 4]
      split [of 16 "uuid_hex u" 4] by simp
  show ?thesis
    unfolding uuid_str_def Let_def filter_append
    by (subst (1 2 3 4 5) keep) (auto dest: in_set_takeD in_set_dropD simp flip: parts)
qed

theorem uuid_parse_str: "uuid_parse (uuid_str u) = Some u"
proof -
  have chars: "set (uuid_str u) \<subseteq> insert (CHR ''-'') (set (uuid_hex u))"
    by (auto simp: uuid_str_def Let_def dest: in_set_takeD in_set_dropD)
  have "CHR ''u'' \<notin> set (uuid_str u)" "set ''{}'' \<inter> set (uuid_str u) = {}"
    using chars uuid_hex_hex [of u] hex_chars by (auto simp: list_all_iff)
  then have "str_replace ''-'' [] (str_strip_chars ''{}''
      (str_replace ''uuid:'' [] (str_replace ''urn:'' [] (uuid_str u)))) = uuid_hex u"
    by (simp add: str_replace_absent str_strip_chars_absent str_replace_char uuid_str_filter)
  moreover have "unat u < 16 ^ 32"
    using unsigned_less [of u, where ?'a = nat] by simp
  then have "py_int16 (uuid_hex u) = Some (int (unat u))"
    by (simp add: uuid_hex_def py_int16_digits)
  moreover have "int (unat u) < 2 ^ 128"
    using unsigned_less [of u, where ?'a = int] by simp
  ultimately show ?thesis
    by (simp add: uuid_parse_def Let_def)
qed

end
