(* ===== verification/PlanSchema.thy ===== *)
theory PlanSchema
  imports JsonPointer PyUuid
begin

section \<open>Execution Plan v1\<close>

text \<open>
  The immutable plan: \<^verbatim>\<open>src/backend/app/schemas/execution_plan.py\<close>,
  \<^verbatim>\<open>plan_binding.py\<close> and \<^verbatim>\<open>predicate.py\<close>, with the enumerations of
  \<^verbatim>\<open>src/backend/app/domain/enums.py\<close> they use.

  Parsing JSON into these classes and dumping them back is done by pydantic, which is not part of the
  repository.  It is the parameter \<open>codec\<close>: one validator per class (\<open>None\<close> is
  pydantic's \<open>ValidationError\<close>) and \<open>dump_plan_step\<close> for
  \<open>ExecutionPlanStep.model_dump(mode="json")\<close>.  What the repository declares about the
  classes, the field constraints and its own validators, are the predicates
  \<open>plan_binding_valid\<close>, \<open>predicate_valid\<close>, \<open>loop_config_valid\<close> and \<open>plan_step_valid\<close>.
\<close>

subsection \<open>Enumerations\<close>

datatype step_type = TOOL | CONDITION | JOIN | APPROVAL | LOOP
datatype join_policy = ALL_SUCCESS | ALL_COMPLETE | ANY_SUCCESS
datatype loop_mode = FOR_EACH | WHILE
datatype on_error = FAIL_EXECUTION | MARK_PARTIAL | CONTINUE
datatype comparison_op = OP_EQ | OP_NE | OP_GT | OP_GTE | OP_LT | OP_LTE | OP_IN | OP_CONTAINS
datatype unary_op = OP_EXISTS | OP_IS_NULL
datatype logical_op = OP_AND | OP_OR

fun loop_mode_value :: "loop_mode \<Rightarrow> string" where
  "loop_mode_value FOR_EACH = ''FOR_EACH''"
| "loop_mode_value WHILE = ''WHILE''"

subsection \<open>Bindings and predicates\<close>

datatype plan_binding =
    PlanLiteralBinding json
  | PlanSecretRefBinding uuid
  | PlanInputBinding string
  | PlanStepOutputBinding string string
  | PlanExecutionContextBinding string
  | PlanLoopContextBinding string

datatype predicate =
    ComparisonPredicate comparison_op plan_binding plan_binding
  | UnaryPredicate unary_op plan_binding
  | NotPredicate predicate
  | LogicalPredicate logical_op "predicate list"

definition non_blank :: "string \<Rightarrow> bool" where
  "non_blank s \<longleftrightarrow> str_strip s \<noteq> []"

fun plan_binding_valid :: "plan_binding \<Rightarrow> bool" where
  "plan_binding_valid (PlanLiteralBinding v) = True"
| "plan_binding_valid (PlanSecretRefBinding u) = True"
| "plan_binding_valid (PlanInputBinding path) = is_valid_json_pointer_subset path"
| "plan_binding_valid (PlanStepOutputBinding step_id path) =
     (non_blank step_id \<and> is_valid_json_pointer_subset path)"
| "plan_binding_valid (PlanExecutionContextBinding path) = is_valid_json_pointer_subset path"
| "plan_binding_valid (PlanLoopContextBinding path) = is_valid_json_pointer_subset path"

fun iter_plan_bindings_in_predicate :: "predicate \<Rightarrow> plan_binding list" where
  "iter_plan_bindings_in_predicate (ComparisonPredicate op l r) = [l, r]"
| "iter_plan_bindings_in_predicate (UnaryPredicate op b) = [b]"
| "iter_plan_bindings_in_predicate (NotPredicate p) = iter_plan_bindings_in_predicate p"
| "iter_plan_bindings_in_predicate (LogicalPredicate op ps) =
     concat (map iter_plan_bindings_in_predicate ps)"

fun predicate_valid :: "predicate \<Rightarrow> bool" where
  "predicate_valid (ComparisonPredicate op l r) = (plan_binding_valid l \<and> plan_binding_valid r)"
| "predicate_valid (UnaryPredicate op b) = plan_binding_valid b"
| "predicate_valid (NotPredicate p) = predicate_valid p"
| "predicate_valid (LogicalPredicate op ps) = (ps \<noteq> [] \<and> list_all predicate_valid ps)"

subsection \<open>Step configurations\<close>

record tool_config =
  tc_tool_version_id :: uuid
  tc_bindings :: "(string, plan_binding) dict"

record loop_config =
  lc_mode :: loop_mode
  lc_max_iterations :: int
  lc_body_step_ids :: "string list"
  lc_collection :: "plan_binding option"
  lc_predicate :: "predicate option"

definition loop_config_valid :: "loop_config \<Rightarrow> bool" where
  "loop_config_valid cfg \<longleftrightarrow>
     1 \<le> lc_max_iterations cfg \<and>
     lc_body_step_ids cfg \<noteq> [] \<and> list_all non_blank (lc_body_step_ids cfg) \<and>
     distinct (lc_body_step_ids cfg) \<and>
     (case lc_mode cfg of
        FOR_EACH \<Rightarrow> lc_collection cfg \<noteq> None \<and> lc_predicate cfg = None
      | WHILE \<Rightarrow> lc_predicate cfg \<noteq> None \<and> lc_collection cfg = None) \<and>
     pred_option plan_binding_valid (lc_collection cfg) \<and> pred_option predicate_valid (lc_predicate cfg)"

subsection \<open>The plan\<close>

record plan_step =
  ps_id :: string
  ps_name :: string
  ps_type :: step_type
  ps_required :: bool
  ps_depends_on :: "string list"
  ps_when :: "json option"
  ps_timeout_seconds :: int
  ps_on_error :: on_error
  ps_config :: json

definition plan_step_valid :: "plan_step \<Rightarrow> bool" where
  "plan_step_valid ps \<longleftrightarrow> non_blank (ps_id ps) \<and> non_blank (ps_name ps) \<and> 1 \<le> ps_timeout_seconds ps"

datatype plan_source =
    PlanSourceAgent uuid
  | PlanSourceWorkflow uuid
  | PlanSourceManualToolTest uuid uuid

record plan_input_definition =
  pi_type :: string
  pi_required :: bool
  pi_secret :: bool

record plan_limits =
  max_steps :: int
  max_duration_seconds :: int
  max_parallelism :: int
  max_loop_iterations :: int

record execution_plan =
  plan_goal :: string
  plan_src :: plan_source
  plan_inputs :: "(string, plan_input_definition) dict"
  plan_limits :: plan_limits
  plan_steps :: "plan_step list"
  response_step_ids :: "string list"

definition default_plan_limits :: plan_limits where
  "default_plan_limits =
     \<lparr>max_steps = 20, max_duration_seconds = 300, max_parallelism = 4, max_loop_iterations = 50\<rparr>"

subsection \<open>pydantic\<close>

record codec =
  validate_plan_step :: "json \<Rightarrow> plan_step option"
  dump_plan_step :: "plan_step \<Rightarrow> json"
  validate_tool_config :: "json \<Rightarrow> tool_config option"
  validate_condition_config :: "json \<Rightarrow> predicate option"
  validate_join_config :: "json \<Rightarrow> join_policy option"
  validate_approval_config :: "json \<Rightarrow> uuid option"
  validate_loop_config :: "json \<Rightarrow> loop_config option"
  validate_predicate :: "json \<Rightarrow> predicate option"

text \<open>
  What pydantic documents about these: a validator only returns instances that satisfy the declared
  constraints, and validating a dumped step gives the step back.
\<close>

definition codec_enforces :: "codec \<Rightarrow> bool" where
  "codec_enforces C \<longleftrightarrow>
     (\<forall>j ps. validate_plan_step C j = Some ps \<longrightarrow> plan_step_valid ps) \<and>
     (\<forall>j cfg. validate_loop_config C j = Some cfg \<longrightarrow> loop_config_valid cfg) \<and>
     (\<forall>j p. validate_predicate C j = Some p \<longrightarrow> predicate_valid p) \<and>
     (\<forall>j p. validate_condition_config C j = Some p \<longrightarrow> predicate_valid p)"

definition codec_round_trip :: "codec \<Rightarrow> bool" where
  "codec_round_trip C \<longleftrightarrow>
     (\<forall>ps. plan_step_valid ps \<longrightarrow> validate_plan_step C (dump_plan_step C ps) = Some ps)"

lemma codec_enforcesD:
  assumes "codec_enforces C"
  shows "validate_plan_step C j = Some ps \<Longrightarrow> plan_step_valid ps"
    and "validate_loop_config C j = Some cfg \<Longrightarrow> loop_config_valid cfg"
    and "validate_predicate C j = Some p \<Longrightarrow> predicate_valid p"
    and "validate_condition_config C j = Some p \<Longrightarrow> predicate_valid p"
  using assms by (auto simp: codec_enforces_def)

lemma loop_config_validD:
  assumes "loop_config_valid cfg"
  shows "1 \<le> lc_max_iterations cfg" and "lc_body_step_ids cfg \<noteq> []"
    and "distinct (lc_body_step_ids cfg)"
    and "lc_mode cfg = FOR_EACH \<Longrightarrow> lc_collection cfg \<noteq> None"
    and "lc_mode cfg = WHILE \<Longrightarrow> lc_predicate cfg \<noteq> None"
  using assms by (auto simp: loop_config_valid_def split: loop_mode.splits)

lemma predicate_valid_bindings:
  "predicate_valid p \<Longrightarrow> b \<in> set (iter_plan_bindings_in_predicate p) \<Longrightarrow> plan_binding_valid b"
  by (induction p) (auto simp: list_all_iff)

lemmas plan_enum_splits = step_type.splits join_policy.splits loop_mode.splits on_error.splits

end
