(* ===== verification/ExecutionModel.thy ===== *)
theory ExecutionModel
  imports PlanSchema
begin

section \<open>Execution and ExecutionStep rows\<close>

text \<open>
  \<^verbatim>\<open>src/backend/app/models/execution.py\<close>.  A nullable JSONB column holds \<open>JNull\<close> for
  Python's \<open>None\<close>; every other nullable column is an option.  The status and type columns have
  CHECK constraints over the enumerations, so they are datatypes.  A time is a number of
  microseconds since the epoch, in UTC.
\<close>

type_synonym time = int

datatype step_status =
    PENDING | READY | RUNNING | WAITING_INPUT | WAITING_APPROVAL | SUCCEEDED | FAILED | SKIPPED
  | TIMED_OUT | CANCELLED | UNKNOWN_OUTCOME

datatype execution_status =
    E_CREATED | E_QUEUED | E_RUNNING | E_WAITING_INPUT | E_WAITING_APPROVAL | E_CANCEL_REQUESTED
  | E_SUCCEEDED | E_PARTIALLY_SUCCEEDED | E_FAILED | E_CANCELLED | E_TIMED_OUT

fun step_status_value :: "step_status \<Rightarrow> string" where
  "step_status_value PENDING = ''PENDING''"
| "step_status_value READY = ''READY''"
| "step_status_value RUNNING = ''RUNNING''"
| "step_status_value WAITING_INPUT = ''WAITING_INPUT''"
| "step_status_value WAITING_APPROVAL = ''WAITING_APPROVAL''"
| "step_status_value SUCCEEDED = ''SUCCEEDED''"
| "step_status_value FAILED = ''FAILED''"
| "step_status_value SKIPPED = ''SKIPPED''"
| "step_status_value TIMED_OUT = ''TIMED_OUT''"
| "step_status_value CANCELLED = ''CANCELLED''"
| "step_status_value UNKNOWN_OUTCOME = ''UNKNOWN_OUTCOME''"

record execution_step =
  st_id :: uuid
  st_execution_id :: uuid
  step_key :: string
  st_type :: step_type
  mcp_tool_version_id :: "uuid option"
  parent_step_id :: "uuid option"
  sequence_hint :: int
  status :: step_status
  step_snapshot :: json
  resolved_input :: json
  result_inline :: json
  condition_result :: "bool option"
  iteration_no :: "int option"
  attempt_count :: int
  ready_at :: "time option"
  started_at :: "time option"
  finished_at :: "time option"
  error_code :: "string option"
  error_message :: "string option"
  lock_version :: int

record execution =
  ex_id :: uuid
  source_type :: string
  trigger_type :: string
  trace_id :: "string option"
  input_snapshot :: json

abbreviation RESOURCE_CONFLICT :: py_error where
  "RESOURCE_CONFLICT \<equiv> AppError ''RESOURCE_CONFLICT'' 409"

abbreviation PRECONDITION_FAILED :: py_error where
  "PRECONDITION_FAILED \<equiv> AppError ''EXECUTION_PRECONDITION_FAILED'' 409"

text \<open>\<open>_STEP_TERMINAL\<close>, \<open>_CHILD_TERMINAL\<close>, \<open>_ITERATION_TERMINAL\<close> and
  \<open>_JOIN_BARRIER_TERMINAL\<close> are the same six statuses.\<close>

definition terminal_status :: "step_status \<Rightarrow> bool" where
  "terminal_status s \<longleftrightarrow> s \<in> {SUCCEEDED, FAILED, TIMED_OUT, SKIPPED, CANCELLED, UNKNOWN_OUTCOME}"

definition is_toplevel :: "execution_step \<Rightarrow> bool" where
  "is_toplevel s \<longleftrightarrow> parent_step_id s = None"

definition by_step_key :: "execution_step list \<Rightarrow> (string, execution_step) dict" where
  "by_step_key steps = dict_of (map (\<lambda>s. (step_key s, s)) steps)"

lemma by_step_key_distinct:
  assumes "distinct (map step_key steps)"
  shows "by_step_key steps = map (\<lambda>s. (step_key s, s)) steps"
  using assms unfolding by_step_key_def by (intro dict_of_distinct) (simp add: comp_def)

lemma map_of_by_step_key:
  "map_of (by_step_key steps) k = Some s \<Longrightarrow> s \<in> set steps \<and> step_key s = k"
  by (auto simp: by_step_key_def map_of_dict_of dest!: map_of_SomeD)

lemma by_step_key_lookup:
  assumes "distinct (map step_key steps)" and "s \<in> set steps"
  shows "map_of (by_step_key steps) (step_key s) = Some s"
  using assms by (auto simp: by_step_key_distinct comp_def intro!: map_of_is_SomeI)

lemma by_step_key_None:
  "map_of (by_step_key steps) k = None \<longleftrightarrow> k \<notin> step_key ` set steps"
  by (auto simp: by_step_key_def map_of_dict_of map_of_eq_None_iff image_iff)

end
