(* ===== verification/CanonicalHash.thy ===== *)
theory CanonicalHash
  imports Json Sha256
begin

section \<open>Canonical JSON and its hash\<close>

text \<open>
  \<^verbatim>\<open>src/backend/app/core/canonical_hash.py\<close>: \<open>json.dumps\<close> with sorted keys, compact
  separators and \<open>ensure_ascii=False\<close>, hashed with SHA-256.  The shortest decimal form of a finite
  float, \<open>float.__repr__\<close>, is the parameter \<open>fr\<close>.
\<close>

definition int_dec :: "int \<Rightarrow> string" where
  "int_dec i = (if i < 0 then ''-'' @ nat_dec (nat (- i)) else nat_dec (nat i))"

text \<open>\<open>json.encoder.py_encode_basestring\<close>.\<close>

definition escape_char :: "char \<Rightarrow> string" where
  "escape_char c =
     (if c = CHR 0x5C then [CHR 0x5C, CHR 0x5C]
      else if c = CHR 0x22 then [CHR 0x5C, CHR 0x22]
      else if c = CHR 0x08 then [CHR 0x5C, CHR ''b'']
      else if c = CHR 0x0C then [CHR 0x5C, CHR ''f'']
      else if c = CHR 0x0A then [CHR 0x5C, CHR ''n'']
      else if c = CHR 0x0D then [CHR 0x5C, CHR ''r'']
      else if c = CHR 0x09 then [CHR 0x5C, CHR ''t'']
      else if (of_char c :: nat) < 32 then [CHR 0x5C, CHR ''u''] @ hex_digits 4 (of_char c)
      else [c])"

definition dumps_str :: "string \<Rightarrow> string" where
  "dumps_str s = [CHR 0x22] @ concat (map escape_char s) @ [CHR 0x22]"

definition dumps_float :: "(rat \<Rightarrow> string) \<Rightarrow> pyfloat \<Rightarrow> string" where
  "dumps_float fr f =
     (case f of Finite r \<Rightarrow> fr r | NaN \<Rightarrow> ''NaN'' | PosInf \<Rightarrow> ''Infinity'' | NegInf \<Rightarrow> ''-Infinity'')"

function json_dumps :: "(rat \<Rightarrow> string) \<Rightarrow> json \<Rightarrow> string" where
  "json_dumps fr JNull = ''null''"
| "json_dumps fr (JBool b) = (if b then ''true'' else ''false'')"
| "json_dumps fr (JInt i) = int_dec i"
| "json_dumps fr (JFloat f) = dumps_float fr f"
| "json_dumps fr (JStr s) = dumps_str s"
| "json_dumps fr (JList xs) = ''['' @ str_join (CHR '','') (map (json_dumps fr) xs) @ '']''"
| "json_dumps fr (JObj kvs) =
     ''{'' @ str_join (CHR '','')
       (map (\<lambda>(k, v). dumps_str k @ '':'' @ json_dumps fr v) (sort_key fst kvs)) @ ''}''"
  by pat_completeness auto
termination
proof (relation "measure (size \<circ> snd)")
  fix fr :: "rat \<Rightarrow> string" and kvs :: "(string, json) dict" and kv k v
  assume "kv \<in> set (sort_key fst kvs)" "(k, v) = kv"
  then have "(k, v) \<in> set kvs"
    by simp
  then show "((fr, v), (fr, JObj kvs)) \<in> measure (size \<circ> snd)"
    by (induction kvs) auto
qed (auto simp: less_Suc_eq_le intro: size_list_estimation' [where f = size])

definition compute_canonical_json_hash :: "(rat \<Rightarrow> string) \<Rightarrow> json \<Rightarrow> string" where
  "compute_canonical_json_hash fr payload = sha256_hexdigest (json_dumps fr payload)"

lemma canonical_hash_shape [simp]: "is_sha256_hex (compute_canonical_json_hash fr v)"
  by (simp add: compute_canonical_json_hash_def)

subsection \<open>The order of the keys does not matter\<close>

text \<open>Every object with its keys sorted, at every level.\<close>

fun normal_json :: "json \<Rightarrow> json" where
  "normal_json (JList xs) = JList (map normal_json xs)"
| "normal_json (JObj kvs) = JObj (sort_key fst (map (\<lambda>(k, v). (k, normal_json v)) kvs))"
| "normal_json v = v"

lemma sort_key_map_snd:
  "sort_key fst (map (\<lambda>(k, v). (k, f v)) kvs) = map (\<lambda>(k, v). (k, f v)) (sort_key fst kvs)"
proof -
  have ins: "insort_key fst (k, f v) (map (\<lambda>(k, v). (k, f v)) xs) =
      map (\<lambda>(k, v). (k, f v)) (insort_key fst (k, v) xs)" for k v xs
    by (induction xs) auto
  show ?thesis
    by (induction kvs) (auto simp: ins)
qed

lemma json_dumps_normal: "json_dumps fr (normal_json v) = json_dumps fr v"
proof (induction v)
  case (JList xs)
  then have "map (json_dumps fr \<circ> normal_json) xs = map (json_dumps fr) xs"
    by simp
  then show ?case
    by (simp only: normal_json.simps json_dumps.simps list.map_comp)
next
  case (JObj kvs)
  have "map (\<lambda>(k, v). dumps_str k @ '':'' @ json_dumps fr v)
        (sort_key fst (map (\<lambda>(k, v). (k, normal_json v)) kvs))
      = map (\<lambda>(k, v). dumps_str k @ '':'' @ json_dumps fr (normal_json v)) (sort_key fst kvs)"
    unfolding sort_key_map_snd by auto
  also have "\<dots> = map (\<lambda>(k, v). dumps_str k @ '':'' @ json_dumps fr v) (sort_key fst kvs)"
    using JObj by (intro map_cong) (auto simp: snds.simps)
  finally have eq: "map (\<lambda>(k, v). dumps_str k @ '':'' @ json_dumps fr v)
        (sort_key fst (map (\<lambda>(k, v). (k, normal_json v)) kvs))
      = map (\<lambda>(k, v). dumps_str k @ '':'' @ json_dumps fr v) (sort_key fst kvs)" .
  have idem: "sort_key fst (sort_key fst xs) = sort_key fst xs" for xs :: "(string \<times> json) list"
    by (rule sort_key_id_if_sorted) simp
  show ?case
    by (simp only: normal_json.simps json_dumps.simps idem eq)
qed simp_all

text \<open>Two dictionaries with the same entries are sorted into the same list.\<close>

lemma sort_items_unique:
  assumes "distinct (dict_keys d)" and "distinct (dict_keys d')" and "map_of d = map_of d'"
  shows "sort_key fst d = sort_key fst d'"
proof (rule map_sorted_distinct_set_unique [where f = fst])
  have "set d = set d'"
    by (metis assms map_of_eq_Some_iff subsetI subset_antisym prod.collapse map_of_is_SomeI)
  then show "set (sort_key fst d) = set (sort_key fst d')"
    by simp
  show "inj_on fst (set (sort_key fst d) \<union> set (sort_key fst d'))"
    using assms(1) \<open>set d = set d'\<close> by (simp add: distinct_map)
qed (use assms in \<open>auto simp: distinct_map\<close>)

text \<open>Two values that differ only in the order of the keys of their dictionaries.\<close>

inductive same_json :: "json \<Rightarrow> json \<Rightarrow> bool" where
  same_atom: "\<not> is_list v \<Longrightarrow> \<not> is_dict v \<Longrightarrow> same_json v v"
| same_list: "list_all2 same_json xs ys \<Longrightarrow> same_json (JList xs) (JList ys)"
| same_obj: "distinct (dict_keys d) \<Longrightarrow> distinct (dict_keys d') \<Longrightarrow>
    (\<And>k. rel_option same_json (map_of d k) (map_of d' k)) \<Longrightarrow> same_json (JObj d) (JObj d')"
  monos list.rel_mono option.rel_mono

lemma map_of_map_values: "map_of (map (\<lambda>(k, v). (k, f v)) d) = map_option f \<circ> map_of d"
  by (induction d) auto

lemma same_json_normal: "same_json v w \<Longrightarrow> normal_json v = normal_json w"
proof (induction rule: same_json.induct)
  case (same_list xs ys)
  then have "map normal_json xs = map normal_json ys"
    by (induction rule: list_all2_induct) auto
  then show ?case
    by simp
next
  case (same_obj d d')
  have keys: "map fst (map (\<lambda>(k, v). (k, normal_json v)) e) = dict_keys e" for e
    by (induction e) auto
  have "map_option normal_json (map_of d k) = map_option normal_json (map_of d' k)" for k
    using same_obj.IH [of k] by (cases "map_of d k"; cases "map_of d' k") auto
  then have "map_of (map (\<lambda>(k, v). (k, normal_json v)) d) = map_of (map (\<lambda>(k, v). (k, normal_json v)) d')"
    by (auto simp: map_of_map_values)
  with same_obj.hyps show ?case
    unfolding normal_json.simps json.inject by (intro sort_items_unique) (simp_all only: keys)
qed simp

subsection \<open>Properties\<close>

text \<open>The canonical hash is 64 lower-case hexadecimal digits and does not depend on the order of the
  keys of any dictionary in the payload.\<close>

theorem canonical_hash_key_order:
  assumes "same_json v w"
  shows "compute_canonical_json_hash fr v = compute_canonical_json_hash fr w \<and>
    is_sha256_hex (compute_canonical_json_hash fr v)"
  using same_json_normal [OF assms] json_dumps_normal [of fr v] json_dumps_normal [of fr w]
  by (simp add: compute_canonical_json_hash_def)

theorem canonical_hash_key_order_witness:
  "compute_canonical_json_hash (\<lambda>r. ''0.5'') (JObj [(''a'', JInt 1), (''b'', JNull)])
     = compute_canonical_json_hash (\<lambda>r. ''0.5'') (JObj [(''b'', JNull), (''a'', JInt 1)])"
proof -
  have "same_json (JObj [(''a'', JInt 1), (''b'', JNull)]) (JObj [(''b'', JNull), (''a'', JInt 1)])"
    by (rule same_obj) (auto intro: same_atom)
  from canonical_hash_key_order [OF this, of "\<lambda>r. ''0.5''"] show ?thesis
    by simp
qed

end
