(* ===== verification/Samples.thy ===== *)
theory Samples
  imports ExecutionModel
begin

section \<open>Sample plans and rows\<close>

text \<open>
  Concrete values at which the properties of the components are evaluated.  \<open>table_codec\<close> is an
  instance of the pydantic parameter: a step is dumped as its identifier and a configuration is
  looked up by name in a table.
\<close>

definition by_name :: "(string \<times> 'a) list \<Rightarrow> json \<Rightarrow> 'a option" where
  "by_name table j = (case j of JStr s \<Rightarrow> map_of table s | _ \<Rightarrow> None)"

definition table_codec :: "plan_step list \<Rightarrow> (string \<times> tool_config) list \<Rightarrow> (string \<times> predicate) list
    \<Rightarrow> (string \<times> join_policy) list \<Rightarrow> (string \<times> loop_config) list \<Rightarrow> codec" where
  "table_codec steps tools conditions joins loops =
     \<lparr>validate_plan_step = by_name (map (\<lambda>ps. (ps_id ps, ps)) steps),
      dump_plan_step = (\<lambda>ps. JStr (ps_id ps)),
      validate_tool_config = by_name tools,
      validate_condition_config = by_name conditions,
      validate_join_config = by_name joins,
      validate_approval_config = (\<lambda>j. None),
      validate_loop_config = by_name loops,
      validate_predicate = by_name conditions\<rparr>"

definition sample_step :: "string \<Rightarrow> step_type \<Rightarrow> string list \<Rightarrow> plan_step" where
  "sample_step i t deps =
     \<lparr>ps_id = i, ps_name = i, ps_type = t, ps_required = True, ps_depends_on = deps, ps_when = None,
      ps_timeout_seconds = 60, ps_on_error = FAIL_EXECUTION, ps_config = JStr i\<rparr>"

definition sample_plan :: "plan_step list \<Rightarrow> execution_plan" where
  "sample_plan steps =
     \<lparr>plan_goal = ''goal'', plan_src = PlanSourceAgent 9, plan_inputs = [],
      plan_limits = default_plan_limits, plan_steps = steps, response_step_ids = []\<rparr>"

definition sample_row :: "uuid \<Rightarrow> plan_step \<Rightarrow> step_status \<Rightarrow> execution_step" where
  "sample_row i ps st =
     \<lparr>st_id = i, st_execution_id = 7, step_key = ps_id ps, st_type = ps_type ps,
      mcp_tool_version_id = (if ps_type ps = TOOL then Some 5 else None), parent_step_id = None,
      sequence_hint = 0, status = st, step_snapshot = JStr (ps_id ps), resolved_input = JNull,
      result_inline = JNull, condition_result = None, iteration_no = None, attempt_count = 0,
      ready_at = None, started_at = None, finished_at = None, error_code = None, error_message = None,
      lock_version = 0\<rparr>"

lemmas sample_simps = by_name_def table_codec_def sample_step_def sample_plan_def sample_row_def

end
