(* ===== verification/LoopRuntime.thy ===== *)
theory LoopRuntime
  imports ExecutionModel CanonicalHash Samples "HOL-Library.Sublist"
begin

section \<open>LOOP runtime helpers\<close>

text \<open>
  \<^verbatim>\<open>src/backend/app/execution/loop_runtime.py\<close>: which plan steps a LOOP owns, the keys of its
  iteration instances, the control evidence a LOOP row carries in \<open>resolved_input\<close> (a pinned
  collection for FOR_EACH, a predicate history for WHILE), and the invariant between a WHILE row, its
  history and its materialised children.
\<close>

subsection \<open>Body ownership\<close>

record loop_body_ownership =
  body_to_loop :: "(string, string) dict"
  loop_to_body :: "(string, string list) dict"

definition own_body :: "string list \<Rightarrow> string \<Rightarrow> string \<Rightarrow> (string, string) dict
    \<Rightarrow> (string, string) dict result" where
  "own_body ids loop_id body_id b2l =
     (if body_id \<notin> set ids then Inl RESOURCE_CONFLICT
      else if body_id = loop_id then Inl RESOURCE_CONFLICT
      else if (case map_of b2l body_id of None \<Rightarrow> False | Some l \<Rightarrow> l \<noteq> loop_id) then Inl RESOURCE_CONFLICT
      else Inr (dict_set body_id loop_id b2l))"

definition own_step :: "codec \<Rightarrow> string list \<Rightarrow> plan_step \<Rightarrow> loop_body_ownership
    \<Rightarrow> loop_body_ownership result" where
  "own_step C ids step own =
     (if ps_type step \<noteq> LOOP then Inr own
      else and_then (opt_or (validate_loop_config C (ps_config step)) RESOURCE_CONFLICT) (\<lambda>cfg.
        and_then (foldE (own_body ids (ps_id step)) (lc_body_step_ids cfg) (body_to_loop own)) (\<lambda>b2l.
          Inr \<lparr>body_to_loop = b2l,
               loop_to_body = dict_set (ps_id step) (lc_body_step_ids cfg) (loop_to_body own)\<rparr>)))"

definition build_loop_body_ownership :: "codec \<Rightarrow> execution_plan \<Rightarrow> loop_body_ownership result" where
  "build_loop_body_ownership C plan =
     foldE (own_step C (map ps_id (plan_steps plan))) (plan_steps plan)
       \<lparr>body_to_loop = [], loop_to_body = []\<rparr>"

definition is_owned :: "loop_body_ownership \<Rightarrow> string \<Rightarrow> bool" where
  "is_owned own sid \<longleftrightarrow> map_of (body_to_loop own) sid \<noteq> None"

definition top_level_plan_steps :: "codec \<Rightarrow> execution_plan \<Rightarrow> plan_step list result" where
  "top_level_plan_steps C plan =
     and_then (build_loop_body_ownership C plan) (\<lambda>own.
       Inr (filter (\<lambda>s. \<not> is_owned own (ps_id s)) (plan_steps plan)))"

definition is_body_template :: "codec \<Rightarrow> execution_plan \<Rightarrow> string \<Rightarrow> bool result" where
  "is_body_template C plan step_id =
     and_then (build_loop_body_ownership C plan) (\<lambda>own. Inr (is_owned own step_id))"

definition plan_by_id :: "execution_plan \<Rightarrow> (string, plan_step) dict" where
  "plan_by_id plan = dict_of (map (\<lambda>ps. (ps_id ps, ps)) (plan_steps plan))"

abbreviation LOOP_RUNTIME_UNSUPPORTED :: py_error where
  "LOOP_RUNTIME_UNSUPPORTED \<equiv> AppError ''LOOP_RUNTIME_UNSUPPORTED'' 409"

text \<open>
  The check of one LOOP and its bodies.  \<open>LoopMode\<close> has no third value, so the code's test for an
  unsupported mode has no counterpart; \<open>LoopStepConfigV1.model_validate\<close> is outside any
  \<open>try\<close> here.
\<close>

definition assert_flat_body :: "(string, plan_step) dict \<Rightarrow> string \<Rightarrow> unit result" where
  "assert_flat_body by_id body_id =
     and_then (dict_at by_id body_id) (\<lambda>body.
       if ps_type body = LOOP then Inl LOOP_RUNTIME_UNSUPPORTED
       else if ps_type body = APPROVAL then Inl LOOP_RUNTIME_UNSUPPORTED
       else if ps_type body \<notin> {TOOL, CONDITION, JOIN} then Inl LOOP_RUNTIME_UNSUPPORTED
       else Inr ())"

definition assert_flat_foreach_runtime_compatible ::
    "codec \<Rightarrow> execution_plan \<Rightarrow> loop_body_ownership result" where
  "assert_flat_foreach_runtime_compatible C plan =
     and_then (build_loop_body_ownership C plan) (\<lambda>own.
       and_then
         (eachE (\<lambda>(loop_id, body_ids).
            and_then (dict_at (plan_by_id plan) loop_id) (\<lambda>loop_step.
            and_then (opt_or (validate_loop_config C (ps_config loop_step)) ValidationError) (\<lambda>cfg.
              if is_owned own loop_id then Inl LOOP_RUNTIME_UNSUPPORTED
              else eachE (assert_flat_body (plan_by_id plan)) body_ids)))
          (loop_to_body own))
         (\<lambda>_. Inr own))"

subsection \<open>Keys of iteration instances\<close>

definition iteration_step_key :: "uuid \<Rightarrow> int \<Rightarrow> string \<Rightarrow> string result" where
  "iteration_step_key parent n template =
     (if n < 1 then Inl RESOURCE_CONFLICT
      else Inr (''loop:'' @ uuid_hex parent @ '':'' @ zero_pad 6 (nat_dec (nat n)) @ '':''
                @ sha256_hexdigest template))"

definition template_id_from_step_snapshot :: "codec \<Rightarrow> execution_step \<Rightarrow> string result" where
  "template_id_from_step_snapshot C s =
     and_then (opt_or (validate_plan_step C (step_snapshot s)) RESOURCE_CONFLICT)
       (\<lambda>parsed. Inr (ps_id parsed))"

definition hash_collection :: "(rat \<Rightarrow> string) \<Rightarrow> json list \<Rightarrow> string" where
  "hash_collection fr xs = compute_canonical_json_hash fr (JList xs)"

definition result_inline_hash :: "(rat \<Rightarrow> string) \<Rightarrow> json \<Rightarrow> string" where
  "result_inline_hash fr result = compute_canonical_json_hash fr result"

definition hash_while_predicate_evidence :: "(rat \<Rightarrow> string) \<Rightarrow> (string, json) dict \<Rightarrow> string" where
  "hash_while_predicate_evidence fr evidence = compute_canonical_json_hash fr (JObj evidence)"

definition tool_version_for_template :: "codec \<Rightarrow> plan_step \<Rightarrow> uuid option result" where
  "tool_version_for_template C ps =
     (if ps_type ps \<noteq> TOOL then Inr None
      else and_then (opt_or (validate_tool_config C (ps_config ps)) ValidationError)
             (\<lambda>cfg. Inr (Some (tc_tool_version_id cfg))))"

definition child_instances_for_iteration ::
    "execution_step list \<Rightarrow> uuid \<Rightarrow> int \<Rightarrow> execution_step list" where
  "child_instances_for_iteration steps pid n =
     filter (\<lambda>s. parent_step_id s = Some pid \<and> iteration_no s = Some n) steps"

definition max_materialized_iteration :: "execution_step list \<Rightarrow> uuid \<Rightarrow> int" where
  "max_materialized_iteration steps pid =
     (case List.map_filter (\<lambda>s. if parent_step_id s = Some pid then iteration_no s else None) steps of
        [] \<Rightarrow> 0
      | n # ns \<Rightarrow> fold max ns n)"

subsection \<open>Projections a body binding can read\<close>

definition build_loop_context_projection ::
    "string \<Rightarrow> string \<Rightarrow> int \<Rightarrow> json \<Rightarrow> int \<Rightarrow> json result" where
  "build_loop_context_projection loop_id mode n item sz =
     (if n < 1 then Inl PRECONDITION_FAILED
      else Inr (JObj [(''loop_step_id'', JStr loop_id), (''mode'', JStr mode),
                      (''iteration_no'', JInt n), (''index'', JInt (n - 1)),
                      (''item'', item), (''collection_size'', JInt sz)]))"

definition build_while_loop_context_projection ::
    "string \<Rightarrow> int \<Rightarrow> int \<Rightarrow> json \<Rightarrow> json result" where
  "build_while_loop_context_projection loop_id n max_iterations previous =
     (if n < 1 then Inl PRECONDITION_FAILED
      else if max_iterations < 1 then Inl RESOURCE_CONFLICT
      else Inr (JObj [(''loop_step_id'', JStr loop_id), (''mode'', JStr ''WHILE''),
                      (''iteration_no'', JInt n), (''index'', JInt (n - 1)),
                      (''max_iterations'', JInt max_iterations),
                      (''previous_iteration'', previous)]))"

definition json_opt :: "('a \<Rightarrow> json) \<Rightarrow> 'a option \<Rightarrow> json" where
  "json_opt f x = (case x of None \<Rightarrow> JNull | Some y \<Rightarrow> f y)"

definition previous_iteration_step_projection :: "execution_step \<Rightarrow> json" where
  "previous_iteration_step_projection s =
     JObj [(''status'', JStr (step_status_value (status s))),
           (''condition_result'', json_opt JBool (condition_result s)),
           (''error_code'', json_opt JStr (error_code s)),
           (''result_inline'', result_inline s)]"

subsection \<open>WHILE control evidence\<close>

record while_entry =
  next_iteration_no :: int
  evidence_hash :: string
  gate :: bool

definition entry_json :: "while_entry \<Rightarrow> json" where
  "entry_json e =
     JObj [(''next_iteration_no'', JInt (next_iteration_no e)),
           (''evidence_hash'', JStr (evidence_hash e)), (''result'', JBool (gate e))]"

definition while_control_json :: "while_entry list \<Rightarrow> json" where
  "while_control_json es =
     JObj [(''mode'', JStr ''WHILE''), (''predicate_history'', JList (map entry_json es))]"

definition empty_while_control_evidence :: json where
  "empty_while_control_evidence = while_control_json []"

definition assert_sha256_hex :: "string option \<Rightarrow> string result" where
  "assert_sha256_hex v =
     and_then (opt_or v RESOURCE_CONFLICT) (\<lambda>s.
       if length s \<noteq> 64 \<or> (\<exists>c \<in> set s. \<not> is_hex_char c) then Inl RESOURCE_CONFLICT else Inr s)"

text \<open>One entry, at position \<open>idx\<close> of the list.\<close>

definition parse_while_entry :: "nat \<Rightarrow> json \<Rightarrow> while_entry result" where
  "parse_while_entry idx entry =
     and_then (opt_or (as_dict entry) RESOURCE_CONFLICT) (\<lambda>kvs.
       if \<not> has_keys kvs [''next_iteration_no'', ''evidence_hash'', ''result'']
       then Inl RESOURCE_CONFLICT
       else and_then (opt_or (get_int kvs ''next_iteration_no'') RESOURCE_CONFLICT) (\<lambda>n.
         if n < 1 then Inl RESOURCE_CONFLICT
         else if n \<noteq> int idx + 1 then Inl RESOURCE_CONFLICT
         else and_then (assert_sha256_hex (get_str kvs ''evidence_hash'')) (\<lambda>digest.
           and_then (opt_or (get_bool kvs ''result'') RESOURCE_CONFLICT) (\<lambda>b.
             Inr \<lparr>next_iteration_no = n, evidence_hash = digest, gate = b\<rparr>))))"

fun parse_while_entries :: "nat \<Rightarrow> json list \<Rightarrow> while_entry list result" where
  "parse_while_entries idx [] = Inr []"
| "parse_while_entries idx (x # xs) =
     and_then (parse_while_entry idx x) (\<lambda>e.
       and_then (parse_while_entries (Suc idx) xs) (\<lambda>es. Inr (e # es)))"

definition parse_while_predicate_history :: "json \<Rightarrow> while_entry list result" where
  "parse_while_predicate_history ri =
     and_then (opt_or (as_dict ri) RESOURCE_CONFLICT) (\<lambda>kvs.
       if \<not> has_keys kvs [''mode'', ''predicate_history''] then Inl RESOURCE_CONFLICT
       else if get_str kvs ''mode'' \<noteq> Some ''WHILE'' then Inl RESOURCE_CONFLICT
       else and_then (opt_or (get_list kvs ''predicate_history'') RESOURCE_CONFLICT)
         (parse_while_entries 0))"

definition history_entry_for :: "while_entry list \<Rightarrow> int \<Rightarrow> while_entry option" where
  "history_entry_for history n = find (\<lambda>e. next_iteration_no e = n) history"

text \<open>The new control evidence, as it is stored back into \<open>resolved_input\<close>.\<close>

definition append_or_replay_while_history :: "json \<Rightarrow> int \<Rightarrow> string \<Rightarrow> bool \<Rightarrow> json result" where
  "append_or_replay_while_history ri n h result =
     and_then (parse_while_predicate_history ri) (\<lambda>history.
     and_then (assert_sha256_hex (Some h)) (\<lambda>digest.
     and_then
       (case history_entry_for history n of
          None \<Rightarrow>
            if n \<noteq> int (length history) + 1 then Inl RESOURCE_CONFLICT
            else Inr (history @ [\<lparr>next_iteration_no = n, evidence_hash = digest, gate = result\<rparr>])
        | Some e \<Rightarrow>
            if evidence_hash e \<noteq> digest \<or> gate e \<noteq> result then Inl RESOURCE_CONFLICT
            else Inr history) (\<lambda>updated.
     and_then (parse_while_predicate_history (while_control_json updated))
       (\<lambda>es. Inr (while_control_json es)))))"

subsection \<open>FOR_EACH control evidence\<close>

record foreach_pin =
  pin_collection_hash :: string
  pin_collection_size :: int

definition parse_foreach_collection_pin :: "json \<Rightarrow> foreach_pin result" where
  "parse_foreach_collection_pin ri =
     and_then (opt_or (as_dict ri) RESOURCE_CONFLICT) (\<lambda>kvs.
       if \<not> has_keys kvs [''mode'', ''collection_hash'', ''collection_size'']
       then Inl RESOURCE_CONFLICT
       else if get_str kvs ''mode'' \<noteq> Some ''FOR_EACH'' then Inl RESOURCE_CONFLICT
       else and_then (assert_sha256_hex (get_str kvs ''collection_hash'')) (\<lambda>digest.
         and_then (opt_or (get_int kvs ''collection_size'') RESOURCE_CONFLICT) (\<lambda>n.
           if n < 0 then Inl RESOURCE_CONFLICT
           else Inr \<lparr>pin_collection_hash = digest, pin_collection_size = n\<rparr>)))"

definition projected_expanded_step_count :: "int \<Rightarrow> int \<Rightarrow> int \<Rightarrow> int" where
  "projected_expanded_step_count top_level_count collection_size body_step_count =
     top_level_count + collection_size * body_step_count"

subsection \<open>The predicate history is contiguous and append-only\<close>

fun history_from :: "nat \<Rightarrow> while_entry list \<Rightarrow> bool" where
  "history_from idx [] = True"
| "history_from idx (e # es) =
     (next_iteration_no e = int idx + 1 \<and> is_sha256_hex (evidence_hash e) \<and> history_from (Suc idx) es)"

lemma assert_sha256_hex_iff [simp]:
  "assert_sha256_hex v = Inr h \<longleftrightarrow> v = Some h \<and> is_sha256_hex h"
  by (auto simp: assert_sha256_hex_def is_sha256_hex_def list_all_iff)

lemma assert_sha256_hex_Inl: "assert_sha256_hex v = Inl e \<Longrightarrow> e = RESOURCE_CONFLICT"
  by (auto simp: assert_sha256_hex_def and_then_Inl_iff split: if_splits)

lemma assert_sha256_hex_ok [simp]:
  "is_sha256_hex h \<Longrightarrow> assert_sha256_hex (Some h) = Inr h"
  by simp

lemma parse_while_entry_ok:
  "parse_while_entry idx x = Inr e \<Longrightarrow>
     next_iteration_no e = int idx + 1 \<and> is_sha256_hex (evidence_hash e)"
  unfolding parse_while_entry_def by auto

lemma parse_while_entry_json:
  "next_iteration_no e = int idx + 1 \<Longrightarrow> is_sha256_hex (evidence_hash e) \<Longrightarrow>
     parse_while_entry idx (entry_json e) = Inr e"
  by (simp add: parse_while_entry_def entry_json_def get_int_def get_str_def get_bool_def has_keys_def)

lemma parse_while_entries_ok: "parse_while_entries idx xs = Inr es \<Longrightarrow> history_from idx es"
  by (induction xs arbitrary: idx es) (auto simp: parse_while_entry_ok)

lemma parse_while_entries_json:
  "history_from idx es \<Longrightarrow> parse_while_entries idx (map entry_json es) = Inr es"
  by (induction es arbitrary: idx) (auto simp: parse_while_entry_json)

lemma parse_history_ok: "parse_while_predicate_history ri = Inr es \<Longrightarrow> history_from 0 es"
  by (auto simp: parse_while_predicate_history_def parse_while_entries_ok)

lemma parse_history_json:
  "history_from 0 es \<Longrightarrow> parse_while_predicate_history (while_control_json es) = Inr es"
  by (simp add: parse_while_predicate_history_def while_control_json_def parse_while_entries_json
      get_str_def get_list_def has_keys_def)

lemma parse_history_error: "parse_while_predicate_history ri = Inl e \<Longrightarrow> e = RESOURCE_CONFLICT"
proof -
  have entry: "parse_while_entry idx x = Inl e \<Longrightarrow> e = RESOURCE_CONFLICT" for idx x e
    by (auto simp: parse_while_entry_def and_then_Inl_iff dest: assert_sha256_hex_Inl split: if_splits)
  have "parse_while_entries idx xs = Inl e \<Longrightarrow> e = RESOURCE_CONFLICT" for idx xs e
    by (induction xs arbitrary: idx) (auto simp: and_then_Inl_iff entry)
  then show "parse_while_predicate_history ri = Inl e \<Longrightarrow> e = RESOURCE_CONFLICT"
    by (auto simp: parse_while_predicate_history_def and_then_Inl_iff split: if_splits)
qed

lemma history_from_append:
  "history_from idx (es @ fs) \<longleftrightarrow> history_from idx es \<and> history_from (idx + length es) fs"
  by (induction es arbitrary: idx) auto

lemma history_entry_from:
  "history_from idx es \<Longrightarrow> find (\<lambda>e. next_iteration_no e = n) es =
     (if int idx + 1 \<le> n \<and> n \<le> int (idx + length es) then Some (es ! nat (n - int idx - 1)) else None)"
proof (induction es arbitrary: idx)
  case (Cons e es)
  show ?case
  proof (cases "n = int idx + 1")
    case True
    with Cons.prems show ?thesis
      by simp
  next
    case False
    have nth: "(e # es) ! nat (n - int idx - 1) = es ! nat (n - int (Suc idx) - 1)"
      if "int (Suc idx) + 1 \<le> n"
    proof -
      from that have "nat (n - int idx - 1) = Suc (nat (n - int (Suc idx) - 1))"
        by simp
      then show ?thesis
        by simp
    qed
    from False Cons.prems Cons.IH [of "Suc idx"] show ?thesis
      using nth by auto
  qed
qed simp

lemma history_entry_for_eq:
  "history_from 0 es \<Longrightarrow> history_entry_for es n =
     (if 1 \<le> n \<and> n \<le> int (length es) then Some (es ! nat (n - 1)) else None)"
  using history_entry_from [of 0 es n] by (simp add: history_entry_for_def)

lemma append_or_replay_eq:
  assumes "parse_while_predicate_history ri = Inr es" and "is_sha256_hex h"
  shows "append_or_replay_while_history ri n h r =
    (if n = int (length es) + 1 then
       Inr (while_control_json (es @ [\<lparr>next_iteration_no = n, evidence_hash = h, gate = r\<rparr>]))
     else if 1 \<le> n \<and> n \<le> int (length es)
             \<and> evidence_hash (es ! nat (n - 1)) = h \<and> gate (es ! nat (n - 1)) = r then
       Inr (while_control_json es)
     else Inl RESOURCE_CONFLICT)"
proof -
  from assms(1) have wf: "history_from 0 es"
    by (rule parse_history_ok)
  with assms(2) have "history_from 0 (es @ [\<lparr>next_iteration_no = int (length es) + 1,
      evidence_hash = h, gate = r\<rparr>])"
    by (simp add: history_from_append)
  with wf assms show ?thesis
    by (auto simp: append_or_replay_while_history_def history_entry_for_eq parse_history_json)
qed

subsection \<open>The interface of an evidence log\<close>

text \<open>
  What the orchestrator relies on when it records the outcome of a gate: entries are only ever added
  at the end, and recording the same outcome again is accepted and changes nothing.
\<close>

locale evidence_log =
  fixes log :: "'s \<Rightarrow> ('h \<times> bool) list option"
    and rec :: "int \<Rightarrow> 'h \<Rightarrow> bool \<Rightarrow> 's \<Rightarrow> 's result"
    and good :: "'h \<Rightarrow> bool"
  assumes rec_bad: "\<not> good h \<Longrightarrow> \<exists>e. rec n h b s = Inl e"
    and rec_new: "log s = Some es \<Longrightarrow> good h \<Longrightarrow> n = int (length es) + 1 \<Longrightarrow>
      \<exists>s'. rec n h b s = Inr s' \<and> log s' = Some (es @ [(h, b)])"
    and rec_same: "log s = Some es \<Longrightarrow> good h \<Longrightarrow> 1 \<le> n \<Longrightarrow> n \<le> int (length es) \<Longrightarrow>
      es ! nat (n - 1) = (h, b) \<Longrightarrow> \<exists>s'. rec n h b s = Inr s' \<and> log s' = Some es"
    and rec_other: "log s = Some es \<Longrightarrow> good h \<Longrightarrow> n \<noteq> int (length es) + 1 \<Longrightarrow>
      \<not> (1 \<le> n \<and> n \<le> int (length es) \<and> es ! nat (n - 1) = (h, b)) \<Longrightarrow> \<exists>e. rec n h b s = Inl e"
begin

lemma rec_cases:
  assumes "log s = Some es" and "rec n h b s = Inr s'"
  shows "good h \<and> 1 \<le> n \<and> (\<exists>es'. log s' = Some es' \<and> prefix es es' \<and> n \<le> int (length es') \<and>
    es' ! nat (n - 1) = (h, b))"
proof (cases "good h")
  case True
  consider "n = int (length es) + 1" | "1 \<le> n" "n \<le> int (length es)" "es ! nat (n - 1) = (h, b)"
    using rec_other [OF assms(1) True, of n b] assms(2) by fastforce
  then show ?thesis
  proof cases
    case 1
    with rec_new [OF assms(1) True 1, of b] assms(2) True show ?thesis
      by auto
  next
    case 2
    with rec_same [OF assms(1) True 2] assms(2) True show ?thesis
      by auto
  qed
next
  case False
  with rec_bad [of h n b s] assms(2) show ?thesis
    by simp
qed

text \<open>Any sequence of recordings extends the log at its end.\<close>

lemma recs_prefix:
  assumes "log s = Some es" and "foldE (\<lambda>(n, h, b). rec n h b) ops s = Inr s'"
  shows "\<exists>es'. log s' = Some es' \<and> prefix es es'"
  using assms
proof (induction ops arbitrary: s es)
  case (Cons x ops)
  obtain n h b where "x = (n, h, b)"
    by (cases x)
  with Cons.prems obtain t where t: "rec n h b s = Inr t" "foldE (\<lambda>(n, h, b). rec n h b) ops t = Inr s'"
    by auto
  from rec_cases [OF Cons.prems(1) t(1)] obtain ts where "log t = Some ts" "prefix es ts"
    by blast
  with Cons.IH [OF _ t(2)] show ?case
    using prefix_order.trans by blast
qed auto

text \<open>What was recorded stays recorded: later the same outcome is accepted and any other one is refused.\<close>

lemma rec_again:
  assumes "log s = Some es" and "rec n h b s = Inr s'"
    and "foldE (\<lambda>(n, h, b). rec n h b) ops s' = Inr t" and "good h'"
  shows "(\<exists>t'. rec n h' b' t = Inr t' \<and> log t' = log t) \<longleftrightarrow> h' = h \<and> b' = b"
    and "(\<exists>e. rec n h' b' t = Inl e) \<longleftrightarrow> (h', b') \<noteq> (h, b)"
proof -
  from rec_cases [OF assms(1,2)] obtain es' where s': "log s' = Some es'" and n: "1 \<le> n"
      "n \<le> int (length es')" "es' ! nat (n - 1) = (h, b)"
    by blast
  from recs_prefix [OF s' assms(3)] obtain ts where ts: "log t = Some ts" "prefix es' ts"
    by blast
  from n(1,2) have "nat (n - 1) < length es'"
    by linarith
  with ts(2) n have n': "n \<le> int (length ts)" "ts ! nat (n - 1) = (h, b)"
    by (auto simp: prefix_def nth_append)
  show "(\<exists>t'. rec n h' b' t = Inr t' \<and> log t' = log t) \<longleftrightarrow> h' = h \<and> b' = b"
    using rec_same [OF ts(1) assms(4) n(1) n'(1), of b'] rec_other [OF ts(1) assms(4), of n b'] n' ts(1)
    by fastforce
  show "(\<exists>e. rec n h' b' t = Inl e) \<longleftrightarrow> (h', b') \<noteq> (h, b)"
    using rec_same [OF ts(1) assms(4) n(1) n'(1), of b'] rec_other [OF ts(1) assms(4), of n b'] n'
    by fastforce
qed

end

text \<open>The log a WHILE row's \<open>resolved_input\<close> stands for.\<close>

definition while_log :: "json \<Rightarrow> (string \<times> bool) list option" where
  "while_log ri = (case parse_while_predicate_history ri of
      Inl _ \<Rightarrow> None | Inr es \<Rightarrow> Some (map (\<lambda>e. (evidence_hash e, gate e)) es))"

definition while_record :: "int \<Rightarrow> string \<Rightarrow> bool \<Rightarrow> json \<Rightarrow> json result" where
  "while_record n h b ri = append_or_replay_while_history ri n h b"

lemma while_log_Some:
  "while_log ri = Some xs \<longleftrightarrow> (\<exists>es. parse_while_predicate_history ri = Inr es \<and>
     xs = map (\<lambda>e. (evidence_hash e, gate e)) es)"
  by (auto simp: while_log_def split: sum.splits)

lemma while_log_json: "history_from 0 es \<Longrightarrow>
    while_log (while_control_json es) = Some (map (\<lambda>e. (evidence_hash e, gate e)) es)"
  by (simp add: while_log_def parse_history_json)

interpretation wl: evidence_log while_log while_record is_sha256_hex
proof (unfold_locales, goal_cases)
  case (1 h n b s)
  then show ?case
    by (cases "while_record n h b s") (auto simp: while_record_def append_or_replay_while_history_def)
next
  case (2 s xs h n b)
  then obtain es where es: "parse_while_predicate_history s = Inr es"
      "xs = map (\<lambda>e. (evidence_hash e, gate e)) es"
    by (auto simp: while_log_Some)
  with 2 parse_history_ok [OF es(1)] show ?case
    by (simp add: while_record_def append_or_replay_eq while_log_json history_from_append)
next
  case (3 s xs h n b)
  then obtain es where es: "parse_while_predicate_history s = Inr es"
      "xs = map (\<lambda>e. (evidence_hash e, gate e)) es"
    by (auto simp: while_log_Some)
  then have "nat (n - 1) < length es"
    using 3 by auto
  with 3 es parse_history_ok [OF es(1)] show ?case
    by (auto simp: while_record_def append_or_replay_eq while_log_json)
next
  case (4 s xs h n b)
  then obtain es where es: "parse_while_predicate_history s = Inr es"
      "xs = map (\<lambda>e. (evidence_hash e, gate e)) es"
    by (auto simp: while_log_Some)
  have "nat (n - 1) < length es" if "1 \<le> n" "n \<le> int (length es)"
    using that by auto
  with 4 es show ?case
    by (auto simp: while_record_def append_or_replay_eq)
qed

subsection \<open>Keys of iteration instances are unambiguous\<close>

lemma iteration_step_key_Inr:
  "iteration_step_key pid n t = Inr key \<longleftrightarrow> 1 \<le> n \<and>
     key = ''loop:'' @ uuid_hex pid @ '':'' @ zero_pad 6 (nat_dec (nat n)) @ '':'' @ sha256_hexdigest t"
  by (auto simp: iteration_step_key_def)

lemma append_sep_inj:
  "c \<notin> set u \<Longrightarrow> c \<notin> set v \<Longrightarrow> u @ c # x = v @ c # y \<longleftrightarrow> u = v \<and> x = y"
proof (induction u arbitrary: v)
  case Nil
  then show ?case
    by (cases v) auto
next
  case (Cons a u)
  then show ?case
    by (cases v) auto
qed

lemma iteration_step_key_inj:
  assumes "iteration_step_key pid m t = Inr key" and "iteration_step_key qid n u = Inr key"
  shows "pid = qid \<and> m = n \<and> sha256_hexdigest t = sha256_hexdigest u"
proof -
  let ?a = "zero_pad 6 (nat_dec (nat m))" and ?b = "zero_pad 6 (nat_dec (nat n))"
  have "\<not> ascii_digit (CHR '':'')"
    by (simp add: ascii_digit_iff)
  then have colon: "CHR '':'' \<notin> set ?a" "CHR '':'' \<notin> set ?b"
    using zero_pad_digits by (auto simp: list_all_iff)
  from assms have eq: "uuid_hex pid @ '':'' @ ?a @ '':'' @ sha256_hexdigest t
      = uuid_hex qid @ '':'' @ ?b @ '':'' @ sha256_hexdigest u" and mn: "1 \<le> m" "1 \<le> n"
    by (simp_all add: iteration_step_key_Inr)
  then have "uuid_hex pid = uuid_hex qid" "?a @ CHR '':'' # sha256_hexdigest t
      = ?b @ CHR '':'' # sha256_hexdigest u"
    by (auto simp: append_eq_append_conv)
  with append_sep_inj [OF colon] have "uuid_hex pid = uuid_hex qid" "?a = ?b"
      "sha256_hexdigest t = sha256_hexdigest u"
    by auto
  with mn show ?thesis
    using uuid_hex_inj zero_pad_inj by fastforce
qed

subsection \<open>Ownership\<close>

lemma foldE_own_body:
  assumes "foldE (own_body ids loop_id) bodies b2l = Inr b2l'"
  shows "map_of b2l' = (\<lambda>b. if b \<in> set bodies then Some loop_id else map_of b2l b)
    \<and> set bodies \<subseteq> set ids - {loop_id}
    \<and> (\<forall>b \<in> set bodies. map_of b2l b \<in> {None, Some loop_id})"
  using assms
proof (induction bodies arbitrary: b2l)
  case (Cons b bs)
  then obtain d where d: "own_body ids loop_id b b2l = Inr d" "foldE (own_body ids loop_id) bs d = Inr b2l'"
    by auto
  then have "map_of d = (map_of b2l)(b \<mapsto> loop_id)" "b \<in> set ids" "b \<noteq> loop_id"
      "map_of b2l b \<in> {None, Some loop_id}"
    by (cases "map_of b2l b"; auto simp: own_body_def)+
  with Cons.IH [OF d(2)] show ?case
    by (auto simp: fun_eq_iff split: if_splits)
qed auto

text \<open>What the fold over the plan keeps: the two maps are converse to each other.\<close>

definition ownership_ok :: "string list \<Rightarrow> loop_body_ownership \<Rightarrow> bool" where
  "ownership_ok ids own \<longleftrightarrow>
     (\<forall>b l. map_of (body_to_loop own) b = Some l \<longleftrightarrow>
        (\<exists>bs. map_of (loop_to_body own) l = Some bs \<and> b \<in> set bs)) \<and>
     (\<forall>l bs. map_of (loop_to_body own) l = Some bs \<longrightarrow> set bs \<subseteq> set ids - {l})"

lemma ownership_okD:
  "ownership_ok ids own \<Longrightarrow> map_of (body_to_loop own) b = Some l \<Longrightarrow>
     \<exists>bs. map_of (loop_to_body own) l = Some bs \<and> b \<in> set bs \<and> b \<noteq> l \<and> b \<in> set ids"
  unfolding ownership_ok_def by (metis DiffE insertI1 subsetD)

lemma ownership_okI:
  "ownership_ok ids own \<Longrightarrow> map_of (loop_to_body own) l = Some bs \<Longrightarrow> b \<in> set bs \<Longrightarrow>
     map_of (body_to_loop own) b = Some l"
  unfolding ownership_ok_def by metis

lemma own_step_LOOP:
  "ps_type step = LOOP \<Longrightarrow> own_step C ids step own = Inr own' \<longleftrightarrow>
     (\<exists>cfg b2l. validate_loop_config C (ps_config step) = Some cfg \<and>
        foldE (own_body ids (ps_id step)) (lc_body_step_ids cfg) (body_to_loop own) = Inr b2l \<and>
        own' = \<lparr>body_to_loop = b2l,
                loop_to_body = dict_set (ps_id step) (lc_body_step_ids cfg) (loop_to_body own)\<rparr>)"
  by (auto simp: own_step_def)

lemma own_step_other: "ps_type step \<noteq> LOOP \<Longrightarrow> own_step C ids step own = Inr own"
  by (simp add: own_step_def)

lemma own_step_ok:
  assumes "own_step C ids step own = Inr own'" and "ownership_ok ids own"
    and "map_of (loop_to_body own) (ps_id step) = None"
  shows "ownership_ok ids own'"
proof (cases "ps_type step = LOOP")
  case True
  let ?l = "ps_id step"
  from assms(1) True obtain cfg :: loop_config and b2l where
      f: "foldE (own_body ids ?l) (lc_body_step_ids cfg) (body_to_loop own) = Inr b2l"
    and own': "own' = \<lparr>body_to_loop = b2l,
        loop_to_body = dict_set ?l (lc_body_step_ids cfg) (loop_to_body own)\<rparr>"
    unfolding own_step_LOOP [OF True] by blast
  note b2l = foldE_own_body [OF f]
  from assms(2) have conv: "(\<exists>bs. map_of (loop_to_body own) l = Some bs \<and> b \<in> set bs) \<longleftrightarrow>
      map_of (body_to_loop own) b = Some l" for b l
    by (simp add: ownership_ok_def)
  have new: "map_of (body_to_loop own) b \<noteq> Some ?l" for b
    using conv [of ?l b] assms(3) by simp
  with b2l have free: "map_of (body_to_loop own) b = None" if "b \<in> set (lc_body_step_ids cfg)" for b
    using that by blast
  have "(if b \<in> set (lc_body_step_ids cfg) then Some ?l else map_of (body_to_loop own) b) = Some l \<longleftrightarrow>
      (\<exists>bs. ((map_of (loop_to_body own))(?l \<mapsto> lc_body_step_ids cfg)) l = Some bs \<and> b \<in> set bs)" for b l
    by (cases "l = ?l"; cases "b \<in> set (lc_body_step_ids cfg)") (simp_all add: free new conv)
  with b2l assms(2) show ?thesis
    unfolding ownership_ok_def own' by (auto split: if_splits)
qed (use assms in \<open>auto simp: own_step_def\<close>)

lemma own_step_keys:
  "own_step C ids step own = Inr own' \<Longrightarrow>
     dom (map_of (loop_to_body own')) \<subseteq> insert (ps_id step) (dom (map_of (loop_to_body own)))"
  by (auto simp: own_step_def split: if_splits)

lemma build_ownership_ok:
  assumes "build_loop_body_ownership C plan = Inr own" and "distinct (map ps_id (plan_steps plan))"
  shows "ownership_ok (map ps_id (plan_steps plan)) own"
proof -
  let ?ids = "map ps_id (plan_steps plan)"
  have "foldE (own_step C ?ids) xs o0 = Inr own \<Longrightarrow> ownership_ok ?ids o0 \<Longrightarrow> distinct (map ps_id xs)
      \<Longrightarrow> dom (map_of (loop_to_body o0)) \<inter> ps_id ` set xs = {} \<Longrightarrow> ownership_ok ?ids own" for xs o0
  proof (induction xs arbitrary: o0)
    case (Cons x xs)
    then obtain o1 where o1: "own_step C ?ids x o0 = Inr o1" "foldE (own_step C ?ids) xs o1 = Inr own"
      by auto
    from Cons.prems have "map_of (loop_to_body o0) (ps_id x) = None"
      by auto
    then have "ownership_ok ?ids o1"
      using own_step_ok [OF o1(1) Cons.prems(2)] by blast
    moreover have "dom (map_of (loop_to_body o1)) \<inter> ps_id ` set xs = {}"
      using own_step_keys [OF o1(1)] Cons.prems(3,4) by (simp add: disjoint_iff subset_iff) metis
    ultimately show ?case
      using Cons.IH [OF o1(2)] Cons.prems(3) by simp
  qed simp
  from this [OF assms(1) [unfolded build_loop_body_ownership_def]] assms(2) show ?thesis
    by (simp add: ownership_ok_def)
qed

lemma build_ownership_loops:
  assumes "build_loop_body_ownership C plan = Inr own" and "map_of (loop_to_body own) l = Some bs"
  shows "\<exists>ps \<in> set (plan_steps plan). ps_id ps = l \<and> ps_type ps = LOOP \<and>
    (\<exists>cfg. validate_loop_config C (ps_config ps) = Some cfg \<and> lc_body_step_ids cfg = bs)"
proof -
  let ?P = "\<lambda>(done :: plan_step list) (own :: loop_body_ownership). \<forall>l bs. map_of (loop_to_body own) l = Some bs \<longrightarrow>
    (\<exists>ps \<in> set done. ps_id ps = l \<and> ps_type ps = LOOP \<and>
      (\<exists>cfg. validate_loop_config C (ps_config ps) = Some cfg \<and> lc_body_step_ids cfg = bs))"
  have "?P (plan_steps plan) own"
  proof (rule foldE_invariant [OF assms(1) [unfolded build_loop_body_ownership_def]])
    fix xs x o0 o1
    assume "?P xs o0" "own_step C (map ps_id (plan_steps plan)) x o0 = Inr o1"
    then show "?P (xs @ [x]) o1"
    proof (cases "ps_type x = LOOP")
      case True
      from \<open>own_step C _ x o0 = Inr o1\<close> obtain cfg :: loop_config and b2l where
          "validate_loop_config C (ps_config x) = Some cfg"
          "loop_to_body o1 = dict_set (ps_id x) (lc_body_step_ids cfg) (loop_to_body o0)"
        unfolding own_step_LOOP [OF True] by (elim exE conjE) (rule that, simp_all)
      with \<open>?P xs o0\<close> True show ?thesis
        by (auto split: if_splits)
    next
      case False
      with \<open>own_step C _ x o0 = Inr o1\<close> have "o1 = o0"
        by (simp add: own_step_other)
      with \<open>?P xs o0\<close> show ?thesis
        by auto
    qed
  qed simp
  with assms(2) show ?thesis
    by blast
qed

lemma build_ownership_tops:
  assumes "top_level_plan_steps C plan = Inr tops"
  obtains own where "build_loop_body_ownership C plan = Inr own"
    and "tops = filter (\<lambda>s. \<not> is_owned own (ps_id s)) (plan_steps plan)"
  using assms by (auto simp: top_level_plan_steps_def)

lemma flat_compatible_ok:
  assumes "assert_flat_foreach_runtime_compatible C plan = Inr own"
  shows "build_loop_body_ownership C plan = Inr own"
    and "(l, bs) \<in> set (loop_to_body own) \<Longrightarrow> \<not> is_owned own l"
    and "(l, bs) \<in> set (loop_to_body own) \<Longrightarrow> b \<in> set bs \<Longrightarrow>
      \<exists>body. map_of (plan_by_id plan) b = Some body \<and> ps_type body \<in> {TOOL, CONDITION, JOIN}"
  using assms by (fastforce simp: assert_flat_foreach_runtime_compatible_def assert_flat_body_def
      split: if_splits)+

subsection \<open>Properties\<close>

text \<open>Recording a gate outcome in the predicate history of a WHILE row, on every branch: the next
  iteration number appends one entry, an iteration number already recorded with the same evidence and
  result leaves the history as it is, and everything else is a conflict.\<close>

theorem while_history_record:
  assumes "parse_while_predicate_history ri = Inr es" and "is_sha256_hex h"
  shows "append_or_replay_while_history ri n h r =
    (if n = int (length es) + 1 then
       Inr (while_control_json (es @ [\<lparr>next_iteration_no = n, evidence_hash = h, gate = r\<rparr>]))
     else if 1 \<le> n \<and> n \<le> int (length es)
             \<and> evidence_hash (es ! nat (n - 1)) = h \<and> gate (es ! nat (n - 1)) = r then
       Inr (while_control_json es)
     else Inl RESOURCE_CONFLICT)"
  using assms by (rule append_or_replay_eq)

theorem while_history_record_witness:
  "append_or_replay_while_history empty_while_control_evidence 1 (sha256_hexdigest ''e'') True =
     Inr (while_control_json [\<lparr>next_iteration_no = 1, evidence_hash = sha256_hexdigest ''e'', gate = True\<rparr>])"
  using while_history_record [of empty_while_control_evidence "[]" "sha256_hexdigest ''e''" 1 True]
    parse_history_json [of "[]"]
  by (simp add: empty_while_control_evidence_def)

text \<open>C31: The predicate history is append-only under any sequence of recordings, and what was recorded
  stays decided: afterwards the same outcome is accepted without changing the history and a different
  one, in digest or in result, is refused.\<close>

theorem while_history_append_only:
  assumes "while_log ri = Some es"
    and "append_or_replay_while_history ri n h b = Inr ri'"
    and "foldE (\<lambda>(n, h, b) s. append_or_replay_while_history s n h b) ops ri' = Inr ri''"
    and "is_sha256_hex h'"
  shows "(\<exists>es'. while_log ri'' = Some es' \<and> prefix es es')
    \<and> ((\<exists>t. append_or_replay_while_history ri'' n h' b' = Inr t \<and> while_log t = while_log ri'')
        \<longleftrightarrow> h' = h \<and> b' = b)
    \<and> ((\<exists>e. append_or_replay_while_history ri'' n h' b' = Inl e) \<longleftrightarrow> (h', b') \<noteq> (h, b))"
proof -
  have rec: "(\<lambda>(n, h, b) s. append_or_replay_while_history s n h b) = (\<lambda>(n, h, b). while_record n h b)"
    by (auto simp: while_record_def fun_eq_iff)
  from wl.rec_cases [OF assms(1), of n h b ri'] assms(2) obtain es1 where
      es1: "while_log ri' = Some es1" "prefix es es1"
    by (auto simp: while_record_def)
  from wl.recs_prefix [OF es1(1) assms(3) [unfolded rec]] es1(2)
  have "\<exists>es'. while_log ri'' = Some es' \<and> prefix es es'"
    using prefix_order.trans by blast
  with wl.rec_again [OF assms(1) assms(2) [folded while_record_def] assms(3) [unfolded rec] assms(4)]
  show ?thesis
    by (simp add: while_record_def)
qed

theorem while_history_append_only_witness:
  "\<exists>ri' ri''. append_or_replay_while_history empty_while_control_evidence 1 (sha256_hexdigest ''e'') True
       = Inr ri' \<and>
     append_or_replay_while_history ri' 2 (sha256_hexdigest ''f'') False = Inr ri'' \<and>
     (\<exists>e. append_or_replay_while_history ri'' 1 (sha256_hexdigest ''e'') False = Inl e)"
proof -
  let ?e = "\<lparr>next_iteration_no = 1, evidence_hash = sha256_hexdigest ''e'', gate = True\<rparr>"
  let ?f = "\<lparr>next_iteration_no = 2, evidence_hash = sha256_hexdigest ''f'', gate = False\<rparr>"
  have log: "while_log empty_while_control_evidence = Some []"
    by (simp add: empty_while_control_evidence_def while_log_json)
  have one: "append_or_replay_while_history empty_while_control_evidence 1 (sha256_hexdigest ''e'') True
      = Inr (while_control_json [?e])"
    using append_or_replay_eq [OF parse_history_json, of "[]" "sha256_hexdigest ''e''" 1 True]
    by (simp add: empty_while_control_evidence_def)
  have two: "append_or_replay_while_history (while_control_json [?e]) 2 (sha256_hexdigest ''f'') False
      = Inr (while_control_json [?e, ?f])"
    using append_or_replay_eq [OF parse_history_json, of "[?e]" "sha256_hexdigest ''f''" 2 False]
    by simp
  from while_history_append_only [OF log one, of "[(2, sha256_hexdigest ''f'', False)]"
      "while_control_json [?e, ?f]" "sha256_hexdigest ''e''" False] one two
  show ?thesis
    by auto
qed

text \<open>The key of an iteration instance determines the LOOP row, the iteration number and the digest of
  the template identifier.\<close>

theorem iteration_keys_unambiguous:
  assumes "iteration_step_key pid m t = Inr key" and "iteration_step_key qid n u = Inr key"
  shows "pid = qid \<and> m = n \<and> sha256_hexdigest t = sha256_hexdigest u"
  using assms by (rule iteration_step_key_inj)

theorem iteration_keys_unambiguous_witness:
  "iteration_step_key 3 12 ''b'' = Inr (''loop:'' @ uuid_hex 3 @ '':'' @ zero_pad 6 (nat_dec 12) @ '':''
      @ sha256_hexdigest ''b'') \<and> (3 :: uuid) = 3 \<and> (12 :: int) = 12"
  using iteration_keys_unambiguous [of 3 12 "''b''" _ 3 12 "''b''"]
  by (simp add: iteration_step_key_Inr)

text \<open>The two ownership maps of a plan with distinct step identifiers are converse to each other: a step
  is owned by the LOOP whose configuration lists it, by no other, and never by itself.\<close>

theorem loop_ownership_converse:
  assumes "build_loop_body_ownership C plan = Inr own" and "distinct (map ps_id (plan_steps plan))"
  shows "map_of (body_to_loop own) b = Some l \<longleftrightarrow>
    (\<exists>bs. map_of (loop_to_body own) l = Some bs \<and> b \<in> set bs \<and> b \<noteq> l \<and>
       b \<in> set (map ps_id (plan_steps plan)) \<and>
       (\<exists>ps \<in> set (plan_steps plan). ps_id ps = l \<and> ps_type ps = LOOP \<and>
          (\<exists>cfg. validate_loop_config C (ps_config ps) = Some cfg \<and> lc_body_step_ids cfg = bs)))"
    (is "?owned \<longleftrightarrow> ?listed")
proof
  assume ?owned
  from ownership_okD [OF build_ownership_ok [OF assms] this] obtain bs where
      bs: "map_of (loop_to_body own) l = Some bs" "b \<in> set bs" "b \<noteq> l"
        "b \<in> set (map ps_id (plan_steps plan))"
    by (elim exE conjE) (rule that)
  from build_ownership_loops [OF assms(1) bs(1)] bs show ?listed
    by (intro exI [of _ bs] conjI)
next
  assume ?listed
  then show ?owned
    by (elim exE conjE) (rule ownership_okI [OF build_ownership_ok [OF assms]])
qed

definition foreach_sample_steps :: "plan_step list" where
  "foreach_sample_steps = [sample_step ''f'' LOOP [], sample_step ''b'' TOOL []]"

definition foreach_sample_codec :: codec where
  "foreach_sample_codec = table_codec foreach_sample_steps [] [] []
     [(''f'', \<lparr>lc_mode = FOR_EACH, lc_max_iterations = 3, lc_body_step_ids = [''b''],
       lc_collection = Some (PlanLiteralBinding (JList [])), lc_predicate = None\<rparr>)]"

lemma foreach_sample_ownership:
  "build_loop_body_ownership foreach_sample_codec (sample_plan foreach_sample_steps)
     = Inr \<lparr>body_to_loop = [(''b'', ''f'')], loop_to_body = [(''f'', [''b''])]\<rparr>"
  by (simp add: build_loop_body_ownership_def own_step_def own_body_def foreach_sample_steps_def
      foreach_sample_codec_def sample_simps dict_set_def)

theorem loop_ownership_converse_witness:
  "\<exists>own. build_loop_body_ownership foreach_sample_codec (sample_plan foreach_sample_steps) = Inr own \<and>
     map_of (body_to_loop own) ''b'' = Some ''f'' \<and>
     (\<exists>bs. map_of (loop_to_body own) ''f'' = Some bs \<and> ''b'' \<in> set bs)"
  using loop_ownership_converse [OF foreach_sample_ownership, of "''b''" "''f''"]
  by (simp add: foreach_sample_ownership)

text \<open>A plan accepted by the flat LOOP check has no nesting and no unsupported body: every LOOP is a
  top-level step, every body is a TOOL, CONDITION or JOIN step and not top-level, and the
  top-level steps are the plan's steps that no LOOP owns, in plan order.\<close>

theorem flat_loops_partition:
  assumes "assert_flat_foreach_runtime_compatible C plan = Inr own"
    and "distinct (map ps_id (plan_steps plan))"
  shows "\<exists>tops. top_level_plan_steps C plan = Inr tops \<and>
    tops = filter (\<lambda>ps. map_of (body_to_loop own) (ps_id ps) = None) (plan_steps plan) \<and>
    (\<forall>ps \<in> set (plan_steps plan). ps_type ps = LOOP \<longrightarrow> ps \<in> set tops) \<and>
    (\<forall>ps \<in> set (plan_steps plan). ps \<notin> set tops \<longrightarrow> ps_type ps \<in> {TOOL, CONDITION, JOIN})"
proof -
  note own = flat_compatible_ok(1) [OF assms(1)]
  let ?tops = "filter (\<lambda>ps. map_of (body_to_loop own) (ps_id ps) = None) (plan_steps plan)"
  have lookup: "map_of (plan_by_id plan) (ps_id ps) = Some ps" if "ps \<in> set (plan_steps plan)" for ps
    using that assms(2) by (simp add: plan_by_id_def dict_of_distinct comp_def map_of_is_SomeI)
  have body: "ps_type ps \<in> {TOOL, CONDITION, JOIN}"
    if "ps \<in> set (plan_steps plan)" "map_of (body_to_loop own) (ps_id ps) = Some l" for ps l
  proof -
    from ownership_okD [OF build_ownership_ok [OF own assms(2)] that(2)] obtain bs where
        "map_of (loop_to_body own) l = Some bs" "ps_id ps \<in> set bs"
      by blast
    with flat_compatible_ok(3) [OF assms(1) map_of_SomeD] lookup [OF that(1)] show ?thesis
      by fastforce
  qed
  have "top_level_plan_steps C plan = Inr ?tops"
    by (simp add: top_level_plan_steps_def own is_owned_def)
  with body show ?thesis
    by fastforce
qed

theorem flat_loops_partition_witness:
  "\<exists>own tops. assert_flat_foreach_runtime_compatible foreach_sample_codec (sample_plan foreach_sample_steps)
       = Inr own \<and>
     top_level_plan_steps foreach_sample_codec (sample_plan foreach_sample_steps) = Inr tops \<and>
     map ps_id tops = [''f'']"
proof -
  have ok: "assert_flat_foreach_runtime_compatible foreach_sample_codec (sample_plan foreach_sample_steps)
      = Inr \<lparr>body_to_loop = [(''b'', ''f'')], loop_to_body = [(''f'', [''b''])]\<rparr>"
    by (simp add: assert_flat_foreach_runtime_compatible_def foreach_sample_ownership)
      (simp add: assert_flat_body_def plan_by_id_def dict_of_def dict_set_def is_owned_def dict_at_def
        foreach_sample_steps_def foreach_sample_codec_def sample_simps)
  have "distinct (map ps_id (plan_steps (sample_plan foreach_sample_steps)))"
    by (simp add: foreach_sample_steps_def sample_simps)
  from flat_loops_partition [OF ok this] ok show ?thesis
    by (auto simp: foreach_sample_steps_def sample_simps)
qed

end
