(* ===== verification/WhileControl.thy ===== *)
theory WhileControl
  imports LoopRuntime Samples
begin

section \<open>The WHILE control invariant\<close>

text \<open>
  The second half of \<^verbatim>\<open>src/backend/app/execution/loop_runtime.py\<close>: the lineage checks on
  a WHILE LOOP's children, the projection of the previous iteration and
  \<open>assert_while_parent_control_state\<close>, which relates the status of a WHILE row to its predicate
  history and to its materialised iterations.
\<close>

subsection \<open>Lineage of the evidence\<close>

definition assert_while_child_immutable_lineage ::
    "codec \<Rightarrow> execution_step \<Rightarrow> uuid \<Rightarrow> int \<Rightarrow> plan_step \<Rightarrow> unit result" where
  "assert_while_child_immutable_lineage C child pid n template =
     (if parent_step_id child \<noteq> Some pid then Inl RESOURCE_CONFLICT
      else if iteration_no child \<noteq> Some n then Inl RESOURCE_CONFLICT
      else if \<not> py_eq (step_snapshot child) (dump_plan_step C template) then Inl RESOURCE_CONFLICT
      else if st_type child \<noteq> ps_type template then Inl RESOURCE_CONFLICT
      else and_then (iteration_step_key pid n (ps_id template)) (\<lambda>key.
        if step_key child \<noteq> key then Inl RESOURCE_CONFLICT else Inr ()))"

definition assert_while_top_level_ancestor_lineage ::
    "codec \<Rightarrow> execution_step \<Rightarrow> plan_step \<Rightarrow> unit result" where
  "assert_while_top_level_ancestor_lineage C row ps =
     (if parent_step_id row \<noteq> None then Inl RESOURCE_CONFLICT
      else if step_key row \<noteq> ps_id ps then Inl RESOURCE_CONFLICT
      else if st_type row \<noteq> ps_type ps then Inl RESOURCE_CONFLICT
      else if \<not> py_eq (step_snapshot row) (dump_plan_step C ps) then Inl RESOURCE_CONFLICT
      else Inr ())"

subsection \<open>The previous iteration\<close>

definition insert_template :: "codec \<Rightarrow> execution_step \<Rightarrow> (string, execution_step) dict
    \<Rightarrow> (string, execution_step) dict result" where
  "insert_template C child by_template =
     and_then (template_id_from_step_snapshot C child) (\<lambda>tid.
       if map_of by_template tid \<noteq> None then Inl RESOURCE_CONFLICT
       else Inr (dict_set tid child by_template))"

text \<open>One turn of the loop over \<open>body_step_ids\<close>; \<open>plan\<close> is \<open>None\<close> when no plan is given.\<close>

definition project_previous_child :: "codec \<Rightarrow> uuid \<Rightarrow> int \<Rightarrow> execution_plan option
    \<Rightarrow> (string, execution_step) dict \<Rightarrow> string \<Rightarrow> (string \<times> json) result" where
  "project_previous_child C pid n plan by_template tid =
     and_then (dict_at by_template tid) (\<lambda>child.
       if \<not> terminal_status (status child) then Inl RESOURCE_CONFLICT
       else and_then
         (case plan of
            Some p \<Rightarrow>
              (case map_of (plan_by_id p) tid of
                 None \<Rightarrow> Inl RESOURCE_CONFLICT
               | Some template \<Rightarrow> assert_while_child_immutable_lineage C child pid n template)
          | None \<Rightarrow>
              and_then (iteration_step_key pid n tid) (\<lambda>key.
                if step_key child \<noteq> key then Inl RESOURCE_CONFLICT else Inr ()))
         (\<lambda>_. Inr (tid, previous_iteration_step_projection child)))"

definition build_previous_iteration_projection :: "codec \<Rightarrow> execution_step list \<Rightarrow> uuid \<Rightarrow> int
    \<Rightarrow> string list \<Rightarrow> execution_plan option \<Rightarrow> json result" where
  "build_previous_iteration_projection C steps pid n body_ids plan =
     (if n < 1 then Inl RESOURCE_CONFLICT
      else let children = child_instances_for_iteration steps pid n in
        if length children \<noteq> length body_ids then Inl RESOURCE_CONFLICT
        else and_then (foldE (insert_template C) children []) (\<lambda>by_template.
          if set (dict_keys by_template) \<noteq> set body_ids then Inl RESOURCE_CONFLICT
          else and_then (mapE (project_previous_child C pid n plan by_template) body_ids) (\<lambda>step_map.
            Inr (JObj [(''iteration_no'', JInt n), (''steps'', JObj (dict_of step_map))]))))"

subsection \<open>A complete, terminal iteration\<close>

definition assert_iteration_set_complete_terminal :: "codec \<Rightarrow> execution_step list \<Rightarrow> execution_step
    \<Rightarrow> int \<Rightarrow> string list \<Rightarrow> execution_plan \<Rightarrow> unit result" where
  "assert_iteration_set_complete_terminal C steps parent n body_ids plan =
     (let children = child_instances_for_iteration steps (st_id parent) n in
      if length children \<noteq> length body_ids then Inl RESOURCE_CONFLICT
      else and_then (mapE (\<lambda>c. and_then (template_id_from_step_snapshot C c) (\<lambda>tid. Inr (tid, c))) children)
        (\<lambda>pairs. let by_template = dict_of pairs in
          if set (dict_keys by_template) \<noteq> set body_ids then Inl RESOURCE_CONFLICT
          else eachE (\<lambda>tid.
            and_then (dict_at by_template tid) (\<lambda>child.
            and_then (dict_at (plan_by_id plan) tid) (\<lambda>template.
            and_then (assert_while_child_immutable_lineage C child (st_id parent) n template) (\<lambda>_.
              if \<not> terminal_status (status child) then Inl RESOURCE_CONFLICT else Inr ()))))
            body_ids))"

subsection \<open>The parent row\<close>

definition present_iterations :: "execution_step list \<Rightarrow> int list" where
  "present_iterations children =
     filter (\<lambda>n. n \<noteq> 0) (List.map_filter iteration_no children)"

definition gate_is :: "while_entry list \<Rightarrow> int \<Rightarrow> bool \<Rightarrow> bool" where
  "gate_is history n b \<longleftrightarrow> (\<exists>e. history_entry_for history n = Some e \<and> gate e = b)"

lemma gate_is_code [code]:
  "gate_is history n b = (case history_entry_for history n of None \<Rightarrow> False | Some e \<Rightarrow> gate e = b)"
  by (auto simp: gate_is_def split: option.splits)

text \<open>The branch for a SUCCEEDED parent; \<open>N\<close> is the highest materialised iteration.\<close>

definition while_succeeded_ok :: "codec \<Rightarrow> execution_step \<Rightarrow> execution_plan \<Rightarrow> execution_step list
    \<Rightarrow> string list \<Rightarrow> execution_step list \<Rightarrow> int \<Rightarrow> while_entry list \<Rightarrow> unit result" where
  "while_succeeded_ok C parent plan steps body_ids children N history =
     and_then
       (if N > 0 then
          if set (present_iterations children) \<noteq> set [1..N] then Inl RESOURCE_CONFLICT
          else eachE (\<lambda>n.
            and_then (assert_iteration_set_complete_terminal C steps parent n body_ids plan) (\<lambda>_.
              if \<not> gate_is history n True then Inl RESOURCE_CONFLICT else Inr ())) [1..N]
        else Inr ())
       (\<lambda>_.
        if int (length history) \<noteq> N + 1 then Inl RESOURCE_CONFLICT
        else if \<not> gate_is history (N + 1) False then Inl RESOURCE_CONFLICT
        else if \<not> py_eq (result_inline parent)
                  (JObj [(''mode'', JStr ''WHILE''), (''iterations_completed'', JInt N)])
        then Inl RESOURCE_CONFLICT
        else if error_code parent \<noteq> None then Inl RESOURCE_CONFLICT
        else Inr ())"

text \<open>The branch for a parent FAILED with \<open>LOOP_MAX_ITERATIONS_EXCEEDED\<close>; \<open>m\<close> is the bound.\<close>

definition while_exhausted_ok :: "codec \<Rightarrow> execution_step \<Rightarrow> execution_plan \<Rightarrow> execution_step list
    \<Rightarrow> string list \<Rightarrow> execution_step list \<Rightarrow> int \<Rightarrow> int \<Rightarrow> while_entry list \<Rightarrow> unit result" where
  "while_exhausted_ok C parent plan steps body_ids children m N history =
     (if N \<noteq> m then Inl RESOURCE_CONFLICT
      else and_then
        (eachE (\<lambda>n.
          and_then (assert_iteration_set_complete_terminal C steps parent n body_ids plan) (\<lambda>_.
            if \<not> gate_is history n True then Inl RESOURCE_CONFLICT else Inr ())) [1..m])
        (\<lambda>_.
         if int (length history) \<noteq> m + 1 then Inl RESOURCE_CONFLICT
         else if \<not> gate_is history (m + 1) True then Inl RESOURCE_CONFLICT
         else if (\<exists>c \<in> set children. iteration_no c = Some (m + 1)) then Inl RESOURCE_CONFLICT
         else Inr ()))"

text \<open>The branch for a RUNNING parent.\<close>

definition while_running_ok :: "codec \<Rightarrow> execution_step \<Rightarrow> execution_plan \<Rightarrow> execution_step list
    \<Rightarrow> string list \<Rightarrow> execution_step list \<Rightarrow> int \<Rightarrow> while_entry list \<Rightarrow> unit result" where
  "while_running_ok C parent plan steps body_ids children N history =
     (if N < 1 then
        (if history = [] then Inr ()
         else if length history \<noteq> 1 then Inl RESOURCE_CONFLICT
         else if history_entry_for history 1 = None then Inl RESOURCE_CONFLICT
         else Inr ())
      else if set (present_iterations children) \<noteq> set [1..N] then Inl RESOURCE_CONFLICT
      else if (\<exists>n \<in> set [1..N]. \<not> gate_is history n True) then Inl RESOURCE_CONFLICT
      else if (\<exists>e \<in> set history. next_iteration_no e \<le> N \<and> \<not> gate e) then Inl RESOURCE_CONFLICT
      else if history_entry_for history (N + 1) \<noteq> None then
        (if N + 1 \<in> set (present_iterations children) then Inl RESOURCE_CONFLICT
         else and_then
           (eachE (\<lambda>n. assert_iteration_set_complete_terminal C steps parent n body_ids plan) [1..N])
           (\<lambda>_. if int (length history) \<noteq> N + 1 then Inl RESOURCE_CONFLICT else Inr ()))
      else if int (length history) > N then Inl RESOURCE_CONFLICT
      else Inr ())"

text \<open>The branch for a parent TIMED_OUT with \<open>LOOP_TIMEOUT\<close>.\<close>

definition while_timed_out_ok :: "int \<Rightarrow> while_entry list \<Rightarrow> unit result" where
  "while_timed_out_ok N history =
     (if N > 0 \<and> (\<exists>n \<in> set [1..N]. \<not> gate_is history n True) then Inl RESOURCE_CONFLICT
      else if int (length history) > N then Inl RESOURCE_CONFLICT
      else Inr ())"

definition assert_while_parent_control_state :: "codec \<Rightarrow> execution_step \<Rightarrow> execution_plan
    \<Rightarrow> execution_step list \<Rightarrow> loop_config option \<Rightarrow> unit result" where
  "assert_while_parent_control_state C parent plan steps cfg =
     (if parent_step_id parent \<noteq> None then Inl RESOURCE_CONFLICT
      else if st_type parent \<noteq> LOOP then Inl RESOURCE_CONFLICT
      else and_then
        (case validate_plan_step C (step_snapshot parent) of
           None \<Rightarrow> Inl RESOURCE_CONFLICT
         | Some parent_plan \<Rightarrow>
             (case cfg of
                Some c \<Rightarrow> Inr c
              | None \<Rightarrow> opt_or (validate_loop_config C (ps_config parent_plan)) RESOURCE_CONFLICT))
        (\<lambda>loop_cfg.
         if lc_mode loop_cfg \<noteq> WHILE then Inl RESOURCE_CONFLICT
         else if (case find (\<lambda>ps. ps_id ps = step_key parent) (plan_steps plan) of
                    None \<Rightarrow> True
                  | Some ps \<Rightarrow> \<not> py_eq (dump_plan_step C ps) (step_snapshot parent))
         then Inl RESOURCE_CONFLICT
         else
           let children = filter (\<lambda>s. parent_step_id s = Some (st_id parent)) steps;
               N = max_materialized_iteration children (st_id parent);
               body_ids = lc_body_step_ids loop_cfg
           in
           if status parent = SKIPPED \<and> error_code parent = Some ''STEP_WHEN_FALSE'' then
             (if children \<noteq> [] then Inl RESOURCE_CONFLICT
              else if resolved_input parent \<noteq> JNull then Inl RESOURCE_CONFLICT
              else Inr ())
           else if resolved_input parent = JNull then
             (if status parent = PENDING \<and> children = [] then Inr () else Inl RESOURCE_CONFLICT)
           else and_then (parse_while_predicate_history (resolved_input parent)) (\<lambda>history.
             if status parent = SUCCEEDED then
               while_succeeded_ok C parent plan steps body_ids children N history
             else if status parent = FAILED
                     \<and> error_code parent = Some ''LOOP_MAX_ITERATIONS_EXCEEDED'' then
               while_exhausted_ok C parent plan steps body_ids children
                 (lc_max_iterations loop_cfg) N history
             else if status parent = RUNNING then
               while_running_ok C parent plan steps body_ids children N history
             else if status parent = TIMED_OUT \<and> error_code parent = Some ''LOOP_TIMEOUT'' then
               while_timed_out_ok N history
             else Inr ())))"

subsection \<open>What the history says about the gates\<close>

lemma gate_is_nth:
  assumes "history_from 0 es"
  shows "gate_is es n b \<longleftrightarrow> 1 \<le> n \<and> n \<le> int (length es) \<and> gate (es ! nat (n - 1)) = b"
  using assms by (auto simp: gate_is_def history_entry_for_eq)

lemma gates_open:
  assumes "history_from 0 es" and "0 \<le> N"
  shows "(\<forall>n \<in> set [1..N]. gate_is es n True) \<longleftrightarrow> take (nat N) (map gate es) = replicate (nat N) True"
proof
  assume all: "\<forall>n \<in> set [1..N]. gate_is es n True"
  have len: "nat N \<le> length es"
  proof (cases "N = 0")
    case False
    with all assms(2) have "gate_is es N True"
      by simp
    then show ?thesis
      by (simp add: gate_is_nth [OF assms(1)] nat_le_iff)
  qed simp
  have "gate (es ! i)" if "i < nat N" for i
  proof -
    from that have "int i + 1 \<in> set [1..N]"
      by auto
    with all have "gate_is es (int i + 1) True"
      by blast
    then show ?thesis
      by (simp add: gate_is_nth [OF assms(1)])
  qed
  with len show "take (nat N) (map gate es) = replicate (nat N) True"
    by (intro nth_equalityI) auto
next
  assume eq: "take (nat N) (map gate es) = replicate (nat N) True"
  then have len: "nat N \<le> length es"
    by (metis length_map length_replicate length_take min.absorb_iff2 min.commute)
  show "\<forall>n \<in> set [1..N]. gate_is es n True"
  proof
    fix n
    assume "n \<in> set [1..N]"
    then have n: "1 \<le> n" "nat (n - 1) < nat N"
      by auto
    with len have "nat (n - 1) < length es"
      by linarith
    with arg_cong [OF eq, of "\<lambda>xs. xs ! nat (n - 1)"] n len have "gate (es ! nat (n - 1))"
      by (simp del: nat_less_eq_zless zless_nat_conj)
    with n len show "gate_is es n True"
      by (simp add: gate_is_nth [OF assms(1)] nat_le_iff)
  qed
qed

text \<open>A history one entry longer than \<open>N\<close>, with \<open>N\<close> open gates and then \<open>b\<close>.\<close>

lemma gates_open_then:
  assumes "history_from 0 es" and "0 \<le> N" and "int (length es) = N + 1"
    and "\<forall>n \<in> set [1..N]. gate_is es n True" and "gate_is es (N + 1) b"
  shows "map gate es = replicate (nat N) True @ [b]"
proof -
  from assms(2,3) have len: "length es = Suc (nat N)"
    by simp
  have "map gate es = take (nat N) (map gate es) @ [map gate es ! nat N]"
    using take_Suc_conv_app_nth [of "nat N" "map gate es"] len by simp
  also have "take (nat N) (map gate es) = replicate (nat N) True"
    using gates_open [OF assms(1,2)] assms(4) by simp
  also have "map gate es ! nat N = b"
    using assms(5) len by (simp add: gate_is_nth [OF assms(1)])
  finally show ?thesis .
qed

lemma map_filter_sub:
  "(\<And>x. x \<in> set xs \<Longrightarrow> \<not> p x \<Longrightarrow> f x = None) \<Longrightarrow> List.map_filter f (filter p xs) = List.map_filter f xs"
  by (induction xs) (auto simp: map_filter_simps split: option.splits)

lemma max_iteration_children [simp]:
  "max_materialized_iteration (filter (\<lambda>s. parent_step_id s = Some pid) steps) pid
     = max_materialized_iteration steps pid"
  by (simp add: max_materialized_iteration_def map_filter_sub)

subsection \<open>A complete iteration has one terminal row per body step\<close>

lemma complete_iteration:
  assumes ok: "assert_iteration_set_complete_terminal C steps parent n body_ids plan = Inr u"
    and "distinct body_ids"
    and s: "s \<in> set steps" "parent_step_id s = Some (st_id parent)" "iteration_no s = Some n"
  shows "terminal_status (status s) \<and>
    (\<exists>tid \<in> set body_ids. iteration_step_key (st_id parent) n tid = Inr (step_key s))"
proof -
  let ?children = "child_instances_for_iteration steps (st_id parent) n"
  from ok obtain pairs where len: "length ?children = length body_ids"
    and pairs: "mapE (\<lambda>c. and_then (template_id_from_step_snapshot C c) (\<lambda>tid. Inr (tid, c))) ?children
      = Inr pairs"
    and keys: "fst ` set pairs = set body_ids"
    and each: "\<And>tid. tid \<in> set body_ids \<Longrightarrow> \<exists>child template.
        map_of (dict_of pairs) tid = Some child \<and> map_of (plan_by_id plan) tid = Some template \<and>
        assert_while_child_immutable_lineage C child (st_id parent) n template = Inr () \<and>
        terminal_status (status child)"
    by (auto simp: assert_iteration_set_complete_terminal_def Let_def)
  from pairs have all2: "list_all2 (\<lambda>c p. snd p = c) ?children pairs"
    by (auto simp: mapE_Inr_iff elim!: list_all2_mono)
  then have snds: "map snd pairs = ?children"
    by (induction rule: list_all2_induct) auto
  then have "length pairs = length ?children"
    by (metis length_map)
  with len keys assms(2) have dist: "distinct (map fst pairs)"
    by (intro card_distinct) (simp add: distinct_card)
  from s have "s \<in> set ?children"
    by (simp add: child_instances_for_iteration_def)
  then obtain tid where tid: "(tid, s) \<in> set pairs"
    by (force simp flip: snds)
  with dist have look: "map_of (dict_of pairs) tid = Some s"
    by (simp add: dict_of_distinct)
  from tid keys have mem: "tid \<in> set body_ids"
    by force
  from each [OF this] look obtain template where t: "map_of (plan_by_id plan) tid = Some template"
      "assert_while_child_immutable_lineage C s (st_id parent) n template = Inr ()"
      "terminal_status (status s)"
    by auto
  from t(1) have "ps_id template = tid"
    by (auto simp: plan_by_id_def map_of_dict_of dest!: map_of_SomeD)
  with t mem show ?thesis
    by (auto simp: assert_while_child_immutable_lineage_def)
qed

text \<open>An iteration that ran completely: as many child rows as body steps, each of them terminal with the key of a
  body step, and one for every body step.\<close>

definition iteration_ran :: "execution_step list \<Rightarrow> uuid \<Rightarrow> string list \<Rightarrow> int \<Rightarrow> bool" where
  "iteration_ran steps pid body_ids n \<longleftrightarrow>
     (let rows = filter (\<lambda>s. parent_step_id s = Some pid \<and> iteration_no s = Some n) steps in
      length rows = length body_ids \<and>
      (\<forall>s \<in> set rows. terminal_status (status s) \<and>
         (\<exists>tid \<in> set body_ids. iteration_step_key pid n tid = Inr (step_key s))) \<and>
      (\<forall>tid \<in> set body_ids. \<exists>s \<in> set rows. iteration_step_key pid n tid = Inr (step_key s)))"

lemma complete_iteration_rows:
  assumes "assert_iteration_set_complete_terminal C steps parent n body_ids plan = Inr u"
  shows "length (child_instances_for_iteration steps (st_id parent) n) = length body_ids"
    and "tid \<in> set body_ids \<Longrightarrow> \<exists>s \<in> set (child_instances_for_iteration steps (st_id parent) n).
      iteration_step_key (st_id parent) n tid = Inr (step_key s)"
proof -
  let ?children = "child_instances_for_iteration steps (st_id parent) n"
  from assms obtain pairs where len: "length ?children = length body_ids"
    and pairs: "mapE (\<lambda>c. and_then (template_id_from_step_snapshot C c) (\<lambda>tid. Inr (tid, c))) ?children
      = Inr pairs"
    and each: "\<And>tid. tid \<in> set body_ids \<Longrightarrow> \<exists>child template.
        map_of (dict_of pairs) tid = Some child \<and> map_of (plan_by_id plan) tid = Some template \<and>
        assert_while_child_immutable_lineage C child (st_id parent) n template = Inr () \<and>
        terminal_status (status child)"
    by (auto simp: assert_iteration_set_complete_terminal_def Let_def)
  show "length ?children = length body_ids"
    by (rule len)
  from pairs have "list_all2 (\<lambda>c p. snd p = c) ?children pairs"
    by (auto simp: mapE_Inr_iff elim!: list_all2_mono)
  then have snds: "snd ` set pairs = set ?children"
    by (induction rule: list_all2_induct) auto
  show "\<exists>s \<in> set ?children. iteration_step_key (st_id parent) n tid = Inr (step_key s)"
    if tid: "tid \<in> set body_ids"
  proof -
    from each [OF tid] obtain child template where c: "map_of (dict_of pairs) tid = Some child"
        "map_of (plan_by_id plan) tid = Some template"
        "assert_while_child_immutable_lineage C child (st_id parent) n template = Inr ()"
      by blast
    from c(1) have "(tid, child) \<in> set pairs"
      by (auto simp: map_of_dict_of dest!: map_of_SomeD)
    then have "child \<in> set ?children"
      unfolding snds [symmetric] by force
    moreover from c(2) have "ps_id template = tid"
      by (auto simp: plan_by_id_def map_of_dict_of dest!: map_of_SomeD)
    ultimately show ?thesis
      using c(3) by (auto simp: assert_while_child_immutable_lineage_def)
  qed
qed

lemma complete_iteration_ran:
  assumes "assert_iteration_set_complete_terminal C steps parent n body_ids plan = Inr u" and "distinct body_ids"
  shows "iteration_ran steps (st_id parent) body_ids n"
proof -
  have rows: "filter (\<lambda>s. parent_step_id s = Some (st_id parent) \<and> iteration_no s = Some n) steps =
      child_instances_for_iteration steps (st_id parent) n"
    by (simp add: child_instances_for_iteration_def)
  have mem: "s \<in> set steps \<and> parent_step_id s = Some (st_id parent) \<and> iteration_no s = Some n"
    if "s \<in> set (child_instances_for_iteration steps (st_id parent) n)" for s
    using that by (simp add: child_instances_for_iteration_def)
  show ?thesis
    unfolding iteration_ran_def rows Let_def
    using complete_iteration_rows [OF assms(1)] complete_iteration [OF assms] mem by blast
qed

subsection \<open>The control state of a parent row\<close>

lemma while_control_cases:
  assumes "assert_while_parent_control_state C parent plan steps cfg = Inr u"
    and "status parent \<notin> {SKIPPED, PENDING}"
  obtains loop_cfg history where
      "case cfg of Some c \<Rightarrow> loop_cfg = c
       | None \<Rightarrow> \<exists>ps. validate_plan_step C (step_snapshot parent) = Some ps \<and>
           validate_loop_config C (ps_config ps) = Some loop_cfg"
    and "parse_while_predicate_history (resolved_input parent) = Inr history"
    and "let children = filter (\<lambda>s. parent_step_id s = Some (st_id parent)) steps;
             N = max_materialized_iteration steps (st_id parent);
             body_ids = lc_body_step_ids loop_cfg
         in (status parent = SUCCEEDED \<longrightarrow>
               while_succeeded_ok C parent plan steps body_ids children N history = Inr ()) \<and>
            (status parent = FAILED \<and> error_code parent = Some ''LOOP_MAX_ITERATIONS_EXCEEDED'' \<longrightarrow>
               while_exhausted_ok C parent plan steps body_ids children
                 (lc_max_iterations loop_cfg) N history = Inr ()) \<and>
            (status parent = RUNNING \<longrightarrow>
               while_running_ok C parent plan steps body_ids children N history = Inr ())"
  using assms
  by (auto simp: assert_while_parent_control_state_def Let_def split: option.splits if_splits)

subsection \<open>Properties\<close>

text \<open>C32: A WHILE row that passes the control check as SUCCEEDED has a history of exactly one open gate
  per materialised iteration followed by one closed gate, so it ran its body while the predicate held
  and stopped at the first false; and every child row of each of these iterations is terminal and
  carries the key of its template.\<close>

theorem while_succeeded_control_state:
  assumes ok: "assert_while_parent_control_state C parent plan steps (Some cfg) = Inr ()"
    and "status parent = SUCCEEDED" and "loop_config_valid cfg"
    and N: "N = max_materialized_iteration steps (st_id parent)"
  shows "\<exists>history. parse_while_predicate_history (resolved_input parent) = Inr history \<and> 0 \<le> N \<and>
      map gate history = replicate (nat N) True @ [False] \<and>
      (\<forall>s n. s \<in> set steps \<and> parent_step_id s = Some (st_id parent) \<and> iteration_no s = Some n
         \<and> 1 \<le> n \<and> n \<le> N \<longrightarrow>
         terminal_status (status s) \<and>
         (\<exists>tid \<in> set (lc_body_step_ids cfg). iteration_step_key (st_id parent) n tid = Inr (step_key s)))"
proof -
  from ok assms(2) obtain history where
      h: "parse_while_predicate_history (resolved_input parent) = Inr history"
    and w: "while_succeeded_ok C parent plan steps (lc_body_step_ids cfg)
        (filter (\<lambda>s. parent_step_id s = Some (st_id parent)) steps) N history = Inr ()"
    by (elim while_control_cases) (auto simp: N Let_def)
  note wf = parse_history_ok [OF h]
  from w have len: "int (length history) = N + 1" and last: "gate_is history (N + 1) False"
    and each: "N > 0 \<Longrightarrow> \<forall>n \<in> set [1..N]. gate_is history n True \<and>
      assert_iteration_set_complete_terminal C steps parent n (lc_body_step_ids cfg) plan = Inr ()"
    by (auto simp: while_succeeded_ok_def split: if_splits)
  from last have "0 \<le> N"
    by (simp add: gate_is_nth [OF wf])
  moreover from this each have "\<forall>n \<in> set [1..N]. gate_is history n True"
    by (cases "N = 0") auto
  ultimately have "map gate history = replicate (nat N) True @ [False]"
    by (intro gates_open_then [OF wf] len last)
  moreover have "terminal_status (status s) \<and> (\<exists>tid \<in> set (lc_body_step_ids cfg).
      iteration_step_key (st_id parent) n tid = Inr (step_key s))"
    if "s \<in> set steps" "parent_step_id s = Some (st_id parent)" "iteration_no s = Some n"
      "1 \<le> n" "n \<le> N" for s n
    using complete_iteration [OF _ loop_config_validD(3) [OF assms(3)] that(1-3), of C plan] each that(4,5)
    by simp
  ultimately show ?thesis
    using h \<open>0 \<le> N\<close> by blast
qed

definition while_sample_cfg :: loop_config where
  "while_sample_cfg = \<lparr>lc_mode = WHILE, lc_max_iterations = 3, lc_body_step_ids = [''b''],
     lc_collection = None, lc_predicate = Some (UnaryPredicate OP_EXISTS (PlanLiteralBinding JNull))\<rparr>"

definition while_sample_steps :: "plan_step list" where
  "while_sample_steps = [sample_step ''w'' LOOP [], sample_step ''b'' TOOL []]"

definition while_sample_codec :: codec where
  "while_sample_codec = table_codec while_sample_steps [] [] [] [(''w'', while_sample_cfg)]"

definition while_sample_entry :: "int \<Rightarrow> bool \<Rightarrow> while_entry" where
  "while_sample_entry n b = \<lparr>next_iteration_no = n, evidence_hash = sha256_hexdigest ''e'', gate = b\<rparr>"

definition while_sample_parent :: "step_status \<Rightarrow> while_entry list \<Rightarrow> execution_step" where
  "while_sample_parent st es = (sample_row 1 (sample_step ''w'' LOOP []) st)
     \<lparr>resolved_input := while_control_json es,
      result_inline := JObj [(''mode'', JStr ''WHILE''), (''iterations_completed'', JInt 1)]\<rparr>"

definition while_sample_child :: "execution_step" where
  "while_sample_child = (sample_row 2 (sample_step ''b'' TOOL []) SUCCEEDED)
     \<lparr>parent_step_id := Some 1, iteration_no := Some 1,
      step_key := ''loop:'' @ uuid_hex 1 @ '':'' @ zero_pad 6 (nat_dec 1) @ '':'' @ sha256_hexdigest ''b''\<rparr>"

lemmas while_sample_simps = while_sample_cfg_def while_sample_steps_def while_sample_codec_def
  while_sample_parent_def while_sample_child_def sample_simps

lemma while_sample_history:
  "parse_while_predicate_history (while_control_json [while_sample_entry 1 a, while_sample_entry 2 b])
     = Inr [while_sample_entry 1 a, while_sample_entry 2 b]"
  by (rule parse_history_json) (simp add: while_sample_entry_def)

lemma while_sample_iteration:
  "st_id p = 1 \<Longrightarrow> parent_step_id p = None \<Longrightarrow>
   assert_iteration_set_complete_terminal while_sample_codec [p, while_sample_child] p 1 [''b'']
     (sample_plan while_sample_steps) = Inr ()"
  by (simp add: assert_iteration_set_complete_terminal_def while_sample_simps
      child_instances_for_iteration_def template_id_from_step_snapshot_def dict_of_def dict_set_def
      plan_by_id_def assert_while_child_immutable_lineage_def iteration_step_key_def py_eq.simps
      terminal_status_def)

lemma while_sample_fields [simp]:
  "st_id (while_sample_parent st es) = 1" "parent_step_id (while_sample_parent st es) = None"
  "st_type (while_sample_parent st es) = LOOP" "status (while_sample_parent st es) = st"
  "step_key (while_sample_parent st es) = ''w''" "step_snapshot (while_sample_parent st es) = JStr ''w''"
  "resolved_input (while_sample_parent st es) = while_control_json es"
  "parent_step_id while_sample_child = Some 1" "while_control_json es \<noteq> JNull"
  "lc_body_step_ids while_sample_cfg = [''b'']" "lc_mode while_sample_cfg = WHILE"
  by (simp_all add: while_sample_simps while_control_json_def)

lemma while_sample_lookup:
  "validate_plan_step while_sample_codec (JStr ''w'') = Some (sample_step ''w'' LOOP [])"
  "find (\<lambda>ps. ps_id ps = ''w'') (plan_steps (sample_plan while_sample_steps))
     = Some (sample_step ''w'' LOOP [])"
  "py_eq (dump_plan_step while_sample_codec (sample_step ''w'' LOOP [])) (JStr ''w'')"
  by (simp_all add: while_sample_simps py_eq.simps)

theorem while_succeeded_control_state_witness:
  "\<exists>history. parse_while_predicate_history (resolved_input (while_sample_parent SUCCEEDED
        [while_sample_entry 1 True, while_sample_entry 2 False])) = Inr history \<and>
      map gate history = [True, False]"
proof -
  let ?p = "while_sample_parent SUCCEEDED [while_sample_entry 1 True, while_sample_entry 2 False]"
  let ?steps = "[?p, while_sample_child]"
  have max1: "max_materialized_iteration ?steps 1 = 1" "max_materialized_iteration [while_sample_child] 1 = 1"
    by (simp_all add: max_materialized_iteration_def map_filter_simps while_sample_simps)
  have "loop_config_valid while_sample_cfg"
    by (simp add: loop_config_valid_def while_sample_cfg_def non_blank_def str_strip_def py_space_def)
  moreover have "while_succeeded_ok while_sample_codec ?p (sample_plan while_sample_steps) ?steps [''b'']
      [while_sample_child] 1 [while_sample_entry 1 True, while_sample_entry 2 False] = Inr ()"
    by (simp add: while_succeeded_ok_def while_sample_iteration present_iterations_def map_filter_simps
        gate_is_def history_entry_for_def while_sample_entry_def)
      (auto simp: while_sample_simps py_eq.simps)
  ultimately show ?thesis
    using while_succeeded_control_state [of while_sample_codec ?p "sample_plan while_sample_steps"
        ?steps while_sample_cfg 1] max1
    by (auto simp: assert_while_parent_control_state_def Let_def while_sample_history while_sample_lookup)
qed

text \<open>C33: A WHILE row that passes the control check as FAILED with
  \<open>LOOP_MAX_ITERATIONS_EXCEEDED\<close> ran exactly \<open>max_iterations\<close> iterations: the highest
  materialised number is the bound, and each number from 1 to the bound has one terminal child row, under the right
  key, for every body step and no other row.  Its predicate was true every time, once more than the bound, and
  it has no row of the iteration beyond the bound.\<close>

theorem while_exhausted_control_state:
  assumes ok: "assert_while_parent_control_state C parent plan steps (Some cfg) = Inr ()"
    and "status parent = FAILED" and "error_code parent = Some ''LOOP_MAX_ITERATIONS_EXCEEDED''"
    and "loop_config_valid cfg"
  shows "\<exists>history. parse_while_predicate_history (resolved_input parent) = Inr history \<and>
      map gate history = replicate (Suc (nat (lc_max_iterations cfg))) True \<and>
      max_materialized_iteration steps (st_id parent) = lc_max_iterations cfg \<and>
      (\<forall>n \<in> {1..lc_max_iterations cfg}. iteration_ran steps (st_id parent) (lc_body_step_ids cfg) n) \<and>
      (\<forall>s \<in> set steps. parent_step_id s = Some (st_id parent) \<longrightarrow>
         iteration_no s \<noteq> Some (lc_max_iterations cfg + 1))"
proof -
  let ?m = "lc_max_iterations cfg"
  from ok assms(2,3) obtain history where
      h: "parse_while_predicate_history (resolved_input parent) = Inr history"
    and w: "while_exhausted_ok C parent plan steps (lc_body_step_ids cfg)
        (filter (\<lambda>s. parent_step_id s = Some (st_id parent)) steps) ?m
        (max_materialized_iteration steps (st_id parent)) history = Inr ()"
    by (elim while_control_cases) (auto simp: Let_def)
  from w have N: "max_materialized_iteration steps (st_id parent) = ?m"
    and len: "int (length history) = ?m + 1" and last: "gate_is history (?m + 1) True"
    and each: "\<forall>n \<in> set [1..?m]. gate_is history n True"
    and complete: "\<forall>n \<in> set [1..?m].
      assert_iteration_set_complete_terminal C steps parent n (lc_body_step_ids cfg) plan = Inr ()"
    and none: "\<forall>s \<in> set steps. parent_step_id s = Some (st_id parent) \<longrightarrow> iteration_no s \<noteq> Some (?m + 1)"
    by (auto simp: while_exhausted_ok_def)
  have "0 \<le> ?m"
    using loop_config_validD(1) [OF assms(4)] by simp
  then have "map gate history = replicate (nat ?m) True @ [True]"
    by (rule gates_open_then [OF parse_history_ok [OF h] _ len each last])
  moreover have "iteration_ran steps (st_id parent) (lc_body_step_ids cfg) n" if "n \<in> {1..?m}" for n
    by (rule complete_iteration_ran [OF bspec [OF complete] loop_config_validD(3) [OF assms(4)]]) (use that in simp)
  ultimately show ?thesis
    using h N none by (simp add: replicate_append_same)
qed

theorem while_exhausted_control_state_witness:
  "\<exists>history. parse_while_predicate_history (resolved_input ((while_sample_parent FAILED
        [while_sample_entry 1 True, while_sample_entry 2 True])
        \<lparr>error_code := Some ''LOOP_MAX_ITERATIONS_EXCEEDED''\<rparr>)) = Inr history \<and>
      map gate history = [True, True] \<and>
      iteration_ran [(while_sample_parent FAILED [while_sample_entry 1 True, while_sample_entry 2 True])
        \<lparr>error_code := Some ''LOOP_MAX_ITERATIONS_EXCEEDED''\<rparr>, while_sample_child] 1 [''b''] 1"
proof -
  let ?es = "[while_sample_entry 1 True, while_sample_entry 2 True]"
  let ?p = "(while_sample_parent FAILED ?es)\<lparr>error_code := Some ''LOOP_MAX_ITERATIONS_EXCEEDED''\<rparr>"
  let ?steps = "[?p, while_sample_child]" and ?cfg = "while_sample_cfg\<lparr>lc_max_iterations := 1\<rparr>"
  have max1: "max_materialized_iteration ?steps 1 = 1" "max_materialized_iteration [while_sample_child] 1 = 1"
    by (simp_all add: max_materialized_iteration_def map_filter_simps while_sample_simps)
  have "loop_config_valid ?cfg"
    by (simp add: loop_config_valid_def while_sample_cfg_def non_blank_def str_strip_def py_space_def)
  moreover have it: "assert_iteration_set_complete_terminal while_sample_codec ?steps ?p 1 [''b'']
      (sample_plan while_sample_steps) = Inr ()"
    by (rule while_sample_iteration) simp_all
  moreover have "while_exhausted_ok while_sample_codec ?p (sample_plan while_sample_steps) ?steps [''b'']
      [while_sample_child] 1 1 ?es = Inr ()"
    using it by (simp add: while_exhausted_ok_def gate_is_def history_entry_for_def while_sample_entry_def)
      (simp add: while_sample_simps)
  ultimately show ?thesis
    using while_exhausted_control_state [of while_sample_codec ?p "sample_plan while_sample_steps"
        ?steps ?cfg] max1
    by (auto simp: assert_while_parent_control_state_def Let_def while_sample_history while_sample_lookup
        numeral_2_eq_2)
qed

end
