(* ===== verification/BindingResolver.thy ===== *)
theory BindingResolver
  imports WhileControl
begin

section \<open>Runtime binding resolution\<close>

text \<open>
  \<^verbatim>\<open>src/backend/app/execution/binding_resolver.py\<close>: how a plan binding becomes a value of
  \<open>resolved_input\<close>.  The result of one binding is a \<open>pointed\<close> value, because the predicate
  evaluator asks with \<open>missing_ok\<close> and then receives the sentinel \<open>MISSING\<close>.  Secrets are
  only ever references: the plaintext does not occur in this module.

  The class \<open>PlanBindingValue\<close> is a closed union, so the final \<open>raise\<close> of
  \<open>resolve_binding\<close> for an unsupported kind has no counterpart.
\<close>

subsection \<open>Projections and secret references\<close>

definition build_execution_context_projection :: "execution \<Rightarrow> json" where
  "build_execution_context_projection ex =
     JObj [(''execution_id'', JStr (uuid_str (ex_id ex))),
           (''source_type'', JStr (source_type ex)),
           (''trigger_type'', JStr (trigger_type ex)),
           (''trace_id'', json_opt JStr (trace_id ex))]"

fun is_dynamic_binding :: "plan_binding \<Rightarrow> bool" where
  "is_dynamic_binding (PlanInputBinding _) = True"
| "is_dynamic_binding (PlanStepOutputBinding _ _) = True"
| "is_dynamic_binding (PlanExecutionContextBinding _) = True"
| "is_dynamic_binding (PlanLoopContextBinding _) = True"
| "is_dynamic_binding _ = False"

definition binding_kinds_include_dynamic :: "(string, plan_binding) dict \<Rightarrow> bool" where
  "binding_kinds_include_dynamic bindings = list_ex is_dynamic_binding (dict_values bindings)"

text \<open>\<open>dump\<close> is pydantic's \<open>model_dump(mode="json")\<close> of a binding.\<close>

definition serialize_plan_bindings ::
    "(plan_binding \<Rightarrow> json) \<Rightarrow> (string, plan_binding) dict \<Rightarrow> (string, json) dict" where
  "serialize_plan_bindings dump bindings = map (\<lambda>(k, b). (k, dump b)) bindings"

definition secret_ref_resolved :: "uuid \<Rightarrow> json" where
  "secret_ref_resolved u = JObj [(''kind'', JStr ''SECRET_REF''), (''secret_id'', JStr (uuid_str u))]"

definition parse_secret_id :: "json option \<Rightarrow> uuid option" where
  "parse_secret_id v = (case v of Some (JStr s) \<Rightarrow> uuid_parse s | _ \<Rightarrow> None)"

definition kind_is_secret_ref :: "(string, json) dict \<Rightarrow> bool" where
  "kind_is_secret_ref kvs \<longleftrightarrow> map_of kvs ''kind'' = Some (JStr ''SECRET_REF'')"

definition is_secret_ref_value :: "json \<Rightarrow> bool" where
  "is_secret_ref_value v =
     (case v of
        JObj kvs \<Rightarrow>
          if length kvs \<noteq> 2 then False
          else if \<not> kind_is_secret_ref kvs then False
          else parse_secret_id (map_of kvs ''secret_id'') \<noteq> None
      | _ \<Rightarrow> False)"

definition canonicalize_secret_ref_value :: "json \<Rightarrow> json result" where
  "canonicalize_secret_ref_value v =
     (case v of
        JObj kvs \<Rightarrow>
          if \<not> kind_is_secret_ref kvs then Inl PRECONDITION_FAILED
          else if \<not> has_keys kvs [''kind'', ''secret_id''] then Inl PRECONDITION_FAILED
          else (case parse_secret_id (map_of kvs ''secret_id'') of
                  None \<Rightarrow> Inl PRECONDITION_FAILED
                | Some u \<Rightarrow> Inr (secret_ref_resolved u))
      | _ \<Rightarrow> Inl PRECONDITION_FAILED)"

subsection \<open>Transitive ancestors\<close>

text \<open>
  \<open>walk\<close> recurses along the dependencies with a cache that is filled after the recursion, so it does
  not return on a cycle: Python then raises \<open>RecursionError\<close>.  The fuel is the depth of the
  recursion; a plan of \<open>n\<close> steps without a cycle needs at most \<open>n\<close>
  (\<open>walk_enough_fuel\<close>).  The outer loop runs over a Python set; the model takes the plan's order,
  and the result does not depend on it.
\<close>

type_synonym ancestor_map = "(string, string set) dict"

definition plan_deps :: "execution_plan \<Rightarrow> (string, string list) dict" where
  "plan_deps plan =
     (let ids = map ps_id (plan_steps plan) in
      dict_of (map (\<lambda>s. (ps_id s, filter (\<lambda>d. d \<in> set ids) (ps_depends_on s))) (plan_steps plan)))"

fun walk :: "nat \<Rightarrow> (string, string list) dict \<Rightarrow> string \<Rightarrow> ancestor_map
    \<Rightarrow> (string set \<times> ancestor_map) result" where
  "walk 0 deps sid cache = Inl RecursionError"
| "walk (Suc fuel) deps sid cache =
     (case map_of cache sid of
        Some out \<Rightarrow> Inr (out, cache)
      | None \<Rightarrow>
          and_then
            (foldE (\<lambda>dep (out, c).
               and_then (walk fuel deps dep c) (\<lambda>(s, c'). Inr (insert dep out \<union> s, c')))
               (dict_get deps sid []) ({}, cache))
            (\<lambda>(out, c). Inr (out, dict_set sid out c)))"

definition transitive_ancestors :: "execution_plan \<Rightarrow> ancestor_map result" where
  "transitive_ancestors plan =
     foldE (\<lambda>sid cache.
        and_then (walk (Suc (length (plan_steps plan))) (plan_deps plan) sid cache) (\<lambda>(_, c). Inr c))
       (map ps_id (plan_steps plan)) []"

definition ancestors_of :: "ancestor_map \<Rightarrow> string \<Rightarrow> string set" where
  "ancestors_of anc sid = dict_get anc sid {}"

subsection \<open>Reading a path\<close>

text \<open>The ending every kind of dynamic binding shares: a missing path is returned or raised.\<close>

definition read_path :: "bool \<Rightarrow> json \<Rightarrow> string \<Rightarrow> pointed result" where
  "read_path missing_ok doc path =
     and_then (resolve_json_pointer doc path) (\<lambda>v.
       case v of Missing \<Rightarrow> if missing_ok then Inr Missing else Inl PRECONDITION_FAILED
       | Found j \<Rightarrow> Inr (Found j))"

subsection \<open>PLAN\_INPUT\<close>

definition assert_secret_input :: "(string, json) dict \<Rightarrow> string \<times> plan_input_definition \<Rightarrow> unit result" where
  "assert_secret_input doc kd =
     (case kd of (key, decl) \<Rightarrow>
        if \<not> pi_secret decl then Inr ()
        else (case map_of doc key of
                None \<Rightarrow> if pi_required decl then Inl PRECONDITION_FAILED else Inr ()
              | Some v \<Rightarrow> if \<not> is_secret_ref_value v then Inl PRECONDITION_FAILED else Inr ()))"

definition assert_plan_input_secret_safe ::
    "execution_plan \<Rightarrow> string \<Rightarrow> (string, json) dict \<Rightarrow> json \<Rightarrow> unit result" where
  "assert_plan_input_secret_safe plan path doc v =
     (if path = ''/'' then eachE (assert_secret_input doc) (plan_inputs plan)
      else (case drop 1 (str_split_max 2 (CHR ''/'') path) of
              [] \<Rightarrow> Inl IndexError
            | token # _ \<Rightarrow>
                (case map_of (plan_inputs plan) (decode_pointer_token token) of
                   None \<Rightarrow> Inr ()
                 | Some decl \<Rightarrow>
                     if \<not> pi_secret decl then Inr ()
                     else if is_secret_ref_value v then Inr ()
                     else Inl PRECONDITION_FAILED)))"

definition project_input_value :: "execution_plan \<Rightarrow> string \<Rightarrow> json \<Rightarrow> json result" where
  "project_input_value plan key v =
     (if (case map_of (plan_inputs plan) key of None \<Rightarrow> False | Some decl \<Rightarrow> pi_secret decl)
      then canonicalize_secret_ref_value v
      else case v of
        JObj kvs \<Rightarrow> if kind_is_secret_ref kvs then canonicalize_secret_ref_value v else Inr v
      | _ \<Rightarrow> Inr v)"

definition project_plan_input_root ::
    "execution_plan \<Rightarrow> (string, json) dict \<Rightarrow> (string, json) dict result" where
  "project_plan_input_root plan doc =
     mapE (\<lambda>(key, v). and_then (project_input_value plan key v) (\<lambda>w. Inr (key, w))) doc"

definition resolve_plan_input ::
    "execution \<Rightarrow> execution_plan \<Rightarrow> string \<Rightarrow> bool \<Rightarrow> pointed result" where
  "resolve_plan_input ex plan path missing_ok =
     (case input_snapshot ex of
        JObj doc \<Rightarrow>
          and_then (read_path missing_ok (JObj doc) path) (\<lambda>r.
            case r of
              Missing \<Rightarrow> Inr Missing
            | Found v \<Rightarrow>
                and_then (assert_plan_input_secret_safe plan path doc v) (\<lambda>_.
                  if path = ''/''
                  then and_then (project_plan_input_root plan doc) (\<lambda>w. Inr (Found (JObj w)))
                  else case v of
                    JObj kvs \<Rightarrow>
                      if kind_is_secret_ref kvs
                      then and_then (canonicalize_secret_ref_value v) (\<lambda>w. Inr (Found w))
                      else Inr (Found v)
                  | _ \<Rightarrow> Inr (Found v)))
      | _ \<Rightarrow> Inl PRECONDITION_FAILED)"

subsection \<open>STEP\_OUTPUT\<close>

text \<open>The source row of a consumer outside every LOOP body.\<close>

definition top_level_source :: "string \<Rightarrow> execution_step \<Rightarrow> (string, execution_step) dict
    \<Rightarrow> ancestor_map \<Rightarrow> (string, string) dict \<Rightarrow> execution_step result" where
  "top_level_source sid owning by_key anc b2l =
     (if map_of b2l sid \<noteq> None then Inl PRECONDITION_FAILED
      else case map_of by_key sid of
        None \<Rightarrow> Inl PRECONDITION_FAILED
      | Some source \<Rightarrow>
          if parent_step_id source \<noteq> None then Inl PRECONDITION_FAILED
          else if sid \<notin> ancestors_of anc (step_key owning) then Inl PRECONDITION_FAILED
          else Inr source)"

text \<open>\<open>[s for s in by_key.values() if ...]\<close>; the snapshot is parsed only after the cheap tests.\<close>

fun same_iteration_matches :: "codec \<Rightarrow> uuid option \<Rightarrow> int option \<Rightarrow> string
    \<Rightarrow> execution_step list \<Rightarrow> execution_step list result" where
  "same_iteration_matches C pid n sid [] = Inr []"
| "same_iteration_matches C pid n sid (s # ss) =
     (if parent_step_id s = pid \<and> iteration_no s = n
      then and_then (template_id_from_step_snapshot C s) (\<lambda>tid.
             and_then (same_iteration_matches C pid n sid ss) (\<lambda>ms.
               Inr (if tid = sid then s # ms else ms)))
      else same_iteration_matches C pid n sid ss)"

definition resolve_body_instance_step_output_source :: "codec \<Rightarrow> string \<Rightarrow> execution_step
    \<Rightarrow> (string, execution_step) dict \<Rightarrow> ancestor_map \<Rightarrow> (string, string) dict
    \<Rightarrow> execution_step result" where
  "resolve_body_instance_step_output_source C sid owning by_key anc b2l =
     and_then (template_id_from_step_snapshot C owning) (\<lambda>owning_template.
       case map_of b2l owning_template of
         None \<Rightarrow> Inl PRECONDITION_FAILED
       | Some parent_loop_id \<Rightarrow>
           if map_of b2l sid = Some parent_loop_id then
             if (case iteration_no owning of None \<Rightarrow> True | Some n \<Rightarrow> n < 1) then Inl PRECONDITION_FAILED
             else if sid \<notin> ancestors_of anc owning_template then Inl PRECONDITION_FAILED
             else and_then
                    (same_iteration_matches C (parent_step_id owning) (iteration_no owning) sid
                       (dict_values by_key))
                    (\<lambda>ms. case ms of [m] \<Rightarrow> Inr m | _ \<Rightarrow> Inl PRECONDITION_FAILED)
           else case map_of by_key sid of
             None \<Rightarrow> Inl PRECONDITION_FAILED
           | Some source \<Rightarrow>
               if parent_step_id source \<noteq> None then Inl PRECONDITION_FAILED
               else if sid \<notin> ancestors_of anc parent_loop_id then Inl PRECONDITION_FAILED
               else Inr source)"

definition assert_step_output_source_lineage ::
    "codec \<Rightarrow> string \<Rightarrow> execution_step \<Rightarrow> execution_plan \<Rightarrow> unit result" where
  "assert_step_output_source_lineage C sid source plan =
     and_then
       (if parent_step_id source = None
        then raise_if (step_key source \<noteq> sid) PRECONDITION_FAILED
        else and_then (or_raise (template_id_from_step_snapshot C source) PRECONDITION_FAILED)
               (\<lambda>snapshot_id. raise_if (snapshot_id \<noteq> sid) PRECONDITION_FAILED))
       (\<lambda>_.
        and_then (opt_or (find (\<lambda>ps. ps_id ps = sid) (plan_steps plan)) PRECONDITION_FAILED) (\<lambda>expected.
        and_then (opt_or (validate_plan_step C (step_snapshot source)) PRECONDITION_FAILED) (\<lambda>parsed.
          if ps_id parsed \<noteq> sid then Inl PRECONDITION_FAILED
          else if \<not> py_eq (dump_plan_step C expected) (step_snapshot source) then Inl PRECONDITION_FAILED
          else if ps_type parsed \<noteq> ps_type expected \<or> ps_id parsed \<noteq> ps_id expected
          then Inl PRECONDITION_FAILED
          else Inr ())))"

definition resolve_step_output :: "codec \<Rightarrow> string \<Rightarrow> string \<Rightarrow> execution_step
    \<Rightarrow> (string, execution_step) dict \<Rightarrow> execution_plan \<Rightarrow> ancestor_map \<Rightarrow> bool \<Rightarrow> pointed result" where
  "resolve_step_output C sid path owning by_key plan anc missing_ok =
     and_then (build_loop_body_ownership C plan) (\<lambda>ownership.
     and_then
       (if parent_step_id owning = None
        then top_level_source sid owning by_key anc (body_to_loop ownership)
        else resolve_body_instance_step_output_source C sid owning by_key anc (body_to_loop ownership))
       (\<lambda>source.
     and_then (assert_step_output_source_lineage C sid source plan) (\<lambda>_.
       if st_execution_id source \<noteq> st_execution_id owning then Inl PRECONDITION_FAILED
       else if status source \<noteq> SUCCEEDED then Inl PRECONDITION_FAILED
       else if result_inline source = JNull then Inl PRECONDITION_FAILED
       else read_path missing_ok (result_inline source) path)))"

subsection \<open>LOOP\_CONTEXT and the dispatch\<close>

definition build_while_body_context :: "codec \<Rightarrow> execution_step \<Rightarrow> plan_step \<Rightarrow> loop_config
    \<Rightarrow> (string, execution_step) dict \<Rightarrow> int \<Rightarrow> execution_plan \<Rightarrow> json result" where
  "build_while_body_context C parent pps cfg by_key n plan =
     and_then
       (if n = 1 then Inr JNull
        else build_previous_iteration_projection C (dict_values by_key) (st_id parent) (n - 1)
               (lc_body_step_ids cfg) (Some plan))
       (build_while_loop_context_projection (ps_id pps) n (lc_max_iterations cfg))"

text \<open>
  What \<open>_resolve_loop_context\<close> establishes before it builds a projection: the parent row, its
  plan step, its configuration and the iteration number.
\<close>

definition loop_context_parent :: "codec \<Rightarrow> execution_step \<Rightarrow> (string, execution_step) dict
    \<Rightarrow> (execution_step \<times> plan_step \<times> loop_config \<times> int) result" where
  "loop_context_parent C owning by_key =
     (if parent_step_id owning = None then Inl PRECONDITION_FAILED
      else case find (\<lambda>s. Some (st_id s) = parent_step_id owning) (dict_values by_key) of
        None \<Rightarrow> Inl PRECONDITION_FAILED
      | Some parent \<Rightarrow>
          if st_execution_id parent \<noteq> st_execution_id owning then Inl PRECONDITION_FAILED
          else if parent_step_id parent \<noteq> None then Inl PRECONDITION_FAILED
          else if st_type parent \<noteq> LOOP then Inl PRECONDITION_FAILED
          else case iteration_no owning of
            None \<Rightarrow> Inl PRECONDITION_FAILED
          | Some n \<Rightarrow>
              if n < 1 then Inl PRECONDITION_FAILED
              else and_then (opt_or (validate_plan_step C (step_snapshot parent)) PRECONDITION_FAILED) (\<lambda>pps.
                and_then (opt_or (validate_plan_step C (step_snapshot owning)) PRECONDITION_FAILED) (\<lambda>cps.
                and_then (opt_or (validate_loop_config C (ps_config pps)) PRECONDITION_FAILED) (\<lambda>cfg.
                  if ps_id pps \<noteq> step_key parent then Inl PRECONDITION_FAILED
                  else if ps_id cps \<notin> set (lc_body_step_ids cfg) then Inl PRECONDITION_FAILED
                  else Inr (parent, pps, cfg, n)))))"

abbreviation LOOP_COLLECTION_TYPE_MISMATCH :: py_error where
  "LOOP_COLLECTION_TYPE_MISMATCH \<equiv> AppError ''LOOP_COLLECTION_TYPE_MISMATCH'' 409"

text \<open>The second half of \<open>_build_foreach_body_context\<close>: the resolved collection against its pin.\<close>

definition pinned_item :: "(rat \<Rightarrow> string) \<Rightarrow> pointed \<Rightarrow> execution_step \<Rightarrow> plan_step \<Rightarrow> loop_config
    \<Rightarrow> int \<Rightarrow> json result" where
  "pinned_item fr collection parent pps cfg n =
     (case collection of
        Found (JList xs) \<Rightarrow>
          (case resolved_input parent of
             JObj ri \<Rightarrow>
               if (case map_of ri ''collection_hash'' of
                     None \<Rightarrow> True | Some h \<Rightarrow> \<not> py_eq h (JStr (hash_collection fr xs)))
                  \<or> (case map_of ri ''collection_size'' of
                       None \<Rightarrow> True | Some k \<Rightarrow> \<not> py_eq k (JInt (int (length xs))))
               then Inl PRECONDITION_FAILED
               else if n > int (length xs) then Inl PRECONDITION_FAILED
               else build_loop_context_projection (ps_id pps) (loop_mode_value (lc_mode cfg)) n
                      (xs ! nat (n - 1)) (int (length xs))
           | _ \<Rightarrow> Inl PRECONDITION_FAILED)
      | _ \<Rightarrow> Inl LOOP_COLLECTION_TYPE_MISMATCH)"

fun is_loop_context :: "plan_binding \<Rightarrow> bool" where
  "is_loop_context (PlanLoopContextBinding _) = True"
| "is_loop_context _ = False"

text \<open>
  The fixed arguments of a resolution: pydantic, \<open>float.__repr__\<close>, the execution, the rows, the
  plan and the ancestor table.
\<close>

record resolver_env =
  env_codec :: codec
  env_repr :: "rat \<Rightarrow> string"
  env_execution :: execution
  env_rows :: "(string, execution_step) dict"
  env_plan :: execution_plan
  env_ancestors :: ancestor_map

text \<open>
  \<open>resolve_binding\<close> and \<open>_build_foreach_body_context\<close> call each other; the collection of a
  FOR\_EACH must not be a LOOP\_CONTEXT binding, so the recursion has depth one.
\<close>

function (sequential) resolve_binding ::
      "resolver_env \<Rightarrow> execution_step \<Rightarrow> bool \<Rightarrow> json option \<Rightarrow> plan_binding \<Rightarrow> pointed result"
  and resolve_loop_context ::
      "resolver_env \<Rightarrow> execution_step \<Rightarrow> bool \<Rightarrow> json option \<Rightarrow> string \<Rightarrow> pointed result"
  and build_foreach_body_context ::
      "resolver_env \<Rightarrow> execution_step \<Rightarrow> plan_step \<Rightarrow> loop_config \<Rightarrow> int \<Rightarrow> json result"
where
  "resolve_binding R owning missing_ok override (PlanLiteralBinding v) = Inr (Found v)"
| "resolve_binding R owning missing_ok override (PlanSecretRefBinding u) =
     Inr (Found (secret_ref_resolved u))"
| "resolve_binding R owning missing_ok override (PlanInputBinding path) =
     resolve_plan_input (env_execution R) (env_plan R) path missing_ok"
| "resolve_binding R owning missing_ok override (PlanStepOutputBinding sid path) =
     resolve_step_output (env_codec R) sid path owning (env_rows R) (env_plan R) (env_ancestors R) missing_ok"
| "resolve_binding R owning missing_ok override (PlanExecutionContextBinding path) =
     read_path missing_ok (build_execution_context_projection (env_execution R)) path"
| "resolve_binding R owning missing_ok override (PlanLoopContextBinding path) =
     resolve_loop_context R owning missing_ok override path"
| "resolve_loop_context R owning missing_ok override path =
     (case override of
        Some (JObj kvs) \<Rightarrow> read_path missing_ok (JObj kvs) path
      | Some _ \<Rightarrow> Inl PRECONDITION_FAILED
      | None \<Rightarrow>
          and_then (loop_context_parent (env_codec R) owning (env_rows R)) (\<lambda>(parent, pps, cfg, n).
            and_then
              (if lc_mode cfg = WHILE
               then build_while_body_context (env_codec R) parent pps cfg (env_rows R) n (env_plan R)
               else build_foreach_body_context R parent pps cfg n)
              (\<lambda>projection. read_path missing_ok projection path)))"
| "build_foreach_body_context R parent pps cfg n =
     (case lc_collection cfg of
        None \<Rightarrow> Inl PRECONDITION_FAILED
      | Some b \<Rightarrow>
          if is_loop_context b then Inl PRECONDITION_FAILED
          else and_then (resolve_binding R parent False None b) (\<lambda>collection.
                 pinned_item (env_repr R) collection parent pps cfg n))"
  by pat_completeness auto
termination
  by (relation "measure (\<lambda>call. case call of
        Inl (R, owning, missing_ok, override, b) \<Rightarrow> if is_loop_context b then 3 else 0
      | Inr (Inl _) \<Rightarrow> 2
      | Inr (Inr _) \<Rightarrow> 1)") auto

definition resolve :: "codec \<Rightarrow> (rat \<Rightarrow> string) \<Rightarrow> execution \<Rightarrow> execution_step \<Rightarrow> execution_step list
    \<Rightarrow> (string, plan_binding) dict \<Rightarrow> execution_plan \<Rightarrow> (string, pointed) dict result" where
  "resolve C fr ex step steps bindings plan =
     (if st_execution_id step \<noteq> ex_id ex then Inl RESOURCE_CONFLICT
      else let by_key = by_step_key steps in
        if (case map_of by_key (step_key step) of None \<Rightarrow> True | Some s \<Rightarrow> st_id s \<noteq> st_id step)
        then Inl RESOURCE_CONFLICT
        else and_then (transitive_ancestors plan) (\<lambda>anc.
          mapE (\<lambda>(key, b).
            and_then
              (resolve_binding \<lparr>env_codec = C, env_repr = fr, env_execution = ex, env_rows = by_key,
                                env_plan = plan, env_ancestors = anc\<rparr> step False None b)
              (\<lambda>v. Inr (key, v))) bindings))"

end
