(* ===== verification/ExecutionDb.thy ===== *)
theory ExecutionDb
  imports BindingResolver
begin

section \<open>The rows one execution owns, and its event log\<close>

text \<open>
  The mutable part of \<^verbatim>\<open>src/backend/app/models/execution.py\<close> and the lifecycle events of
  \<^verbatim>\<open>src/backend/app/execution/events.py\<close>.  \<open>db\<close> holds what a service transaction on one
  execution reads and writes.  Every service takes the row lock of the execution first, so a handler
  is one atomic function from the state before to the state after.  A handler that raises leaves the
  state as it was: the session is rolled back.
\<close>

datatype attempt_status =
    A_STARTED | A_SUCCEEDED | A_FAILED | A_TIMED_OUT | A_CANCELLED | A_UNKNOWN_OUTCOME

datatype occurrence_status = O_PLANNED | O_SKIPPED | O_ENQUEUED | O_RUNNING | O_COMPLETED | O_FAILED

record execution_row = execution +
  ex_status :: execution_status
  requester_id :: uuid
  agent_request_id :: "uuid option"
  agent_version_id :: "uuid option"
  workflow_version_id :: "uuid option"
  schedule_occurrence_id :: "uuid option"
  plan_validation_run_id :: "uuid option"
  plan_schema_version :: string
  plan_snapshot :: json
  plan_hash :: string
  policy_snapshot :: json
  ex_error_code :: "string option"
  queued_at :: "time option"
  ex_started_at :: "time option"
  ex_finished_at :: "time option"
  worker_id :: "string option"
  lease_token :: "uuid option"
  lease_expires_at :: "time option"
  heartbeat_at :: "time option"
  ex_lock_version :: int
  result_summary :: json
  cancel_requested_at :: "time option"
  cancel_requested_by :: "uuid option"
  cancel_reason :: "string option"

record step_attempt =
  at_id :: uuid
  at_step_id :: uuid
  attempt_no :: int
  at_status :: attempt_status
  at_worker_id :: "string option"
  at_lease_expires_at :: "time option"
  request_snapshot :: json
  at_error_layer :: "string option"
  at_error_code :: "string option"
  is_retryable :: "bool option"
  at_finished_at :: "time option"

record tool_call =
  tl_id :: uuid
  tl_attempt_id :: uuid
  tl_tool_version_id :: uuid
  normalized_status :: attempt_status
  tl_finished_at :: "time option"
  response_meta :: json
  response_bytes :: "int option"
  first_byte_at :: "time option"

datatype approval_status = AP_PENDING | AP_APPROVED | AP_REJECTED | AP_EXPIRED | AP_CANCELLED

record approval_request =
  ap_id :: uuid
  ap_execution_id :: uuid
  ap_step_id :: uuid
  ap_status :: approval_status
  resolved_at :: "time option"
  ap_lock_version :: int

datatype input_request_status = IN_OPEN | IN_ANSWERED | IN_REJECTED | IN_EXPIRED | IN_UNSUPPORTED

record mcp_input_request =
  in_id :: uuid
  in_execution_id :: uuid
  in_status :: input_request_status
  answered_at :: "time option"
  answered_by :: "uuid option"
  response_payload :: json

record occurrence =
  oc_id :: uuid
  oc_schedule_id :: uuid
  oc_status :: occurrence_status

record schedule_row =
  sc_id :: uuid
  owner_id :: uuid

record event =
  ev_type :: string
  ev_execution_id :: uuid
  ev_step_id :: "uuid option"
  ev_payload :: json
  ev_occurred_at :: time

record db =
  db_execution :: "execution_row option"
  db_steps :: "execution_step list"
  db_attempts :: "step_attempt list"
  db_calls :: "tool_call list"
  db_occurrences :: "occurrence list"
  db_schedules :: "schedule_row list"
  db_approvals :: "approval_request list"
  db_inputs :: "mcp_input_request list"
  db_events :: "event list"

subsection \<open>Queries and writes\<close>

text \<open>\<open>ORDER BY sequence_hint, step_key\<close>, \<open>ORDER BY attempt_no\<close>; tool calls are kept in start order.\<close>

definition list_steps :: "db \<Rightarrow> uuid \<Rightarrow> execution_step list" where
  "list_steps d eid =
     sort_key (\<lambda>s. (sequence_hint s, step_key s)) (filter (\<lambda>s. st_execution_id s = eid) (db_steps d))"

definition list_attempts :: "db \<Rightarrow> uuid \<Rightarrow> step_attempt list" where
  "list_attempts d sid = sort_key attempt_no (filter (\<lambda>a. at_step_id a = sid) (db_attempts d))"

definition list_tool_calls :: "db \<Rightarrow> uuid \<Rightarrow> tool_call list" where
  "list_tool_calls d aid = filter (\<lambda>c. tl_attempt_id c = aid) (db_calls d)"

definition put_execution :: "execution_row \<Rightarrow> db \<Rightarrow> db" where
  "put_execution ex d = d\<lparr>db_execution := Some ex\<rparr>"

definition put_step :: "execution_step \<Rightarrow> db \<Rightarrow> db" where
  "put_step s d = d\<lparr>db_steps := map (\<lambda>r. if st_id r = st_id s then s else r) (db_steps d)\<rparr>"

definition put_attempt :: "step_attempt \<Rightarrow> db \<Rightarrow> db" where
  "put_attempt a d = d\<lparr>db_attempts := map (\<lambda>r. if at_id r = at_id a then a else r) (db_attempts d)\<rparr>"

definition put_call :: "tool_call \<Rightarrow> db \<Rightarrow> db" where
  "put_call c d = d\<lparr>db_calls := map (\<lambda>r. if tl_id r = tl_id c then c else r) (db_calls d)\<rparr>"

definition put_occurrence :: "occurrence \<Rightarrow> db \<Rightarrow> db" where
  "put_occurrence oc d =
     d\<lparr>db_occurrences := map (\<lambda>r. if oc_id r = oc_id oc then oc else r) (db_occurrences d)\<rparr>"

subsection \<open>Lifecycle events\<close>

fun execution_status_value :: "execution_status \<Rightarrow> string" where
  "execution_status_value E_CREATED = ''CREATED''"
| "execution_status_value E_QUEUED = ''QUEUED''"
| "execution_status_value E_RUNNING = ''RUNNING''"
| "execution_status_value E_WAITING_INPUT = ''WAITING_INPUT''"
| "execution_status_value E_WAITING_APPROVAL = ''WAITING_APPROVAL''"
| "execution_status_value E_CANCEL_REQUESTED = ''CANCEL_REQUESTED''"
| "execution_status_value E_SUCCEEDED = ''SUCCEEDED''"
| "execution_status_value E_PARTIALLY_SUCCEEDED = ''PARTIALLY_SUCCEEDED''"
| "execution_status_value E_FAILED = ''FAILED''"
| "execution_status_value E_CANCELLED = ''CANCELLED''"
| "execution_status_value E_TIMED_OUT = ''TIMED_OUT''"

fun execution_event_type :: "execution_status \<Rightarrow> string" where
  "execution_event_type E_CREATED = ''execution.created''"
| "execution_event_type E_QUEUED = ''execution.queued''"
| "execution_event_type E_RUNNING = ''execution.started''"
| "execution_event_type E_WAITING_INPUT = ''execution.waiting_input''"
| "execution_event_type E_WAITING_APPROVAL = ''execution.waiting_approval''"
| "execution_event_type E_CANCEL_REQUESTED = ''execution.cancel_requested''"
| "execution_event_type E_SUCCEEDED = ''execution.succeeded''"
| "execution_event_type E_PARTIALLY_SUCCEEDED = ''execution.partially_succeeded''"
| "execution_event_type E_FAILED = ''execution.failed''"
| "execution_event_type E_CANCELLED = ''execution.cancelled''"
| "execution_event_type E_TIMED_OUT = ''execution.timed_out''"

fun step_event_type :: "step_status \<Rightarrow> string option" where
  "step_event_type READY = Some ''execution.step.ready''"
| "step_event_type RUNNING = Some ''execution.step.started''"
| "step_event_type WAITING_INPUT = Some ''execution.step.waiting_input''"
| "step_event_type WAITING_APPROVAL = Some ''execution.step.waiting_approval''"
| "step_event_type SUCCEEDED = Some ''execution.step.succeeded''"
| "step_event_type FAILED = Some ''execution.step.failed''"
| "step_event_type SKIPPED = Some ''execution.step.skipped''"
| "step_event_type _ = None"

definition execution_lifecycle_payload :: "execution_row \<Rightarrow> json" where
  "execution_lifecycle_payload ex =
     JObj [(''execution_id'', JStr (uuid_str (ex_id ex))), (''status'', JStr (execution_status_value (ex_status ex)))]"

definition step_lifecycle_payload :: "execution_step \<Rightarrow> json" where
  "step_lifecycle_payload s =
     JObj [(''execution_id'', JStr (uuid_str (st_execution_id s))), (''step_execution_id'', JStr (uuid_str (st_id s))),
           (''status'', JStr (step_status_value (status s)))]"

text \<open>The event types are constants of at most 128 characters, so \<open>append\<close> cannot raise here.\<close>

definition emit_execution_status_changed :: "execution_row \<Rightarrow> execution_status \<Rightarrow> time \<Rightarrow> db \<Rightarrow> db" where
  "emit_execution_status_changed ex previous ts d =
     (if previous = ex_status ex then d
      else d\<lparr>db_events := db_events d @
             [\<lparr>ev_type = execution_event_type (ex_status ex), ev_execution_id = ex_id ex, ev_step_id = None,
               ev_payload = execution_lifecycle_payload ex, ev_occurred_at = ts\<rparr>]\<rparr>)"

definition emit_step_status_changed :: "execution_step \<Rightarrow> step_status \<Rightarrow> time \<Rightarrow> db \<Rightarrow> db" where
  "emit_step_status_changed s previous ts d =
     (if previous = status s then d
      else case step_event_type (status s) of
        None \<Rightarrow> d
      | Some t \<Rightarrow> d\<lparr>db_events := db_events d @
             [\<lparr>ev_type = t, ev_execution_id = st_execution_id s, ev_step_id = Some (st_id s),
               ev_payload = step_lifecycle_payload s, ev_occurred_at = ts\<rparr>]\<rparr>)"

subsection \<open>Sources of an execution\<close>

definition is_workflow_schedule_occurrence :: "execution_row \<Rightarrow> bool" where
  "is_workflow_schedule_occurrence ex \<longleftrightarrow>
     source_type ex = ''SCHEDULE_OCCURRENCE'' \<and> schedule_occurrence_id ex \<noteq> None
     \<and> workflow_version_id ex \<noteq> None \<and> agent_request_id ex = None \<and> agent_version_id ex = None
     \<and> plan_validation_run_id ex = None"

definition is_agent_schedule_occurrence :: "execution_row \<Rightarrow> bool" where
  "is_agent_schedule_occurrence ex \<longleftrightarrow>
     source_type ex = ''SCHEDULE_OCCURRENCE'' \<and> schedule_occurrence_id ex \<noteq> None
     \<and> workflow_version_id ex = None \<and> agent_request_id ex \<noteq> None \<and> agent_version_id ex \<noteq> None
     \<and> plan_validation_run_id ex \<noteq> None"

fun plan_source_type :: "plan_source \<Rightarrow> string" where
  "plan_source_type (PlanSourceAgent _) = ''AGENT''"
| "plan_source_type (PlanSourceWorkflow _) = ''WORKFLOW''"
| "plan_source_type (PlanSourceManualToolTest _ _) = ''MANUAL_TOOL_TEST''"

definition compute_plan_hash :: "(rat \<Rightarrow> string) \<Rightarrow> json \<Rightarrow> string" where
  "compute_plan_hash fr snapshot = compute_canonical_json_hash fr snapshot"

text \<open>
  \<open>vplan\<close> is \<open>ExecutionPlanV1.model_validate\<close>; the class has \<open>schema_version: Literal["1.0"]\<close>.
\<close>

definition assert_execution_plan_lineage ::
    "(json \<Rightarrow> execution_plan option) \<Rightarrow> (rat \<Rightarrow> string) \<Rightarrow> execution_row \<Rightarrow> execution_plan result" where
  "assert_execution_plan_lineage vplan fr ex =
     and_then (opt_or (vplan (plan_snapshot ex)) RESOURCE_CONFLICT) (\<lambda>plan.
       if plan_schema_version ex \<noteq> ''1.0'' \<or> compute_plan_hash fr (plan_snapshot ex) \<noteq> plan_hash ex
       then Inl RESOURCE_CONFLICT else Inr plan)"

subsection \<open>Leases\<close>

text \<open>\<open>_assign_lease\<close> and \<open>_clear_lease\<close>; a lease lasts \<open>lease\<close> seconds.\<close>

definition assign_lease :: "int \<Rightarrow> string \<Rightarrow> uuid \<Rightarrow> time \<Rightarrow> execution_row \<Rightarrow> execution_row" where
  "assign_lease lease worker token now ex =
     ex\<lparr>worker_id := Some worker, lease_token := Some token,
        lease_expires_at := Some (now + lease * 1000000), heartbeat_at := Some now,
        ex_lock_version := ex_lock_version ex + 1\<rparr>"

definition clear_lease :: "execution_row \<Rightarrow> execution_row" where
  "clear_lease ex =
     ex\<lparr>worker_id := None, lease_token := None, lease_expires_at := None, heartbeat_at := None\<rparr>"

definition unleased :: "execution_row \<Rightarrow> bool" where
  "unleased ex \<longleftrightarrow>
     worker_id ex = None \<and> lease_token ex = None \<and> lease_expires_at ex = None \<and> heartbeat_at ex = None"

definition leased :: "execution_row \<Rightarrow> bool" where
  "leased ex \<longleftrightarrow>
     worker_id ex \<noteq> None \<and> lease_token ex \<noteq> None \<and> lease_expires_at ex \<noteq> None \<and> heartbeat_at ex \<noteq> None"

lemma put_simps [simp]:
  "db_execution (put_execution ex d) = Some ex" "db_steps (put_execution ex d) = db_steps d"
  "db_events (put_execution ex d) = db_events d" "db_attempts (put_execution ex d) = db_attempts d"
  "db_calls (put_execution ex d) = db_calls d" "db_occurrences (put_execution ex d) = db_occurrences d"
  "db_execution (put_step s d) = db_execution d" "db_events (put_step s d) = db_events d"
  "db_attempts (put_step s d) = db_attempts d" "db_calls (put_step s d) = db_calls d"
  "db_execution (put_attempt a d) = db_execution d" "db_steps (put_attempt a d) = db_steps d"
  "db_events (put_attempt a d) = db_events d" "db_calls (put_attempt a d) = db_calls d"
  "db_execution (put_call c d) = db_execution d" "db_steps (put_call c d) = db_steps d"
  "db_events (put_call c d) = db_events d" "db_attempts (put_call c d) = db_attempts d"
  "db_execution (put_occurrence oc d) = db_execution d" "db_steps (put_occurrence oc d) = db_steps d"
  "db_events (put_occurrence oc d) = db_events d"
  by (simp_all add: put_execution_def put_step_def put_attempt_def put_call_def put_occurrence_def)

lemma emit_simps [simp]:
  "db_execution (emit_execution_status_changed ex p ts d) = db_execution d"
  "db_steps (emit_execution_status_changed ex p ts d) = db_steps d"
  "db_attempts (emit_execution_status_changed ex p ts d) = db_attempts d"
  "db_calls (emit_execution_status_changed ex p ts d) = db_calls d"
  "db_occurrences (emit_execution_status_changed ex p ts d) = db_occurrences d"
  "db_execution (emit_step_status_changed s q ts d) = db_execution d"
  "db_steps (emit_step_status_changed s q ts d) = db_steps d"
  "db_attempts (emit_step_status_changed s q ts d) = db_attempts d"
  "db_calls (emit_step_status_changed s q ts d) = db_calls d"
  "db_occurrences (emit_step_status_changed s q ts d) = db_occurrences d"
  by (simp_all add: emit_execution_status_changed_def emit_step_status_changed_def split: option.split)

lemma set_list_steps: "set (list_steps d eid) = {s \<in> set (db_steps d). st_execution_id s = eid}"
  by (auto simp: list_steps_def)

text \<open>Rows are read and written back by their key.\<close>

lemma update_by_key:
  assumes "distinct (map f xs)" and "find (\<lambda>r. f r = k) xs = Some r0" and "f (g r0) = f r0"
  shows "map (\<lambda>r. if f r = f (g r0) then g r0 else r) xs = map (\<lambda>r. if f r = k then g r else r) xs"
proof -
  from find_SomeD [OF assms(2)] have r0: "f r0 = k" "r0 \<in> set xs"
    by simp_all
  have key: "f (g r0) = k"
    using assms(3) r0(1) by (rule trans)
  have "(if f r = k then g r0 else r) = (if f r = k then g r else r)" if "r \<in> set xs" for r
  proof (cases "f r = k")
    case True
    then have "f r = f r0"
      using r0(1) by simp
    then have "r = r0"
      using assms(1) that r0(2) by (auto simp: distinct_map dest: inj_onD)
    then show ?thesis
      by (simp only:)
  qed simp
  then show ?thesis
    unfolding key by (rule map_cong [OF refl])
qed

lemma update_no_key: "find (\<lambda>r. f r = k) xs = None \<Longrightarrow> map (\<lambda>r. if f r = k then g r else r) xs = xs"
  by (induction xs) (auto split: if_splits)

text \<open>A tool call whose outcome is not known, as both recoveries write it.\<close>

definition unknown_call :: "time \<Rightarrow> tool_call \<Rightarrow> tool_call" where
  "unknown_call now c = c\<lparr>normalized_status := A_UNKNOWN_OUTCOME, tl_finished_at := Some now\<rparr>"

lemma unknown_call_simps [simp]:
  "tl_id (unknown_call now c) = tl_id c" "tl_attempt_id (unknown_call now c) = tl_attempt_id c"
  "normalized_status (unknown_call now c) = A_UNKNOWN_OUTCOME"
  "unknown_call now (unknown_call now c) = unknown_call now c"
  by (simp_all add: unknown_call_def)

end
