(* ===== verification/Completion.thy ===== *)
theory Completion
  imports LoopRuntime Samples
begin

section \<open>Error policy and completion\<close>

text \<open>
  \<^verbatim>\<open>src/backend/app/execution/completion.py\<close>: what happens to the rest of a chain after a step
  fails, and how the final rows of an execution add up to its status under \<open>ALL_REQUIRED\<close>.

  The rows a function mutates are the values of the dictionary \<open>by_key\<close>; the function returns the
  dictionary with the rows as it leaves them.
\<close>

record completion_decision =
  cd_status :: execution_status
  cd_error_code :: "string option"

fun is_continuable_known_failure :: "on_error \<Rightarrow> step_status \<Rightarrow> bool" where
  "is_continuable_known_failure oe st \<longleftrightarrow> oe \<in> {MARK_PARTIAL, CONTINUE} \<and> st \<in> {FAILED, TIMED_OUT}"

definition fail_fast_execution_status :: "step_status \<Rightarrow> execution_status" where
  "fail_fast_execution_status st = (if st = TIMED_OUT then E_TIMED_OUT else E_FAILED)"

abbreviation SKIP_REASON_CODE :: string where
  "SKIP_REASON_CODE \<equiv> ''UPSTREAM_EXECUTION_STOPPED''"

definition mark_skipped :: "time \<Rightarrow> execution_step \<Rightarrow> execution_step" where
  "mark_skipped now s = s\<lparr>status := SKIPPED, error_code := Some SKIP_REASON_CODE,
     error_message := Some ''Upstream Execution stopped; downstream Step was not started.'',
     finished_at := Some now, lock_version := lock_version s + 1\<rparr>"

subsection \<open>Skipping the rest of a chain\<close>

record skip_state =
  sk_rows :: "(string, execution_step) dict"
  sk_skipped :: "string list"
  sk_seen :: bool

definition skip_turn :: "string \<Rightarrow> time \<Rightarrow> string \<Rightarrow> skip_state \<Rightarrow> skip_state result" where
  "skip_turn after now key z =
     (if key = after then Inr (z\<lparr>sk_seen := True\<rparr>)
      else if \<not> sk_seen z then Inr z
      else and_then (dict_at (sk_rows z) key) (\<lambda>s.
        if status s \<noteq> PENDING then Inr z
        else Inr (z\<lparr>sk_rows := dict_set key (mark_skipped now s) (sk_rows z),
                    sk_skipped := sk_skipped z @ [key]\<rparr>)))"

definition skip_remaining_pending :: "string list \<Rightarrow> string \<Rightarrow> (string, execution_step) dict \<Rightarrow> time
    \<Rightarrow> ((string, execution_step) dict \<times> string list) result" where
  "skip_remaining_pending ordered after rows now =
     and_then (foldE (skip_turn after now) ordered \<lparr>sk_rows = rows, sk_skipped = [], sk_seen = False\<rparr>)
       (\<lambda>z. Inr (sk_rows z, sk_skipped z))"

subsection \<open>Rows that do not count\<close>

definition intentional_skip_code :: "string option \<Rightarrow> bool" where
  "intentional_skip_code c \<longleftrightarrow> c \<in> {Some ''STEP_WHEN_FALSE'', Some ''UPSTREAM_CONDITION_SKIPPED''}"

definition is_intentional_conditional_skip_for_completion :: "execution_step \<Rightarrow> bool" where
  "is_intentional_conditional_skip_for_completion s \<longleftrightarrow>
     status s = SKIPPED \<and> intentional_skip_code (error_code s)"

definition is_loop_stopped_child_neutral_for_completion ::
    "codec \<Rightarrow> execution_step \<Rightarrow> execution_step list \<Rightarrow> bool" where
  "is_loop_stopped_child_neutral_for_completion C s steps =
     (case parent_step_id s of
        None \<Rightarrow> False
      | Some pid \<Rightarrow>
          if error_code s \<noteq> Some ''UPSTREAM_LOOP_STOPPED'' then False
          else if status s \<notin> {SKIPPED, CANCELLED} then False
          else (case find (\<lambda>p. st_id p = pid) steps of
                  None \<Rightarrow> False
                | Some parent \<Rightarrow>
                    if st_type parent \<noteq> LOOP then False
                    else if status parent \<notin> {FAILED, TIMED_OUT} then False
                    else (case validate_plan_step C (step_snapshot parent) of
                            None \<Rightarrow> False
                          | Some ps \<Rightarrow> ps_on_error ps \<in> {CONTINUE, MARK_PARTIAL})))"

subsection \<open>\<open>ALL_REQUIRED\<close>\<close>

definition failure_like :: "step_status \<Rightarrow> bool" where
  "failure_like st \<longleftrightarrow> st \<in> {FAILED, TIMED_OUT, UNKNOWN_OUTCOME, CANCELLED}"

text \<open>The three flags \<open>_apply\<close> updates.\<close>

record agg_flags =
  mark_partial_failure :: bool
  continue_required_failure :: bool
  required_all_succeeded :: bool

definition agg_apply :: "codec \<Rightarrow> execution_step list \<Rightarrow> plan_step \<Rightarrow> execution_step \<Rightarrow> agg_flags \<Rightarrow> agg_flags" where
  "agg_apply C steps ps step z =
     (if is_loop_stopped_child_neutral_for_completion C step steps then z
      else
        let z' = (if ps_required ps \<and> status step \<noteq> SUCCEEDED
                     \<and> \<not> is_intentional_conditional_skip_for_completion step
                  then z\<lparr>required_all_succeeded := False\<rparr> else z)
        in if \<not> failure_like (status step) then z'
           else let z'' = (if ps_on_error ps = MARK_PARTIAL then z'\<lparr>mark_partial_failure := True\<rparr> else z')
                in if ps_required ps \<and> ps_on_error ps = CONTINUE
                   then z''\<lparr>continue_required_failure := True\<rparr> else z'')"

definition agg_top :: "codec \<Rightarrow> execution_step list \<Rightarrow> plan_step \<Rightarrow> agg_flags \<Rightarrow> agg_flags" where
  "agg_top C steps ps z =
     (case map_of (by_step_key (filter is_toplevel steps)) (ps_id ps) of
        None \<Rightarrow> z\<lparr>required_all_succeeded := False\<rparr>
      | Some step \<Rightarrow> agg_apply C steps ps step z)"

definition agg_child :: "codec \<Rightarrow> execution_step list \<Rightarrow> execution_step \<Rightarrow> agg_flags \<Rightarrow> agg_flags" where
  "agg_child C steps step z =
     (if is_toplevel step then z
      else (case validate_plan_step C (step_snapshot step) of
              None \<Rightarrow> z\<lparr>required_all_succeeded := False\<rparr>
            | Some ps \<Rightarrow> agg_apply C steps ps step z))"

definition aggregate_all_required ::
    "codec \<Rightarrow> execution_plan \<Rightarrow> execution_step list \<Rightarrow> completion_decision result" where
  "aggregate_all_required C plan steps =
     and_then (top_level_plan_steps C plan) (\<lambda>tops.
       let any_succeeded = (\<exists>s \<in> set steps. status s = SUCCEEDED);
           z = fold (agg_child C steps) steps (fold (agg_top C steps) tops
                 \<lparr>mark_partial_failure = False, continue_required_failure = False,
                  required_all_succeeded = True\<rparr>)
       in Inr
         (if required_all_succeeded z \<and> \<not> mark_partial_failure z
          then \<lparr>cd_status = E_SUCCEEDED, cd_error_code = None\<rparr>
          else if any_succeeded \<and> (mark_partial_failure z \<or> continue_required_failure z)
          then \<lparr>cd_status = E_PARTIALLY_SUCCEEDED, cd_error_code = None\<rparr>
          else \<lparr>cd_status = E_FAILED, cd_error_code = Some ''ALL_REQUIRED_UNSATISFIED''\<rparr>))"

subsection \<open>The summary\<close>

definition select_response :: "(string, execution_step) dict \<Rightarrow> string
    \<Rightarrow> (string, json) dict \<Rightarrow> (string, json) dict" where
  "select_response rows sid selected =
     (case map_of rows sid of
        None \<Rightarrow> selected
      | Some step \<Rightarrow>
          if status step \<noteq> SUCCEEDED then selected
          else if result_inline step = JNull then selected
          else dict_set sid (JObj [(''status'', JStr (step_status_value (status step)))]) selected)"

definition build_result_summary :: "string \<Rightarrow> execution_step list \<Rightarrow> execution_plan option \<Rightarrow> json" where
  "build_result_summary st steps plan =
     (let base = [(''status'', JStr st),
                  (''step_keys'', JList (map (\<lambda>s. JStr (step_key s)) steps)),
                  (''step_count'', JInt (int (length steps))),
                  (''step_statuses'',
                    JObj (dict_of (map (\<lambda>s. (step_key s, JStr (step_status_value (status s)))) steps)))];
          selected = (case plan of
              None \<Rightarrow> []
            | Some p \<Rightarrow> fold (select_response (by_step_key steps)) (response_step_ids p) [])
      in JObj (if selected = [] then base else base @ [(''response_steps'', JObj selected)]))"

definition plan_step_for :: "codec \<Rightarrow> execution_step \<Rightarrow> plan_step result" where
  "plan_step_for C s = opt_or (validate_plan_step C (step_snapshot s)) ValidationError"

subsection \<open>Skipping: what changes\<close>

lemma mark_skipped_simps [simp]:
  "status (mark_skipped now s) = SKIPPED" "step_key (mark_skipped now s) = step_key s"
  "error_code (mark_skipped now s) = Some SKIP_REASON_CODE"
  "lock_version (mark_skipped now s) = lock_version s + 1" "st_type (mark_skipped now s) = st_type s"
  by (simp_all add: mark_skipped_def)

lemma skip_before:
  "after \<notin> set pre \<Longrightarrow> \<not> sk_seen z \<Longrightarrow> foldE (skip_turn after now) pre z = Inr z"
  by (induction pre) (auto simp: skip_turn_def)

lemma skip_turn_cases:
  assumes "skip_turn after now k z = Inr y" and "sk_seen z"
  obtains (after) "k = after" "y = z"
    | (keep) s where "k \<noteq> after" "map_of (sk_rows z) k = Some s" "status s \<noteq> PENDING" "y = z"
    | (skip) s where "k \<noteq> after" "map_of (sk_rows z) k = Some s" "status s = PENDING"
        "y = z\<lparr>sk_rows := dict_set k (mark_skipped now s) (sk_rows z), sk_skipped := sk_skipped z @ [k]\<rparr>"
  using assms by (auto simp: skip_turn_def split: if_splits) metis

lemma skip_after:
  assumes "foldE (skip_turn after now) post z = Inr z'" and "sk_seen z"
  shows "sk_seen z' \<and> map_of (sk_rows z') = (\<lambda>k. if k \<in> set post \<and> k \<noteq> after
      then map_option (\<lambda>s. if status s = PENDING then mark_skipped now s else s) (map_of (sk_rows z) k)
      else map_of (sk_rows z) k)
    \<and> set (sk_skipped z') = set (sk_skipped z) \<union>
       {k \<in> set post. k \<noteq> after \<and> (\<exists>s. map_of (sk_rows z) k = Some s \<and> status s = PENDING)}"
  using assms
proof (induction post arbitrary: z)
  case (Cons k post)
  then obtain y where y: "skip_turn after now k z = Inr y" "foldE (skip_turn after now) post y = Inr z'"
    by auto
  have seen: "sk_seen y"
    using y(1) Cons.prems(2) by (auto simp: skip_turn_def split: if_splits)
  from y(1) Cons.prems(2) show ?case
    by (cases rule: skip_turn_cases)
      (use Cons.IH [OF y(2) seen] in \<open>auto simp: fun_eq_iff split: if_splits\<close>)
qed simp

lemma skip_skips_distinct:
  assumes "foldE (skip_turn after now) post z = Inr z'" and "sk_seen z" and "distinct post"
  shows "sk_skipped z' = sk_skipped z @ filter (\<lambda>k. k \<noteq> after \<and>
      (\<exists>s. map_of (sk_rows z) k = Some s \<and> status s = PENDING)) post"
  using assms
proof (induction post arbitrary: z)
  case (Cons k post)
  then obtain y where y: "skip_turn after now k z = Inr y" "foldE (skip_turn after now) post y = Inr z'"
    by auto
  have seen: "sk_seen y"
    using y(1) Cons.prems(2) by (auto simp: skip_turn_def split: if_splits)
  have same: "map_of (sk_rows y) j = map_of (sk_rows z) j" if "j \<in> set post" for j
    using y(1) Cons.prems(2,3) that by (cases rule: skip_turn_cases) auto
  have rest: "filter (\<lambda>k. k \<noteq> after \<and> (\<exists>s. map_of (sk_rows y) k = Some s \<and> status s = PENDING)) post
      = filter (\<lambda>k. k \<noteq> after \<and> (\<exists>s. map_of (sk_rows z) k = Some s \<and> status s = PENDING)) post"
    using same by (intro filter_cong) auto
  have "sk_skipped y = sk_skipped z @ (if k \<noteq> after \<and>
      (\<exists>s. map_of (sk_rows z) k = Some s \<and> status s = PENDING) then [k] else [])"
    using y(1) Cons.prems(2) by (cases rule: skip_turn_cases) auto
  with Cons.IH [OF y(2) seen] Cons.prems(3) rest show ?case
    by simp
qed simp

subsection \<open>The flags: what they collect\<close>

text \<open>
  The pairs of plan step and row that count: a top-level step with its row, and a LOOP child with the
  step in its snapshot, less the neutral children of a tolerated LOOP failure.
\<close>

definition counted :: "codec \<Rightarrow> plan_step list \<Rightarrow> execution_step list \<Rightarrow> (plan_step \<times> execution_step) set" where
  "counted C tops steps =
     {(ps, s). ps \<in> set tops \<and> map_of (by_step_key (filter is_toplevel steps)) (ps_id ps) = Some s
        \<and> \<not> is_loop_stopped_child_neutral_for_completion C s steps}
     \<union> {(ps, s). s \<in> set steps \<and> \<not> is_toplevel s \<and> validate_plan_step C (step_snapshot s) = Some ps
        \<and> \<not> is_loop_stopped_child_neutral_for_completion C s steps}"

definition unsatisfied :: "plan_step \<Rightarrow> execution_step \<Rightarrow> bool" where
  "unsatisfied ps s \<longleftrightarrow> ps_required ps \<and> status s \<noteq> SUCCEEDED
     \<and> \<not> is_intentional_conditional_skip_for_completion s"

definition uncounted :: "codec \<Rightarrow> plan_step list \<Rightarrow> execution_step list \<Rightarrow> bool" where
  "uncounted C tops steps \<longleftrightarrow>
     (\<exists>ps \<in> set tops. map_of (by_step_key (filter is_toplevel steps)) (ps_id ps) = None) \<or>
     (\<exists>s \<in> set steps. \<not> is_toplevel s \<and> validate_plan_step C (step_snapshot s) = None)"

lemma agg_apply_flags:
  "agg_apply C steps ps s z =
     (if is_loop_stopped_child_neutral_for_completion C s steps then z else
      \<lparr>mark_partial_failure = (mark_partial_failure z \<or> failure_like (status s) \<and> ps_on_error ps = MARK_PARTIAL),
       continue_required_failure = (continue_required_failure z
         \<or> failure_like (status s) \<and> ps_required ps \<and> ps_on_error ps = CONTINUE),
       required_all_succeeded = (required_all_succeeded z \<and> \<not> unsatisfied ps s)\<rparr>)"
  by (cases z) (simp add: agg_apply_def unsatisfied_def Let_def)

text \<open>One turn of either loop is an \<open>or\<close> into the first two flags and an \<open>and\<close> into the third.\<close>

lemma fold_flags:
  assumes "\<And>x z. x \<in> set xs \<Longrightarrow> g x z = \<lparr>mark_partial_failure = (mark_partial_failure z \<or> p x),
      continue_required_failure = (continue_required_failure z \<or> q x),
      required_all_succeeded = (required_all_succeeded z \<and> \<not> r x)\<rparr>"
  shows "fold g xs z = \<lparr>mark_partial_failure = (mark_partial_failure z \<or> (\<exists>x \<in> set xs. p x)),
      continue_required_failure = (continue_required_failure z \<or> (\<exists>x \<in> set xs. q x)),
      required_all_succeeded = (required_all_succeeded z \<and> (\<forall>x \<in> set xs. \<not> r x))\<rparr>"
  using assms by (induction xs arbitrary: z) auto

lemma agg_top_flags:
  "agg_top C steps ps z =
    (let row = map_of (by_step_key (filter is_toplevel steps)) (ps_id ps);
         live = (\<lambda>P. \<exists>s. row = Some s \<and> \<not> is_loop_stopped_child_neutral_for_completion C s steps \<and> P s)
     in \<lparr>mark_partial_failure = (mark_partial_failure z
           \<or> live (\<lambda>s. failure_like (status s) \<and> ps_on_error ps = MARK_PARTIAL)),
         continue_required_failure = (continue_required_failure z
           \<or> live (\<lambda>s. failure_like (status s) \<and> ps_required ps \<and> ps_on_error ps = CONTINUE)),
         required_all_succeeded = (required_all_succeeded z \<and> \<not> (row = None \<or> live (unsatisfied ps)))\<rparr>)"
  by (cases z) (auto simp: agg_top_def agg_apply_flags Let_def split: option.splits)

lemma agg_child_flags:
  "agg_child C steps s z =
    (let snap = (if is_toplevel s then None else Some (validate_plan_step C (step_snapshot s)));
         live = (\<lambda>P. \<exists>ps. snap = Some (Some ps)
            \<and> \<not> is_loop_stopped_child_neutral_for_completion C s steps \<and> P ps)
     in \<lparr>mark_partial_failure = (mark_partial_failure z
           \<or> live (\<lambda>ps. failure_like (status s) \<and> ps_on_error ps = MARK_PARTIAL)),
         continue_required_failure = (continue_required_failure z
           \<or> live (\<lambda>ps. failure_like (status s) \<and> ps_required ps \<and> ps_on_error ps = CONTINUE)),
         required_all_succeeded = (required_all_succeeded z
           \<and> \<not> (snap = Some None \<or> live (\<lambda>ps. unsatisfied ps s)))\<rparr>)"
  by (cases z) (auto simp: agg_child_def agg_apply_flags Let_def split: option.splits)

lemma aggregate_flags:
  assumes "z = fold (agg_child C steps) steps (fold (agg_top C steps) tops
      \<lparr>mark_partial_failure = False, continue_required_failure = False, required_all_succeeded = True\<rparr>)"
  shows "mark_partial_failure z \<longleftrightarrow>
      (\<exists>(ps, s) \<in> counted C tops steps. failure_like (status s) \<and> ps_on_error ps = MARK_PARTIAL)"
    and "continue_required_failure z \<longleftrightarrow>
      (\<exists>(ps, s) \<in> counted C tops steps. failure_like (status s) \<and> ps_required ps \<and> ps_on_error ps = CONTINUE)"
    and "required_all_succeeded z \<longleftrightarrow>
      \<not> uncounted C tops steps \<and> (\<forall>(ps, s) \<in> counted C tops steps. \<not> unsatisfied ps s)"
  unfolding assms fold_flags [OF agg_child_flags [unfolded Let_def]]
    fold_flags [OF agg_top_flags [unfolded Let_def]]
  by (auto simp: counted_def uncounted_def)

lemma skip_total:
  "set post \<subseteq> dom (map_of (sk_rows z)) \<Longrightarrow> \<exists>z'. foldE (skip_turn after now) post z = Inr z'"
proof (induction post arbitrary: z)
  case (Cons k post)
  then obtain s where s: "map_of (sk_rows z) k = Some s"
    by auto
  then have "\<exists>y. skip_turn after now k z = Inr y \<and> dom (map_of (sk_rows z)) \<subseteq> dom (map_of (sk_rows y))"
    by (auto simp: skip_turn_def dict_at_def)
  then obtain y where "skip_turn after now k z = Inr y" "dom (map_of (sk_rows z)) \<subseteq> dom (map_of (sk_rows y))"
    by blast
  with Cons.IH [of y] Cons.prems show ?case
    by auto
qed simp

text \<open>The part of a row the summary looks at.\<close>

definition summary_view :: "execution_step \<Rightarrow> string \<times> step_status \<times> bool" where
  "summary_view s = (step_key s, status s, result_inline s = JNull)"

lemma by_step_key_view:
  "map_option summary_view (map_of (by_step_key steps) k)
     = map_of (rev (map (\<lambda>(key, st, n). (key, (key, st, n))) (map summary_view steps))) k"
proof -
  have "map_option summary_view (map_of (map (\<lambda>s. (step_key s, s)) xs) k)
      = map_of (map (\<lambda>(key, st, n). (key, (key, st, n))) (map summary_view xs)) k" for xs
    by (induction xs) (auto simp: summary_view_def)
  from this [of "rev steps"] show ?thesis
    by (simp add: by_step_key_def map_of_dict_of rev_map)
qed

lemma select_response_view:
  assumes "map_option summary_view (map_of rows k) = map_option summary_view (map_of rows' k)"
  shows "select_response rows k d = select_response rows' k d"
  using assms by (auto simp: select_response_def summary_view_def split: option.splits)

subsection \<open>Properties\<close>

text \<open>After a stop at one step of a chain, exactly the pending steps behind it become SKIPPED, in chain
  order, with the stop reason and a new lock version; every other row is left as it was.\<close>

theorem skip_remaining_effect:
  assumes "after \<notin> set pre" and "after \<notin> set post" and "distinct post"
    and "set post \<subseteq> dom (map_of rows)"
  shows "\<exists>rows'. skip_remaining_pending (pre @ after # post) after rows now =
      Inr (rows', filter (\<lambda>k. \<exists>s. map_of rows k = Some s \<and> status s = PENDING) post) \<and>
    map_of rows' = (\<lambda>k. if k \<in> set post
      then map_option (\<lambda>s. if status s = PENDING then mark_skipped now s else s) (map_of rows k)
      else map_of rows k)"
proof -
  let ?z = "\<lparr>sk_rows = rows, sk_skipped = [], sk_seen = False\<rparr>"
  let ?y = "\<lparr>sk_rows = rows, sk_skipped = [], sk_seen = True\<rparr>"
  obtain z where z: "foldE (skip_turn after now) post ?y = Inr z"
    using skip_total [of post ?y after now] assms(4) by auto
  have turn: "skip_turn after now after ?z = Inr ?y"
    by (simp add: skip_turn_def)
  have "skip_remaining_pending (pre @ after # post) after rows now = Inr (sk_rows z, sk_skipped z)"
    unfolding skip_remaining_pending_def foldE_append
    by (subst skip_before [OF assms(1)]) (simp_all add: turn z)
  moreover have "map_of (sk_rows z) = (\<lambda>k. if k \<in> set post
      then map_option (\<lambda>s. if status s = PENDING then mark_skipped now s else s) (map_of rows k)
      else map_of rows k)"
  proof -
    have "map_of (sk_rows z) = (\<lambda>k. if k \<in> set post \<and> k \<noteq> after
        then map_option (\<lambda>s. if status s = PENDING then mark_skipped now s else s) (map_of rows k)
        else map_of rows k)"
      using skip_after [OF z] by (simp cong: if_cong)
    also have "\<dots> = (\<lambda>k. if k \<in> set post
        then map_option (\<lambda>s. if status s = PENDING then mark_skipped now s else s) (map_of rows k)
        else map_of rows k)"
      using assms(2) by (intro ext if_cong) auto
    finally show ?thesis .
  qed
  moreover have "sk_skipped z = filter (\<lambda>k. \<exists>s. map_of rows k = Some s \<and> status s = PENDING) post"
    using skip_skips_distinct [OF z _ assms(3)] assms(2) by (auto intro!: filter_cong)
  ultimately show ?thesis
    by auto
qed

theorem skip_remaining_effect_witness:
  "\<exists>rows'. skip_remaining_pending [''a'', ''b'', ''c''] ''b''
       [(''a'', sample_row 1 (sample_step ''a'' TOOL []) SUCCEEDED),
        (''c'', sample_row 3 (sample_step ''c'' TOOL []) PENDING)] 5 = Inr (rows', [''c'']) \<and>
     map_option status (map_of rows' ''c'') = Some SKIPPED"
  using skip_remaining_effect [of "''b''" "[''a'']" "[''c'']"
      "[(''a'', sample_row 1 (sample_step ''a'' TOOL []) SUCCEEDED),
        (''c'', sample_row 3 (sample_step ''c'' TOOL []) PENDING)]" 5]
  by (auto simp: sample_row_def)

text \<open>C5: The completion decision under ALL_REQUIRED, in full: SUCCEEDED if every top-level step has a row,
  every child snapshot is readable, no counted row leaves a required step unsatisfied and none failed
  under MARK_PARTIAL; otherwise PARTIALLY_SUCCEEDED if something succeeded and a counted row failed
  under MARK_PARTIAL, or under CONTINUE on a required step; otherwise FAILED.\<close>

theorem aggregate_all_required_spec:
  assumes "top_level_plan_steps C plan = Inr tops"
  shows "\<exists>d. aggregate_all_required C plan steps = Inr d \<and> cd_status d =
    (let failed = {(ps, s) \<in> counted C tops steps. failure_like (status s)} in
     if \<not> uncounted C tops steps \<and> (\<forall>(ps, s) \<in> counted C tops steps. \<not> unsatisfied ps s)
        \<and> (\<forall>(ps, s) \<in> failed. ps_on_error ps \<noteq> MARK_PARTIAL) then E_SUCCEEDED
     else if (\<exists>s \<in> set steps. status s = SUCCEEDED) \<and>
        (\<exists>(ps, s) \<in> failed. ps_on_error ps = MARK_PARTIAL \<or> ps_required ps \<and> ps_on_error ps = CONTINUE)
     then E_PARTIALLY_SUCCEEDED
     else E_FAILED)"
proof -
  define z where z: "z = fold (agg_child C steps) steps (fold (agg_top C steps) tops
      \<lparr>mark_partial_failure = False, continue_required_failure = False, required_all_succeeded = True\<rparr>)"
  note flags = aggregate_flags [OF z]
  have "aggregate_all_required C plan steps = Inr
      (if required_all_succeeded z \<and> \<not> mark_partial_failure z
       then \<lparr>cd_status = E_SUCCEEDED, cd_error_code = None\<rparr>
       else if (\<exists>s \<in> set steps. status s = SUCCEEDED) \<and> (mark_partial_failure z \<or> continue_required_failure z)
       then \<lparr>cd_status = E_PARTIALLY_SUCCEEDED, cd_error_code = None\<rparr>
       else \<lparr>cd_status = E_FAILED, cd_error_code = Some ''ALL_REQUIRED_UNSATISFIED''\<rparr>)"
    by (simp add: aggregate_all_required_def assms z Let_def)
  then show ?thesis
    unfolding flags Let_def by (intro exI conjI, assumption) (auto 0 4)
qed

theorem aggregate_all_required_spec_witness:
  "\<exists>d. aggregate_all_required (table_codec [] [] [] [] [])
       (sample_plan [sample_step ''a'' TOOL []]) [sample_row 1 (sample_step ''a'' TOOL []) SUCCEEDED] = Inr d
     \<and> cd_status d = E_SUCCEEDED"
proof -
  let ?C = "table_codec [] [] [] [] []" and ?ps = "sample_step ''a'' TOOL []"
  let ?s = "sample_row 1 ?ps SUCCEEDED"
  have tops: "top_level_plan_steps ?C (sample_plan [?ps]) = Inr [?ps]"
    by (simp add: top_level_plan_steps_def build_loop_body_ownership_def own_step_def is_owned_def sample_simps)
  have "counted ?C [?ps] [?s] = {(?ps, ?s)}" "\<not> uncounted ?C [?ps] [?s]"
    by (auto simp: counted_def uncounted_def by_step_key_def is_toplevel_def dict_of_def dict_set_def
        is_loop_stopped_child_neutral_for_completion_def sample_row_def sample_step_def)
  with aggregate_all_required_spec [OF tops, of "[?s]"] show ?thesis
    by (simp add: unsatisfied_def failure_like_def) (simp add: sample_row_def)
qed

text \<open>The result summary depends on the keys and statuses of the rows and on whether a result is
  present, and on nothing else: no result, input or secret can reach it.\<close>

theorem result_summary_reveals_only_status:
  assumes "map summary_view steps = map summary_view steps'"
  shows "build_result_summary st steps plan = build_result_summary st steps' plan"
proof -
  have "fold (select_response (by_step_key steps)) ids d = fold (select_response (by_step_key steps')) ids d"
    for ids d
    using assms by (intro fold_cong select_response_view [THEN ext]) (auto simp: by_step_key_view)
  moreover have "map (\<lambda>s. JStr (step_key s)) steps = map (\<lambda>s. JStr (step_key s)) steps'"
    using arg_cong [OF assms, of "map (\<lambda>(k, st, n). JStr k)"] by (simp add: comp_def summary_view_def)
  moreover have "map (\<lambda>s. (step_key s, JStr (step_status_value (status s)))) steps
      = map (\<lambda>s. (step_key s, JStr (step_status_value (status s)))) steps'"
    using arg_cong [OF assms, of "map (\<lambda>(k, st, n). (k, JStr (step_status_value st)))"]
    by (simp add: comp_def summary_view_def)
  moreover have "length steps = length steps'"
    using arg_cong [OF assms, of length] by simp
  ultimately show ?thesis
    by (cases plan) (simp_all add: build_result_summary_def Let_def)
qed

theorem result_summary_reveals_only_status_witness:
  "build_result_summary ''SUCCEEDED''
     [(sample_row 1 (sample_step ''a'' TOOL []) SUCCEEDED)\<lparr>result_inline := JStr ''x''\<rparr>] None =
   build_result_summary ''SUCCEEDED''
     [(sample_row 1 (sample_step ''a'' TOOL []) SUCCEEDED)\<lparr>result_inline := JStr ''y''\<rparr>] None"
  by (rule result_summary_reveals_only_status) (simp add: summary_view_def)

end
