(* ===== verification/KahnOrder.thy ===== *)
theory KahnOrder
  imports Prelude "HOL-Library.Multiset"
begin

section \<open>Kahn's algorithm as the runtime uses it\<close>

text \<open>
  The scheduling order at the end of \<open>validate_tool_join_dag\<close>
  (\<^verbatim>\<open>src/backend/app/execution/dag.py\<close>): a worklist of the nodes without open dependencies,
  kept sorted by a key, from which the least node is taken until the list is empty.  The tables are
  parameters here: \<open>deps\<close> maps a node to its dependencies, \<open>dependents\<close> a node to the nodes
  that depend on it, once per edge.  Computing the key may raise, as in the code.
\<close>

subsection \<open>The algorithm\<close>

text \<open>\<open>sorted(xs, key=f)\<close>: all keys are computed first, and the sort is stable.\<close>

definition sort_by :: "('a \<Rightarrow> 'b :: linorder result) \<Rightarrow> 'a list \<Rightarrow> 'a list result" where
  "sort_by f xs =
     and_then (mapE (\<lambda>x. and_then (f x) (\<lambda>k. Inr (k, x))) xs) (\<lambda>ps. Inr (map snd (sort_key fst ps)))"

text \<open>One turn of the inner loop: an edge to \<open>nxt\<close> is closed.\<close>

definition kahn_relax :: "('a \<Rightarrow> 'b :: linorder result) \<Rightarrow> 'a \<Rightarrow> ('a, int) dict \<times> 'a list
    \<Rightarrow> (('a, int) dict \<times> 'a list) result" where
  "kahn_relax f nxt z =
     (case z of (indeg, queue) \<Rightarrow>
        and_then (dict_at indeg nxt) (\<lambda>d.
          if d - 1 = 0 then
            and_then (sort_by f (queue @ [nxt])) (\<lambda>queue'. Inr (dict_set nxt (d - 1) indeg, queue'))
          else Inr (dict_set nxt (d - 1) indeg, queue)))"

text \<open>For termination: twice the number of nodes still waiting, plus the length of the worklist.\<close>

definition open_nodes :: "('a, int) dict \<Rightarrow> nat" where
  "open_nodes indeg = length (filter (\<lambda>(k, d). d > 0) indeg)"

lemma sort_by_Inr:
  assumes "sort_by f xs = Inr ys"
  shows "mset ys = mset xs" and "length ys = length xs" and "set ys = set xs"
    and "\<forall>x \<in> set xs. \<exists>k. f x = Inr k"
    and "(\<And>x. x \<in> set xs \<Longrightarrow> f x = Inr (g x)) \<Longrightarrow> sorted (map g ys)"
proof -
  from assms obtain ps where ps: "mapE (\<lambda>x. and_then (f x) (\<lambda>k. Inr (k, x))) xs = Inr ps"
      and ys: "ys = map snd (sort_key fst ps)"
    by (auto simp: sort_by_def)
  from ps have all2: "list_all2 (\<lambda>x p. f x = Inr (fst p) \<and> snd p = x) xs ps"
    by (auto simp: mapE_Inr_iff elim!: list_all2_mono)
  then have snds: "map snd ps = xs"
    by (induction rule: list_all2_induct) auto
  have "mset ys = image_mset snd (mset ps)"
    by (simp add: ys)
  also have "\<dots> = mset xs"
    by (simp flip: snds)
  finally show perm: "mset ys = mset xs" .
  then show "length ys = length xs" "set ys = set xs"
    by (metis size_mset, metis set_mset_mset)
  show "\<forall>x \<in> set xs. \<exists>k. f x = Inr k"
    using all2 by (induction rule: list_all2_induct) auto
  assume g: "\<And>x. x \<in> set xs \<Longrightarrow> f x = Inr (g x)"
  have "fst p = g (snd p)" if "p \<in> set ps" for p
    using all2 that g by (induction rule: list_all2_induct) auto
  then have "map (\<lambda>p. g (snd p)) (sort_key fst ps) = map fst (sort_key fst ps)"
    by (intro map_cong) auto
  then have "map g ys = map fst (sort_key fst ps)"
    by (simp add: ys comp_def)
  then show "sorted (map g ys)"
    by simp
qed

lemma sort_by_total:
  assumes "\<And>x. x \<in> set xs \<Longrightarrow> \<exists>k. f x = Inr k"
  shows "\<exists>ys. sort_by f xs = Inr ys"
proof -
  have "\<exists>ps. mapE (\<lambda>x. and_then (f x) (\<lambda>k. Inr (k, x))) xs = Inr ps"
    using assms by (intro mapE_total) fastforce
  then show ?thesis
    by (auto simp: sort_by_def)
qed

lemma open_nodes_set:
  "map_of indeg k = Some d \<Longrightarrow>
     open_nodes (dict_set k d' indeg) + (if d > 0 then 1 else 0) = open_nodes indeg + (if d' > 0 then 1 else 0)"
  by (induction indeg) (auto simp: open_nodes_def dict_set_def split: if_splits)

lemma kahn_relax_cases:
  assumes "kahn_relax f nxt (indeg, queue) = Inr z"
  obtains (close) "map_of indeg nxt = Some 1" "fst z = dict_set nxt 0 indeg"
      "sort_by f (queue @ [nxt]) = Inr (snd z)"
    | (keep) d where "map_of indeg nxt = Some d" "d \<noteq> 1" "fst z = dict_set nxt (d - 1) indeg" "snd z = queue"
proof -
  from assms obtain d where d: "map_of indeg nxt = Some d"
    by (auto simp: kahn_relax_def)
  show thesis
  proof (cases "d = 1")
    case True
    with assms d close show thesis
      by (auto simp: kahn_relax_def dict_at_def)
  next
    case False
    with assms d keep show thesis
      by (auto simp: kahn_relax_def dict_at_def)
  qed
qed

lemma kahn_relax_measure:
  assumes "kahn_relax f nxt (indeg, queue) = Inr (indeg', queue')"
  shows "2 * open_nodes indeg' + length queue' \<le> 2 * open_nodes indeg + length queue"
  using assms
proof (cases rule: kahn_relax_cases)
  case close
  with open_nodes_set [OF close(1), of 0] sort_by_Inr(2) [OF close(3)] show ?thesis
    by simp
next
  case (keep d)
  with open_nodes_set [OF keep(1), of "d - 1"] show ?thesis
    by (simp split: if_splits)
qed

lemma kahn_relaxes_measure:
  "foldE (kahn_relax f) xs (indeg, queue) = Inr (indeg', queue') \<Longrightarrow>
     2 * open_nodes indeg' + length queue' \<le> 2 * open_nodes indeg + length queue"
proof (induction xs arbitrary: indeg queue)
  case (Cons x xs)
  then obtain z where "kahn_relax f x (indeg, queue) = Inr z" "foldE (kahn_relax f) xs z = Inr (indeg', queue')"
    by auto
  with Cons.IH [of "fst z" "snd z"] kahn_relax_measure [of f x indeg queue "fst z" "snd z"] show ?case
    by simp
qed simp

function kahn_loop :: "('a \<Rightarrow> 'b :: linorder result) \<Rightarrow> ('a, 'a list) dict \<Rightarrow> ('a, int) dict \<Rightarrow> 'a list
    \<Rightarrow> 'a list \<Rightarrow> 'a list result" where
  "kahn_loop f dependents indeg [] seen = Inr seen"
| "kahn_loop f dependents indeg (cur # queue) seen =
     and_then (dict_at dependents cur) (\<lambda>ds.
     and_then (sort_by f ds) (\<lambda>ordered.
     and_then (foldE (kahn_relax f) ordered (indeg, queue)) (\<lambda>z.
       kahn_loop f dependents (fst z) (snd z) (seen @ [cur]))))"
  by pat_completeness auto
termination
proof (relation "measure (\<lambda>(f, dependents, indeg, queue, seen). 2 * open_nodes indeg + length queue)")
  fix f :: "'a \<Rightarrow> 'b result" and dependents indeg cur queue and seen :: "'a list" and ds ordered z
  assume "foldE (kahn_relax f) ordered (indeg, queue) = Inr z"
  with kahn_relaxes_measure [of f ordered indeg queue "fst z" "snd z"]
  show "((f, dependents, fst z, snd z, seen @ [cur]), f, dependents, indeg, cur # queue, seen)
      \<in> measure (\<lambda>(f, dependents, indeg, queue, seen). 2 * open_nodes indeg + length queue)"
    by simp
qed auto

definition kahn_order :: "('a \<Rightarrow> 'b :: linorder result) \<Rightarrow> ('a, 'a list) dict \<Rightarrow> ('a, 'a list) dict
    \<Rightarrow> 'a list result" where
  "kahn_order f deps dependents =
     (let indeg = map (\<lambda>(k, ds). (k, int (length ds))) deps;
          queue = map fst (filter (\<lambda>(k, d). d = 0) indeg)
      in and_then (sort_by f queue) (\<lambda>queue'. kahn_loop f dependents indeg queue' []))"

subsection \<open>The tables\<close>

text \<open>
  Every edge stands once in each table; \<open>dependents\<close> has an entry for every node.
\<close>

definition kahn_tables :: "('a, 'a list) dict \<Rightarrow> ('a, 'a list) dict \<Rightarrow> bool" where
  "kahn_tables deps dependents \<longleftrightarrow>
     distinct (dict_keys deps) \<and>
     (\<forall>k \<in> fst ` set deps. \<exists>ds. map_of dependents k = Some ds \<and> set ds \<subseteq> fst ` set deps \<and>
        (\<forall>n \<in> fst ` set deps. count_list ds n = count_list (dict_get deps n []) k))"

text \<open>The nodes that can come next after \<open>done\<close>.\<close>

definition ready_after :: "('a, 'a list) dict \<Rightarrow> 'a list \<Rightarrow> 'a set" where
  "ready_after deps done = {n \<in> fst ` set deps. n \<notin> set done \<and> set (dict_get deps n []) \<subseteq> set done}"

text \<open>
  The specification of the order: at every position stands a node whose dependencies all come earlier,
  and among the nodes that could stand there it has the least key.
\<close>

definition least_first :: "('a \<Rightarrow> 'b :: linorder) \<Rightarrow> ('a, 'a list) dict \<Rightarrow> 'a list \<Rightarrow> bool" where
  "least_first g deps xs \<longleftrightarrow> (\<forall>i < length xs. xs ! i \<in> ready_after deps (take i xs) \<and>
     (\<forall>m \<in> ready_after deps (take i xs). g (xs ! i) \<le> g m))"

definition edges_of :: "('a, 'a list) dict \<Rightarrow> ('a \<times> 'a) set" where
  "edges_of deps = {(d, n). n \<in> fst ` set deps \<and> d \<in> set (dict_get deps n [])}"

lemma least_first_snoc:
  "least_first g deps (xs @ [x]) \<longleftrightarrow> least_first g deps xs \<and> x \<in> ready_after deps xs \<and>
     (\<forall>m \<in> ready_after deps xs. g x \<le> g m)"
  by (auto simp: least_first_def nth_append less_Suc_eq)

lemma least_first_Nil [simp]: "least_first g deps []"
  by (simp add: least_first_def)

lemma filter_new_count:
  "c \<notin> S \<Longrightarrow> length (filter (\<lambda>d. d \<notin> S) xs)
     = length (filter (\<lambda>d. d \<notin> insert c S) xs) + count_list xs c"
  by (induction xs) auto

lemma count_list_perm: "mset xs = mset ys \<Longrightarrow> count_list xs x = count_list ys x"
  by (metis count_mset_0_iff count_list_0_iff count_mset)

subsection \<open>The invariant\<close>

text \<open>
  Between two turns of the inner loop: \<open>T\<close> are the dependents of the last node of \<open>S\<close> that
  have not been looked at.
\<close>

definition kahn_inv :: "('a \<Rightarrow> 'b :: linorder) \<Rightarrow> ('a, 'a list) dict \<Rightarrow> 'a list \<Rightarrow> 'a list
    \<Rightarrow> ('a, int) dict \<times> 'a list \<Rightarrow> bool" where
  "kahn_inv g deps S T z \<longleftrightarrow>
     (\<forall>n \<in> fst ` set deps. map_of (fst z) n =
        Some (int (length (filter (\<lambda>d. d \<notin> set S) (dict_get deps n [])) + count_list T n))) \<and>
     distinct (S @ snd z) \<and>
     set (S @ snd z) = {n \<in> fst ` set deps. map_of (fst z) n = Some 0} \<and>
     sorted (map g (snd z))"

lemma kahn_invD:
  assumes "kahn_inv g deps S T (indeg, queue)"
  shows "n \<in> fst ` set deps \<Longrightarrow> map_of indeg n =
      Some (int (length (filter (\<lambda>d. d \<notin> set S) (dict_get deps n [])) + count_list T n))"
    and "distinct (S @ queue)"
    and "set (S @ queue) = {n \<in> fst ` set deps. map_of indeg n = Some 0}"
    and "sorted (map g queue)"
  using assms unfolding kahn_inv_def fst_conv snd_conv by blast+

lemma kahn_invI:
  assumes "\<And>n. n \<in> fst ` set deps \<Longrightarrow> map_of (fst z) n =
      Some (int (length (filter (\<lambda>d. d \<notin> set S) (dict_get deps n [])) + count_list T n))"
    and "distinct (S @ snd z)"
    and "set (S @ snd z) = {n \<in> fst ` set deps. map_of (fst z) n = Some 0}"
    and "sorted (map g (snd z))"
  shows "kahn_inv g deps S T z"
  using assms unfolding kahn_inv_def by blast

lemma kahn_relax_inv:
  assumes inv: "kahn_inv g deps S (nxt # T) (indeg, queue)" and nxt: "nxt \<in> fst ` set deps"
    and key: "\<And>k. k \<in> fst ` set deps \<Longrightarrow> f k = Inr (g k)"
    and relax: "kahn_relax f nxt (indeg, queue) = Inr z"
  shows "kahn_inv g deps S T z"
proof -
  let ?open = "\<lambda>n. length (filter (\<lambda>d. d \<notin> set S) (dict_get deps n []))"
  note D = kahn_invD [OF inv]
  have old: "map_of indeg nxt = Some (int (?open nxt + count_list T nxt) + 1)"
    using D(1) [OF nxt] by simp
  from relax have dec: "fst z = dict_set nxt (int (?open nxt + count_list T nxt)) indeg"
    using old by (cases rule: kahn_relax_cases) auto
  have degs: "map_of (fst z) n = Some (int (?open n + count_list T n))" if "n \<in> fst ` set deps" for n
    using that D(1) [OF that] by (auto simp: dec)
  have zeros: "{n \<in> fst ` set deps. map_of (fst z) n = Some 0}
      = {n \<in> fst ` set deps. map_of indeg n = Some 0} \<union>
        (if ?open nxt + count_list T nxt = 0 then {nxt} else {})"
  proof -
    have "map_of (fst z) n = Some 0 \<longleftrightarrow> (if n = nxt then ?open nxt + count_list T nxt = 0
        else map_of indeg n = Some 0)" for n
      unfolding dec by (simp del: of_nat_add)
    moreover have "map_of indeg nxt \<noteq> Some 0"
      using old by simp
    ultimately show ?thesis
      using nxt by (auto split: if_splits)
  qed
  have fresh: "nxt \<notin> set (S @ queue)"
    using old unfolding D(3) by simp
  from relax have "distinct (S @ snd z) \<and> sorted (map g (snd z)) \<and>
      set (S @ snd z) = set (S @ queue) \<union> (if ?open nxt + count_list T nxt = 0 then {nxt} else {})"
  proof (cases rule: kahn_relax_cases)
    case close
    have "set queue \<subseteq> fst ` set deps"
      using D(3) by auto
    with nxt have "sorted (map g (snd z))"
      by (intro sort_by_Inr(5) [OF close(3)] key) auto
    moreover have "distinct (queue @ [nxt])"
      using fresh D(2) by simp
    then have "distinct (snd z)"
      using sort_by_Inr(1) [OF close(3)] mset_eq_imp_distinct_iff by metis
    moreover have "?open nxt + count_list T nxt = 0"
      using trans [OF close(1) [symmetric] old] by (simp del: of_nat_add)
    ultimately show ?thesis
      using sort_by_Inr(3) [OF close(3)] fresh D(2) by auto
  next
    case (keep d)
    with D(2,4) old show ?thesis
      by auto
  qed
  then show ?thesis
    unfolding zeros [symmetric] D(3) by (intro kahn_invI degs) (simp_all add: zeros)
qed

lemma kahn_relax_total:
  assumes "kahn_inv g deps S (nxt # T) (indeg, queue)" and "nxt \<in> fst ` set deps"
    and "\<And>k. k \<in> fst ` set deps \<Longrightarrow> f k = Inr (g k)"
  shows "\<exists>z. kahn_relax f nxt (indeg, queue) = Inr z"
proof -
  have "set (queue @ [nxt]) \<subseteq> fst ` set deps"
    using kahn_invD(3) [OF assms(1)] assms(2) by auto
  then obtain ys where "sort_by f (queue @ [nxt]) = Inr ys"
    using sort_by_total [of "queue @ [nxt]" f] assms(3) by blast
  moreover obtain d where "map_of indeg nxt = Some d"
    using kahn_invD(1) [OF assms(1,2)] by simp
  ultimately show ?thesis
    by (simp add: kahn_relax_def dict_at_def)
qed

lemma kahn_relaxes_inv:
  assumes "kahn_inv g deps S T (indeg, queue)" and "set T \<subseteq> fst ` set deps"
    and "\<And>k. k \<in> fst ` set deps \<Longrightarrow> f k = Inr (g k)"
  shows "\<exists>z. foldE (kahn_relax f) T (indeg, queue) = Inr z \<and> kahn_inv g deps S [] z"
  using assms
proof (induction T arbitrary: indeg queue)
  case (Cons nxt T)
  then obtain z where z: "kahn_relax f nxt (indeg, queue) = Inr z"
    using kahn_relax_total [of g deps S nxt T indeg queue f] by auto
  with Cons have "kahn_inv g deps S T (fst z, snd z)"
    using kahn_relax_inv [of g deps S nxt T indeg queue f z] by auto
  from Cons.IH [OF this] Cons.prems z show ?case
    by simp
qed simp

text \<open>Taking the head of the worklist opens a turn of the outer loop.\<close>

lemma kahn_pop_inv:
  assumes inv: "kahn_inv g deps S [] (indeg, cur # queue)"
    and ds: "\<And>n. n \<in> fst ` set deps \<Longrightarrow> count_list ds n = count_list (dict_get deps n []) cur"
  shows "kahn_inv g deps (S @ [cur]) ds (indeg, queue)"
proof -
  note D = kahn_invD [OF inv]
  have "cur \<notin> set S"
    using D(2) by simp
  from filter_new_count [OF this] D ds show ?thesis
    by (intro kahn_invI) simp_all
qed

lemma kahn_pop_least:
  assumes inv: "kahn_inv g deps S [] (indeg, cur # queue)"
  shows "cur \<in> ready_after deps S \<and> (\<forall>m \<in> ready_after deps S. g cur \<le> g m)"
proof -
  note D = kahn_invD [OF inv]
  have zero: "map_of indeg n = Some 0 \<longleftrightarrow> set (dict_get deps n []) \<subseteq> set S" if "n \<in> fst ` set deps" for n
    using D(1) [OF that] by (auto simp: filter_empty_conv)
  have "n \<in> ready_after deps S \<longleftrightarrow> n \<in> set (S @ cur # queue) \<and> n \<notin> set S" for n
    unfolding D(3) ready_after_def using zero by blast
  then have "ready_after deps S = set (cur # queue)"
    using D(2) by auto
  with D(4) show ?thesis
    by simp
qed

lemma kahn_loop_spec:
  assumes tables: "kahn_tables deps dependents"
    and key: "\<And>k. k \<in> fst ` set deps \<Longrightarrow> f k = Inr (g k)"
    and "kahn_inv g deps S [] (indeg, queue)" and "least_first g deps S"
  shows "\<exists>xs. kahn_loop f dependents indeg queue S = Inr xs \<and> least_first g deps xs \<and> distinct xs
    \<and> set xs \<subseteq> fst ` set deps \<and> ready_after deps xs = {}"
  using assms(3,4)
proof (induction "2 * open_nodes indeg + length queue" arbitrary: indeg queue S rule: less_induct)
  case less
  show ?case
  proof (cases queue)
    case Nil
    note D = kahn_invD [OF less.prems(1) [unfolded Nil]]
    have "n \<in> set S" if "n \<in> fst ` set deps" "set (dict_get deps n []) \<subseteq> set S" for n
    proof -
      from that(2) have "filter (\<lambda>d. d \<notin> set S) (dict_get deps n []) = []"
        by (auto simp: filter_empty_conv)
      with D(1) [OF that(1)] that(1) D(3) show ?thesis
        by simp
    qed
    then have "ready_after deps S = {}"
      by (auto simp: ready_after_def)
    moreover have "distinct S" "set S \<subseteq> fst ` set deps"
      using D(2,3) by auto
    ultimately show ?thesis
      using less.prems(2) Nil by simp
  next
    case (Cons cur q)
    note inv = less.prems(1) [unfolded Cons]
    then have "cur \<in> fst ` set deps"
      using kahn_invD(3) by fastforce
    with tables obtain ds where ds: "map_of dependents cur = Some ds" "set ds \<subseteq> fst ` set deps"
        "\<And>n. n \<in> fst ` set deps \<Longrightarrow> count_list ds n = count_list (dict_get deps n []) cur"
      unfolding kahn_tables_def by blast
    obtain ordered where ordered: "sort_by f ds = Inr ordered"
      using sort_by_total [of ds f] ds(2) key by blast
    note perm = sort_by_Inr(1,3) [OF ordered]
    have "kahn_inv g deps (S @ [cur]) ordered (indeg, q)"
      using kahn_pop_inv [OF inv] ds(3) count_list_perm [OF perm(1)] by simp
    with ds(2) perm(2) key obtain z where z: "foldE (kahn_relax f) ordered (indeg, q) = Inr z"
        "kahn_inv g deps (S @ [cur]) [] z"
      using kahn_relaxes_inv [of g deps "S @ [cur]" ordered indeg q f] by auto
    have "least_first g deps (S @ [cur])"
      using less.prems(2) kahn_pop_least [OF inv] by (simp add: least_first_snoc)
    moreover have "2 * open_nodes (fst z) + length (snd z) < 2 * open_nodes indeg + length queue"
      using kahn_relaxes_measure [of f ordered indeg q "fst z" "snd z"] z(1) Cons by simp
    ultimately show ?thesis
      using less.hyps [of "fst z" "snd z" "S @ [cur]"] z ds(1) ordered
      by (simp add: Cons dict_at_def)
  qed
qed

lemma kahn_init_inv:
  assumes "distinct (dict_keys deps)"
    and "sort_by f (map fst (filter (\<lambda>(k, d). d = 0) (map (\<lambda>(k, ds). (k, int (length ds))) deps))) = Inr queue"
    and key: "\<And>k. k \<in> fst ` set deps \<Longrightarrow> f k = Inr (g k)"
  shows "kahn_inv g deps [] [] (map (\<lambda>(k, ds). (k, int (length ds))) deps, queue)"
proof -
  let ?indeg = "map (\<lambda>(k, ds). (k, int (length ds))) deps"
  let ?q = "map fst (filter (\<lambda>(k, d). d = 0) ?indeg)"
  have keys: "map fst ?indeg = dict_keys deps"
    by (induction deps) auto
  have "map_of ?indeg n = map_option (\<lambda>ds. int (length ds)) (map_of deps n)" for n
    by (induction deps) auto
  then have look: "map_of ?indeg n = Some (int (length (dict_get deps n [])))" if "n \<in> fst ` set deps" for n
    using that by (cases "map_of deps n") (simp_all add: dict_get_def map_of_eq_None_iff)
  have "n \<in> set ?q \<longleftrightarrow> n \<in> fst ` set deps \<and> map_of ?indeg n = Some 0" for n
  proof -
    have "n \<in> set ?q \<longleftrightarrow> (n, 0) \<in> set ?indeg"
      by force
    also have "\<dots> \<longleftrightarrow> map_of ?indeg n = Some 0"
      using assms(1) keys by (metis map_of_SomeD map_of_is_SomeI)
    also have "\<dots> \<longleftrightarrow> n \<in> fst ` set deps \<and> map_of ?indeg n = Some 0"
      by (force dest: map_of_SomeD)
    finally show ?thesis .
  qed
  then have q: "set ?q = {n \<in> fst ` set deps. map_of ?indeg n = Some 0}"
    by blast
  have "distinct ?q"
    using assms(1) keys by (metis distinct_map_filter)
  then have "distinct queue"
    using sort_by_Inr(1) [OF assms(2)] mset_eq_imp_distinct_iff by metis
  moreover have "sorted (map g queue)"
    using q by (intro sort_by_Inr(5) [OF assms(2)] key) auto
  moreover have "set queue = {n \<in> fst ` set deps. map_of ?indeg n = Some 0}"
    using sort_by_Inr(3) [OF assms(2)] q by simp
  ultimately show ?thesis
    using look by (intro kahn_invI) simp_all
qed

text \<open>The order exists, is least-first, and stops only when nothing more is ready.\<close>

lemma kahn_order_spec:
  assumes "kahn_tables deps dependents" and key: "\<And>k. k \<in> fst ` set deps \<Longrightarrow> f k = Inr (g k)"
  shows "\<exists>xs. kahn_order f deps dependents = Inr xs \<and> least_first g deps xs \<and> distinct xs
    \<and> set xs \<subseteq> fst ` set deps \<and> ready_after deps xs = {}"
proof -
  let ?q = "map fst (filter (\<lambda>(k, d). d = 0) (map (\<lambda>(k, ds). (k, int (length ds))) deps))"
  have "k \<in> fst ` set deps" if "k \<in> set ?q" for k
    using that by force
  with key obtain queue where queue: "sort_by f ?q = Inr queue"
    using sort_by_total [of ?q f] by blast
  from assms(1) have "distinct (dict_keys deps)"
    by (simp add: kahn_tables_def)
  from kahn_loop_spec [OF assms kahn_init_inv [OF this queue key]] show ?thesis
    by (simp add: kahn_order_def queue)
qed

subsection \<open>Complete orders and cycles\<close>

lemma least_first_deps:
  assumes "least_first g deps xs" and "i < length xs" and "d \<in> set (dict_get deps (xs ! i) [])"
  shows "\<exists>j < i. xs ! j = d"
proof -
  from assms have "d \<in> set (take i xs)"
    by (auto simp: least_first_def ready_after_def)
  with assms(2) show ?thesis
    by (auto simp: in_set_conv_nth)
qed

text \<open>A complete least-first order is a topological order, so there is no cycle.\<close>

lemma least_first_acyclic:
  assumes "least_first g deps xs" and "fst ` set deps \<subseteq> set xs"
  shows "acyclic (edges_of deps)"
proof -
  define pos where "pos x = (LEAST i. i < length xs \<and> xs ! i = x)" for x
  have less: "pos d < pos n" if "(d, n) \<in> edges_of deps" for d n
  proof -
    from that assms(2) have "\<exists>i. i < length xs \<and> xs ! i = n"
      by (auto simp: edges_of_def in_set_conv_nth subset_iff)
    then have n: "pos n < length xs \<and> xs ! pos n = n"
      unfolding pos_def by (rule LeastI_ex)
    with least_first_deps [OF assms(1), of "pos n" d] that obtain j where "j < pos n" "xs ! j = d"
      by (auto simp: edges_of_def)
    moreover from this n have "pos d \<le> j"
      unfolding pos_def by (intro Least_le) auto
    ultimately show ?thesis
      by simp
  qed
  have "pos d < pos n" if "(d, n) \<in> (edges_of deps)\<^sup>+" for d n
    using that by (induction rule: trancl_induct) (auto dest: less)
  then show ?thesis
    by (auto simp: acyclic_def)
qed

text \<open>Without a cycle, and with every dependency a node, nothing is left behind.\<close>

lemma ready_complete:
  assumes "acyclic (edges_of deps)" and closed: "\<forall>n \<in> fst ` set deps. set (dict_get deps n []) \<subseteq> fst ` set deps"
    and none: "ready_after deps xs = {}"
  shows "fst ` set deps \<subseteq> set xs"
proof (rule ccontr)
  have sub: "edges_of deps \<subseteq> fst ` set deps \<times> fst ` set deps"
    using closed by (auto simp: edges_of_def)
  then have "finite (edges_of deps)"
    by (rule finite_subset) simp
  from finite_acyclic_wf [OF this assms(1)] have wf: "wf (edges_of deps)" .
  assume "\<not> fst ` set deps \<subseteq> set xs"
  then obtain n0 where "n0 \<in> fst ` set deps - set xs"
    by blast
  with wf obtain n where n: "n \<in> fst ` set deps - set xs"
      "\<And>d. (d, n) \<in> edges_of deps \<Longrightarrow> d \<notin> fst ` set deps - set xs"
    by (metis wfE_min)
  then have "set (dict_get deps n []) \<subseteq> set xs"
    using closed [rule_format, of n] by (auto simp: edges_of_def)
  with n(1) have "n \<in> ready_after deps xs"
    by (simp add: ready_after_def)
  with none show False
    by simp
qed

text \<open>Two least-first orders over the same tables with injective keys agree: the schedule is determined.\<close>

lemma least_first_unique:
  assumes "least_first g deps xs" and "least_first g deps ys" and "inj_on g (fst ` set deps)"
    and "length xs = length ys"
  shows "xs = ys"
proof -
  have "take i xs = take i ys" if "i \<le> length xs" for i
    using that
  proof (induction i)
    case (Suc i)
    then have eq: "take i xs = take i ys" and i: "i < length xs" "i < length ys"
      using assms(4) by auto
    have x: "xs ! i \<in> ready_after deps (take i xs)" "\<forall>m \<in> ready_after deps (take i xs). g (xs ! i) \<le> g m"
      using assms(1) i(1) by (auto simp: least_first_def)
    have y: "ys ! i \<in> ready_after deps (take i ys)" "\<forall>m \<in> ready_after deps (take i ys). g (ys ! i) \<le> g m"
      using assms(2) i(2) by (auto simp: least_first_def)
    from x y eq have "g (xs ! i) = g (ys ! i)"
      by (metis antisym)
    moreover have "xs ! i \<in> fst ` set deps" "ys ! i \<in> fst ` set deps"
      using x(1) y(1) by (auto simp: ready_after_def)
    ultimately have "xs ! i = ys ! i"
      using assms(3) by (auto dest: inj_onD)
    with eq i show ?case
      by (simp add: take_Suc_conv_app_nth)
  qed simp
  from this [of "length xs"] assms(4) show ?thesis
    by simp
qed

lemma kahn_order_complete_iff:
  assumes "kahn_tables deps dependents" and "\<And>k. k \<in> fst ` set deps \<Longrightarrow> f k = Inr (g k)"
    and closed: "\<forall>n \<in> fst ` set deps. set (dict_get deps n []) \<subseteq> fst ` set deps"
    and xs: "kahn_order f deps dependents = Inr xs"
  shows "length xs = length deps \<longleftrightarrow> acyclic (edges_of deps)"
proof -
  have sp: "least_first g deps xs" "distinct xs" "set xs \<subseteq> fst ` set deps" "ready_after deps xs = {}"
    using kahn_order_spec [of deps dependents f g, OF assms(1,2)] xs by auto
  have card: "length deps = card (fst ` set deps)"
    using assms(1) by (metis kahn_tables_def distinct_card length_map list.set_map)
  have "length xs = length deps \<longleftrightarrow> fst ` set deps \<subseteq> set xs"
  proof
    assume "length xs = length deps"
    then have "card (set xs) = card (fst ` set deps)"
      using sp(2) card by (simp add: distinct_card)
    with sp(3) have "set xs = fst ` set deps"
      by (intro card_subset_eq) auto
    then show "fst ` set deps \<subseteq> set xs"
      by simp
  next
    assume "fst ` set deps \<subseteq> set xs"
    with sp(3) have "set xs = fst ` set deps"
      by blast
    with sp(2) card show "length xs = length deps"
      by (simp flip: distinct_card)
  qed
  also have "\<dots> \<longleftrightarrow> acyclic (edges_of deps)"
    using least_first_acyclic [OF sp(1)] ready_complete [OF _ closed sp(4)] by blast
  finally show ?thesis .
qed

end
