(* ===== verification/RuntimeDag.thy ===== *)
theory RuntimeDag
  imports WhileControl Completion KahnOrder
begin

section \<open>The runtime DAG\<close>

text \<open>
  \<^verbatim>\<open>src/backend/app/execution/dag.py\<close>: the check that the rows of an execution are an exact
  projection of its immutable plan and form an acyclic graph, and the local questions the orchestrator
  asks of that graph: which steps may start, what a JOIN decides, what a stop does to the others.
\<close>

record tool_join_dag =
  ordered_step_keys :: "string list"
  root_tool_keys :: "string list"
  dag_max_parallelism :: int
  dependents :: "(string, string list) dict"
  dependencies :: "(string, string list) dict"

type_synonym rows = "(string, execution_step) dict"
type_synonym parents = "(uuid, execution_step) dict"
type_synonym graph = "(string, string list) dict \<times> (string, string list) dict"

subsection \<open>One row against its plan step\<close>

definition validate_typed_config ::
    "codec \<Rightarrow> plan_step \<Rightarrow> execution_step \<Rightarrow> string list \<Rightarrow> bool \<Rightarrow> unit result" where
  "validate_typed_config C ps step deps allow_loop =
     (case ps_type ps of
        TOOL \<Rightarrow>
          (case mcp_tool_version_id step of
             None \<Rightarrow> Inl RESOURCE_CONFLICT
           | Some tv \<Rightarrow>
               and_then (opt_or (validate_tool_config C (ps_config ps)) RESOURCE_CONFLICT) (\<lambda>cfg.
                 if tc_tool_version_id cfg \<noteq> tv then Inl RESOURCE_CONFLICT
                 else if length deps > 1 then Inl RESOURCE_CONFLICT
                 else Inr ()))
      | CONDITION \<Rightarrow>
          if mcp_tool_version_id step \<noteq> None then Inl RESOURCE_CONFLICT
          else and_then (opt_or (validate_condition_config C (ps_config ps)) RESOURCE_CONFLICT) (\<lambda>_. Inr ())
      | JOIN \<Rightarrow>
          if mcp_tool_version_id step \<noteq> None then Inl RESOURCE_CONFLICT
          else and_then (opt_or (validate_join_config C (ps_config ps)) RESOURCE_CONFLICT) (\<lambda>_.
            if deps = [] then Inl RESOURCE_CONFLICT else Inr ())
      | APPROVAL \<Rightarrow>
          if mcp_tool_version_id step \<noteq> None then Inl RESOURCE_CONFLICT
          else and_then (opt_or (validate_approval_config C (ps_config ps)) RESOURCE_CONFLICT) (\<lambda>_. Inr ())
      | LOOP \<Rightarrow>
          if \<not> allow_loop then Inl RESOURCE_CONFLICT
          else if mcp_tool_version_id step \<noteq> None then Inl RESOURCE_CONFLICT
          else and_then (opt_or (validate_loop_config C (ps_config ps)) RESOURCE_CONFLICT) (\<lambda>_. Inr ()))"

definition assert_exact_plan_projection :: "codec \<Rightarrow> plan_step \<Rightarrow> execution_step \<Rightarrow> unit result" where
  "assert_exact_plan_projection C ps step =
     and_then (opt_or (validate_plan_step C (step_snapshot step)) RESOURCE_CONFLICT) (\<lambda>parsed.
       if ps_id parsed \<noteq> ps_id ps \<or> ps_type parsed \<noteq> ps_type ps then Inl RESOURCE_CONFLICT
       else if \<not> py_eq (dump_plan_step C parsed) (step_snapshot step) then Inl RESOURCE_CONFLICT
       else if \<not> py_eq (dump_plan_step C ps) (step_snapshot step) then Inl RESOURCE_CONFLICT
       else if st_type step \<noteq> ps_type ps then Inl RESOURCE_CONFLICT
       else Inr ())"

subsection \<open>Which rows there are\<close>

text \<open>The two branches on \<open>has_loop_bodies\<close>.\<close>

definition assert_rows_without_loops :: "execution_plan \<Rightarrow> execution_step list \<Rightarrow> unit result" where
  "assert_rows_without_loops plan steps =
     (if (\<exists>s \<in> set steps. \<not> is_toplevel s) then Inl RESOURCE_CONFLICT
      else if length (plan_steps plan) \<noteq> length steps then Inl RESOURCE_CONFLICT
      else if step_key ` set steps \<noteq> ps_id ` set (plan_steps plan) then Inl RESOURCE_CONFLICT
      else if (\<exists>s \<in> set steps. st_type s = LOOP) then Inl RESOURCE_CONFLICT
      else Inr ())"

definition assert_rows_with_loops :: "plan_step list \<Rightarrow> execution_step list \<Rightarrow> unit result" where
  "assert_rows_with_loops tops top_rows =
     (if (\<exists>s \<in> set top_rows. iteration_no s \<noteq> None) then Inl RESOURCE_CONFLICT
      else if step_key ` set top_rows \<noteq> ps_id ` set tops then Inl RESOURCE_CONFLICT
      else Inr ())"

subsection \<open>The edges\<close>

text \<open>\<open>deps[key] = ds\<close>, then the three statements on \<open>dependents\<close>.\<close>

definition add_node :: "string \<Rightarrow> string list \<Rightarrow> graph \<Rightarrow> graph" where
  "add_node key ds g =
     (dict_set key ds (fst g), fold (\<lambda>d. dict_append d key) ds (dict_default key (snd g)))"

text \<open>One turn of the loop over the top-level plan steps.\<close>

definition dag_top_step :: "codec \<Rightarrow> bool \<Rightarrow> rows \<Rightarrow> string list \<Rightarrow> plan_step \<Rightarrow> graph \<Rightarrow> graph result" where
  "dag_top_step C has_loop_bodies by_key top_ids ps g =
     and_then (dict_at by_key (ps_id ps)) (\<lambda>step.
       if parent_step_id step \<noteq> None then Inl RESOURCE_CONFLICT
       else and_then (assert_exact_plan_projection C ps step) (\<lambda>_.
         if length (ps_depends_on ps) \<noteq> card (set (ps_depends_on ps)) then Inl RESOURCE_CONFLICT
         else if \<not> set (ps_depends_on ps) \<subseteq> set top_ids then Inl RESOURCE_CONFLICT
         else and_then (validate_typed_config C ps step (ps_depends_on ps) has_loop_bodies) (\<lambda>_.
           Inr (add_node (ps_id ps) (ps_depends_on ps) g))))"

text \<open>The dependencies of a LOOP child inside its own iteration; the edge to the LOOP itself is left out.\<close>

definition child_dep :: "execution_step \<Rightarrow> int \<Rightarrow> string list \<Rightarrow> string \<Rightarrow> string list \<Rightarrow> string list result" where
  "child_dep parent n body_ids dep acc =
     (if dep = step_key parent then Inr acc
      else if dep \<in> set body_ids
      then and_then (iteration_step_key (st_id parent) n dep) (\<lambda>k. Inr (acc @ [k]))
      else Inl RESOURCE_CONFLICT)"

text \<open>The checks on a LOOP child against its parent row and its template.\<close>

definition child_template :: "codec \<Rightarrow> (string, plan_step) dict \<Rightarrow> loop_body_ownership \<Rightarrow> execution_step
    \<Rightarrow> int \<Rightarrow> execution_step \<Rightarrow> (plan_step \<times> string list) result" where
  "child_template C by_id own parent n child =
     and_then (dict_at by_id (step_key parent)) (\<lambda>loop_ps.
     and_then (assert_exact_plan_projection C loop_ps parent) (\<lambda>_.
     and_then (opt_or (validate_plan_step C (step_snapshot child)) RESOURCE_CONFLICT) (\<lambda>template.
     and_then (opt_or (map_of by_id (ps_id template)) RESOURCE_CONFLICT) (\<lambda>expected.
       if \<not> py_eq (dump_plan_step C expected) (step_snapshot child) then Inl RESOURCE_CONFLICT
       else let body_ids = dict_get (loop_to_body own) (step_key parent) [] in
         if ps_id template \<notin> set body_ids then Inl RESOURCE_CONFLICT
         else if st_type child \<noteq> ps_type template then Inl RESOURCE_CONFLICT
         else if st_type child \<notin> {TOOL, CONDITION, JOIN} then Inl RESOURCE_CONFLICT
         else and_then (iteration_step_key (st_id parent) n (ps_id template)) (\<lambda>key.
           if step_key child \<noteq> key then Inl RESOURCE_CONFLICT
           else and_then (tool_version_for_template C expected) (\<lambda>tv.
             if mcp_tool_version_id child \<noteq> tv then Inl RESOURCE_CONFLICT
             else and_then (foldE (child_dep parent n body_ids) (ps_depends_on expected) []) (\<lambda>runtime_deps.
               if ps_type template = TOOL \<and> length runtime_deps > 1 then Inl RESOURCE_CONFLICT
               else if ps_type template = JOIN \<and> ps_depends_on expected = [] then Inl RESOURCE_CONFLICT
               else Inr (expected, runtime_deps))))))))"

definition dag_child_step :: "codec \<Rightarrow> (string, plan_step) dict \<Rightarrow> loop_body_ownership \<Rightarrow> parents
    \<Rightarrow> execution_step \<Rightarrow> graph \<Rightarrow> graph result" where
  "dag_child_step C by_id own parent_by_id child g =
     (case (iteration_no child, parent_step_id child) of
        (Some n, Some pid) \<Rightarrow>
          if n < 1 then Inl RESOURCE_CONFLICT
          else (case map_of parent_by_id pid of
                  None \<Rightarrow> Inl RESOURCE_CONFLICT
                | Some parent \<Rightarrow>
                    if st_type parent \<noteq> LOOP then Inl RESOURCE_CONFLICT
                    else if parent_step_id parent \<noteq> None then Inl RESOURCE_CONFLICT
                    else and_then (child_template C by_id own parent n child) (\<lambda>(expected, runtime_deps).
                      and_then (validate_typed_config C expected child
                          (filter (\<lambda>d. d \<noteq> step_key parent) (ps_depends_on expected)) False) (\<lambda>_.
                        Inr (add_node (step_key child) runtime_deps g))))
      | _ \<Rightarrow> Inl RESOURCE_CONFLICT)"

subsection \<open>Iteration shapes\<close>

text \<open>The bound on the iteration numbers and, for WHILE, the history.\<close>

definition loop_bound :: "loop_config \<Rightarrow> execution_step \<Rightarrow> (int \<times> while_entry list option) result" where
  "loop_bound cfg parent =
     (case lc_mode cfg of
        FOR_EACH \<Rightarrow> and_then (parse_foreach_collection_pin (resolved_input parent)) (\<lambda>pin.
          Inr (pin_collection_size pin, None))
      | WHILE \<Rightarrow> and_then (parse_while_predicate_history (resolved_input parent)) (\<lambda>history.
          Inr (lc_max_iterations cfg, Some history)))"

definition check_iteration :: "codec \<Rightarrow> execution_step \<Rightarrow> string list \<Rightarrow> execution_step list \<Rightarrow> int
    \<Rightarrow> int option \<Rightarrow> int option result" where
  "check_iteration C parent body_ids children n active =
     (let iter_children = filter (\<lambda>c. iteration_no c = Some n) children in
      and_then (mapE (template_id_from_step_snapshot C) iter_children) (\<lambda>templates.
        if length templates \<noteq> card (set templates) then Inl RESOURCE_CONFLICT
        else if set templates \<noteq> set body_ids then Inl RESOURCE_CONFLICT
        else if length iter_children \<noteq> length body_ids then Inl RESOURCE_CONFLICT
        else and_then (eachE (\<lambda>c. and_then (template_id_from_step_snapshot C c) (\<lambda>tid.
               and_then (iteration_step_key (st_id parent) n tid) (\<lambda>key.
                 if step_key c \<noteq> key then Inl RESOURCE_CONFLICT else Inr ()))) iter_children) (\<lambda>_.
          if (\<exists>c \<in> set iter_children. \<not> terminal_status (status c)) then
            (if active \<noteq> None then Inl RESOURCE_CONFLICT else Inr (Some n))
          else Inr active)))"

definition check_loop_children :: "codec \<Rightarrow> loop_body_ownership \<Rightarrow> parents \<Rightarrow> (string, plan_step) dict
    \<Rightarrow> uuid option \<times> execution_step list \<Rightarrow> unit result" where
  "check_loop_children C own parent_by_id by_id entry =
     (case entry of (pid, children) \<Rightarrow>
      and_then (opt_or (Option.bind pid (map_of parent_by_id)) RESOURCE_CONFLICT) (\<lambda>parent.
      let body_ids = dict_get (loop_to_body own) (step_key parent) [] in
      if body_ids = [] then Inl RESOURCE_CONFLICT
      else and_then (dict_at by_id (step_key parent)) (\<lambda>loop_ps.
      and_then (opt_or (validate_loop_config C (ps_config loop_ps)) ValidationError) (\<lambda>cfg.
      if lc_body_step_ids cfg \<noteq> body_ids then Inl RESOURCE_CONFLICT
      else and_then (loop_bound cfg parent) (\<lambda>(bound, history).
      if (\<exists>c \<in> set children. case iteration_no c of None \<Rightarrow> True | Some n \<Rightarrow> n < 1 \<or> n > bound)
      then Inl RESOURCE_CONFLICT
      else let max_iter = max_materialized_iteration children (st_id parent) in
      if max_iter < 1 then Inr ()
      else if set (present_iterations children) \<noteq> set [1..max_iter] then Inl RESOURCE_CONFLICT
      else if (case history of None \<Rightarrow> False | Some h \<Rightarrow> \<exists>n \<in> set [1..max_iter]. \<not> gate_is h n True)
      then Inl RESOURCE_CONFLICT
      else and_then (foldE (check_iteration C parent body_ids children) [1..max_iter] None) (\<lambda>active.
        if active \<noteq> None \<and> active \<noteq> Some max_iter then Inl RESOURCE_CONFLICT else Inr ()))))))"

definition children_by_parent :: "execution_step list \<Rightarrow> (uuid option, execution_step list) dict" where
  "children_by_parent child_rows = fold (\<lambda>c. dict_append (parent_step_id c) c) child_rows []"

definition validate_loop_iteration_shapes :: "codec \<Rightarrow> loop_body_ownership \<Rightarrow> execution_step list
    \<Rightarrow> execution_step list \<Rightarrow> (string, plan_step) dict \<Rightarrow> unit result" where
  "validate_loop_iteration_shapes C own top_rows child_rows by_id =
     eachE (check_loop_children C own (dict_of (map (\<lambda>s. (st_id s, s)) top_rows)) by_id)
       (children_by_parent child_rows)"

subsection \<open>The whole check\<close>

definition check_while_row :: "codec \<Rightarrow> execution_plan \<Rightarrow> execution_step list \<Rightarrow> execution_step \<Rightarrow> unit result" where
  "check_while_row C plan steps row =
     (if st_type row \<noteq> LOOP then Inr ()
      else case map_of (plan_by_id plan) (step_key row) of
             None \<Rightarrow> Inr ()
           | Some loop_ps \<Rightarrow>
               (case validate_loop_config C (ps_config loop_ps) of
                  None \<Rightarrow> Inr ()
                | Some cfg \<Rightarrow>
                    if lc_mode cfg \<noteq> WHILE then Inr ()
                    else assert_while_parent_control_state C row plan steps (Some cfg)))"

definition plan_order_index :: "execution_plan \<Rightarrow> (string, nat) dict" where
  "plan_order_index plan = dict_of (zip (map ps_id (plan_steps plan)) [0..<length (plan_steps plan)])"

definition order_key :: "codec \<Rightarrow> execution_plan \<Rightarrow> rows \<Rightarrow> parents \<Rightarrow> string
    \<Rightarrow> (nat \<times> nat \<times> int \<times> nat) result" where
  "order_key C plan by_key parent_by_id k =
     (let idx = (\<lambda>i. dict_get (plan_order_index plan) i 10000) in
      and_then (dict_at by_key k) (\<lambda>step.
        case parent_step_id step of
          None \<Rightarrow> Inr (0, idx k, 0, 0)
        | Some pid \<Rightarrow>
            and_then (dict_at parent_by_id pid) (\<lambda>parent.
            and_then (template_id_from_step_snapshot C step) (\<lambda>tid.
              Inr (1, idx (step_key parent), (case iteration_no step of None \<Rightarrow> 0 | Some n \<Rightarrow> n), idx tid)))))"

text \<open>The two tables, after both loops; the last line is \<open>for k in deps: dependents.setdefault(k, [])\<close>.\<close>

definition build_graph :: "codec \<Rightarrow> execution_plan \<Rightarrow> loop_body_ownership \<Rightarrow> plan_step list
    \<Rightarrow> execution_step list \<Rightarrow> graph result" where
  "build_graph C plan own tops steps =
     (let by_key = by_step_key steps;
          top_rows = filter is_toplevel steps;
          child_rows = filter (\<lambda>s. \<not> is_toplevel s) steps
      in
      and_then (foldE (dag_top_step C (body_to_loop own \<noteq> []) by_key (map ps_id tops)) tops ([], [])) (\<lambda>g.
        foldE (dag_child_step C (plan_by_id plan) own (dict_of (map (\<lambda>s. (st_id s, s)) top_rows)))
          child_rows g))"

definition schedule :: "codec \<Rightarrow> execution_plan \<Rightarrow> execution_step list \<Rightarrow> graph \<Rightarrow> string list result" where
  "schedule C plan steps g =
     (let key = order_key C plan (by_step_key steps)
            (dict_of (map (\<lambda>s. (st_id s, s)) (filter is_toplevel steps)));
          full = fold dict_default (dict_keys (fst g)) (snd g)
      in and_then (kahn_order key (fst g) full) (\<lambda>seen.
        if length seen \<noteq> length (fst g) then Inl RESOURCE_CONFLICT else Inr seen))"

definition root_tools :: "plan_step list \<Rightarrow> rows \<Rightarrow> (string, string list) dict \<Rightarrow> string list result" where
  "root_tools tops by_key deps =
     foldE (\<lambda>ps acc.
       if dict_get deps (ps_id ps) [] \<noteq> [] then Inr acc
       else and_then (dict_at by_key (ps_id ps)) (\<lambda>s.
         Inr (if st_type s = TOOL then acc @ [ps_id ps] else acc))) tops []"

definition validate_tool_join_dag :: "codec \<Rightarrow> execution_plan \<Rightarrow> execution_step list \<Rightarrow> tool_join_dag result" where
  "validate_tool_join_dag C plan steps =
     (if steps = [] then Inl RESOURCE_CONFLICT
      else let by_key = by_step_key steps in
      if length by_key \<noteq> length steps then Inl RESOURCE_CONFLICT
      else and_then (build_loop_body_ownership C plan) (\<lambda>own.
      let has_loop_bodies = (body_to_loop own \<noteq> []);
          top_rows = filter is_toplevel steps;
          child_rows = filter (\<lambda>s. \<not> is_toplevel s) steps
      in
      and_then (if has_loop_bodies
                then and_then (assert_flat_foreach_runtime_compatible C plan) (\<lambda>_. Inr ())
                else Inr ()) (\<lambda>_.
      and_then (top_level_plan_steps C plan) (\<lambda>tops.
      and_then (if has_loop_bodies then assert_rows_with_loops tops top_rows
                else assert_rows_without_loops plan steps) (\<lambda>_.
      and_then (build_graph C plan own tops steps) (\<lambda>g.
      and_then (if child_rows \<noteq> []
                then validate_loop_iteration_shapes C own top_rows child_rows (plan_by_id plan)
                else Inr ()) (\<lambda>_.
      and_then (eachE (check_while_row C plan steps) top_rows) (\<lambda>_.
      and_then (schedule C plan steps g) (\<lambda>ordered.
      and_then (root_tools tops by_key (fst g)) (\<lambda>roots.
      if max_parallelism (plan_limits plan) < 1 then Inl RESOURCE_CONFLICT
      else Inr \<lparr>ordered_step_keys = ordered, root_tool_keys = roots,
                dag_max_parallelism = max_parallelism (plan_limits plan),
                dependents = fold dict_default (dict_keys (fst g)) (snd g),
                dependencies = fst g\<rparr>))))))))))"

subsection \<open>Eligibility\<close>

definition is_intentional_conditional_skip :: "execution_step \<Rightarrow> bool" where
  "is_intentional_conditional_skip s \<longleftrightarrow> status s = SKIPPED \<and> intentional_skip_code (error_code s)"

definition dependency_progression_complete :: "codec \<Rightarrow> execution_step \<Rightarrow> execution_step option \<Rightarrow> bool" where
  "dependency_progression_complete C dep downstream =
     (if (case downstream of None \<Rightarrow> False | Some d \<Rightarrow> parent_step_id d = Some (st_id dep))
         \<and> st_type dep = LOOP \<and> status dep = RUNNING then True
      else if status dep = SUCCEEDED then True
      else if is_intentional_conditional_skip dep then False
      else (case plan_step_for C dep of
              Inl _ \<Rightarrow> False
            | Inr ps \<Rightarrow> is_continuable_known_failure (ps_on_error ps) (status dep)))"

definition parent_loop_running_if_body :: "execution_step \<Rightarrow> rows \<Rightarrow> bool" where
  "parent_loop_running_if_body step by_key =
     (case parent_step_id step of
        None \<Rightarrow> True
      | Some pid \<Rightarrow>
          (case find (\<lambda>s. st_id s = pid) (dict_values by_key) of
             None \<Rightarrow> False
           | Some parent \<Rightarrow> st_type parent = LOOP \<and> status parent = RUNNING))"

definition has_intentional_skip_dependency :: "execution_step \<Rightarrow> tool_join_dag \<Rightarrow> rows \<Rightarrow> bool result" where
  "has_intentional_skip_dependency step dag by_key =
     anyE (\<lambda>d. and_then (dict_at by_key d) (\<lambda>dep. Inr (is_intentional_conditional_skip dep)))
       (dict_get (dependencies dag) (step_key step) [])"

text \<open>The tail the four eligibility functions share: no intentionally skipped dependency, and every
  dependency progression-complete.\<close>

definition deps_allow :: "codec \<Rightarrow> execution_step \<Rightarrow> tool_join_dag \<Rightarrow> rows \<Rightarrow> bool result" where
  "deps_allow C step dag by_key =
     and_then (has_intentional_skip_dependency step dag by_key) (\<lambda>skip.
       if skip then Inr False
       else allE (\<lambda>d. and_then (dict_at by_key d) (\<lambda>dep.
              Inr (dependency_progression_complete C dep (Some step))))
            (dict_get (dependencies dag) (step_key step) []))"

definition tool_structurally_eligible :: "codec \<Rightarrow> execution_step \<Rightarrow> tool_join_dag \<Rightarrow> rows \<Rightarrow> bool result" where
  "tool_structurally_eligible C step dag by_key =
     (if status step \<noteq> PENDING then Inr False
      else if st_type step \<noteq> TOOL then Inr False
      else if \<not> parent_loop_running_if_body step by_key then Inr False
      else deps_allow C step dag by_key)"

definition condition_structurally_eligible :: "codec \<Rightarrow> execution_step \<Rightarrow> tool_join_dag \<Rightarrow> rows \<Rightarrow> bool result" where
  "condition_structurally_eligible C step dag by_key =
     (if status step \<noteq> PENDING then Inr False
      else if st_type step \<noteq> CONDITION then Inr False
      else if \<not> parent_loop_running_if_body step by_key then Inr False
      else deps_allow C step dag by_key)"

definition approval_structurally_eligible :: "codec \<Rightarrow> execution_step \<Rightarrow> tool_join_dag \<Rightarrow> rows \<Rightarrow> bool result" where
  "approval_structurally_eligible C step dag by_key =
     (if status step \<noteq> PENDING then Inr False
      else if st_type step \<noteq> APPROVAL then Inr False
      else deps_allow C step dag by_key)"

definition loop_structurally_eligible :: "codec \<Rightarrow> execution_step \<Rightarrow> tool_join_dag \<Rightarrow> rows \<Rightarrow> bool result" where
  "loop_structurally_eligible C step dag by_key =
     (if status step \<noteq> PENDING then Inr False
      else if st_type step \<noteq> LOOP then Inr False
      else if parent_step_id step \<noteq> None then Inr False
      else deps_allow C step dag by_key)"

definition join_barrier_ready :: "execution_step \<Rightarrow> tool_join_dag \<Rightarrow> rows \<Rightarrow> bool result" where
  "join_barrier_ready step dag by_key =
     (if status step \<noteq> PENDING then Inr False
      else if st_type step \<noteq> JOIN then Inr False
      else if \<not> parent_loop_running_if_body step by_key then Inr False
      else let deps = dict_get (dependencies dag) (step_key step) [] in
        if deps = [] then Inr False
        else allE (\<lambda>d. and_then (dict_at by_key d) (\<lambda>dep. Inr (terminal_status (status dep)))) deps)"

subsection \<open>JOIN, slots, stops\<close>

text \<open>The last branch of the code, an unknown policy, cannot be taken: \<open>JoinPolicy\<close> has three members.\<close>

fun evaluate_join_policy :: "join_policy \<Rightarrow> step_status list \<Rightarrow> step_status \<times> string option" where
  "evaluate_join_policy ALL_SUCCESS sts =
     (if list_all (\<lambda>s. s = SUCCEEDED) sts then (SUCCEEDED, None)
      else (FAILED, Some ''JOIN_POLICY_UNSATISFIED''))"
| "evaluate_join_policy ALL_COMPLETE sts = (SUCCEEDED, None)"
| "evaluate_join_policy ANY_SUCCESS sts =
     (if list_ex (\<lambda>s. s = SUCCEEDED) sts then (SUCCEEDED, None)
      else (FAILED, Some ''JOIN_POLICY_UNSATISFIED''))"

definition count_tool_slots :: "execution_step list \<Rightarrow> nat" where
  "count_tool_slots steps = length (filter (\<lambda>s. st_type s = TOOL \<and> status s \<in> {READY, RUNNING}) steps)"

text \<open>A loop over \<open>by_key.values()\<close> that changes the rows satisfying a guard and collects their keys.\<close>

definition sweep :: "(execution_step \<Rightarrow> bool) \<Rightarrow> (execution_step \<Rightarrow> execution_step) \<Rightarrow> rows \<Rightarrow> rows \<times> string list" where
  "sweep guard act by_key =
     (map (\<lambda>(k, s). (k, if guard s then act s else s)) by_key,
      map (\<lambda>(k, s). step_key s) (filter (\<lambda>(k, s). guard s) by_key))"

definition skip_all_pending :: "rows \<Rightarrow> time \<Rightarrow> rows \<times> string list" where
  "skip_all_pending by_key now = sweep (\<lambda>s. status s = PENDING) (mark_skipped now) by_key"

definition unused_ready_tool :: "execution_step \<Rightarrow> bool" where
  "unused_ready_tool s \<longleftrightarrow> st_type s = TOOL \<and> status s = READY \<and> started_at s = None \<and> attempt_count s = 0"

definition mark_cancelled :: "time \<Rightarrow> execution_step \<Rightarrow> execution_step" where
  "mark_cancelled now s = s\<lparr>status := CANCELLED, error_code := Some ''UPSTREAM_EXECUTION_STOPPED'',
     error_message := Some ''Upstream Execution stopped before TOOL Attempt start.'',
     finished_at := Some now, lock_version := lock_version s + 1\<rparr>"

definition cancel_unused_ready_tools :: "rows \<Rightarrow> time \<Rightarrow> rows \<times> string list" where
  "cancel_unused_ready_tools by_key now = sweep unused_ready_tool (mark_cancelled now) by_key"

record stop_cause =
  sc_step_key :: string
  sc_plan_index :: int
  sc_kind :: string
  sc_step_status :: step_status
  sc_error_code :: "string option"

definition stop_cause_precedence :: "string \<Rightarrow> nat" where
  "stop_cause_precedence kind =
     dict_get [(''FATAL'', 0), (''FAIL_EXECUTION_TIMED_OUT'', 1), (''FAIL_EXECUTION_FAILED'', 2)] kind 99"

definition stop_key :: "stop_cause \<Rightarrow> nat \<times> int \<times> string" where
  "stop_key c = (stop_cause_precedence (sc_kind c), sc_plan_index c, sc_step_key c)"

definition pick_stop_cause :: "stop_cause list \<Rightarrow> stop_cause option" where
  "pick_stop_cause causes = (if causes = [] then None else Some (hd (sort_key stop_key causes)))"

definition is_single_tool_execution :: "execution_step list \<Rightarrow> bool" where
  "is_single_tool_execution steps \<longleftrightarrow>
     (let n = (\<lambda>t. length (filter (\<lambda>s. st_type s = t) steps)) in
      n TOOL = 1 \<and> n JOIN = 0 \<and> n CONDITION = 0 \<and> n APPROVAL = 0 \<and> n LOOP = 0 \<and> length steps = 1)"

end
