(* ===== verification/Recurrence.thy ===== *)
theory Recurrence
  imports ExecutionModel
begin

section \<open>Schedule recurrence\<close>

text \<open>
  \<^verbatim>\<open>src/backend/app/scheduler/recurrence.py\<close>: validation of a schedule expression and
  the computation of the next run.  An instant is a number of microseconds since the epoch in UTC; a
  naive wall clock time is the same number read off the local clock.

  Time zone data and \<open>croniter\<close> are outside the repository and are parameters
  (\<open>recurrence_lib\<close>): \<open>wall_to_utc\<close> is \<open>local.replace(tzinfo=tz, fold=0).astimezone(UTC)\<close>,
  \<open>utc_to_wall\<close> is \<open>t.astimezone(tz)\<close> with its \<open>fold\<close>, and \<open>croniter_next\<close> is
  \<open>get_next\<close> from a naive cursor.  The conversions are total here; Python raises
  \<open>OverflowError\<close> for them within a day of the years 1 and 9999.
\<close>

record zone =
  wall_to_utc :: "int \<Rightarrow> int"
  utc_to_wall :: "int \<Rightarrow> int \<times> bool"

text \<open>\<open>ZoneInfo(name)\<close> finds the zone, raises \<open>ZoneInfoNotFoundError\<close>, or raises
  \<open>ValueError\<close> on a malformed key.\<close>

datatype zone_lookup = ZoneFound zone | ZoneNotFound | ZoneKeyMalformed

record recurrence_lib =
  zone_info :: "string \<Rightarrow> zone_lookup"
  croniter_valid :: "string \<Rightarrow> bool"
  croniter_next :: "string \<Rightarrow> int \<Rightarrow> int result"

datatype schedule_type = CRON | ONCE | INTERVAL

record validated_schedule =
  vs_type :: schedule_type
  vs_expression :: string
  vs_timezone :: string
  vs_interval :: "int option"
  vs_once_local :: "int option"

datatype py_datetime = Naive int | Aware int

abbreviation VALIDATION_ERROR :: py_error where
  "VALIDATION_ERROR \<equiv> AppError ''VALIDATION_ERROR'' 400"

definition MAX_PREVIEW :: nat where "MAX_PREVIEW = 50"
definition MAX_SCAN :: nat where "MAX_SCAN = 10000"

subsection \<open>\<open>datetime\<close> and \<open>timedelta\<close>\<close>

text \<open>\<open>datetime.min\<close>, \<open>datetime.max\<close> and the bound of \<open>timedelta\<close>, in microseconds.\<close>

definition datetime_ok :: "int \<Rightarrow> bool" where
  "datetime_ok t \<longleftrightarrow> -62135596800000000 \<le> t \<and> t \<le> 253402300799999999"

definition timedelta_ok :: "int \<Rightarrow> bool" where
  "timedelta_ok d \<longleftrightarrow> \<bar>d div 86400000000\<bar> \<le> 999999999"

definition is_leap :: "nat \<Rightarrow> bool" where
  "is_leap y \<longleftrightarrow> y mod 4 = 0 \<and> (y mod 100 \<noteq> 0 \<or> y mod 400 = 0)"

definition days_in_month :: "nat \<Rightarrow> nat \<Rightarrow> nat" where
  "days_in_month y m =
     (if m = 2 then (if is_leap y then 29 else 28) else if m \<in> {4, 6, 9, 11} then 30 else 31)"

text \<open>The proleptic Gregorian ordinal; day 1 is 0001-01-01 and the epoch is day 719163.\<close>

definition ymd_ordinal :: "nat \<Rightarrow> nat \<Rightarrow> nat \<Rightarrow> int" where
  "ymd_ordinal y m d =
     (let p = int y - 1 in
      p * 365 + p div 4 - p div 100 + p div 400
      + int (sum_list (map (days_in_month y) [1..<m])) + int d)"

text \<open>\<open>datetime(y, m, d, H, M, S)\<close>; \<open>None\<close> is \<open>ValueError\<close>.\<close>

definition make_datetime :: "nat \<Rightarrow> nat \<Rightarrow> nat \<Rightarrow> nat \<Rightarrow> nat \<Rightarrow> nat \<Rightarrow> int option" where
  "make_datetime y m d hh mm ss =
     (if 1 \<le> y \<and> y \<le> 9999 \<and> 1 \<le> m \<and> m \<le> 12 \<and> 1 \<le> d \<and> d \<le> days_in_month y m
         \<and> hh < 24 \<and> mm < 60 \<and> ss < 60
      then Some (((ymd_ordinal y m d - 719163) * 86400 + int (hh * 3600 + mm * 60 + ss)) * 1000000)
      else None)"

subsection \<open>Grammars\<close>

definition rx_digit :: rx where "rx_digit = RCls ascii_digit"

fun rx_times :: "nat \<Rightarrow> rx \<Rightarrow> rx" where
  "rx_times 0 r = REps"
| "rx_times (Suc n) r = RSeq r (rx_times n r)"

definition rx_string :: "rx list \<Rightarrow> rx" where
  "rx_string rs = foldr RSeq rs REps"

definition ONCE_RE :: rx where
  "ONCE_RE = rx_string
     [rx_times 4 rx_digit, RChar (CHR ''-''), rx_times 2 rx_digit, RChar (CHR ''-''), rx_times 2 rx_digit,
      RChar (CHR ''T''), rx_times 2 rx_digit, RChar (CHR '':''), rx_times 2 rx_digit, RChar (CHR '':''),
      rx_times 2 rx_digit]"

definition CRON_FIELD_RE :: rx where
  "CRON_FIELD_RE = RPlus (RCls (\<lambda>c. ascii_digit c \<or> c \<in> set ''*,-/''))"

definition component_rx :: "char \<Rightarrow> rx" where
  "component_rx u = ROpt (RSeq (RPlus rx_digit) (RChar u))"

definition INTERVAL_RE :: rx where
  "INTERVAL_RE =
     RSeq (RChar (CHR ''P'')) (RSeq (component_rx (CHR ''D''))
       (ROpt (RSeq (RChar (CHR ''T'')) (RSeq (component_rx (CHR ''H''))
          (RSeq (component_rx (CHR ''M'')) (component_rx (CHR ''S'')))))))"

text \<open>
  The groups of the match.  A component is present exactly when digits followed by its letter come
  next, because no other continuation of the expression starts with a digit and that letter.
\<close>

definition scan_component :: "char \<Rightarrow> string \<Rightarrow> string option \<times> string" where
  "scan_component u s =
     (let ds = takeWhile ascii_digit s; rest = dropWhile ascii_digit s in
      case rest of
        c # r \<Rightarrow> if ds \<noteq> [] \<and> c = u then (Some ds, r) else (None, s)
      | [] \<Rightarrow> (None, s))"

type_synonym interval_groups = "string option \<times> string option \<times> string option \<times> string option"

definition interval_groups :: "string \<Rightarrow> interval_groups option" where
  "interval_groups raw =
     (case raw of
        [] \<Rightarrow> None
      | p # s \<Rightarrow>
          if p \<noteq> CHR ''P'' then None
          else (case scan_component (CHR ''D'') s of (days, s1) \<Rightarrow>
            (case s1 of
               [] \<Rightarrow> Some (days, None, None, None)
             | t # s2 \<Rightarrow>
                 if t \<noteq> CHR ''T'' then None
                 else (case scan_component (CHR ''H'') s2 of (hours, s3) \<Rightarrow>
                   (case scan_component (CHR ''M'') s3 of (minutes, s4) \<Rightarrow>
                     (case scan_component (CHR ''S'') s4 of (seconds, s5) \<Rightarrow>
                       if s5 = [] then Some (days, hours, minutes, seconds) else None))))))"

text \<open>\<open>int(match.group(g) or 0)\<close>.\<close>

definition group_int :: "string option \<Rightarrow> nat result" where
  "group_int g = (case g of None \<Rightarrow> Inr 0 | Some ds \<Rightarrow> py_int_digits ds)"

text \<open>\<open>re.search(r"\d+M", s)\<close>.\<close>

fun digit_then_M :: "string \<Rightarrow> bool" where
  "digit_then_M (c # d # s) = (ascii_digit c \<and> d = CHR ''M'' \<or> digit_then_M (d # s))"
| "digit_then_M _ = False"

text \<open>\<open>s.split()\<close>.\<close>

definition split_words :: "string \<Rightarrow> string list" where
  "split_words s =
     filter (\<lambda>w. w \<noteq> []) (str_split (CHR '' '') (map (\<lambda>c. if py_space c then CHR '' '' else c) s))"

subsection \<open>Validation\<close>

definition zone_of :: "recurrence_lib \<Rightarrow> string \<Rightarrow> zone result" where
  "zone_of L name =
     (case zone_info L name of
        ZoneFound z \<Rightarrow> Inr z
      | ZoneNotFound \<Rightarrow> Inl VALIDATION_ERROR
      | ZoneKeyMalformed \<Rightarrow> Inl ValueError)"

lemma zone_of_Inr [simp]: "zone_of L name = Inr z \<longleftrightarrow> zone_info L name = ZoneFound z"
  by (simp add: zone_of_def split: zone_lookup.split)

definition require_aware :: "py_datetime \<Rightarrow> int result" where
  "require_aware t = (case t of Naive _ \<Rightarrow> Inl VALIDATION_ERROR | Aware u \<Rightarrow> Inr u)"

definition parse_interval :: "string \<Rightarrow> int result" where
  "parse_interval expression =
     (let raw = str_strip expression; head = hd (str_split_max 1 (CHR ''T'') raw) in
      if raw = [] \<or> raw = ''P'' \<or> raw = ''PT'' then Inl VALIDATION_ERROR
      else if (CHR ''Y'' \<in> set raw \<or> CHR ''W'' \<in> set raw \<or> CHR ''M'' \<in> set head)
              \<and> (CHR ''Y'' \<in> set raw \<or> CHR ''W'' \<in> set raw \<or> digit_then_M head)
      then Inl VALIDATION_ERROR
      else if CHR ''.'' \<in> set raw \<or> CHR '','' \<in> set raw \<or> CHR ''-'' \<in> set raw then Inl VALIDATION_ERROR
      else case (if fullmatch INTERVAL_RE raw then interval_groups raw else None) of
        None \<Rightarrow> Inl VALIDATION_ERROR
      | Some (gd, gh, gm, gs) \<Rightarrow>
          and_then (or_raise (group_int gd) VALIDATION_ERROR) (\<lambda>days.
          and_then (or_raise (group_int gh) VALIDATION_ERROR) (\<lambda>hours.
          and_then (or_raise (group_int gm) VALIDATION_ERROR) (\<lambda>minutes.
          and_then (or_raise (group_int gs) VALIDATION_ERROR) (\<lambda>seconds.
            if days = 0 \<and> hours = 0 \<and> minutes = 0 \<and> seconds = 0 then Inl VALIDATION_ERROR
            else let d = int (days * 86400 + hours * 3600 + minutes * 60 + seconds) * 1000000 in
              if \<not> timedelta_ok d then Inl VALIDATION_ERROR else Inr d)))))"

text \<open>Year to second agree, so the comparison is at whole seconds.\<close>

definition local_wall_exists :: "int \<Rightarrow> zone \<Rightarrow> bool" where
  "local_wall_exists wall tz =
     (case utc_to_wall tz (wall_to_utc tz wall) of (back, later) \<Rightarrow>
        \<not> later \<and> back div 1000000 = wall div 1000000)"

definition parse_once_local :: "string \<Rightarrow> zone \<Rightarrow> int result" where
  "parse_once_local expression tz =
     (let raw = str_strip expression in
      if (raw \<noteq> [] \<and> last raw = CHR ''Z'') \<or> CHR ''+'' \<in> set (drop 10 raw)
         \<or> length (filter (\<lambda>c. c = CHR ''-'') raw) > 2
      then Inl VALIDATION_ERROR
      else if \<not> fullmatch ONCE_RE raw then Inl VALIDATION_ERROR
      else case make_datetime (nat_of_digits (take 4 raw)) (nat_of_digits (take 2 (drop 5 raw)))
                  (nat_of_digits (take 2 (drop 8 raw))) (nat_of_digits (take 2 (drop 11 raw)))
                  (nat_of_digits (take 2 (drop 14 raw))) (nat_of_digits (take 2 (drop 17 raw))) of
        None \<Rightarrow> Inl VALIDATION_ERROR
      | Some wall \<Rightarrow> if \<not> local_wall_exists wall tz then Inl VALIDATION_ERROR else Inr wall)"

definition validate_cron :: "recurrence_lib \<Rightarrow> string \<Rightarrow> string result" where
  "validate_cron L expression =
     (let raw = str_strip expression in
      if raw = [] then Inl VALIDATION_ERROR
      else if hd raw = CHR ''@'' then Inl VALIDATION_ERROR
      else let fields = split_words raw in
        if length fields \<noteq> 5 then Inl VALIDATION_ERROR
        else if \<not> list_all (fullmatch CRON_FIELD_RE) fields then Inl VALIDATION_ERROR
        else if \<not> croniter_valid L raw then Inl VALIDATION_ERROR
        else Inr raw)"

definition schedule_type_of :: "string \<Rightarrow> schedule_type result" where
  "schedule_type_of s =
     (if s = ''CRON'' then Inr CRON else if s = ''ONCE'' then Inr ONCE
      else if s = ''INTERVAL'' then Inr INTERVAL else Inl VALIDATION_ERROR)"

definition validate_schedule_expression ::
    "recurrence_lib \<Rightarrow> string \<Rightarrow> string \<Rightarrow> string \<Rightarrow> validated_schedule result" where
  "validate_schedule_expression L schedule_type expression timezone =
     and_then (schedule_type_of schedule_type) (\<lambda>stype.
     and_then (zone_of L timezone) (\<lambda>tz.
       case stype of
         CRON \<Rightarrow>
           and_then (validate_cron L expression) (\<lambda>expr.
             Inr \<lparr>vs_type = CRON, vs_expression = expr, vs_timezone = timezone, vs_interval = None,
                  vs_once_local = None\<rparr>)
       | ONCE \<Rightarrow>
           and_then (parse_once_local expression tz) (\<lambda>wall.
             Inr \<lparr>vs_type = ONCE, vs_expression = str_strip expression, vs_timezone = timezone,
                  vs_interval = None, vs_once_local = Some wall\<rparr>)
       | INTERVAL \<Rightarrow>
           and_then (parse_interval expression) (\<lambda>delta.
             Inr \<lparr>vs_type = INTERVAL, vs_expression = str_strip expression, vs_timezone = timezone,
                  vs_interval = Some delta, vs_once_local = None\<rparr>)))"

subsection \<open>The next run\<close>

definition in_window :: "int \<Rightarrow> int option \<Rightarrow> int option \<Rightarrow> bool" where
  "in_window t start_at end_at =
     (if (case start_at of None \<Rightarrow> False | Some a \<Rightarrow> t < a) then False
      else if (case end_at of None \<Rightarrow> False | Some b \<Rightarrow> t \<ge> b) then False
      else True)"

text \<open>The scan over croniter's candidates, at most \<open>_MAX_SCAN\<close> of them.\<close>

fun scan_cron :: "(int \<Rightarrow> int result) \<Rightarrow> zone \<Rightarrow> int \<Rightarrow> int option \<Rightarrow> int option \<Rightarrow> nat \<Rightarrow> int
    \<Rightarrow> int option result" where
  "scan_cron next tz after start_at end_at 0 cursor = Inr None"
| "scan_cron next tz after start_at end_at (Suc n) cursor =
     and_then (next cursor) (\<lambda>wall.
       if \<not> local_wall_exists wall tz then scan_cron next tz after start_at end_at n wall
       else let utc = wall_to_utc tz wall in
         if utc \<le> after then scan_cron next tz after start_at end_at n wall
         else if (case start_at of None \<Rightarrow> False | Some a \<Rightarrow> utc < a)
         then scan_cron next tz after start_at end_at n wall
         else if (case end_at of None \<Rightarrow> False | Some b \<Rightarrow> utc \<ge> b) then Inr None
         else Inr (Some utc))"

definition cron_cursor :: "zone \<Rightarrow> int \<Rightarrow> int option \<Rightarrow> int result" where
  "cron_cursor tz after start_at =
     (case start_at of
        Some a \<Rightarrow>
          if a > after
          then (let c = fst (utc_to_wall tz a) - 1 in if datetime_ok c then Inr c else Inl OverflowError)
          else Inr (fst (utc_to_wall tz after))
      | None \<Rightarrow> Inr (fst (utc_to_wall tz after)))"

definition next_cron_utc ::
    "recurrence_lib \<Rightarrow> string \<Rightarrow> zone \<Rightarrow> int \<Rightarrow> int option \<Rightarrow> int option \<Rightarrow> int option result" where
  "next_cron_utc L expression tz after start_at end_at =
     and_then (cron_cursor tz after start_at)
       (scan_cron (croniter_next L expression) tz after start_at end_at MAX_SCAN)"

definition next_interval_utc :: "int \<Rightarrow> int \<Rightarrow> int option \<Rightarrow> int option \<Rightarrow> int option result" where
  "next_interval_utc delta after start_at end_at =
     (case start_at of
        None \<Rightarrow> Inl VALIDATION_ERROR
      | Some anchor \<Rightarrow>
          and_then
            (if after < anchor then Inr anchor
             else let steps = (after - anchor) div delta + 1 in
               if timedelta_ok (steps * delta) \<and> datetime_ok (anchor + steps * delta)
               then Inr (anchor + steps * delta) else Inl VALIDATION_ERROR)
            (\<lambda>candidate.
               if (case end_at of None \<Rightarrow> False | Some b \<Rightarrow> candidate \<ge> b) then Inr None
               else if candidate < anchor then Inr None
               else Inr (Some candidate)))"

fun opt_aware :: "py_datetime option \<Rightarrow> int option result" where
  "opt_aware None = Inr None"
| "opt_aware (Some t) = and_then (require_aware t) (\<lambda>u. Inr (Some u))"

text \<open>The two \<open>assert\<close>s raise \<open>AssertionError\<close>, which validation excludes.\<close>

definition next_scheduled_at :: "recurrence_lib \<Rightarrow> string \<Rightarrow> string \<Rightarrow> string \<Rightarrow> py_datetime
    \<Rightarrow> py_datetime option \<Rightarrow> py_datetime option \<Rightarrow> int option result" where
  "next_scheduled_at L schedule_type expression timezone after start_at end_at =
     and_then (validate_schedule_expression L schedule_type expression timezone) (\<lambda>validated.
     and_then (require_aware after) (\<lambda>after_utc.
     and_then (opt_aware start_at) (\<lambda>start_utc.
     and_then (opt_aware end_at) (\<lambda>end_utc.
     and_then (zone_of L timezone) (\<lambda>tz.
       case vs_type validated of
         ONCE \<Rightarrow>
           (case vs_once_local validated of
              None \<Rightarrow> Inl AssertionError
            | Some wall \<Rightarrow>
                let once_utc = wall_to_utc tz wall in
                if once_utc \<le> after_utc then Inr None
                else if \<not> in_window once_utc start_utc end_utc then Inr None
                else Inr (Some once_utc))
       | CRON \<Rightarrow> next_cron_utc L (vs_expression validated) tz after_utc start_utc end_utc
       | INTERVAL \<Rightarrow>
           (case vs_interval validated of
              None \<Rightarrow> Inl AssertionError
            | Some delta \<Rightarrow> next_interval_utc delta after_utc start_utc end_utc))))))"

fun preview_loop :: "(int \<Rightarrow> int option result) \<Rightarrow> nat \<Rightarrow> int \<Rightarrow> int list result" where
  "preview_loop next 0 cursor = Inr []"
| "preview_loop next (Suc n) cursor =
     and_then (next cursor) (\<lambda>nxt.
       case nxt of
         None \<Rightarrow> Inr []
       | Some t \<Rightarrow> and_then (preview_loop next n t) (\<lambda>out. Inr (t # out)))"

definition preview_scheduled_times :: "recurrence_lib \<Rightarrow> string \<Rightarrow> string \<Rightarrow> string \<Rightarrow> py_datetime
    \<Rightarrow> py_datetime option \<Rightarrow> py_datetime option \<Rightarrow> int \<Rightarrow> int list result" where
  "preview_scheduled_times L schedule_type expression timezone after start_at end_at limit =
     (if limit < 1 \<or> limit > int MAX_PREVIEW then Inl VALIDATION_ERROR
      else and_then (require_aware after) (\<lambda>cursor.
        preview_loop
          (\<lambda>t. next_scheduled_at L schedule_type expression timezone (Aware t) start_at end_at)
          (nat limit) cursor))"

subsection \<open>The interval grammar\<close>

fun component_text :: "char \<Rightarrow> string option \<Rightarrow> string" where
  "component_text u None = []"
| "component_text u (Some ds) = ds @ [u]"

definition component_ok :: "string option \<Rightarrow> bool" where
  "component_ok g \<longleftrightarrow> (case g of None \<Rightarrow> True | Some ds \<Rightarrow> ds \<noteq> [] \<and> list_all ascii_digit ds)"

text \<open>The texts of a duration: with or without the time part.\<close>

definition interval_text :: "string option \<Rightarrow> (string option \<times> string option \<times> string option) option \<Rightarrow> string" where
  "interval_text gd time =
     CHR ''P'' # component_text (CHR ''D'') gd @
     (case time of None \<Rightarrow> []
      | Some (gh, gm, gs) \<Rightarrow> CHR ''T'' # component_text (CHR ''H'') gh @ component_text (CHR ''M'') gm
          @ component_text (CHR ''S'') gs)"

definition time_ok :: "(string option \<times> string option \<times> string option) option \<Rightarrow> bool" where
  "time_ok time \<longleftrightarrow>
     (case time of None \<Rightarrow> True | Some (gh, gm, gs) \<Rightarrow> component_ok gh \<and> component_ok gm \<and> component_ok gs)"

definition time_groups :: "(string option \<times> string option \<times> string option) option \<Rightarrow> string option \<times> string option \<times> string option" where
  "time_groups time = (case time of None \<Rightarrow> (None, None, None) | Some t \<Rightarrow> t)"

lemma ascii_digit_letters [simp]:
  "\<not> ascii_digit (CHR ''P'')" "\<not> ascii_digit (CHR ''D'')" "\<not> ascii_digit (CHR ''T'')"
  "\<not> ascii_digit (CHR ''H'')" "\<not> ascii_digit (CHR ''M'')" "\<not> ascii_digit (CHR ''S'')"
  "\<not> ascii_digit (CHR ''Y'')" "\<not> ascii_digit (CHR ''W'')" "\<not> ascii_digit (CHR ''.'')"
  "\<not> ascii_digit (CHR '','')" "\<not> ascii_digit (CHR ''-'')"
  by (simp_all add: ascii_digit_def)

lemma lang_digits: "w \<in> lang (RPlus rx_digit) \<longleftrightarrow> w \<noteq> [] \<and> list_all ascii_digit w"
proof -
  have star: "w \<in> star {[c] |c. ascii_digit c} \<longleftrightarrow> list_all ascii_digit w" for w
  proof
    show "w \<in> star {[c] |c. ascii_digit c} \<Longrightarrow> list_all ascii_digit w"
      by (induction rule: star.induct) auto
    show "list_all ascii_digit w \<Longrightarrow> w \<in> star {[c] |c. ascii_digit c}"
    proof (induction w)
      case (Cons c w)
      then show ?case
        using star_app [of "[c]" "{[c] |c. ascii_digit c}" w] by auto
    qed (simp add: star_Nil)
  qed
  have "[] \<notin> lang rx_digit"
    by (simp add: rx_digit_def)
  from lang_RPlus [OF this] show ?thesis
    by (simp add: rx_digit_def star)
qed

lemma lang_component: "w \<in> lang (component_rx u) \<longleftrightarrow> (\<exists>g. component_ok g \<and> w = component_text u g)"
proof -
  have "w \<in> lang (component_rx u) \<longleftrightarrow> w = [] \<or> (\<exists>ds. ds \<noteq> [] \<and> list_all ascii_digit ds \<and> w = ds @ [u])"
    unfolding component_rx_def ROpt_def RChar_def using lang_digits by auto
  also have "\<dots> \<longleftrightarrow> (\<exists>g. component_ok g \<and> w = component_text u g)"
    by (simp add: split_option_ex component_ok_def conj_assoc)
  finally show ?thesis .
qed

lemma lang_component_set: "lang (component_rx u) = {component_text u g |g. component_ok g}"
  by (auto simp: lang_component)

lemma fullmatch_interval:
  "fullmatch INTERVAL_RE raw \<longleftrightarrow> (\<exists>gd time. component_ok gd \<and> time_ok time \<and> raw = interval_text gd time)"
proof -
  have "fullmatch INTERVAL_RE raw \<longleftrightarrow> (\<exists>d t. raw = CHR ''P'' # d @ t \<and> d \<in> lang (component_rx (CHR ''D'')) \<and>
      (t = [] \<or> (\<exists>h m s. t = CHR ''T'' # h @ m @ s \<and> h \<in> lang (component_rx (CHR ''H''))
         \<and> m \<in> lang (component_rx (CHR ''M'')) \<and> s \<in> lang (component_rx (CHR ''S'')))))"
    unfolding fullmatch_lang INTERVAL_RE_def ROpt_def RChar_def by auto blast+
  also have "\<dots> \<longleftrightarrow> (\<exists>gd. component_ok gd \<and> (raw = interval_text gd None \<or>
      (\<exists>gh gm gs. component_ok gh \<and> component_ok gm \<and> component_ok gs \<and> raw = interval_text gd (Some (gh, gm, gs)))))"
    unfolding lang_component_set interval_text_def option.case prod.case mem_Collect_eq append_Nil2 by blast
  also have "\<dots> \<longleftrightarrow> (\<exists>gd time. component_ok gd \<and> time_ok time \<and> raw = interval_text gd time)"
    by (simp add: split_option_ex split_paired_Ex time_ok_def conj_assoc ex_disj_distrib conj_disj_distribL)
  finally show ?thesis .
qed

text \<open>Scanning gives the groups back.\<close>

lemma scan_present:
  "component_ok (Some ds) \<Longrightarrow> \<not> ascii_digit u \<Longrightarrow> scan_component u (component_text u (Some ds) @ r) = (Some ds, r)"
  by (simp add: scan_component_def component_ok_def takeWhile_append2 dropWhile_append2 list_all_iff Let_def)

lemma scan_absent_Nil [simp]: "scan_component u [] = (None, [])"
  by (simp add: scan_component_def)

lemma scan_absent_letter [simp]: "\<not> ascii_digit c \<Longrightarrow> scan_component u (c # r) = (None, c # r)"
  by (simp add: scan_component_def)

lemma scan_absent_other:
  "component_ok (Some ds) \<Longrightarrow> \<not> ascii_digit v \<Longrightarrow> v \<noteq> u
     \<Longrightarrow> scan_component u (component_text v (Some ds) @ r) = (None, component_text v (Some ds) @ r)"
  by (simp add: scan_component_def component_ok_def takeWhile_append2 dropWhile_append2 list_all_iff Let_def)

lemma scan_S: "component_ok gs \<Longrightarrow> scan_component (CHR ''S'') (component_text (CHR ''S'') gs) = (gs, [])"
  using scan_present [of _ "CHR ''S''" "[]"] by (cases gs) simp_all

lemma scan_M:
  assumes "component_ok gm" and "component_ok gs"
  shows "scan_component (CHR ''M'') (component_text (CHR ''M'') gm @ component_text (CHR ''S'') gs)
    = (gm, component_text (CHR ''S'') gs)"
proof (cases gm)
  case None
  then show ?thesis
    using assms(2) scan_absent_other [of _ "CHR ''S''" "CHR ''M''" "[]"] by (cases gs) simp_all
qed (use assms(1) in \<open>simp only: scan_present ascii_digit_letters not_False_eq_True\<close>)

lemma scan_H:
  assumes "component_ok gh" and "component_ok gm" and "component_ok gs"
  shows "scan_component (CHR ''H'') (component_text (CHR ''H'') gh @ component_text (CHR ''M'') gm
      @ component_text (CHR ''S'') gs) = (gh, component_text (CHR ''M'') gm @ component_text (CHR ''S'') gs)"
proof (cases gh)
  case None
  show ?thesis
  proof (cases gm)
    case (Some ds)
    then show ?thesis
      using None assms(2) scan_absent_other [of ds "CHR ''M''" "CHR ''H''" "component_text (CHR ''S'') gs"] by simp
  next
    case N: None
    then show ?thesis
      using None assms(3) scan_absent_other [of _ "CHR ''S''" "CHR ''H''" "[]"] by (cases gs) simp_all
  qed
qed (use assms(1) in \<open>simp only: scan_present ascii_digit_letters not_False_eq_True\<close>)

lemma interval_groups_text:
  assumes "component_ok gd" and "time_ok time"
  shows "interval_groups (interval_text gd time) = Some (gd, time_groups time)"
proof -
  have scan: "scan_component (CHR ''D'') (component_text (CHR ''D'') gd @ r) = (gd, r)"
    if "r = [] \<or> (\<exists>q. r = CHR ''T'' # q)" for r
  proof (cases gd)
    case None
    then show ?thesis
      using that by auto
  qed (use assms(1) in \<open>simp only: scan_present ascii_digit_letters not_False_eq_True\<close>)
  show ?thesis
  proof (cases time)
    case None
    then show ?thesis
      using scan [of "[]"] by (simp add: interval_groups_def interval_text_def time_groups_def)
  next
    case (Some t)
    obtain gh gm gs where t: "t = (gh, gm, gs)"
      by (cases t)
    let ?r = "component_text (CHR ''H'') gh @ component_text (CHR ''M'') gm @ component_text (CHR ''S'') gs"
    have ok: "component_ok gh" "component_ok gm" "component_ok gs"
      using assms(2) Some t by (simp_all add: time_ok_def)
    show ?thesis
      using scan [of "CHR ''T'' # ?r"] Some t scan_H [OF ok] scan_M [OF ok(2,3)] scan_S [OF ok(3)]
      by (simp add: interval_groups_def interval_text_def time_groups_def)
  qed
qed

lemma component_chars: "component_ok g \<Longrightarrow> c \<in> set (component_text u g) \<Longrightarrow> ascii_digit c \<or> c = u"
  by (cases g) (auto simp: component_ok_def list_all_iff)

lemma interval_text_chars:
  assumes "component_ok gd" and "time_ok time" and "c \<in> set (interval_text gd time)"
  shows "ascii_digit c \<or> c \<in> set ''PDTHMS''"
proof (cases time)
  case None
  then show ?thesis
    using assms(3) component_chars [OF assms(1), of c "CHR ''D''"] by (auto simp: interval_text_def)
next
  case (Some t)
  obtain gh gm gs where t: "t = (gh, gm, gs)"
    by (cases t)
  then have "component_ok gh" "component_ok gm" "component_ok gs"
    using assms(2) Some by (simp_all add: time_ok_def)
  then show ?thesis
    using assms(3) Some t component_chars [OF assms(1), of c "CHR ''D''"] component_chars [of gh c "CHR ''H''"]
      component_chars [of gm c "CHR ''M''"] component_chars [of gs c "CHR ''S''"]
    by (auto simp: interval_text_def)
qed

lemma str_split_max_head: "hd (str_split_max 1 c s) = takeWhile (\<lambda>x. x \<noteq> c) s"
proof -
  have ne: "str_split_max 1 c s \<noteq> []" for s
    by (cases s) (auto split: list.splits)
  show ?thesis
  proof (induction s)
    case (Cons x s)
    then show ?case
      using ne [of s] by (auto simp: neq_Nil_conv split: list.splits)
  qed simp
qed

lemma interval_head:
  assumes "component_ok gd"
  shows "takeWhile (\<lambda>x. x \<noteq> CHR ''T'') (interval_text gd time) = CHR ''P'' # component_text (CHR ''D'') gd"
proof -
  have noT: "x \<noteq> CHR ''T''" if "x \<in> set (component_text (CHR ''D'') gd)" for x
    using component_chars [OF assms that] by auto
  then have all: "takeWhile (\<lambda>x. x \<noteq> CHR ''T'') (component_text (CHR ''D'') gd) = component_text (CHR ''D'') gd"
    by (simp add: takeWhile_eq_all_conv)
  show ?thesis
  proof (cases time)
    case None
    then show ?thesis
      using all by (simp add: interval_text_def)
  next
    case (Some t)
    then show ?thesis
      using noT by (cases t) (simp add: interval_text_def takeWhile_append2)
  qed
qed

definition group_val :: "string option \<Rightarrow> nat" where
  "group_val g = (case g of None \<Rightarrow> 0 | Some ds \<Rightarrow> nat_of_digits ds)"

definition group_short :: "string option \<Rightarrow> bool" where
  "group_short g \<longleftrightarrow> (case g of None \<Rightarrow> True | Some ds \<Rightarrow> length ds \<le> 4300)"

lemma group_int_eq: "component_ok g \<Longrightarrow> group_int g = (if group_short g then Inr (group_val g) else Inl ValueError)"
  by (cases g) (auto simp: group_int_def group_val_def group_short_def component_ok_def py_int_digits_def)

text \<open>The microseconds a duration stands for.\<close>

definition interval_value :: "string option \<Rightarrow> (string option \<times> string option \<times> string option) option \<Rightarrow> int" where
  "interval_value gd time = (case time_groups time of (gh, gm, gs) \<Rightarrow>
     int (group_val gd * 86400 + group_val gh * 3600 + group_val gm * 60 + group_val gs) * 1000000)"

definition interval_short :: "string option \<Rightarrow> (string option \<times> string option \<times> string option) option \<Rightarrow> bool" where
  "interval_short gd time \<longleftrightarrow> (case time_groups time of (gh, gm, gs) \<Rightarrow>
     group_short gd \<and> group_short gh \<and> group_short gm \<and> group_short gs)"

lemma parse_interval_text:
  assumes ok: "component_ok gd" "time_ok time" and raw: "str_strip e = interval_text gd time"
  shows "parse_interval e =
    (if interval_short gd time \<and> 0 < interval_value gd time \<and> timedelta_ok (interval_value gd time)
     then Inr (interval_value gd time) else Inl VALIDATION_ERROR)"
proof -
  obtain gh gm gs where t: "time_groups time = (gh, gm, gs)"
    by (cases "time_groups time")
  have oks: "component_ok gh" "component_ok gm" "component_ok gs"
    using ok(2) t by (auto simp: time_ok_def time_groups_def component_ok_def split: option.splits)
  have groups: "interval_groups (interval_text gd time) = Some (gd, gh, gm, gs)"
    using interval_groups_text [OF ok] t by simp
  have chars: "c \<notin> set (interval_text gd time)" if "\<not> ascii_digit c" "c \<notin> set ''PDTHMS''" for c
    using interval_text_chars [OF ok, of c] that by blast
  have noM: "CHR ''M'' \<notin> set (hd (str_split_max 1 (CHR ''T'') (interval_text gd time)))"
    unfolding str_split_max_head interval_head [OF ok(1)] using component_chars [OF ok(1), of "CHR ''M''" "CHR ''D''"]
    by auto
  have empty: "interval_groups ''P'' = Some (None, None, None, None)"
      "interval_groups ''PT'' = Some (None, None, None, None)"
    by (simp_all add: interval_groups_def)
  show ?thesis
  proof (cases "interval_text gd time = ''P'' \<or> interval_text gd time = ''PT''")
    case True
    then have "gd = None \<and> gh = None \<and> gm = None \<and> gs = None"
      using groups empty by auto
    then have "interval_value gd time = 0"
      by (simp add: interval_value_def t group_val_def)
    then show ?thesis
      using True raw by (auto simp: parse_interval_def)
  next
    case False
    have nonempty: "interval_text gd time \<noteq> []"
      by (simp add: interval_text_def)
    have match: "fullmatch INTERVAL_RE (interval_text gd time)"
      using ok fullmatch_interval by blast
    have "parse_interval e =
        and_then (or_raise (group_int gd) VALIDATION_ERROR) (\<lambda>days.
        and_then (or_raise (group_int gh) VALIDATION_ERROR) (\<lambda>hours.
        and_then (or_raise (group_int gm) VALIDATION_ERROR) (\<lambda>minutes.
        and_then (or_raise (group_int gs) VALIDATION_ERROR) (\<lambda>seconds.
          if days = 0 \<and> hours = 0 \<and> minutes = 0 \<and> seconds = 0 then Inl VALIDATION_ERROR
          else let d = int (days * 86400 + hours * 3600 + minutes * 60 + seconds) * 1000000 in
            if \<not> timedelta_ok d then Inl VALIDATION_ERROR else Inr d))))"
      using False chars [of "CHR ''Y''"] chars [of "CHR ''W''"] chars [of "CHR ''.''"] chars [of "CHR '',''"]
        chars [of "CHR ''-''"] noM nonempty
      unfolding parse_interval_def Let_def raw groups
      by (simp add: match)
    also have "\<dots> = (if interval_short gd time \<and> 0 < interval_value gd time \<and> timedelta_ok (interval_value gd time)
        then Inr (interval_value gd time) else Inl VALIDATION_ERROR)"
      unfolding interval_short_def interval_value_def t prod.case
      by (simp add: group_int_eq ok oks Let_def)
    finally show ?thesis .
  qed
qed

lemma parse_interval_other:
  assumes "\<nexists>gd time. component_ok gd \<and> time_ok time \<and> str_strip e = interval_text gd time"
  shows "parse_interval e = Inl VALIDATION_ERROR"
proof -
  have "\<not> fullmatch INTERVAL_RE (str_strip e)"
    using assms fullmatch_interval by blast
  then show ?thesis
    by (simp add: parse_interval_def Let_def)
qed

lemma parse_interval_positive: "parse_interval e = Inr d \<Longrightarrow> 0 < d"
  using parse_interval_text parse_interval_other by (metis Inl_Inr_False Inr_inject)

subsection \<open>The contract of a recurrence\<close>

text \<open>
  What a preview relies on: a next run lies strictly after the cursor and inside the window.
\<close>

locale recurrence =
  fixes next_run :: "int \<Rightarrow> int option result" and lo hi :: "int option"
  assumes next_after: "next_run a = Inr (Some t) \<Longrightarrow> a < t \<and> in_window t lo hi"
begin

lemma preview_ok:
  "preview_loop next_run n c = Inr ts \<Longrightarrow>
     sorted_wrt (<) ts \<and> length ts \<le> n \<and> (\<forall>t \<in> set ts. c < t \<and> in_window t lo hi)"
proof (induction n arbitrary: c ts)
  case (Suc n)
  from Suc.prems obtain nxt where nxt: "next_run c = Inr nxt"
    and rest: "(case nxt of None \<Rightarrow> Inr [] | Some t \<Rightarrow> and_then (preview_loop next_run n t) (\<lambda>out. Inr (t # out))) = Inr ts"
    by auto
  show ?case
  proof (cases nxt)
    case (Some t)
    with rest obtain out where out: "preview_loop next_run n t = Inr out" "ts = t # out"
      by auto
    then show ?thesis
      using Suc.IH [OF out(1)] next_after nxt Some by fastforce
  qed (use rest in simp)
qed simp

text \<open>A shorter preview is a prefix of a longer one.\<close>

lemma preview_prefix:
  "preview_loop next_run n c = Inr ts \<Longrightarrow> m \<le> n \<Longrightarrow> preview_loop next_run m c = Inr (take m ts)"
proof (induction n arbitrary: c ts m)
  case (Suc n)
  from Suc.prems(1) obtain nxt where nxt: "next_run c = Inr nxt"
    and rest: "(case nxt of None \<Rightarrow> Inr [] | Some t \<Rightarrow> and_then (preview_loop next_run n t) (\<lambda>out. Inr (t # out))) = Inr ts"
    by auto
  show ?case
  proof (cases m)
    case (Suc k)
    with nxt rest Suc.prems(2) Suc.IH [of _ _ k] show ?thesis
      by (cases nxt) auto
  qed simp
qed simp

end

text \<open>The candidates croniter gives from a cursor, and the ones the scan accepts.\<close>

fun cron_candidate :: "(int \<Rightarrow> int result) \<Rightarrow> nat \<Rightarrow> int \<Rightarrow> int result" where
  "cron_candidate next 0 c = next c"
| "cron_candidate next (Suc k) c = and_then (next c) (cron_candidate next k)"

definition cron_accepts :: "zone \<Rightarrow> int \<Rightarrow> int option \<Rightarrow> int \<Rightarrow> bool" where
  "cron_accepts tz after lo wall \<longleftrightarrow>
     local_wall_exists wall tz \<and> after < wall_to_utc tz wall \<and> in_window (wall_to_utc tz wall) lo None"

lemma in_window_split: "in_window t lo hi \<longleftrightarrow> in_window t lo None \<and> in_window t None hi"
  by (simp add: in_window_def)

lemma scan_cron_Suc:
  "scan_cron next tz after lo hi (Suc n) c =
     and_then (next c) (\<lambda>wall.
       if cron_accepts tz after lo wall
       then Inr (if in_window (wall_to_utc tz wall) None hi then Some (wall_to_utc tz wall) else None)
       else scan_cron next tz after lo hi n wall)"
  by (cases "next c") (auto simp: cron_accepts_def in_window_def Let_def not_le)

lemma scan_cron_first:
  "scan_cron next tz after lo hi n c = Inr (Some t) \<Longrightarrow>
     \<exists>k < n. \<exists>wall. cron_candidate next k c = Inr wall \<and> cron_accepts tz after lo wall
       \<and> t = wall_to_utc tz wall \<and> in_window t None hi
       \<and> (\<forall>j < k. \<exists>w. cron_candidate next j c = Inr w \<and> \<not> cron_accepts tz after lo w)"
proof (induction n arbitrary: c)
  case (Suc n)
  from Suc.prems obtain w where w: "next c = Inr w" and rest:
    "(if cron_accepts tz after lo w
      then Inr (if in_window (wall_to_utc tz w) None hi then Some (wall_to_utc tz w) else None)
      else scan_cron next tz after lo hi n w) = Inr (Some t)"
    unfolding scan_cron_Suc by auto
  show ?case
  proof (cases "cron_accepts tz after lo w")
    case True
    then show ?thesis
      using w rest by (intro exI [of _ 0]) (auto split: if_splits)
  next
    case False
    with rest obtain k wall where k: "k < n" "cron_candidate next k w = Inr wall" "cron_accepts tz after lo wall"
        "t = wall_to_utc tz wall" "in_window t None hi"
        "\<forall>j < k. \<exists>v. cron_candidate next j w = Inr v \<and> \<not> cron_accepts tz after lo v"
      using Suc.IH [of w] by auto
    have "\<forall>j < Suc k. \<exists>v. cron_candidate next j c = Inr v \<and> \<not> cron_accepts tz after lo v"
      using w False k(6) by (auto simp: less_Suc_eq_0_disj)
    with k w show ?thesis
      by (intro exI [of _ "Suc k"]) auto
  qed
qed simp

lemma scan_cron_ok:
  "scan_cron next tz after lo hi n c = Inr (Some t) \<Longrightarrow> after < t \<and> in_window t lo hi"
  using scan_cron_first [of "next" tz after lo hi n c t] in_window_split [of t lo hi] by (auto simp: cron_accepts_def)

lemma next_cron_ok: "next_cron_utc L e tz after lo hi = Inr (Some t) \<Longrightarrow> after < t \<and> in_window t lo hi"
  by (auto simp: next_cron_utc_def dest: scan_cron_ok)

text \<open>The run an INTERVAL schedule is due for: the first multiple of the interval after the cursor.\<close>

definition interval_due :: "int \<Rightarrow> int \<Rightarrow> int \<Rightarrow> int" where
  "interval_due delta anchor after =
     (if after < anchor then anchor else anchor + ((after - anchor) div delta + 1) * delta)"

lemma interval_due_after:
  assumes "0 < delta"
  shows "after < interval_due delta anchor after" and "anchor \<le> interval_due delta anchor after"
proof -
  have "after - anchor < ((after - anchor) div delta + 1) * delta"
    using assms by (metis add.commute distrib_right mult.commute mult_1 pos_mod_bound div_mult_mod_eq add_less_cancel_left)
  moreover have "after \<ge> anchor \<Longrightarrow> 0 \<le> ((after - anchor) div delta + 1) * delta"
    using assms by (simp add: pos_imp_zdiv_nonneg_iff)
  ultimately show "after < interval_due delta anchor after" "anchor \<le> interval_due delta anchor after"
    by (auto simp: interval_due_def)
qed

lemma interval_due_multiple: "\<exists>k \<ge> 0. interval_due delta anchor after = anchor + k * delta" if "0 < delta"
  using that by (cases "after < anchor")
    (auto simp: interval_due_def pos_imp_zdiv_nonneg_iff intro: exI [of _ 0] exI [of _ "(after - anchor) div delta + 1"])

lemma interval_due_least:
  assumes "0 < delta" and "0 \<le> j" and "after < anchor + j * delta"
  shows "interval_due delta anchor after \<le> anchor + j * delta"
proof (cases "after < anchor")
  case True
  then show ?thesis
    using assms by (simp add: interval_due_def)
next
  case False
  have "(after - anchor) div delta < j"
  proof (rule ccontr)
    assume "\<not> (after - anchor) div delta < j"
    then have "j * delta \<le> (after - anchor) div delta * delta"
      using assms(1) by (intro mult_right_mono) auto
    also have "\<dots> \<le> after - anchor"
      using assms(1) by (metis mult.commute mult_div_mod_eq le_add_same_cancel1 pos_mod_sign)
    finally show False
      using assms(3) by simp
  qed
  then have "((after - anchor) div delta + 1) * delta \<le> j * delta"
    using assms(1) by (intro mult_right_mono) auto
  with False show ?thesis
    by (simp add: interval_due_def)
qed

lemma next_interval_eq:
  assumes "0 < delta"
  shows "next_interval_utc delta after (Some anchor) hi =
    (if anchor \<le> after \<and> \<not> (timedelta_ok (interval_due delta anchor after - anchor)
          \<and> datetime_ok (interval_due delta anchor after)) then Inl VALIDATION_ERROR
     else if in_window (interval_due delta anchor after) (Some anchor) hi
     then Inr (Some (interval_due delta anchor after)) else Inr None)"
  using interval_due_after [OF assms, where after = after and anchor = anchor]
  by (auto simp: next_interval_utc_def interval_due_def in_window_def Let_def)

lemma next_interval_ok:
  assumes "0 < delta" and "next_interval_utc delta after lo hi = Inr (Some t)"
  shows "after < t \<and> in_window t lo hi"
proof (cases lo)
  case (Some anchor)
  then show ?thesis
    using assms(2) interval_due_after [OF assms(1)] unfolding Some next_interval_eq [OF assms(1)]
    by (auto split: if_splits)
qed (use assms in \<open>simp add: next_interval_utc_def\<close>)

fun utc_bound :: "py_datetime option \<Rightarrow> int option" where
  "utc_bound (Some (Aware u)) = Some u"
| "utc_bound _ = None"

lemma opt_aware_Inr: "opt_aware t = Inr u \<Longrightarrow> u = utc_bound t"
  by (cases t rule: utc_bound.cases) (auto simp: require_aware_def)

lemma validated_cases:
  assumes "validate_schedule_expression L st e z = Inr v"
  shows "(vs_type v = CRON \<and> st = ''CRON'' \<and> vs_expression v = str_strip e)
    \<or> (vs_type v = ONCE \<and> st = ''ONCE'' \<and> (\<exists>wall tz. zone_info L z = ZoneFound tz
         \<and> parse_once_local e tz = Inr wall \<and> vs_once_local v = Some wall))
    \<or> (vs_type v = INTERVAL \<and> st = ''INTERVAL'' \<and> (\<exists>d. parse_interval e = Inr d \<and> vs_interval v = Some d))"
  using assms by (auto simp: validate_schedule_expression_def schedule_type_of_def validate_cron_def
      Let_def split: if_splits)

text \<open>One call, with the checks peeled off.\<close>

lemma next_scheduled_cases:
  assumes "next_scheduled_at L st e z (Aware after) start_at end_at = Inr r"
  shows "\<exists>tz. zone_info L z = ZoneFound tz \<and>
    ((st = ''CRON'' \<and> next_cron_utc L (str_strip e) tz after (utc_bound start_at) (utc_bound end_at) = Inr r)
     \<or> (st = ''ONCE'' \<and> (\<exists>wall. parse_once_local e tz = Inr wall
          \<and> r = (if after < wall_to_utc tz wall \<and> in_window (wall_to_utc tz wall) (utc_bound start_at) (utc_bound end_at)
                 then Some (wall_to_utc tz wall) else None)))
     \<or> (st = ''INTERVAL'' \<and> (\<exists>d > 0. parse_interval e = Inr d
          \<and> next_interval_utc d after (utc_bound start_at) (utc_bound end_at) = Inr r)))"
proof -
  from assms obtain v tz where v: "validate_schedule_expression L st e z = Inr v" and tz: "zone_info L z = ZoneFound tz"
    and body: "(case vs_type v of
         ONCE \<Rightarrow> (case vs_once_local v of None \<Rightarrow> Inl AssertionError
            | Some wall \<Rightarrow> let once_utc = wall_to_utc tz wall in
                if once_utc \<le> after then Inr None
                else if \<not> in_window once_utc (utc_bound start_at) (utc_bound end_at) then Inr None
                else Inr (Some once_utc))
       | CRON \<Rightarrow> next_cron_utc L (vs_expression v) tz after (utc_bound start_at) (utc_bound end_at)
       | INTERVAL \<Rightarrow> (case vs_interval v of None \<Rightarrow> Inl AssertionError
            | Some delta \<Rightarrow> next_interval_utc delta after (utc_bound start_at) (utc_bound end_at))) = Inr r"
    by (auto simp: next_scheduled_at_def require_aware_def dest!: opt_aware_Inr)
  show ?thesis
    using validated_cases [OF v] tz body parse_interval_positive by (fastforce simp: Let_def split: if_splits)
qed

lemma next_scheduled_ok:
  assumes "next_scheduled_at L st e z (Aware after) start_at end_at = Inr (Some t)"
  shows "after < t \<and> in_window t (utc_bound start_at) (utc_bound end_at)"
  using next_scheduled_cases [OF assms] next_cron_ok next_interval_ok by (fastforce split: if_splits)

interpretation schedule: recurrence
    "\<lambda>t. next_scheduled_at L st e z (Aware t) start_at end_at" "utc_bound start_at" "utc_bound end_at"
    for L st e z start_at end_at
  by unfold_locales (rule next_scheduled_ok)

subsection \<open>Properties\<close>

text \<open>Time zone data for UTC and a croniter that fires every minute.\<close>

definition utc_lib :: recurrence_lib where
  "utc_lib =
     \<lparr>zone_info = (\<lambda>z. if z = ''UTC'' then ZoneFound \<lparr>wall_to_utc = (\<lambda>w. w), utc_to_wall = (\<lambda>t. (t, False))\<rparr> else ZoneNotFound),
      croniter_valid = (\<lambda>e. True),
      croniter_next = (\<lambda>e c. Inr ((c div 60000000 + 1) * 60000000))\<rparr>"

text \<open>Which INTERVAL expressions are accepted and what they mean: after stripping, exactly the texts
  \<open>P[nD][T[nH][nM][nS]]\<close> whose total is positive and fits a \<open>timedelta\<close>, with that total in
  microseconds; every other input is a VALIDATION\_ERROR with status 400.\<close>

theorem interval_expression_meaning:
  "parse_interval e \<in> insert (Inl VALIDATION_ERROR) (range Inr) \<and>
   (parse_interval e = Inr d \<longleftrightarrow>
     (\<exists>gd time. component_ok gd \<and> time_ok time \<and> str_strip e = interval_text gd time \<and> interval_short gd time
        \<and> d = interval_value gd time \<and> 0 < d \<and> timedelta_ok d))"
proof (cases "\<exists>gd time. component_ok gd \<and> time_ok time \<and> str_strip e = interval_text gd time")
  case True
  then obtain gd time where ok: "component_ok gd" "time_ok time" "str_strip e = interval_text gd time"
    by blast
  have unique: "gd' = gd \<and> time_groups time' = time_groups time"
    if "component_ok gd'" "time_ok time'" "str_strip e = interval_text gd' time'" for gd' time'
    using interval_groups_text [OF that(1,2)] interval_groups_text [OF ok(1,2)] ok(3) that(3) by simp
  then have same: "interval_value gd' time' = interval_value gd time \<and> interval_short gd' time' = interval_short gd time"
    if "component_ok gd'" "time_ok time'" "str_strip e = interval_text gd' time'" for gd' time'
    using that by (simp add: interval_value_def interval_short_def)
  have "(\<exists>gd time. component_ok gd \<and> time_ok time \<and> str_strip e = interval_text gd time \<and> interval_short gd time
        \<and> d = interval_value gd time \<and> 0 < d \<and> timedelta_ok d)
    \<longleftrightarrow> interval_short gd time \<and> d = interval_value gd time \<and> 0 < d \<and> timedelta_ok d" (is "?l = ?r")
  proof
    assume ?l
    then show ?r
      using same by metis
  next
    assume ?r
    then show ?l
      using ok by blast
  qed
  then show ?thesis
    unfolding parse_interval_text [OF ok] by (simp split: if_split) blast
next
  case False
  then have "parse_interval e = Inl VALIDATION_ERROR"
    by (rule parse_interval_other)
  with False show ?thesis
    by (metis Inl_Inr_False insertI1)
qed

lemma strip_id: "s \<noteq> [] \<Longrightarrow> \<not> py_space (hd s) \<Longrightarrow> \<not> py_space (last s) \<Longrightarrow> str_strip s = s"
proof -
  assume s: "s \<noteq> []" "\<not> py_space (hd s)" "\<not> py_space (last s)"
  have "dropWhile py_space s = s"
    using s by (cases s) auto
  moreover have "dropWhile py_space (rev s) = rev s"
    using s by (cases s rule: rev_cases) auto
  ultimately show "str_strip s = s"
    by (simp add: str_strip_def)
qed

lemma parse_hour: "parse_interval ''PT1H'' = Inr 3600000000"
proof -
  have "str_strip ''PT1H'' = interval_text None (Some (Some ''1'', None, None))"
    by (simp add: strip_id py_space_def interval_text_def)
  from parse_interval_text [OF _ _ this] show ?thesis
    by (simp add: component_ok_def time_ok_def interval_short_def interval_value_def time_groups_def
        group_short_def group_val_def timedelta_ok_def nat_of_digits_def digit_val_def ascii_digit_def)
qed

lemma hourly_next:
  assumes "0 \<le> a" and "a < 10000000000"
  shows "next_scheduled_at utc_lib ''INTERVAL'' ''PT1H'' ''UTC'' (Aware a) (Some (Aware 0)) None
    = Inr (Some ((a div 3600000000 + 1) * 3600000000))"
  using assms by (simp add: next_scheduled_at_def validate_schedule_expression_def schedule_type_of_def zone_of_def
      utc_lib_def parse_hour require_aware_def next_interval_eq interval_due_def in_window_def timedelta_ok_def
      datetime_ok_def) linarith

text \<open>C39: The next run of an INTERVAL schedule is the earliest instant after the cursor that lies a whole
  number of intervals after the anchor \<open>start_at\<close>, so the phase never drifts.\<close>

theorem interval_next_exact:
  assumes "next_scheduled_at L ''INTERVAL'' e z (Aware after) start_at end_at = Inr (Some t)"
  shows "\<exists>anchor d k. start_at = Some (Aware anchor) \<and> parse_interval e = Inr d \<and> 0 \<le> k \<and> t = anchor + k * d
    \<and> after < t \<and> (\<forall>j \<ge> 0. after < anchor + j * d \<longrightarrow> t \<le> anchor + j * d)"
proof -
  obtain d where d: "0 < d" "parse_interval e = Inr d"
    and nxt: "next_interval_utc d after (utc_bound start_at) (utc_bound end_at) = Inr (Some t)"
    using next_scheduled_cases [OF assms] by auto
  then obtain anchor where anchor: "utc_bound start_at = Some anchor"
    by (cases "utc_bound start_at") (auto simp: next_interval_utc_def)
  then have start: "start_at = Some (Aware anchor)"
    by (cases start_at rule: utc_bound.cases) auto
  have t: "t = interval_due d anchor after"
    using nxt unfolding anchor next_interval_eq [OF d(1)] by (auto split: if_splits)
  obtain k where "0 \<le> k" "t = anchor + k * d"
    using interval_due_multiple [OF d(1)] t by metis
  with d(2) start t show ?thesis
    using interval_due_after(1) [OF d(1)] interval_due_least [OF d(1)] by metis
qed

theorem interval_next_exact_witness:
  "\<exists>anchor d k. Some (Aware 0) = Some (Aware anchor) \<and> parse_interval ''PT1H'' = Inr d \<and> 0 \<le> k
    \<and> 3600000000 = anchor + k * d \<and> (10 :: int) < 3600000000 \<and> (\<forall>j \<ge> 0. 10 < anchor + j * d \<longrightarrow> 3600000000 \<le> anchor + j * d)"
proof -
  have "next_scheduled_at utc_lib ''INTERVAL'' ''PT1H'' ''UTC'' (Aware 10) (Some (Aware 0)) None
      = Inr (Some 3600000000)"
    by (simp add: hourly_next)
  from interval_next_exact [OF this] show ?thesis .
qed

text \<open>The next run of a CRON schedule is the UTC instant of the first of croniter's candidates that the
  policy of the module accepts: its wall clock time exists in the zone and is not a repeated one, it lies
  strictly after the cursor and not before \<open>start_at\<close>; every candidate before it was rejected, and
  it lies before \<open>end_at\<close>.\<close>

theorem cron_first_acceptable:
  assumes "next_scheduled_at L ''CRON'' e z (Aware after) start_at end_at = Inr (Some t)"
  shows "\<exists>tz cursor k wall. zone_info L z = ZoneFound tz \<and> cron_cursor tz after (utc_bound start_at) = Inr cursor
    \<and> cron_candidate (croniter_next L (str_strip e)) k cursor = Inr wall \<and> t = wall_to_utc tz wall
    \<and> local_wall_exists wall tz \<and> after < t \<and> in_window t (utc_bound start_at) (utc_bound end_at)
    \<and> (\<forall>j < k. \<exists>w. cron_candidate (croniter_next L (str_strip e)) j cursor = Inr w
         \<and> \<not> cron_accepts tz after (utc_bound start_at) w)"
proof -
  obtain tz where tz: "zone_info L z = ZoneFound tz"
    and nxt: "next_cron_utc L (str_strip e) tz after (utc_bound start_at) (utc_bound end_at) = Inr (Some t)"
    using next_scheduled_cases [OF assms] by auto
  then obtain cursor where cursor: "cron_cursor tz after (utc_bound start_at) = Inr cursor"
    and scan: "scan_cron (croniter_next L (str_strip e)) tz after (utc_bound start_at) (utc_bound end_at) MAX_SCAN cursor
      = Inr (Some t)"
    by (auto simp: next_cron_utc_def)
  from scan_cron_first [OF scan] tz cursor next_cron_ok [OF nxt] show ?thesis
    unfolding cron_accepts_def by metis
qed

lemma cron_sample:
  "next_scheduled_at utc_lib ''CRON'' ''* * * * *'' ''UTC'' (Aware 10) None None = Inr (Some 60000000)"
proof -
  have "validate_cron utc_lib ''* * * * *'' = Inr ''* * * * *''"
    by (simp add: validate_cron_def strip_id py_space_def split_words_def CRON_FIELD_RE_def RPlus_def utc_lib_def)
  moreover have "scan_cron (croniter_next utc_lib e) \<lparr>wall_to_utc = (\<lambda>w. w), utc_to_wall = (\<lambda>t. (t, False))\<rparr>
      10 None None MAX_SCAN 10 = Inr (Some 60000000)" for e
  proof -
    have max: "MAX_SCAN = Suc 9999"
      by (simp add: MAX_SCAN_def)
    show ?thesis
      unfolding max scan_cron_Suc by (simp add: utc_lib_def cron_accepts_def in_window_def local_wall_exists_def)
  qed
  moreover have "zone_info utc_lib ''UTC'' = ZoneFound \<lparr>wall_to_utc = (\<lambda>w. w), utc_to_wall = (\<lambda>t. (t, False))\<rparr>"
    by (simp add: utc_lib_def)
  ultimately show ?thesis
    by (simp add: next_scheduled_at_def validate_schedule_expression_def schedule_type_of_def zone_of_def
        require_aware_def next_cron_utc_def cron_cursor_def del: scan_cron.simps)
qed

theorem cron_first_acceptable_witness:
  "\<exists>tz k cursor wall. zone_info utc_lib ''UTC'' = ZoneFound tz
    \<and> cron_candidate (croniter_next utc_lib (str_strip ''* * * * *'')) k cursor = Inr wall
    \<and> 60000000 = wall_to_utc tz wall \<and> local_wall_exists wall tz"
  using cron_first_acceptable [OF cron_sample] by (elim exE conjE) (intro exI conjI)

text \<open>A preview lists at most \<open>limit\<close> runs (between 1 and 50), strictly increasing, all after the cursor
  and inside the window, and asking for fewer runs gives a prefix of the same list.\<close>

theorem preview_increasing:
  assumes "preview_scheduled_times L st e z (Aware after) start_at end_at limit = Inr ts"
  shows "1 \<le> limit \<and> limit \<le> 50 \<and> sorted_wrt (<) ts \<and> int (length ts) \<le> limit
    \<and> (\<forall>t \<in> set ts. after < t \<and> in_window t (utc_bound start_at) (utc_bound end_at))
    \<and> (\<forall>m. 1 \<le> m \<and> m \<le> limit \<longrightarrow>
         preview_scheduled_times L st e z (Aware after) start_at end_at m = Inr (take (nat m) ts))"
proof -
  have limit: "1 \<le> limit" "limit \<le> 50"
    and loop: "preview_loop (\<lambda>t. next_scheduled_at L st e z (Aware t) start_at end_at) (nat limit) after = Inr ts"
    using assms by (auto simp: preview_scheduled_times_def require_aware_def MAX_PREVIEW_def)
  have "preview_scheduled_times L st e z (Aware after) start_at end_at m = Inr (take (nat m) ts)"
    if "1 \<le> m" "m \<le> limit" for m
    using schedule.preview_prefix [OF loop, of "nat m"] limit that
    by (simp add: preview_scheduled_times_def require_aware_def MAX_PREVIEW_def)
  with limit schedule.preview_ok [OF loop] show ?thesis
    by (simp add: nat_le_iff le_nat_iff)
qed

lemma preview_sample:
  "preview_scheduled_times utc_lib ''INTERVAL'' ''PT1H'' ''UTC'' (Aware 10) (Some (Aware 0)) None 2
     = Inr [3600000000, 7200000000]"
  by (simp add: preview_scheduled_times_def require_aware_def MAX_PREVIEW_def numeral_2_eq_2 hourly_next)

theorem preview_increasing_witness:
  "preview_scheduled_times utc_lib ''INTERVAL'' ''PT1H'' ''UTC'' (Aware 10) (Some (Aware 0)) None 1 = Inr [3600000000]"
  using preview_increasing [OF preview_sample] by simp

text \<open>A ONCE schedule fires at most once, whatever the limit of the preview.\<close>

theorem once_fires_at_most_once:
  assumes "preview_scheduled_times L ''ONCE'' e z (Aware after) start_at end_at limit = Inr ts"
  shows "length ts \<le> 1"
proof (rule ccontr)
  assume "\<not> length ts \<le> 1"
  then obtain a b r where ts: "ts = a # b # r"
    by (metis One_nat_def le_SucI le_numeral_extra(4) length_0_conv length_Cons neq_Nil_conv zero_le)
  have "preview_loop (\<lambda>t. next_scheduled_at L ''ONCE'' e z (Aware t) start_at end_at) (nat limit) after = Inr ts"
    using assms by (auto simp: preview_scheduled_times_def require_aware_def)
  then have two: "next_scheduled_at L ''ONCE'' e z (Aware after) start_at end_at = Inr (Some a)"
    "next_scheduled_at L ''ONCE'' e z (Aware a) start_at end_at = Inr (Some b)"
    unfolding ts
    by (cases "nat limit"; cases "nat limit - 1"; auto split: option.splits)+
  from next_scheduled_cases [OF two(1)] next_scheduled_cases [OF two(2)] show False
    by (auto split: if_splits)
qed

lemma once_sample:
  "next_scheduled_at utc_lib ''ONCE'' ''2024-02-29T12:00:00'' ''UTC'' (Aware a) None None
     = Inr (if a < 1709208000000000 then Some 1709208000000000 else None)"
proof -
  have "parse_once_local ''2024-02-29T12:00:00'' \<lparr>wall_to_utc = (\<lambda>w. w), utc_to_wall = (\<lambda>t. (t, False))\<rparr>
      = Inr 1709208000000000"
  proof -
    have "fullmatch ONCE_RE ''2024-02-29T12:00:00''"
      by code_simp
    moreover have "make_datetime 2024 2 29 12 0 0 = Some 1709208000000000"
      by (simp add: make_datetime_def days_in_month_def is_leap_def ymd_ordinal_def numeral_2_eq_2)
    moreover have "str_strip ''2024-02-29T12:00:00'' = ''2024-02-29T12:00:00''"
      by (rule strip_id) (simp_all add: py_space_def)
    ultimately show ?thesis
      by (simp add: parse_once_local_def nat_of_digits_def digit_val_def local_wall_exists_def)
  qed
  then show ?thesis
    by (simp add: next_scheduled_at_def validate_schedule_expression_def schedule_type_of_def zone_of_def
        utc_lib_def require_aware_def in_window_def not_le)
qed

theorem once_fires_at_most_once_witness:
  "\<exists>ts. preview_scheduled_times utc_lib ''ONCE'' ''2024-02-29T12:00:00'' ''UTC'' (Aware 0) None None 5 = Inr ts
     \<and> ts \<noteq> [] \<and> length ts \<le> 1"
proof -
  have "preview_scheduled_times utc_lib ''ONCE'' ''2024-02-29T12:00:00'' ''UTC'' (Aware 0) None None 5
      = Inr [1709208000000000]"
    by (simp add: once_sample preview_scheduled_times_def require_aware_def MAX_PREVIEW_def numeral_eq_Suc)
  from once_fires_at_most_once [OF this] this show ?thesis
    by simp
qed

end
