(* ===== verification/ClaimService.thy ===== *)
theory ClaimService
  imports ExecutionDb RuntimeDag Recurrence
begin

section \<open>Claiming an execution and renewing its lease\<close>

text \<open>
  \<^verbatim>\<open>src/backend/app/execution/claim.py\<close>.  \<open>token\<close> is the result of
  \<open>uuid.uuid4()\<close> and \<open>ts\<close> the current time; both are arguments.  A claim turns a QUEUED
  execution into a RUNNING one with a lease and promotes root TOOL steps to READY; a renewal extends
  the lease of the worker that holds it.
\<close>

record claim_outcome =
  co_execution_id :: uuid
  claimed :: bool
  co_status :: "execution_status option"
  co_worker_id :: "string option"
  co_lease_token :: "uuid option"
  co_lease_expires_at :: "time option"
  ready_step_ids :: "uuid list"
  co_reason :: "string option"

definition normalize_worker_id :: "string \<Rightarrow> string result" where
  "normalize_worker_id w =
     (let v = str_strip w in
      if v = [] \<or> length v > 128 then Inl VALIDATION_ERROR else Inr v)"

definition claim_service :: "int \<Rightarrow> unit result" where
  "claim_service lease = (if lease \<le> 0 then Inl ValueError else Inr ())"

definition claimable_source :: "string \<Rightarrow> bool" where
  "claimable_source s \<longleftrightarrow>
     s \<in> {''AGENT_REQUEST'', ''MANUAL_TOOL_TEST'', ''WORKFLOW_VERSION'', ''SCHEDULE_OCCURRENCE''}"

text \<open>The source lineage of a WORKFLOW\_VERSION or SCHEDULE\_OCCURRENCE execution.\<close>

definition assert_claim_source :: "(json \<Rightarrow> execution_plan option) \<Rightarrow> execution_row \<Rightarrow> unit result" where
  "assert_claim_source vplan ex =
     (if \<not> claimable_source (source_type ex) then Inl RESOURCE_CONFLICT
      else if source_type ex = ''WORKFLOW_VERSION'' then
        if workflow_version_id ex = None \<or> agent_request_id ex \<noteq> None \<or> agent_version_id ex \<noteq> None
        then Inl RESOURCE_CONFLICT
        else and_then (opt_or (vplan (plan_snapshot ex)) RESOURCE_CONFLICT) (\<lambda>plan.
          raise_if (plan_source_type (plan_src plan) \<noteq> ''WORKFLOW'') RESOURCE_CONFLICT)
      else if source_type ex = ''SCHEDULE_OCCURRENCE'' then
        if schedule_occurrence_id ex = None then Inl RESOURCE_CONFLICT
        else if \<not> (is_workflow_schedule_occurrence ex \<or> is_agent_schedule_occurrence ex)
        then Inl RESOURCE_CONFLICT
        else and_then (opt_or (vplan (plan_snapshot ex)) RESOURCE_CONFLICT) (\<lambda>plan.
          raise_if (plan_source_type (plan_src plan)
             \<noteq> (if is_agent_schedule_occurrence ex then ''AGENT'' else ''WORKFLOW'')) RESOURCE_CONFLICT)
      else Inr ())"

definition assert_initial_step :: "execution_step \<Rightarrow> unit result" where
  "assert_initial_step s =
     (if status s \<noteq> PENDING \<or> parent_step_id s \<noteq> None \<or> iteration_no s \<noteq> None \<or> ready_at s \<noteq> None
         \<or> started_at s \<noteq> None \<or> attempt_count s \<noteq> 0 \<or> resolved_input s \<noteq> JNull
      then Inl RESOURCE_CONFLICT
      else if st_type s \<in> {JOIN, CONDITION, APPROVAL, LOOP} \<and> mcp_tool_version_id s \<noteq> None
      then Inl RESOURCE_CONFLICT
      else Inr ())"

definition lock_and_assert_occurrence_enqueued :: "execution_row \<Rightarrow> db \<Rightarrow> unit result" where
  "lock_and_assert_occurrence_enqueued ex d =
     (case schedule_occurrence_id ex of
        None \<Rightarrow> Inl RESOURCE_CONFLICT
      | Some oid \<Rightarrow>
          if \<not> (is_workflow_schedule_occurrence ex \<or> is_agent_schedule_occurrence ex) then Inl RESOURCE_CONFLICT
          else case find (\<lambda>oc. oc_id oc = oid) (db_occurrences d) of
            None \<Rightarrow> Inl RESOURCE_CONFLICT
          | Some oc \<Rightarrow>
              if oc_status oc \<noteq> O_ENQUEUED then Inl RESOURCE_CONFLICT
              else case find (\<lambda>sc. sc_id sc = oc_schedule_id oc) (db_schedules d) of
                None \<Rightarrow> Inl RESOURCE_CONFLICT
              | Some sc \<Rightarrow> if owner_id sc \<noteq> requester_id ex then Inl RESOURCE_CONFLICT else Inr ())"

definition mark_occurrence_running :: "execution_row \<Rightarrow> db \<Rightarrow> db result" where
  "mark_occurrence_running ex d =
     (case schedule_occurrence_id ex of
        None \<Rightarrow> Inl AssertionError
      | Some oid \<Rightarrow>
          (case find (\<lambda>oc. oc_id oc = oid) (db_occurrences d) of
             None \<Rightarrow> Inl RESOURCE_CONFLICT
           | Some oc \<Rightarrow>
               if oc_status oc \<noteq> O_ENQUEUED then Inl RESOURCE_CONFLICT
               else Inr (put_occurrence (oc\<lparr>oc_status := O_RUNNING\<rparr>) d)))"

text \<open>The promotion loop: \<open>slots\<close> root TOOL steps in plan order.\<close>

fun promote_roots :: "time \<Rightarrow> (string, execution_step) dict \<Rightarrow> string list \<Rightarrow> int \<Rightarrow> db \<Rightarrow> (uuid list \<times> db) result" where
  "promote_roots ts by_key [] slots d = Inr ([], d)"
| "promote_roots ts by_key (key # keys) slots d =
     (if slots \<le> 0 then Inr ([], d)
      else and_then (dict_at by_key key) (\<lambda>s.
        let s' = s\<lparr>status := READY, ready_at := Some ts, lock_version := lock_version s + 1\<rparr>;
            d' = emit_step_status_changed s' (status s) ts (put_step s' d)
        in and_then (promote_roots ts by_key keys (slots - 1) d') (\<lambda>(ids, d'').
             Inr (st_id s # ids, d''))))"

text \<open>Everything between the row lock and the first write.\<close>

definition claim_checks :: "(json \<Rightarrow> execution_plan option) \<Rightarrow> codec \<Rightarrow> (rat \<Rightarrow> string) \<Rightarrow> execution_row \<Rightarrow> db
    \<Rightarrow> tool_join_dag result" where
  "claim_checks vplan C fr ex d =
     and_then (assert_claim_source vplan ex) (\<lambda>_.
       if queued_at ex = None \<or> ex_started_at ex \<noteq> None then Inl RESOURCE_CONFLICT
       else if worker_id ex \<noteq> None \<or> lease_token ex \<noteq> None \<or> lease_expires_at ex \<noteq> None \<or> heartbeat_at ex \<noteq> None
       then Inl RESOURCE_CONFLICT
       else let steps = list_steps d (ex_id ex) in
         if steps = [] then Inl RESOURCE_CONFLICT
         else and_then (eachE assert_initial_step steps) (\<lambda>_.
           and_then (assert_execution_plan_lineage vplan fr ex) (\<lambda>plan.
           and_then (validate_tool_join_dag C plan steps) (\<lambda>dag.
           and_then (if source_type ex = ''SCHEDULE_OCCURRENCE'' then lock_and_assert_occurrence_enqueued ex d
                     else Inr ()) (\<lambda>_. Inr dag)))))"

definition claimed_row :: "int \<Rightarrow> string \<Rightarrow> uuid \<Rightarrow> time \<Rightarrow> execution_row \<Rightarrow> execution_row" where
  "claimed_row lease worker token ts ex =
     ex\<lparr>ex_status := E_RUNNING, worker_id := Some worker, lease_token := Some token,
        lease_expires_at := Some (ts + lease * 1000000), heartbeat_at := Some ts, ex_started_at := Some ts,
        ex_lock_version := ex_lock_version ex + 1\<rparr>"

definition claim :: "(json \<Rightarrow> execution_plan option) \<Rightarrow> codec \<Rightarrow> (rat \<Rightarrow> string) \<Rightarrow> int \<Rightarrow> uuid \<Rightarrow> string
    \<Rightarrow> uuid \<Rightarrow> time \<Rightarrow> db \<Rightarrow> (claim_outcome \<times> db) result" where
  "claim vplan C fr lease eid w token ts d =
     and_then (normalize_worker_id w) (\<lambda>worker.
       case find (\<lambda>ex. ex_id ex = eid) (case db_execution d of None \<Rightarrow> [] | Some ex \<Rightarrow> [ex]) of
         None \<Rightarrow>
           Inr (\<lparr>co_execution_id = eid, claimed = False, co_status = None, co_worker_id = None,
                 co_lease_token = None, co_lease_expires_at = None, ready_step_ids = [],
                 co_reason = Some ''MISSING''\<rparr>, d)
       | Some ex \<Rightarrow>
           if ex_status ex \<noteq> E_QUEUED then
             Inr (\<lparr>co_execution_id = ex_id ex, claimed = False, co_status = Some (ex_status ex),
                   co_worker_id = worker_id ex, co_lease_token = None,
                   co_lease_expires_at = lease_expires_at ex, ready_step_ids = [],
                   co_reason = Some ''STALE_DELIVERY''\<rparr>, d)
           else and_then (claim_checks vplan C fr ex d) (\<lambda>dag.
             let ex' = claimed_row lease worker token ts ex;
                 d1 = emit_execution_status_changed ex' (ex_status ex) ts (put_execution ex' d)
             in and_then (promote_roots ts (by_step_key (list_steps d (ex_id ex))) (root_tool_keys dag)
                            (dag_max_parallelism dag) d1) (\<lambda>(ids, d2).
                and_then (if source_type ex = ''SCHEDULE_OCCURRENCE'' then mark_occurrence_running ex' d2
                          else Inr d2) (\<lambda>d3.
                  Inr (\<lparr>co_execution_id = ex_id ex, claimed = True, co_status = Some E_RUNNING,
                        co_worker_id = Some worker, co_lease_token = Some token,
                        co_lease_expires_at = Some (ts + lease * 1000000), ready_step_ids = ids,
                        co_reason = None\<rparr>, d3)))))"

definition renew_lease :: "int \<Rightarrow> uuid \<Rightarrow> string \<Rightarrow> uuid \<Rightarrow> time \<Rightarrow> db \<Rightarrow> (time \<times> db) result" where
  "renew_lease lease eid w token ts d =
     and_then (normalize_worker_id w) (\<lambda>worker.
       case find (\<lambda>ex. ex_id ex = eid) (case db_execution d of None \<Rightarrow> [] | Some ex \<Rightarrow> [ex]) of
         None \<Rightarrow> Inl RESOURCE_CONFLICT
       | Some ex \<Rightarrow>
           if ex_status ex \<noteq> E_RUNNING \<or> worker_id ex \<noteq> Some worker \<or> lease_token ex \<noteq> Some token
              \<or> (case lease_expires_at ex of None \<Rightarrow> True | Some t \<Rightarrow> t \<le> ts)
           then Inl RESOURCE_CONFLICT
           else let expires_at = ts + lease * 1000000 in
             Inr (expires_at,
                  put_execution (ex\<lparr>heartbeat_at := Some ts, lease_expires_at := Some expires_at,
                                    ex_lock_version := ex_lock_version ex + 1\<rparr>) d))"

end
