(* ===== verification/CancelService.thy ===== *)
theory CancelService
  imports ExecutionDb Completion
begin

section \<open>Cooperative cancellation\<close>

text \<open>
  \<^verbatim>\<open>src/backend/app/execution/cancellation.py\<close>.  Every function runs under the row lock of the execution;
  the argument \<open>ex\<close> is the locked row, which is also the one in the state.  The queries without an ORDER BY
  return rows in the order of the state.  Only the rows are modelled: the locking of the steps in the
  order of their ids writes nothing.
\<close>

datatype cancellation_mode = CM_IDEMPOTENT | CM_IMMEDIATE | CM_REQUESTED | CM_RECONCILED

record cancellation_outcome =
  cn_status :: execution_status
  cn_requested_at :: "time option"
  cn_finished_at :: "time option"
  cn_mode :: cancellation_mode

definition cancel_outcome :: "execution_row \<Rightarrow> cancellation_mode \<Rightarrow> cancellation_outcome" where
  "cancel_outcome ex mode =
     \<lparr>cn_status = ex_status ex, cn_requested_at = cancel_requested_at ex, cn_finished_at = ex_finished_at ex,
      cn_mode = mode\<rparr>"

definition is_terminal_execution_status :: "execution_status \<Rightarrow> bool" where
  "is_terminal_execution_status st \<longleftrightarrow>
     st \<in> {E_SUCCEEDED, E_PARTIALLY_SUCCEEDED, E_FAILED, E_TIMED_OUT, E_CANCELLED}"

definition non_cancel_terminal :: "execution_status \<Rightarrow> bool" where
  "non_cancel_terminal st \<longleftrightarrow> st \<in> {E_SUCCEEDED, E_PARTIALLY_SUCCEEDED, E_FAILED, E_TIMED_OUT}"

definition immediate_status :: "execution_status \<Rightarrow> bool" where
  "immediate_status st \<longleftrightarrow> st \<in> {E_CREATED, E_QUEUED, E_WAITING_APPROVAL, E_WAITING_INPUT}"

definition cancellation_is_requested :: "execution_row \<Rightarrow> bool" where
  "cancellation_is_requested ex \<longleftrightarrow> ex_status ex = E_CANCEL_REQUESTED \<or> cancel_requested_at ex \<noteq> None"

subsection \<open>Tool calls in flight\<close>

definition list_started_tool_calls :: "db \<Rightarrow> uuid \<Rightarrow> tool_call list" where
  "list_started_tool_calls d eid =
     filter (\<lambda>c. normalized_status c = A_STARTED \<and>
       (\<exists>a \<in> set (db_attempts d). at_id a = tl_attempt_id c \<and>
         (\<exists>s \<in> set (db_steps d). st_id s = at_step_id a \<and> st_execution_id s = eid))) (db_calls d)"

definition step_has_started_tool_call :: "db \<Rightarrow> uuid \<Rightarrow> bool" where
  "step_has_started_tool_call d sid =
     list_ex (\<lambda>c. normalized_status c = A_STARTED \<and>
       list_ex (\<lambda>a. at_id a = tl_attempt_id c \<and> at_step_id a = sid) (db_attempts d)) (db_calls d)"

definition inflight :: "db \<Rightarrow> step_attempt \<Rightarrow> bool" where
  "inflight d a = list_ex (\<lambda>c. normalized_status c = A_STARTED) (list_tool_calls d (at_id a))"

subsection \<open>Cancelling rows\<close>

definition cancel_step :: "time \<Rightarrow> execution_step \<Rightarrow> execution_step" where
  "cancel_step now s =
     (if terminal_status (status s) then s
      else s\<lparr>status := CANCELLED, finished_at := Some now, error_code := None, error_message := None,
             lock_version := lock_version s + 1\<rparr>)"

definition cancel_attempt :: "time \<Rightarrow> step_attempt \<Rightarrow> step_attempt" where
  "cancel_attempt now a =
     (if at_status a \<noteq> A_STARTED then a
      else a\<lparr>at_status := A_CANCELLED, at_finished_at := Some now, at_worker_id := None,
             at_lease_expires_at := None, at_error_code := None\<rparr>)"

definition cancel_started_attempts_without_inflight_tool_call :: "time \<Rightarrow> execution_step \<Rightarrow> db \<Rightarrow> db" where
  "cancel_started_attempts_without_inflight_tool_call now s d =
     fold (\<lambda>a d. if at_status a \<noteq> A_STARTED \<or> inflight d a then d else put_attempt (cancel_attempt now a) d)
       (list_attempts d (st_id s)) d"

definition cancel_pending_approvals :: "uuid \<Rightarrow> time \<Rightarrow> db \<Rightarrow> db" where
  "cancel_pending_approvals eid now d =
     d\<lparr>db_approvals := map (\<lambda>r.
          if ap_execution_id r = eid \<and> ap_status r = AP_PENDING
          then r\<lparr>ap_status := AP_CANCELLED, resolved_at := Some now, ap_lock_version := ap_lock_version r + 1\<rparr>
          else r) (db_approvals d)\<rparr>"

definition reject_open_mrtr_requests :: "uuid \<Rightarrow> time \<Rightarrow> uuid option \<Rightarrow> db \<Rightarrow> db" where
  "reject_open_mrtr_requests eid now who d =
     d\<lparr>db_inputs := map (\<lambda>r.
          if in_execution_id r = eid \<and> in_status r = IN_OPEN
          then r\<lparr>in_status := IN_REJECTED, answered_at := Some now, answered_by := who, response_payload := JNull\<rparr>
          else r) (db_inputs d)\<rparr>"

definition cancel_safe_step :: "time \<Rightarrow> uuid list \<Rightarrow> execution_step \<Rightarrow> db \<Rightarrow> db" where
  "cancel_safe_step now preserve s d =
     (if st_id s \<in> set preserve then d
      else if terminal_status (status s) then d
      else if status s = RUNNING \<and> step_has_started_tool_call d (st_id s) then d
      else put_step (cancel_step now s)
             (if status s \<in> {RUNNING, WAITING_INPUT, WAITING_APPROVAL}
              then cancel_started_attempts_without_inflight_tool_call now s d else d))"

definition cancel_safe_nonterminal_steps :: "time \<Rightarrow> uuid list \<Rightarrow> execution_step list \<Rightarrow> db \<Rightarrow> db" where
  "cancel_safe_nonterminal_steps now preserve steps d = fold (cancel_safe_step now preserve) steps d"

text \<open>The three calls every path makes: approvals, input requests, then steps.\<close>

definition close_open_work ::
    "uuid \<Rightarrow> time \<Rightarrow> uuid option \<Rightarrow> uuid list \<Rightarrow> execution_step list \<Rightarrow> db \<Rightarrow> db" where
  "close_open_work eid now who preserve steps d =
     cancel_safe_nonterminal_steps now preserve steps
       (reject_open_mrtr_requests eid now who (cancel_pending_approvals eid now d))"

subsection \<open>The execution row\<close>

definition set_cancel_metadata_once ::
    "time \<Rightarrow> uuid option \<Rightarrow> string option \<Rightarrow> execution_row \<Rightarrow> execution_row" where
  "set_cancel_metadata_once now who reason ex =
     (if cancel_requested_at ex \<noteq> None then ex
      else ex\<lparr>cancel_requested_at := Some now, cancel_requested_by := who, cancel_reason := reason\<rparr>)"

definition finalize_row ::
    "execution_status \<Rightarrow> string option \<Rightarrow> execution_step list \<Rightarrow> time \<Rightarrow> execution_row \<Rightarrow> execution_row" where
  "finalize_row st code steps now ex =
     (clear_lease (ex\<lparr>ex_status := st, ex_finished_at := Some now, ex_error_code := code,
        result_summary := build_result_summary (execution_status_value st) steps None\<rparr>))
       \<lparr>ex_lock_version := ex_lock_version ex + 1\<rparr>"

definition finalize_cancelled :: "execution_step list \<Rightarrow> time \<Rightarrow> execution_row \<Rightarrow> execution_row" where
  "finalize_cancelled steps now ex = finalize_row E_CANCELLED None steps now ex"

definition write_execution :: "execution_row \<Rightarrow> execution_status \<Rightarrow> time \<Rightarrow> db \<Rightarrow> db" where
  "write_execution ex' previous now d = emit_execution_status_changed ex' previous now (put_execution ex' d)"

text \<open>\<open>CANCEL_REQUESTED\<close>, written by two functions when the row is in another status.\<close>

definition force_cancel_requested :: "time \<Rightarrow> execution_row \<Rightarrow> execution_row" where
  "force_cancel_requested now ex =
     ex\<lparr>cancel_requested_at := (case cancel_requested_at ex of None \<Rightarrow> Some now | t \<Rightarrow> t),
        ex_status := E_CANCEL_REQUESTED, ex_lock_version := ex_lock_version ex + 1\<rparr>"

subsection \<open>Requesting a cancellation\<close>

definition preserved_steps :: "db \<Rightarrow> execution_step list \<Rightarrow> tool_call list \<Rightarrow> uuid list" where
  "preserved_steps d steps started =
     map st_id (filter (\<lambda>s. status s = RUNNING \<and>
       list_ex (\<lambda>a. at_id a \<in> set (map tl_attempt_id started)) (list_attempts d (st_id s))) steps)"

definition apply_cancellation_locked :: "execution_row \<Rightarrow> time \<Rightarrow> uuid option \<Rightarrow> string option \<Rightarrow> db
    \<Rightarrow> (cancellation_outcome \<times> db) result" where
  "apply_cancellation_locked ex now who reason d =
     (if ex_status ex = E_CANCELLED then Inr (cancel_outcome ex CM_IDEMPOTENT, d)
      else if ex_status ex = E_CANCEL_REQUESTED then Inr (cancel_outcome ex CM_IDEMPOTENT, d)
      else if non_cancel_terminal (ex_status ex) then Inl RESOURCE_CONFLICT
      else let steps = list_steps d (ex_id ex);
               ex1 = set_cancel_metadata_once now who reason ex;
               started = list_started_tool_calls d (ex_id ex)
           in if immediate_status (ex_status ex) \<or> ex_status ex = E_RUNNING \<and> started = [] then
                let d1 = close_open_work (ex_id ex) now who [] steps d;
                    ex2 = finalize_cancelled (list_steps d1 (ex_id ex)) now ex1
                in Inr (cancel_outcome ex2 CM_IMMEDIATE, write_execution ex2 (ex_status ex) now d1)
              else
                let d1 = close_open_work (ex_id ex) now who (preserved_steps d steps started) steps d;
                    ex2 = ex1\<lparr>ex_status := E_CANCEL_REQUESTED, ex_lock_version := ex_lock_version ex1 + 1\<rparr>
                in Inr (cancel_outcome ex2 CM_REQUESTED, write_execution ex2 (ex_status ex) now d1))"

subsection \<open>Reconciling\<close>

definition reconcile_cancel_requested_locked ::
    "execution_row \<Rightarrow> time \<Rightarrow> db \<Rightarrow> (cancellation_outcome \<times> db) result" where
  "reconcile_cancel_requested_locked ex now d =
     (if ex_status ex = E_CANCELLED then Inr (cancel_outcome ex CM_IDEMPOTENT, d)
      else if ex_status ex = E_FAILED then Inr (cancel_outcome ex CM_IDEMPOTENT, d)
      else if ex_status ex \<noteq> E_CANCEL_REQUESTED then Inl RESOURCE_CONFLICT
      else if list_started_tool_calls d (ex_id ex) \<noteq> [] then Inr (cancel_outcome ex CM_REQUESTED, d)
      else let steps = list_steps d (ex_id ex);
               d1 = close_open_work (ex_id ex) now (cancel_requested_by ex) [] steps d;
               ex' = (case filter (\<lambda>s. status s = UNKNOWN_OUTCOME) steps of
                        cause # _ \<Rightarrow> finalize_row E_FAILED (error_code cause) (list_steps d1 (ex_id ex)) now ex
                      | [] \<Rightarrow> finalize_cancelled (list_steps d1 (ex_id ex)) now ex)
           in Inr (cancel_outcome ex' CM_RECONCILED, write_execution ex' (ex_status ex) now d1))"

definition cancel_requested_row :: "execution_row \<Rightarrow> time \<Rightarrow> db \<Rightarrow> execution_row \<times> db" where
  "cancel_requested_row ex now d =
     (if ex_status ex \<noteq> E_CANCEL_REQUESTED
      then (force_cancel_requested now ex, write_execution (force_cancel_requested now ex) (ex_status ex) now d)
      else (ex, d))"

definition cancel_prepared_invocation_before_send ::
    "execution_row \<Rightarrow> execution_step \<Rightarrow> step_attempt \<Rightarrow> tool_call \<Rightarrow> time \<Rightarrow> db
     \<Rightarrow> (cancellation_outcome \<times> db) result" where
  "cancel_prepared_invocation_before_send ex step a c now d =
     (let d1 = (if normalized_status c = A_STARTED
                then put_call (c\<lparr>normalized_status := A_CANCELLED, tl_finished_at := Some now\<rparr>) d else d);
          d2 = (if at_status a = A_STARTED then put_attempt (cancel_attempt now a) d1 else d1);
          d3 = put_step (cancel_step now step) d2;
          (ex', d4) = cancel_requested_row ex now d3
      in reconcile_cancel_requested_locked ex' now d4)"

definition settle_input_required_after_cancel_locked ::
    "execution_row \<Rightarrow> execution_step \<Rightarrow> step_attempt \<Rightarrow> tool_call \<Rightarrow> time \<Rightarrow> json \<Rightarrow> int option \<Rightarrow> time option \<Rightarrow> db
     \<Rightarrow> (cancellation_outcome \<times> db) result" where
  "settle_input_required_after_cancel_locked ex step a c now meta bytes first d =
     (let d1 = put_call (c\<lparr>normalized_status := A_SUCCEEDED, response_meta := meta, response_bytes := bytes,
                           first_byte_at := first, tl_finished_at := Some now\<rparr>) d;
          d2 = (if at_status a = A_STARTED then put_attempt (cancel_attempt now a) d1 else d1);
          d3 = put_step (cancel_step now step) d2;
          (ex', d4) = cancel_requested_row ex now d3
      in reconcile_cancel_requested_locked ex' now d4)"

subsection \<open>Recovery of an expired CANCEL\_REQUESTED execution\<close>

definition or_code :: "string option \<Rightarrow> string \<Rightarrow> string option" where
  "or_code code x = (case code of None \<Rightarrow> Some x | Some c \<Rightarrow> if c = [] then Some x else Some c)"

definition unknown_attempt :: "time \<Rightarrow> string option \<Rightarrow> step_attempt \<Rightarrow> step_attempt" where
  "unknown_attempt now code a =
     a\<lparr>at_status := A_UNKNOWN_OUTCOME, at_error_layer := Some ''WORKER'', at_error_code := code,
       is_retryable := Some False, at_finished_at := Some now, at_worker_id := None, at_lease_expires_at := None\<rparr>"

definition unknown_step :: "time option \<Rightarrow> string option \<Rightarrow> execution_step \<Rightarrow> execution_step" where
  "unknown_step finished code s =
     s\<lparr>status := UNKNOWN_OUTCOME, error_code := code, finished_at := finished, lock_version := lock_version s + 1\<rparr>"

definition write_step :: "execution_step \<Rightarrow> step_status \<Rightarrow> time \<Rightarrow> db \<Rightarrow> db" where
  "write_step s previous now d = emit_step_status_changed s previous now (put_step s d)"

text \<open>Case B of the code: a started tool call becomes UNKNOWN\_OUTCOME, with its attempt and its step.\<close>

definition mark_started_call_unknown :: "uuid \<Rightarrow> time \<Rightarrow> tool_call \<Rightarrow> db \<Rightarrow> db" where
  "mark_started_call_unknown eid now tc d =
     (case find (\<lambda>c. tl_id c = tl_id tc) (db_calls d) of
        None \<Rightarrow> d
      | Some c \<Rightarrow>
          if normalized_status c \<noteq> A_STARTED then d
          else let d1 = put_call (c\<lparr>normalized_status := A_UNKNOWN_OUTCOME, tl_finished_at := Some now\<rparr>) d in
            (case find (\<lambda>a. at_id a = tl_attempt_id c) (db_attempts d1) of
               None \<Rightarrow> d1
             | Some a \<Rightarrow>
                 let d2 = put_attempt (unknown_attempt now (Some ''CANCEL_RECOVERY_UNKNOWN_OUTCOME'') a) d1 in
                 (case find (\<lambda>s. st_id s = at_step_id a) (list_steps d2 eid) of
                    None \<Rightarrow> d2
                  | Some s \<Rightarrow>
                      if terminal_status (status s) then d2
                      else write_step (unknown_step (Some now) (Some ''CANCEL_RECOVERY_UNKNOWN_OUTCOME'') s)
                             (status s) now d2)))"

definition attempt_unknown_evidence :: "db \<Rightarrow> step_attempt \<Rightarrow> bool" where
  "attempt_unknown_evidence d a \<longleftrightarrow>
     \<not> inflight d a \<and>
     (at_status a = A_UNKNOWN_OUTCOME \<or>
      list_ex (\<lambda>c. normalized_status c = A_UNKNOWN_OUTCOME) (list_tool_calls d (at_id a)))"

text \<open>The scan: a started attempt with an unknown call is lifted, then the step.\<close>

definition lift_attempt :: "time \<Rightarrow> step_attempt \<Rightarrow> db \<Rightarrow> db" where
  "lift_attempt now a d =
     (if attempt_unknown_evidence d a \<and> at_status a = A_STARTED
      then put_attempt (unknown_attempt now (or_code (at_error_code a) ''CANCEL_RECOVERY_UNKNOWN_OUTCOME'') a) d
      else d)"

definition lift_step :: "time \<Rightarrow> execution_step \<Rightarrow> db \<Rightarrow> db" where
  "lift_step now s d =
     (let attempts = list_attempts d (st_id s);
          unknown = list_ex (attempt_unknown_evidence d) attempts;
          d1 = fold (lift_attempt now) attempts d
      in if \<not> unknown then d1
         else if status s = UNKNOWN_OUTCOME then d1
         else (case find (\<lambda>r. st_id r = st_id s) (db_steps d1) of
                 None \<Rightarrow> d1
               | Some r \<Rightarrow>
                   if status r = UNKNOWN_OUTCOME then d1
                   else write_step (unknown_step (case finished_at r of None \<Rightarrow> Some now | t \<Rightarrow> t)
                                      (or_code (error_code r) ''CANCEL_RECOVERY_UNKNOWN_OUTCOME'') r)
                          (status r) now d1))"

text \<open>
  The code restores the cancel metadata at the end; nothing in between writes it (proved in
  \<open>CancelRecovery\<close>).
\<close>

definition recover_expired_cancel_requested_locked ::
    "execution_row \<Rightarrow> time \<Rightarrow> db \<Rightarrow> (cancellation_outcome \<times> db) result" where
  "recover_expired_cancel_requested_locked ex now d =
     (if ex_status ex \<in> {E_CANCELLED, E_FAILED} then Inr (cancel_outcome ex CM_IDEMPOTENT, d)
      else if ex_status ex \<noteq> E_CANCEL_REQUESTED then Inl RESOURCE_CONFLICT
      else let d1 = fold (mark_started_call_unknown (ex_id ex) now) (list_started_tool_calls d (ex_id ex)) d;
               d2 = fold (lift_step now) (sort_key (\<lambda>s. uuid_str (st_id s)) (list_steps d1 (ex_id ex))) d1
           in reconcile_cancel_requested_locked ex now d2)"

subsection \<open>None of this touches the execution row\<close>

lemma fold_keeps:
  "(\<And>x d. f (h x d) = f d) \<Longrightarrow> f (fold h xs d) = f d"
  by (induction xs arbitrary: d) simp_all

lemma write_step_simps [simp]:
  "db_execution (write_step s p now d) = db_execution d" "db_calls (write_step s p now d) = db_calls d"
  "db_attempts (write_step s p now d) = db_attempts d" "db_steps (write_step s p now d) = db_steps (put_step s d)"
  by (simp_all add: write_step_def)

lemma cancel_attempts_simps [simp]:
  "db_execution (cancel_started_attempts_without_inflight_tool_call now s d) = db_execution d"
  "db_steps (cancel_started_attempts_without_inflight_tool_call now s d) = db_steps d"
  "db_calls (cancel_started_attempts_without_inflight_tool_call now s d) = db_calls d"
  unfolding cancel_started_attempts_without_inflight_tool_call_def by (rule fold_keeps; simp)+

lemma cancel_safe_step_simps [simp]:
  "db_execution (cancel_safe_step now preserve s d) = db_execution d"
  "db_calls (cancel_safe_step now preserve s d) = db_calls d"
  by (simp_all add: cancel_safe_step_def)

lemma close_open_work_simps [simp]:
  "db_execution (close_open_work eid now who preserve steps d) = db_execution d"
  "db_calls (close_open_work eid now who preserve steps d) = db_calls d"
  unfolding close_open_work_def cancel_safe_nonterminal_steps_def reject_open_mrtr_requests_def
    cancel_pending_approvals_def
  by (subst fold_keeps; simp)+

lemma mark_started_call_simps [simp]: "db_execution (mark_started_call_unknown eid now tc d) = db_execution d"
  by (simp add: mark_started_call_unknown_def Let_def split: option.split)

lemma lift_simps [simp]:
  "db_execution (lift_attempt now a d) = db_execution d" "db_steps (lift_attempt now a d) = db_steps d"
  "db_calls (lift_attempt now a d) = db_calls d"
  by (simp_all add: lift_attempt_def)

lemma fold_lift_simps [simp]:
  "db_execution (fold (lift_attempt now) as d) = db_execution d" "db_steps (fold (lift_attempt now) as d) = db_steps d"
  "db_calls (fold (lift_attempt now) as d) = db_calls d"
  by (rule fold_keeps; simp)+

lemma lift_step_simps [simp]:
  "db_execution (lift_step now s d) = db_execution d" "db_calls (lift_step now s d) = db_calls d"
  by (simp_all add: lift_step_def Let_def split: option.split)

lemma fold_recovery_simps [simp]:
  "db_execution (fold (mark_started_call_unknown eid now) cs d) = db_execution d"
  "db_execution (fold (lift_step now) ss d) = db_execution d" "db_calls (fold (lift_step now) ss d) = db_calls d"
  by (rule fold_keeps; simp)+

end
