(* ===== verification/RecoveryService.thy ===== *)
theory RecoveryService
  imports ClaimService CancelService
begin

section \<open>Recovery of an expired lease\<close>

text \<open>
  \<^verbatim>\<open>src/backend/app/execution/recovery.py\<close> for the single-TOOL foundation of an
  AgentRequest, with the lineage gate of \<^verbatim>\<open>lineage.py\<close> for a top-level TOOL step and the retry
  decision of \<^verbatim>\<open>retry_decision.py\<close>.  \<open>recover_route\<close> is the dispatch of
  \<open>recover\<close>; whole-DAG recovery is another module and a parameter.

  Parameters: \<open>vplan\<close>, \<open>vtool\<close> and the codec are pydantic (\<open>vtool\<close> validates
  \<open>ToolStepConfigV1\<close>, whose bindings are literals and secret references),
  \<open>dumpb\<close> is \<open>model_dump\<close> of a binding and \<open>tool_of\<close> looks up the tool of a ToolVersion.
  The \<open>reason\<close> of an outcome and the human-readable \<open>error_message\<close> a failure writes are
  dropped.
\<close>

subsection \<open>Retry decisions\<close>

definition is_safe_retry_risk :: "string \<Rightarrow> bool" where
  "is_safe_retry_risk r \<longleftrightarrow> r \<in> {''READ_ONLY'', ''IDEMPOTENT_WRITE''}"

definition is_unsafe_ambiguous_risk :: "string \<Rightarrow> bool" where
  "is_unsafe_ambiguous_risk r \<longleftrightarrow> r \<in> {''NON_IDEMPOTENT_WRITE'', ''DESTRUCTIVE'', ''UNKNOWN''}"

definition can_safe_retry :: "int \<Rightarrow> int \<Rightarrow> bool" where
  "can_safe_retry attempts max_attempts =
     (if max_attempts < 1 \<or> attempts < 0 then False else attempts < max_attempts)"

record mcp_client_error =
  error_layer :: string
  me_error_code :: string
  retryable :: bool
  outcome_unknown :: bool

record retry_decision =
  schedule_retry :: bool
  rd_reason :: string

definition is_normal_auto_retry_risk :: "string \<Rightarrow> bool" where
  "is_normal_auto_retry_risk r \<longleftrightarrow> r \<in> {''READ_ONLY''}"

definition pinned_tool_policy :: "json \<Rightarrow> (string, json) dict" where
  "pinned_tool_policy snapshot =
     (case snapshot of
        JObj kvs \<Rightarrow> (case map_of kvs ''tool_policy'' of Some (JObj tp) \<Rightarrow> tp | _ \<Rightarrow> [])
      | _ \<Rightarrow> [])"

definition pinned_max_attempts :: "json \<Rightarrow> int option" where
  "pinned_max_attempts snapshot =
     (case get_int (pinned_tool_policy snapshot) ''max_attempts'' of
        None \<Rightarrow> None
      | Some n \<Rightarrow> if n < 1 then None else Some n)"

definition pinned_risk_class :: "json \<Rightarrow> string option" where
  "pinned_risk_class snapshot =
     (case get_str (pinned_tool_policy snapshot) ''risk_class'' of
        None \<Rightarrow> None
      | Some r \<Rightarrow> if r = [] then None else Some r)"

definition pinned_backoff_policy :: "json \<Rightarrow> json" where
  "pinned_backoff_policy snapshot =
     (case map_of (pinned_tool_policy snapshot) ''backoff_policy'' of None \<Rightarrow> JNull | Some v \<Rightarrow> v)"

text \<open>
  The timeout is an \<open>int\<close> column.  \<open>total_seconds()\<close> is a float; the comparison with a
  whole number of seconds is exact below \<open>2^33\<close> seconds, where a float still separates
  microseconds.
\<close>

definition step_timeout_budget_exhausted :: "time option \<Rightarrow> int option \<Rightarrow> time \<Rightarrow> bool" where
  "step_timeout_budget_exhausted started timeout now =
     (case started of
        None \<Rightarrow> False
      | Some s \<Rightarrow>
          (case timeout of
             None \<Rightarrow> False
           | Some t \<Rightarrow> if t < 1 then True else now - s \<ge> t * 1000000))"

definition decide_safe_transient_retry :: "mcp_client_error option \<Rightarrow> step_status \<Rightarrow> string \<Rightarrow> int \<Rightarrow> int
    \<Rightarrow> json \<Rightarrow> time option \<Rightarrow> int option \<Rightarrow> time \<Rightarrow> retry_decision" where
  "decide_safe_transient_retry call_error classified risk attempts max_attempts backoff started timeout now =
     (case call_error of
        None \<Rightarrow> \<lparr>schedule_retry = False, rd_reason = ''NO_ERROR''\<rparr>
      | Some err \<Rightarrow>
          if classified = UNKNOWN_OUTCOME then \<lparr>schedule_retry = False, rd_reason = ''UNKNOWN_OUTCOME''\<rparr>
          else if classified = SUCCEEDED then \<lparr>schedule_retry = False, rd_reason = ''SUCCEEDED''\<rparr>
          else if \<not> retryable err then \<lparr>schedule_retry = False, rd_reason = ''NOT_RETRYABLE''\<rparr>
          else if \<not> is_normal_auto_retry_risk risk
          then \<lparr>schedule_retry = False, rd_reason = ''UNSAFE_OR_UNSUPPORTED_RISK''\<rparr>
          else if backoff \<noteq> JNull then \<lparr>schedule_retry = False, rd_reason = ''BACKOFF_POLICY_UNSUPPORTED''\<rparr>
          else if \<not> can_safe_retry attempts max_attempts
          then \<lparr>schedule_retry = False, rd_reason = ''MAX_ATTEMPTS_EXHAUSTED''\<rparr>
          else if step_timeout_budget_exhausted started timeout now
          then \<lparr>schedule_retry = False, rd_reason = ''STEP_TIMEOUT_EXHAUSTED''\<rparr>
          else \<lparr>schedule_retry = True, rd_reason = ''SAFE_RETRY''\<rparr>)"

subsection \<open>The lineage gate of a top-level TOOL step\<close>

record tool_step_lineage =
  tl_tool_version :: uuid
  tl_bindings :: "(string, plan_binding) dict"
  tl_plan :: execution_plan
  tl_plan_step :: plan_step
  agent_request_static_only :: bool

record lineage_env =
  le_vplan :: "json \<Rightarrow> execution_plan option"
  le_vtool :: "json \<Rightarrow> tool_config option"
  le_codec :: codec
  le_repr :: "rat \<Rightarrow> string"
  le_dump :: "plan_binding \<Rightarrow> json"
  le_tool_of :: "uuid \<Rightarrow> uuid option"

definition lineage_source :: "string \<Rightarrow> bool" where
  "lineage_source s \<longleftrightarrow>
     s \<in> {''AGENT_REQUEST'', ''MANUAL_TOOL_TEST'', ''WORKFLOW_VERSION'', ''SCHEDULE_OCCURRENCE''}"

text \<open>The part of \<open>assert_tool_step_lineage\<close> before it looks at the step.\<close>

definition assert_plan_head :: "lineage_env \<Rightarrow> execution_row \<Rightarrow> execution_plan result" where
  "assert_plan_head E ex =
     (if \<not> lineage_source (source_type ex) then Inl RESOURCE_CONFLICT
      else and_then (opt_or (le_vplan E (plan_snapshot ex)) RESOURCE_CONFLICT) (\<lambda>plan.
        if plan_schema_version ex \<noteq> ''1.0'' then Inl RESOURCE_CONFLICT
        else if compute_plan_hash (le_repr E) (plan_snapshot ex) \<noteq> plan_hash ex then Inl RESOURCE_CONFLICT
        else if plan_steps plan = [] then Inl RESOURCE_CONFLICT
        else Inr plan))"

fun sequential_binding :: "plan_binding \<Rightarrow> bool" where
  "sequential_binding (PlanStepOutputBinding _ _) = True"
| "sequential_binding (PlanLiteralBinding _) = True"
| "sequential_binding _ = False"

definition complex_lineage :: "lineage_env \<Rightarrow> execution_step \<Rightarrow> execution_plan \<Rightarrow> plan_step \<Rightarrow> plan_step
    \<Rightarrow> tool_step_lineage result" where
  "complex_lineage E step plan ps expected =
     and_then (opt_or (validate_tool_config (le_codec E) (ps_config expected)) RESOURCE_CONFLICT) (\<lambda>cfg.
       if mcp_tool_version_id step \<noteq> Some (tc_tool_version_id cfg) then Inl RESOURCE_CONFLICT
       else Inr \<lparr>tl_tool_version = tc_tool_version_id cfg, tl_bindings = tc_bindings cfg, tl_plan = plan,
                 tl_plan_step = ps, agent_request_static_only = False\<rparr>)"

definition assert_top_level_tool_step_lineage ::
    "lineage_env \<Rightarrow> execution_row \<Rightarrow> execution_step \<Rightarrow> execution_plan \<Rightarrow> tool_step_lineage result" where
  "assert_top_level_tool_step_lineage E ex step plan =
     (if st_type step \<noteq> TOOL \<or> mcp_tool_version_id step = None \<or> parent_step_id step \<noteq> None
      then Inl RESOURCE_CONFLICT
      else and_then (opt_or (validate_plan_step (le_codec E) (step_snapshot step)) RESOURCE_CONFLICT) (\<lambda>ps.
        and_then (opt_or (find (\<lambda>p. ps_id p = step_key step) (plan_steps plan)) RESOURCE_CONFLICT) (\<lambda>expected.
          if \<not> py_eq (dump_plan_step (le_codec E) expected) (step_snapshot step) then Inl RESOURCE_CONFLICT
          else if ps_id ps \<noteq> step_key step \<or> ps_id ps \<noteq> ps_id expected \<or> ps_type ps \<noteq> TOOL
          then Inl RESOURCE_CONFLICT
          else if source_type ex = ''AGENT_REQUEST'' \<or> is_agent_schedule_occurrence ex then
            (case le_vtool E (ps_config expected) of
               Some cfg \<Rightarrow>
                 if mcp_tool_version_id step \<noteq> Some (tc_tool_version_id cfg) then Inl RESOURCE_CONFLICT
                 else Inr \<lparr>tl_tool_version = tc_tool_version_id cfg, tl_bindings = tc_bindings cfg,
                           tl_plan = plan, tl_plan_step = ps, agent_request_static_only = True\<rparr>
             | None \<Rightarrow>
                 if length (plan_steps plan) \<noteq> 2 then Inl RESOURCE_CONFLICT
                 else and_then (complex_lineage E step plan ps expected) (\<lambda>l.
                   if \<not> list_all sequential_binding (dict_values (tl_bindings l)) then Inl RESOURCE_CONFLICT
                   else Inr l))
          else complex_lineage E step plan ps expected)))"

definition build_secret_safe_request_snapshot ::
    "lineage_env \<Rightarrow> uuid \<Rightarrow> string \<Rightarrow> (string, plan_binding) dict \<Rightarrow> json \<Rightarrow> json result" where
  "build_secret_safe_request_snapshot E tv key bindings resolved =
     and_then
       (mapE (\<lambda>(k, b).
          (case le_dump E b of
             JObj kvs \<Rightarrow> if map_of kvs ''kind'' = None then Inl PRECONDITION_FAILED else Inr (k, JObj kvs)
           | _ \<Rightarrow> Inl PRECONDITION_FAILED)) bindings)
       (\<lambda>safe.
         Inr (JObj [(''tool_version_id'', JStr (uuid_str tv)), (''step_key'', JStr key),
                    (''bindings'', JObj safe), (''resolved_input'', resolved)]))"

text \<open>A resolution with \<open>missing_ok=False\<close> has no MISSING value, see \<open>resolved_input_complete\<close>.\<close>

fun found_json :: "pointed \<Rightarrow> json" where
  "found_json (Found v) = v"
| "found_json Missing = JNull"

definition assert_started_attempt_replay_lineage :: "lineage_env \<Rightarrow> execution_row \<Rightarrow> execution_step
    \<Rightarrow> step_attempt \<Rightarrow> tool_step_lineage \<Rightarrow> execution_step list \<Rightarrow> string option \<Rightarrow> unit result" where
  "assert_started_attempt_replay_lineage E ex step attempt lineage steps worker =
     (if at_status attempt \<noteq> A_STARTED then Inl RESOURCE_CONFLICT
      else if at_step_id attempt \<noteq> st_id step then Inl RESOURCE_CONFLICT
      else if attempt_no attempt \<noteq> attempt_count step then Inl RESOURCE_CONFLICT
      else if (case worker of None \<Rightarrow> False | Some w \<Rightarrow> at_worker_id attempt \<noteq> Some w) then Inl RESOURCE_CONFLICT
      else and_then (resolve (le_codec E) (le_repr E) (execution.truncate ex) step steps (tl_bindings lineage)
                       (tl_plan lineage)) (\<lambda>resolved.
        let expected = JObj (map (\<lambda>(k, p). (k, found_json p)) resolved) in
        if \<not> py_eq (resolved_input step) expected then Inl RESOURCE_CONFLICT
        else and_then (build_secret_safe_request_snapshot E (tl_tool_version lineage) (step_key step)
                         (tl_bindings lineage) expected) (\<lambda>req.
          if \<not> py_eq (request_snapshot attempt) req then Inl RESOURCE_CONFLICT else Inr ())))"

text \<open>\<open>assert_resume_attempt_lineage\<close> for a step without parent.\<close>

definition assert_resume_attempt_lineage :: "lineage_env \<Rightarrow> execution_row \<Rightarrow> execution_step \<Rightarrow> step_attempt
    \<Rightarrow> execution_step list \<Rightarrow> string option \<Rightarrow> tool_step_lineage result" where
  "assert_resume_attempt_lineage E ex step attempt steps worker =
     and_then (assert_plan_head E ex) (\<lambda>plan.
     and_then (assert_top_level_tool_step_lineage E ex step plan) (\<lambda>lineage.
     and_then (assert_started_attempt_replay_lineage E ex step attempt lineage steps worker) (\<lambda>_.
       Inr lineage)))"

subsection \<open>The decision\<close>

datatype recovery_decision =
    NO_OP | TAKEOVER_READY | RESUME_ATTEMPT | SAFE_RETRY | FAIL_EXHAUSTED | DECIDE_UNKNOWN_OUTCOME
  | FAIL_INCONSISTENT | CANCEL_RECONCILED

record recovery_outcome =
  ro_decision :: recovery_decision
  taken_over :: bool
  invoke_runner :: bool
  ro_worker_id :: "string option"
  ro_lease_token :: "uuid option"

definition risk_class_valid :: "string \<Rightarrow> bool" where
  "risk_class_valid r \<longleftrightarrow>
     r \<in> {''READ_ONLY'', ''IDEMPOTENT_WRITE'', ''NON_IDEMPOTENT_WRITE'', ''DESTRUCTIVE'', ''UNKNOWN''}"

definition load_risk_and_attempts :: "lineage_env \<Rightarrow> execution_row \<Rightarrow> execution_step \<Rightarrow> (string \<times> int) result" where
  "load_risk_and_attempts E ex step =
     (case policy_snapshot ex of
        JObj snapshot \<Rightarrow>
          (case map_of snapshot ''tool_policy'' of
             Some (JObj tp) \<Rightarrow>
               (case get_str tp ''risk_class'' of
                  None \<Rightarrow> Inl RESOURCE_CONFLICT
                | Some risk \<Rightarrow>
                    if \<not> risk_class_valid risk then Inl RESOURCE_CONFLICT
                    else (case get_int tp ''max_attempts'' of
                      None \<Rightarrow> Inl RESOURCE_CONFLICT
                    | Some n \<Rightarrow>
                        if n < 1 then Inl RESOURCE_CONFLICT
                        else (case get_str tp ''mcp_tool_id'' of
                          None \<Rightarrow> Inl RESOURCE_CONFLICT
                        | Some tool_id \<Rightarrow>
                            if tool_id = [] then Inl RESOURCE_CONFLICT
                            else (case mcp_tool_version_id step of
                              None \<Rightarrow> Inl RESOURCE_CONFLICT
                            | Some tv \<Rightarrow>
                                (case le_tool_of E tv of
                                   None \<Rightarrow> Inl RESOURCE_CONFLICT
                                 | Some tool \<Rightarrow>
                                     if uuid_str tool \<noteq> tool_id then Inl RESOURCE_CONFLICT
                                     else Inr (risk, n))))))
           | _ \<Rightarrow> Inl RESOURCE_CONFLICT)
      | _ \<Rightarrow> Inl RESOURCE_CONFLICT)"

definition ready_attempt_ok :: "db \<Rightarrow> execution_step \<Rightarrow> step_attempt \<Rightarrow> unit result" where
  "ready_attempt_ok d step a =
     (if at_status a = A_STARTED then Inl RESOURCE_CONFLICT
      else if at_step_id a \<noteq> st_id step then Inl RESOURCE_CONFLICT
      else raise_if (list_ex (\<lambda>c. normalized_status c = A_STARTED) (list_tool_calls d (at_id a))) RESOURCE_CONFLICT)"

definition decide_ready_checkpoint ::
    "lineage_env \<Rightarrow> execution_row \<Rightarrow> execution_step \<Rightarrow> db \<Rightarrow> recovery_decision result" where
  "decide_ready_checkpoint E ex step d =
     (let attempts = list_attempts d (st_id step) in
      if list_ex (\<lambda>a. at_status a = A_STARTED) attempts then Inl RESOURCE_CONFLICT
      else and_then (eachE (ready_attempt_ok d step) attempts) (\<lambda>_.
        if attempts = [] then
          if attempt_count step \<noteq> 0 then Inl RESOURCE_CONFLICT else Inr TAKEOVER_READY
        else let nos = sort (map attempt_no attempts) in
          if nos \<noteq> [1..int (length nos)] then Inl RESOURCE_CONFLICT
          else if attempt_count step \<noteq> last nos \<or> attempt_count step \<noteq> int (length attempts)
          then Inl RESOURCE_CONFLICT
          else and_then (load_risk_and_attempts E ex step) (\<lambda>(risk, n).
            if can_safe_retry (attempt_count step) n then Inr TAKEOVER_READY else Inl RESOURCE_CONFLICT)))"

definition decide_started_call :: "lineage_env \<Rightarrow> execution_row \<Rightarrow> execution_step \<Rightarrow> step_attempt \<Rightarrow> tool_call
    \<Rightarrow> recovery_decision result" where
  "decide_started_call E ex step attempt call =
     (if tl_attempt_id call \<noteq> at_id attempt then Inl RESOURCE_CONFLICT
      else case mcp_tool_version_id step of
        None \<Rightarrow> Inl RESOURCE_CONFLICT
      | Some tv \<Rightarrow>
          if tl_tool_version_id call \<noteq> tv then Inl RESOURCE_CONFLICT
          else and_then (load_risk_and_attempts E ex step) (\<lambda>(risk, n).
            if is_unsafe_ambiguous_risk risk then Inr DECIDE_UNKNOWN_OUTCOME
            else if is_safe_retry_risk risk then
              Inr (if can_safe_retry (attempt_count step) n then SAFE_RETRY else FAIL_EXHAUSTED)
            else Inl RESOURCE_CONFLICT))"

definition decide :: "lineage_env \<Rightarrow> execution_row \<Rightarrow> execution_step \<Rightarrow> db \<Rightarrow> recovery_decision result" where
  "decide E ex step d =
     (if status step = READY then decide_ready_checkpoint E ex step d
      else if status step \<noteq> RUNNING then Inl RESOURCE_CONFLICT
      else case filter (\<lambda>a. at_status a = A_STARTED) (list_attempts d (st_id step)) of
        [attempt] \<Rightarrow>
          if at_step_id attempt \<noteq> st_id step then Inl RESOURCE_CONFLICT
          else let calls = list_tool_calls d (at_id attempt);
                   started_calls = filter (\<lambda>c. normalized_status c = A_STARTED) calls;
                   terminal_calls = filter (\<lambda>c. normalized_status c \<noteq> A_STARTED) calls
               in if terminal_calls \<noteq> [] then Inl RESOURCE_CONFLICT
                  else (case started_calls of
                    [] \<Rightarrow>
                      if calls \<noteq> [] then Inl RESOURCE_CONFLICT
                      else and_then (assert_resume_attempt_lineage E ex step attempt (list_steps d (ex_id ex)) None)
                             (\<lambda>_. Inr RESUME_ATTEMPT)
                  | [call] \<Rightarrow> decide_started_call E ex step attempt call
                  | _ \<Rightarrow> Inl RESOURCE_CONFLICT)
      | _ \<Rightarrow> Inl RESOURCE_CONFLICT)"

definition lock_foundation_step :: "execution_row \<Rightarrow> db \<Rightarrow> execution_step result" where
  "lock_foundation_step ex d =
     (case list_steps d (ex_id ex) of
        [step] \<Rightarrow>
          if source_type ex \<noteq> ''AGENT_REQUEST'' then Inl RESOURCE_CONFLICT
          else if step_key step \<noteq> ''tool_1'' \<or> st_type step \<noteq> TOOL \<or> parent_step_id step \<noteq> None
                  \<or> mcp_tool_version_id step = None
          then Inl RESOURCE_CONFLICT
          else Inr step
      | _ \<Rightarrow> Inl RESOURCE_CONFLICT)"

subsection \<open>What recovery writes\<close>

definition require_single_started_attempt :: "db \<Rightarrow> execution_step \<Rightarrow> step_attempt result" where
  "require_single_started_attempt d step =
     (case filter (\<lambda>a. at_status a = A_STARTED) (list_attempts d (st_id step)) of
        [a] \<Rightarrow> Inr a | _ \<Rightarrow> Inl RESOURCE_CONFLICT)"

definition require_started_tool_call :: "db \<Rightarrow> step_attempt \<Rightarrow> tool_call result" where
  "require_started_tool_call d a =
     (case filter (\<lambda>c. normalized_status c = A_STARTED) (list_tool_calls d (at_id a)) of
        [c] \<Rightarrow> Inr c | _ \<Rightarrow> Inl RESOURCE_CONFLICT)"

definition terminalize_orphan_attempt_tool_call ::
    "step_attempt \<Rightarrow> tool_call \<Rightarrow> time \<Rightarrow> attempt_status \<Rightarrow> bool \<Rightarrow> db \<Rightarrow> db" where
  "terminalize_orphan_attempt_tool_call a c now terminal is_retry d =
     put_attempt (a\<lparr>at_status := terminal, at_error_layer := Some ''WORKER'',
                    at_error_code := Some ''WORKER_LEASE_EXPIRED'', is_retryable := Some is_retry,
                    at_finished_at := Some now\<rparr>)
       (put_call (c\<lparr>normalized_status := terminal, tl_finished_at := Some now\<rparr>) d)"

definition fail_row :: "string \<Rightarrow> time \<Rightarrow> execution_row \<Rightarrow> execution_row" where
  "fail_row code now ex =
     (clear_lease (ex\<lparr>ex_status := E_FAILED, ex_error_code := Some code, ex_finished_at := Some now\<rparr>))
       \<lparr>ex_lock_version := ex_lock_version ex + 1\<rparr>"

definition fail_step :: "step_status \<Rightarrow> string \<Rightarrow> time \<Rightarrow> execution_step \<Rightarrow> execution_step" where
  "fail_step st code now s =
     s\<lparr>status := st, error_code := Some code, finished_at := Some now, lock_version := lock_version s + 1\<rparr>"

definition fail_execution_step :: "execution_row \<Rightarrow> execution_step \<Rightarrow> time \<Rightarrow> string \<Rightarrow> db \<Rightarrow> db" where
  "fail_execution_step ex step now code d =
     (let step' = fail_step FAILED code now step; ex' = fail_row code now ex in
      emit_execution_status_changed ex' (ex_status ex) now
        (emit_step_status_changed step' (status step) now
          (put_execution ex' (put_step step' d))))"

text \<open>The first loop of \<open>_fail_inconsistent\<close>: attempts and calls that may have had an effect.\<close>

definition started_pairs :: "db \<Rightarrow> execution_step list \<Rightarrow> (step_attempt \<times> tool_call) list" where
  "started_pairs d steps =
     concat (map (\<lambda>s. concat (map (\<lambda>a.
       map (\<lambda>c. (a, c)) (filter (\<lambda>c. normalized_status c = A_STARTED) (list_tool_calls d (at_id a))))
       (list_attempts d (st_id s)))) steps)"

definition mark_pair_unknown :: "time \<Rightarrow> step_attempt \<times> tool_call \<Rightarrow> db \<Rightarrow> db" where
  "mark_pair_unknown now pair d =
     (let d1 = (case find (\<lambda>a. at_id a = at_id (fst pair)) (db_attempts d) of
                  None \<Rightarrow> d
                | Some a \<Rightarrow>
                    put_attempt (a\<lparr>at_status := A_UNKNOWN_OUTCOME, at_error_layer := Some ''WORKER'',
                                   at_error_code := Some ''RECOVERY_INCONSISTENT_EVIDENCE'',
                                   is_retryable := Some False,
                                   at_finished_at := (case at_finished_at a of None \<Rightarrow> Some now | t \<Rightarrow> t)\<rparr>) d)
      in case find (\<lambda>c. tl_id c = tl_id (snd pair)) (db_calls d1) of
           None \<Rightarrow> d1
         | Some c \<Rightarrow> put_call (c\<lparr>normalized_status := A_UNKNOWN_OUTCOME, tl_finished_at := Some now\<rparr>) d1)"

definition get_started_attempt :: "db \<Rightarrow> uuid \<Rightarrow> step_attempt option" where
  "get_started_attempt d sid =
     (case rev (filter (\<lambda>a. at_status a = A_STARTED) (list_attempts d sid)) of [] \<Rightarrow> None | a # _ \<Rightarrow> Some a)"

definition terminalize_inconsistent_step :: "bool \<Rightarrow> time \<Rightarrow> execution_step \<Rightarrow> db \<Rightarrow> db" where
  "terminalize_inconsistent_step ambiguous now s d =
     (case find (\<lambda>r. st_id r = st_id s) (db_steps d) of
        None \<Rightarrow> d
      | Some r \<Rightarrow>
          if terminal_status (status s) \<or> terminal_status (status r) then d
          else let d1 = put_step (fail_step (if ambiguous then UNKNOWN_OUTCOME else FAILED)
                                    ''RECOVERY_INCONSISTENT_EVIDENCE'' now r) d
               in if ambiguous then d1
                  else (case get_started_attempt d1 (st_id r) of
                          None \<Rightarrow> d1
                        | Some a \<Rightarrow>
                            put_attempt (a\<lparr>at_status := A_FAILED, at_error_layer := Some ''WORKER'',
                                           at_error_code := Some ''RECOVERY_INCONSISTENT_EVIDENCE'',
                                           is_retryable := Some False, at_finished_at := Some now\<rparr>) d1))"

definition fail_inconsistent :: "execution_row \<Rightarrow> time \<Rightarrow> db \<Rightarrow> db" where
  "fail_inconsistent ex now d =
     (let steps = list_steps d (ex_id ex);
          pairs = started_pairs d steps;
          d1 = fold (mark_pair_unknown now) pairs d;
          d2 = fold (terminalize_inconsistent_step (pairs \<noteq> []) now) steps d1;
          ex' = fail_row ''RECOVERY_INCONSISTENT_EVIDENCE'' now ex
      in emit_execution_status_changed ex' (ex_status ex) now (put_execution ex' d2))"

subsection \<open>\<open>recover\<close>\<close>

datatype recovery_route = Route_NoOp | Route_Cancel | Route_Workflow | Route_Foundation

definition recover_route :: "execution_row \<Rightarrow> time \<Rightarrow> recovery_route" where
  "recover_route ex ts =
     (if ex_status ex = E_CANCEL_REQUESTED then Route_Cancel
      else if ex_status ex \<noteq> E_RUNNING then Route_NoOp
      else if (case lease_expires_at ex of None \<Rightarrow> True | Some t \<Rightarrow> t > ts) then Route_NoOp
      else if source_type ex \<in> {''WORKFLOW_VERSION'', ''SCHEDULE_OCCURRENCE''} \<and> \<not> is_agent_schedule_occurrence ex
      then Route_Workflow
      else if source_type ex \<noteq> ''AGENT_REQUEST'' \<and> \<not> is_agent_schedule_occurrence ex then Route_NoOp
      else Route_Foundation)"

definition retry_ready_step :: "execution_step \<Rightarrow> execution_step" where
  "retry_ready_step s =
     s\<lparr>status := READY, error_code := None, error_message := None, finished_at := None,
       lock_version := lock_version s + 1\<rparr>"

definition keep_lease :: "recovery_decision \<Rightarrow> string \<Rightarrow> uuid \<Rightarrow> recovery_outcome" where
  "keep_lease dec worker token =
     \<lparr>ro_decision = dec, taken_over = True, invoke_runner = True, ro_worker_id = Some worker,
      ro_lease_token = Some token\<rparr>"

definition drop_lease :: "recovery_decision \<Rightarrow> recovery_outcome" where
  "drop_lease dec =
     \<lparr>ro_decision = dec, taken_over = True, invoke_runner = False, ro_worker_id = None, ro_lease_token = None\<rparr>"

text \<open>The branches after the decision; \<open>ex\<close> is the row with the new lease already assigned.\<close>

definition apply_decision :: "execution_row \<Rightarrow> execution_step \<Rightarrow> recovery_decision \<Rightarrow> string \<Rightarrow> uuid \<Rightarrow> time
    \<Rightarrow> db \<Rightarrow> (recovery_outcome \<times> db) result" where
  "apply_decision ex step dec worker token ts d =
     (case dec of
        TAKEOVER_READY \<Rightarrow> Inr (keep_lease dec worker token, put_execution ex d)
      | RESUME_ATTEMPT \<Rightarrow>
          and_then (require_single_started_attempt d step) (\<lambda>a.
            Inr (keep_lease dec worker token,
                 put_attempt (a\<lparr>at_worker_id := Some worker, at_lease_expires_at := lease_expires_at ex\<rparr>)
                   (put_execution ex d)))
      | SAFE_RETRY \<Rightarrow>
          and_then (require_single_started_attempt d step) (\<lambda>a.
          and_then (require_started_tool_call d a) (\<lambda>c.
            let step' = retry_ready_step step in
            Inr (keep_lease dec worker token,
                 emit_step_status_changed step' (status step) ts
                   (put_step step' (terminalize_orphan_attempt_tool_call a c ts A_FAILED True (put_execution ex d))))))
      | FAIL_EXHAUSTED \<Rightarrow>
          and_then (require_single_started_attempt d step) (\<lambda>a.
          and_then (require_started_tool_call d a) (\<lambda>c.
            Inr (drop_lease dec,
                 fail_execution_step ex step ts ''WORKER_LEASE_EXPIRED''
                   (terminalize_orphan_attempt_tool_call a c ts A_FAILED False (put_execution ex d)))))
      | DECIDE_UNKNOWN_OUTCOME \<Rightarrow>
          and_then (require_single_started_attempt d step) (\<lambda>a.
          and_then (require_started_tool_call d a) (\<lambda>c.
            let step' = fail_step UNKNOWN_OUTCOME ''WORKER_LEASE_EXPIRED'' ts step;
                ex' = fail_row ''WORKER_LEASE_EXPIRED'' ts ex in
            Inr (drop_lease dec,
                 emit_execution_status_changed ex' (ex_status ex) ts
                   (put_execution ex' (emit_step_status_changed step' (status step) ts
                     (put_step step'
                       (terminalize_orphan_attempt_tool_call a c ts A_UNKNOWN_OUTCOME False (put_execution ex d))))))))
      | _ \<Rightarrow> Inl RESOURCE_CONFLICT)"

text \<open>The foundation path: \<open>except AppError\<close> re-raises every code but RESOURCE\_CONFLICT.\<close>

definition recover_foundation :: "lineage_env \<Rightarrow> int \<Rightarrow> execution_row \<Rightarrow> string \<Rightarrow> uuid \<Rightarrow> time \<Rightarrow> db
    \<Rightarrow> (recovery_outcome \<times> db) result" where
  "recover_foundation E lease ex worker token ts d =
     (let leased = assign_lease lease worker token ts ex in
      case and_then (lock_foundation_step ex d) (\<lambda>step.
             and_then (decide E ex step d) (\<lambda>dec. Inr (step, dec))) of
        Inr (step, dec) \<Rightarrow> apply_decision leased step dec worker token ts d
      | Inl (AppError code st) \<Rightarrow>
          if code \<noteq> ''RESOURCE_CONFLICT'' then Inl (AppError code st)
          else Inr (drop_lease FAIL_INCONSISTENT, fail_inconsistent leased ts d)
      | Inl e \<Rightarrow> Inl e)"

text \<open>
  \<open>recover\<close>.  \<open>rm_workflow\<close> is the \<open>recover\<close> of
  \<^verbatim>\<open>workflow_dag_recovery.py\<close>, to which this one hands workflow executions over.
\<close>

record recovery_modules =
  rm_workflow :: "execution_row \<Rightarrow> string \<Rightarrow> uuid \<Rightarrow> time \<Rightarrow> db \<Rightarrow> (recovery_outcome \<times> db) result"

definition plan_has_loop :: "execution_plan \<Rightarrow> bool" where
  "plan_has_loop plan = list_ex (\<lambda>s. ps_type s = LOOP) (plan_steps plan)"

text \<open>Every step type but LOOP is in \<open>_NON_LOOP_STEP_TYPES\<close>.\<close>

definition plan_supports_flat_loop_running_recovery :: "codec \<Rightarrow> execution_plan \<Rightarrow> bool result" where
  "plan_supports_flat_loop_running_recovery C plan =
     (if \<not> plan_has_loop plan then Inr False
      else case assert_flat_foreach_runtime_compatible C plan of
        Inr _ \<Rightarrow> Inr True
      | Inl (AppError code st) \<Rightarrow> Inr False
      | Inl e \<Rightarrow> Inl e)"

definition plan_supports_workflow_running_recovery ::
    "(json \<Rightarrow> execution_plan option) \<Rightarrow> codec \<Rightarrow> json \<Rightarrow> bool result" where
  "plan_supports_workflow_running_recovery vplan C snapshot =
     (case vplan snapshot of
        None \<Rightarrow> Inr False
      | Some plan \<Rightarrow>
          if plan_has_loop plan then plan_supports_flat_loop_running_recovery C plan
          else Inr (list_all (\<lambda>s. ps_type s \<in> {TOOL, CONDITION, JOIN, APPROVAL}) (plan_steps plan)))"

definition no_op :: recovery_outcome where
  "no_op = \<lparr>ro_decision = NO_OP, taken_over = False, invoke_runner = False, ro_worker_id = None,
            ro_lease_token = None\<rparr>"

definition recover_cancel_requested ::
    "execution_row \<Rightarrow> time \<Rightarrow> db \<Rightarrow> (recovery_outcome \<times> db) result" where
  "recover_cancel_requested ex now d =
     (if (case lease_expires_at ex of None \<Rightarrow> True | Some t \<Rightarrow> t > now) then Inr (no_op, d)
      else if source_type ex \<notin> {''AGENT_REQUEST'', ''WORKFLOW_VERSION'', ''SCHEDULE_OCCURRENCE''} then Inr (no_op, d)
      else and_then (recover_expired_cancel_requested_locked ex now d) (\<lambda>(out, d').
             Inr (drop_lease CANCEL_RECONCILED, d')))"

definition recover_workflow_dag :: "lineage_env \<Rightarrow> recovery_modules \<Rightarrow> execution_row \<Rightarrow> string \<Rightarrow> uuid \<Rightarrow> time
    \<Rightarrow> db \<Rightarrow> (recovery_outcome \<times> db) result" where
  "recover_workflow_dag E M ex worker token now d =
     and_then (plan_supports_workflow_running_recovery (le_vplan E) (le_codec E) (plan_snapshot ex)) (\<lambda>ok.
       if \<not> ok then Inr (no_op, d) else rm_workflow M ex worker token now d)"

definition recover :: "lineage_env \<Rightarrow> recovery_modules \<Rightarrow> int \<Rightarrow> uuid \<Rightarrow> string \<Rightarrow> uuid \<Rightarrow> time \<Rightarrow> db
    \<Rightarrow> (recovery_outcome \<times> db) result" where
  "recover E M lease eid w token ts d =
     and_then (normalize_worker_id w) (\<lambda>worker.
       case find (\<lambda>ex. ex_id ex = eid) (case db_execution d of None \<Rightarrow> [] | Some ex \<Rightarrow> [ex]) of
         None \<Rightarrow> Inr (no_op, d)
       | Some ex \<Rightarrow>
           (case recover_route ex ts of
              Route_NoOp \<Rightarrow> Inr (no_op, d)
            | Route_Cancel \<Rightarrow> recover_cancel_requested ex ts d
            | Route_Workflow \<Rightarrow> recover_workflow_dag E M ex worker token ts d
            | Route_Foundation \<Rightarrow> recover_foundation E lease ex worker token ts d))"

end
