(* ===== verification/DagCorrectness.thy ===== *)
theory DagCorrectness
  imports RuntimeDag
begin

section \<open>Correctness of the runtime DAG\<close>

text \<open>
  What the check of \<^verbatim>\<open>src/backend/app/execution/dag.py\<close> guarantees about an execution it
  accepts: the tables list the same edges, the schedule is a topological order, LOOP iterations are
  complete and consecutive, and the eligibility questions can always be answered.
\<close>

subsection \<open>The two tables list the same edges\<close>

definition graph_ok :: "graph \<Rightarrow> bool" where
  "graph_ok g \<longleftrightarrow> distinct (dict_keys (fst g)) \<and>
     (\<forall>k. set (dict_get (snd g) k []) \<subseteq> fst ` set (fst g)) \<and>
     (\<forall>k. \<forall>n \<in> fst ` set (fst g).
        count_list (dict_get (snd g) k []) n = count_list (dict_get (fst g) n []) k)"

lemma dict_get_appends:
  "dict_get (fold (\<lambda>d. dict_append d key) ds D) k [] = dict_get D k [] @ replicate (count_list ds k) key"
  by (induction ds arbitrary: D) (auto simp: replicate_append_same)

lemma count_list_replicate: "count_list (replicate m x) y = (if x = y then m else 0)"
  by (induction m) auto

lemma graph_ok_Nil [simp]: "graph_ok ([], [])"
  by (simp add: graph_ok_def dict_get_def)

lemma keys_add_node [simp]: "fst ` set (fst (add_node key ds g)) = insert key (fst ` set (fst g))"
  by (simp add: add_node_def)

lemma dict_get_add_node [simp]:
  "dict_get (fst (add_node key ds g)) n [] = (if n = key then ds else dict_get (fst g) n [])"
  by (simp add: add_node_def)

lemma graph_ok_add_node:
  assumes "graph_ok g" and "key \<notin> fst ` set (fst g)"
  shows "graph_ok (add_node key ds g)"
proof -
  have old: "set (dict_get (snd g) k []) \<subseteq> fst ` set (fst g)"
      "n \<in> fst ` set (fst g) \<Longrightarrow> count_list (dict_get (snd g) k []) n = count_list (dict_get (fst g) n []) k" for k n
    using assms(1) unfolding graph_ok_def by blast+
  have new: "dict_get (snd (add_node key ds g)) k [] = dict_get (snd g) k [] @ replicate (count_list ds k) key" for k
    by (simp add: add_node_def dict_get_appends)
  have zero: "count_list (dict_get (snd g) k []) key = 0" for k
    using old(1) assms(2) by (intro count_notin) blast
  have "count_list (dict_get (snd (add_node key ds g)) k []) n
      = count_list (dict_get (fst (add_node key ds g)) n []) k" if "n \<in> insert key (fst ` set (fst g))" for k n
    using that old(2) zero assms(2) by (auto simp: new count_list_replicate)
  moreover have "set (dict_get (snd (add_node key ds g)) k []) \<subseteq> insert key (fst ` set (fst g))" for k
    using old(1) by (auto simp: new)
  moreover have "distinct (dict_keys (fst (add_node key ds g)))"
    using assms(1) by (simp add: graph_ok_def add_node_def)
  ultimately show ?thesis
    unfolding graph_ok_def keys_add_node by blast
qed

lemma dict_get_defaults [simp]: "dict_get (fold dict_default ks D) k [] = dict_get D k []"
  by (induction ks arbitrary: D) auto

lemma map_of_defaults:
  "map_of (fold dict_default ks D) k =
     (if k \<in> set ks then Some (dict_get D k []) else map_of D k)"
proof (induction ks arbitrary: D)
  case (Cons a ks)
  then show ?case
    by (auto simp: dict_get_def split: option.splits)
qed simp

lemma graph_ok_tables:
  assumes "graph_ok g"
  shows "kahn_tables (fst g) (fold dict_default (dict_keys (fst g)) (snd g))"
  using assms unfolding graph_ok_def kahn_tables_def by (auto simp: map_of_defaults)

subsection \<open>What the two loops establish\<close>

lemma foldE_each:
  "foldE f xs s = Inr s' \<Longrightarrow> x \<in> set xs \<Longrightarrow> \<exists>t t'. f x t = Inr t'"
proof (induction xs arbitrary: s)
  case (Cons y ys)
  then show ?case
    by (cases "x = y") auto
qed simp

lemma top_stepD:
  assumes "dag_top_step C l by_key ids ps g = Inr g'"
  shows "\<exists>step. map_of by_key (ps_id ps) = Some step \<and> is_toplevel step \<and>
      assert_exact_plan_projection C ps step = Inr () \<and>
      validate_typed_config C ps step (ps_depends_on ps) l = Inr ()"
    and "distinct (ps_depends_on ps)" and "set (ps_depends_on ps) \<subseteq> set ids"
    and "g' = add_node (ps_id ps) (ps_depends_on ps) g"
  using assms by (auto simp: dag_top_step_def is_toplevel_def intro: card_distinct)

lemma child_stepD:
  assumes "dag_child_step C by_id own parents child g = Inr g'"
  shows "\<exists>n pid parent expected ds. iteration_no child = Some n \<and> 1 \<le> n \<and> parent_step_id child = Some pid \<and>
      map_of parents pid = Some parent \<and> st_type parent = LOOP \<and>
      child_template C by_id own parent n child = Inr (expected, ds) \<and>
      g' = add_node (step_key child) ds g"
  using assms by (auto simp: dag_child_step_def split: option.splits if_splits prod.splits)

lemma top_loop_graph:
  assumes "foldE (dag_top_step C l by_key ids) tops ([], []) = Inr g" and "distinct (map ps_id tops)"
  shows "graph_ok g \<and> fst ` set (fst g) = ps_id ` set tops \<and>
    (\<forall>ps \<in> set tops. dict_get (fst g) (ps_id ps) [] = ps_depends_on ps)"
proof -
  let ?I = "\<lambda>(xs :: plan_step list) g. distinct (map ps_id xs) \<longrightarrow> graph_ok g \<and> fst ` set (fst g) = ps_id ` set xs \<and>
    (\<forall>ps \<in> set xs. dict_get (fst g) (ps_id ps) [] = ps_depends_on ps)"
  have "?I tops g"
  proof (rule foldE_invariant [OF assms(1)])
    fix xs x s t
    assume I: "?I xs s" and step: "dag_top_step C l by_key ids x s = Inr t"
    show "?I (xs @ [x]) t"
    proof
      assume "distinct (map ps_id (xs @ [x]))"
      with I have s: "graph_ok s" "fst ` set (fst s) = ps_id ` set xs"
          "\<forall>ps \<in> set xs. dict_get (fst s) (ps_id ps) [] = ps_depends_on ps" and x: "ps_id x \<notin> ps_id ` set xs"
        by auto
      with graph_ok_add_node [OF s(1)] top_stepD(4) [OF step]
      show "graph_ok t \<and> fst ` set (fst t) = ps_id ` set (xs @ [x]) \<and>
          (\<forall>ps \<in> set (xs @ [x]). dict_get (fst t) (ps_id ps) [] = ps_depends_on ps)"
        by (auto simp: image_iff)
    qed
  qed simp
  with assms(2) show ?thesis
    by blast
qed

lemma child_loop_graph:
  assumes "foldE (dag_child_step C by_id own parents) rows g0 = Inr g" and "distinct (map step_key rows)"
    and "graph_ok g0" and "step_key ` set rows \<inter> fst ` set (fst g0) = {}"
  shows "graph_ok g \<and> fst ` set (fst g) = fst ` set (fst g0) \<union> step_key ` set rows \<and>
    (\<forall>k \<in> fst ` set (fst g0). dict_get (fst g) k [] = dict_get (fst g0) k []) \<and>
    (\<forall>c \<in> set rows. \<exists>n pid parent expected. iteration_no c = Some n \<and> 1 \<le> n \<and>
       parent_step_id c = Some pid \<and> map_of parents pid = Some parent \<and> st_type parent = LOOP \<and>
       child_template C by_id own parent n c = Inr (expected, dict_get (fst g) (step_key c) []))"
    (is "_ \<and> _ \<and> _ \<and> (\<forall>c \<in> set rows. ?child g c)")
proof -
  let ?I = "\<lambda>(xs :: execution_step list) g. distinct (map step_key xs) \<and> step_key ` set xs \<inter> fst ` set (fst g0) = {} \<longrightarrow>
    graph_ok g \<and> fst ` set (fst g) = fst ` set (fst g0) \<union> step_key ` set xs \<and>
    (\<forall>k \<in> fst ` set (fst g0). dict_get (fst g) k [] = dict_get (fst g0) k []) \<and> (\<forall>c \<in> set xs. ?child g c)"
  have "?I rows g"
  proof (rule foldE_invariant [OF assms(1)])
    fix xs x s t
    assume I: "?I xs s" and step: "dag_child_step C by_id own parents x s = Inr t"
    from child_stepD [OF step] obtain ds where t: "t = add_node (step_key x) ds s" and xt: "?child t x"
      by fastforce
    show "?I (xs @ [x]) t"
    proof
      assume pre: "distinct (map step_key (xs @ [x])) \<and> step_key ` set (xs @ [x]) \<inter> fst ` set (fst g0) = {}"
      with I have s: "graph_ok s" "fst ` set (fst s) = fst ` set (fst g0) \<union> step_key ` set xs"
          "\<forall>k \<in> fst ` set (fst g0). dict_get (fst s) k [] = dict_get (fst g0) k []" "\<forall>c \<in> set xs. ?child s c"
        by auto
      from pre have x: "step_key x \<notin> fst ` set (fst s)"
        unfolding s(2) by auto
      have "?child t c" if "c \<in> set xs" for c
        using s(4) that pre unfolding t by (auto simp: image_iff)
      moreover have "dict_get (fst t) k [] = dict_get (fst g0) k []" if "k \<in> fst ` set (fst g0)" for k
      proof -
        from that s(2) x have "k \<noteq> step_key x"
          by blast
        with bspec [OF s(3) that] show ?thesis
          unfolding t by simp
      qed
      ultimately show "graph_ok t \<and> fst ` set (fst t) = fst ` set (fst g0) \<union> step_key ` set (xs @ [x]) \<and>
          (\<forall>k \<in> fst ` set (fst g0). dict_get (fst t) k [] = dict_get (fst g0) k []) \<and>
          (\<forall>c \<in> set (xs @ [x]). ?child t c)"
        using graph_ok_add_node [OF s(1) x, of ds] s(2) xt by (simp add: t)
    qed
  qed (use assms(3) in simp)
  with assms(2,4) show ?thesis
    by blast
qed

subsection \<open>The graph of an accepted execution\<close>

text \<open>What a run of the check that returns has computed on the way.\<close>

definition dag_run :: "codec \<Rightarrow> execution_plan \<Rightarrow> execution_step list \<Rightarrow> tool_join_dag
    \<Rightarrow> loop_body_ownership \<Rightarrow> plan_step list \<Rightarrow> graph \<Rightarrow> bool" where
  "dag_run C plan steps dag own tops g \<longleftrightarrow>
     distinct (map step_key steps) \<and>
     build_loop_body_ownership C plan = Inr own \<and>
     tops = filter (\<lambda>s. \<not> is_owned own (ps_id s)) (plan_steps plan) \<and>
     (if body_to_loop own \<noteq> [] then assert_rows_with_loops tops (filter is_toplevel steps) = Inr ()
      else assert_rows_without_loops plan steps = Inr ()) \<and>
     build_graph C plan own tops steps = Inr g \<and>
     (filter (\<lambda>s. \<not> is_toplevel s) steps \<noteq> [] \<longrightarrow> validate_loop_iteration_shapes C own
        (filter is_toplevel steps) (filter (\<lambda>s. \<not> is_toplevel s) steps) (plan_by_id plan) = Inr ()) \<and>
     (\<forall>s \<in> set (filter is_toplevel steps). check_while_row C plan steps s = Inr ()) \<and>
     schedule C plan steps g = Inr (ordered_step_keys dag) \<and>
     dependencies dag = fst g \<and>
     dependents dag = fold dict_default (dict_keys (fst g)) (snd g) \<and>
     root_tools tops (by_step_key steps) (fst g) = Inr (root_tool_keys dag) \<and>
     1 \<le> dag_max_parallelism dag"

lemma validate_dagD:
  assumes "validate_tool_join_dag C plan steps = Inr dag"
  shows "\<exists>own tops g. dag_run C plan steps dag own tops g"
proof -
  have dist: "length (by_step_key steps) = length steps \<Longrightarrow> distinct (map step_key steps)"
    using length_dict_of_iff [of "map (\<lambda>s. (step_key s, s)) steps"] by (simp add: by_step_key_def comp_def)
  show ?thesis
    using assms unfolding validate_tool_join_dag_def Let_def top_level_plan_steps_def
    by (fastforce simp: dag_run_def dist split: if_splits)
qed

lemma dag_runD:
  assumes "dag_run C plan steps dag own tops g"
  shows "distinct (map step_key steps)"
    and "tops = filter (\<lambda>s. \<not> is_owned own (ps_id s)) (plan_steps plan)"
    and "if body_to_loop own \<noteq> [] then assert_rows_with_loops tops (filter is_toplevel steps) = Inr ()
         else assert_rows_without_loops plan steps = Inr ()"
    and "build_graph C plan own tops steps = Inr g"
    and "filter (\<lambda>s. \<not> is_toplevel s) steps \<noteq> [] \<Longrightarrow> validate_loop_iteration_shapes C own
           (filter is_toplevel steps) (filter (\<lambda>s. \<not> is_toplevel s) steps) (plan_by_id plan) = Inr ()"
    and "schedule C plan steps g = Inr (ordered_step_keys dag)"
    and "dependencies dag = fst g"
    and "dependents dag = fold dict_default (dict_keys (fst g)) (snd g)"
    and "root_tools tops (by_step_key steps) (fst g) = Inr (root_tool_keys dag)"
    and "s \<in> set steps \<Longrightarrow> is_toplevel s \<Longrightarrow> check_while_row C plan steps s = Inr ()"
  using assms unfolding dag_run_def by (elim conjE, (assumption | blast | simp))+

lemma build_graph_ok:
  assumes "build_graph C plan own tops steps = Inr g" and "distinct (map ps_id tops)"
    and dist: "distinct (map step_key steps)"
  shows "graph_ok g"
    and "fst ` set (fst g) = ps_id ` set tops \<union> step_key ` set (filter (\<lambda>s. \<not> is_toplevel s) steps)"
    and "\<And>ps. ps \<in> set tops \<Longrightarrow> dict_get (fst g) (ps_id ps) [] = ps_depends_on ps \<and>
      set (ps_depends_on ps) \<subseteq> ps_id ` set tops \<and>
      (\<exists>row. map_of (by_step_key steps) (ps_id ps) = Some row \<and> is_toplevel row)"
    and "\<And>c. c \<in> set steps \<Longrightarrow> \<not> is_toplevel c \<Longrightarrow> \<exists>n pid parent expected.
      iteration_no c = Some n \<and> 1 \<le> n \<and> parent_step_id c = Some pid \<and>
      map_of (dict_of (map (\<lambda>s. (st_id s, s)) (filter is_toplevel steps))) pid = Some parent \<and>
      st_type parent = LOOP \<and>
      child_template C (plan_by_id plan) own parent n c = Inr (expected, dict_get (fst g) (step_key c) [])"
proof -
  let ?kids = "filter (\<lambda>s. \<not> is_toplevel s) steps"
  from assms(1) obtain g0 where
      g0: "foldE (dag_top_step C (body_to_loop own \<noteq> []) (by_step_key steps) (map ps_id tops)) tops ([], []) = Inr g0"
    and g: "foldE (dag_child_step C (plan_by_id plan) own
      (dict_of (map (\<lambda>s. (st_id s, s)) (filter is_toplevel steps)))) ?kids g0 = Inr g"
    by (auto simp: build_graph_def Let_def)
  note top = top_loop_graph [OF g0 assms(2)]
  have row: "\<exists>row. map_of (by_step_key steps) (ps_id ps) = Some row \<and> is_toplevel row"
      "set (ps_depends_on ps) \<subseteq> ps_id ` set tops" if "ps \<in> set tops" for ps
    using foldE_each [OF g0 that] top_stepD(1,3) by fastforce+
  have disj: "step_key ` set ?kids \<inter> fst ` set (fst g0) = {}"
  proof -
    have "step_key c \<noteq> ps_id ps" if "c \<in> set ?kids" "ps \<in> set tops" for c ps
      using row(1) [OF that(2)] by_step_key_lookup [OF dist, of c] that(1) by auto
    then show ?thesis
      using top by auto
  qed
  have "distinct (map step_key ?kids)"
    using dist by (rule distinct_map_filter)
  note all = child_loop_graph [OF g this _ disj]
  show "graph_ok g" "fst ` set (fst g) = ps_id ` set tops \<union> step_key ` set ?kids"
    using all top by auto
  show "dict_get (fst g) (ps_id ps) [] = ps_depends_on ps \<and> set (ps_depends_on ps) \<subseteq> ps_id ` set tops \<and>
      (\<exists>row. map_of (by_step_key steps) (ps_id ps) = Some row \<and> is_toplevel row)"
    if "ps \<in> set tops" for ps
    using all top row [OF that] that by auto
  show "\<exists>n pid parent expected. iteration_no c = Some n \<and> 1 \<le> n \<and> parent_step_id c = Some pid \<and>
      map_of (dict_of (map (\<lambda>s. (st_id s, s)) (filter is_toplevel steps))) pid = Some parent \<and>
      st_type parent = LOOP \<and>
      child_template C (plan_by_id plan) own parent n c = Inr (expected, dict_get (fst g) (step_key c) [])"
    if "c \<in> set steps" "\<not> is_toplevel c" for c
    using all top that by simp
qed

lemma order_key_total:
  assumes "build_graph C plan own tops steps = Inr g" and "distinct (map ps_id tops)"
    and dist: "distinct (map step_key steps)" and "k \<in> fst ` set (fst g)"
  shows "\<exists>key. order_key C plan (by_step_key steps)
      (dict_of (map (\<lambda>s. (st_id s, s)) (filter is_toplevel steps))) k = Inr key"
proof -
  note ok = build_graph_ok [OF assms(1-3)]
  from assms(4) ok(2) consider ps where "ps \<in> set tops" "k = ps_id ps"
    | c where "c \<in> set steps" "\<not> is_toplevel c" "k = step_key c"
    by auto
  then show ?thesis
  proof cases
    case 1
    with ok(3) [OF 1(1)] show ?thesis
      by (auto simp: order_key_def Let_def dict_at_def is_toplevel_def)
  next
    case 2
    with ok(4) [OF 2(1,2)] by_step_key_lookup [OF dist 2(1)] show ?thesis
      by (auto simp: order_key_def Let_def dict_at_def child_template_def template_id_from_step_snapshot_def)
  qed
qed

text \<open>The keys as a total function, for the order lemmas.\<close>

definition order_of :: "codec \<Rightarrow> execution_plan \<Rightarrow> execution_step list \<Rightarrow> string \<Rightarrow> nat \<times> nat \<times> int \<times> nat" where
  "order_of C plan steps k =
     (case order_key C plan (by_step_key steps)
        (dict_of (map (\<lambda>s. (st_id s, s)) (filter is_toplevel steps))) k of
        Inr key \<Rightarrow> key | Inl _ \<Rightarrow> (0, 0, 0, 0))"

lemma schedule_spec:
  assumes "build_graph C plan own tops steps = Inr g" and "distinct (map ps_id tops)"
    and "distinct (map step_key steps)"
  shows "\<exists>xs. kahn_order (order_key C plan (by_step_key steps)
      (dict_of (map (\<lambda>s. (st_id s, s)) (filter is_toplevel steps)))) (fst g)
      (fold dict_default (dict_keys (fst g)) (snd g)) = Inr xs \<and>
    least_first (order_of C plan steps) (fst g) xs \<and> distinct xs \<and>
    set xs \<subseteq> fst ` set (fst g) \<and> ready_after (fst g) xs = {} \<and>
    schedule C plan steps g = (if length xs \<noteq> length (fst g) then Inl RESOURCE_CONFLICT else Inr xs)"
proof -
  let ?f = "order_key C plan (by_step_key steps) (dict_of (map (\<lambda>s. (st_id s, s)) (filter is_toplevel steps)))"
  have key: "?f k = Inr (order_of C plan steps k)" if "k \<in> fst ` set (fst g)" for k
    using order_key_total [OF assms that] by (auto simp: order_of_def)
  have tables: "kahn_tables (fst g) (fold dict_default (dict_keys (fst g)) (snd g))"
    using build_graph_ok(1) [OF assms] by (rule graph_ok_tables)
  from kahn_order_spec [of "fst g" _ ?f "order_of C plan steps", OF tables key] obtain xs where
      xs: "kahn_order ?f (fst g) (fold dict_default (dict_keys (fst g)) (snd g)) = Inr xs"
      "least_first (order_of C plan steps) (fst g) xs" "distinct xs"
      "set xs \<subseteq> fst ` set (fst g)" "ready_after (fst g) xs = {}"
    by blast
  moreover have "schedule C plan steps g = (if length xs \<noteq> length (fst g) then Inl RESOURCE_CONFLICT else Inr xs)"
    by (simp add: schedule_def Let_def xs(1))
  ultimately show ?thesis
    by (intro exI [of _ xs] conjI)
qed

subsection \<open>Iteration shapes\<close>

lemma map_of_children_by_parent:
  "map_of (children_by_parent rows) p =
     (if \<exists>c \<in> set rows. parent_step_id c = p then Some (filter (\<lambda>c. parent_step_id c = p) rows) else None)"
proof (induction rows rule: rev_induct)
  case (snoc c rows)
  have step: "children_by_parent (rows @ [c]) = dict_append (parent_step_id c) c (children_by_parent rows)"
    by (simp add: children_by_parent_def)
  have "dict_get (children_by_parent rows) q [] = filter (\<lambda>c. parent_step_id c = q) rows" if "q = p" for q
    using snoc that by (auto simp: dict_get_def filter_empty_conv)
  with snoc show ?case
    by (auto simp: step)
qed (simp add: children_by_parent_def)

definition open_iteration :: "execution_step list \<Rightarrow> int \<Rightarrow> bool" where
  "open_iteration children n \<longleftrightarrow> (\<exists>c \<in> set children. iteration_no c = Some n \<and> \<not> terminal_status (status c))"

lemma mapE_mem: "mapE f xs = Inr ys \<Longrightarrow> y \<in> set ys \<Longrightarrow> \<exists>x \<in> set xs. f x = Inr y"
  by (induction xs arbitrary: ys) auto

lemma check_iterationD:
  assumes "check_iteration C parent body_ids children n a = Inr b"
  shows "tid \<in> set body_ids \<Longrightarrow> \<exists>c \<in> set children. iteration_no c = Some n \<and>
      iteration_step_key (st_id parent) n tid = Inr (step_key c)"
    and "b = (if open_iteration children n then Some n else a)"
    and "open_iteration children n \<Longrightarrow> a = None"
proof -
  let ?it = "filter (\<lambda>c. iteration_no c = Some n) children"
  from assms obtain templates where
      t: "mapE (template_id_from_step_snapshot C) ?it = Inr templates" "set templates = set body_ids"
    and keys: "\<And>c. c \<in> set ?it \<Longrightarrow> \<exists>tid. template_id_from_step_snapshot C c = Inr tid \<and>
      iteration_step_key (st_id parent) n tid = Inr (step_key c)"
    by (fastforce simp: check_iteration_def Let_def)
  from assms show "b = (if open_iteration children n then Some n else a)"
    by (auto simp: check_iteration_def Let_def open_iteration_def split: if_splits)
  from assms show "open_iteration children n \<Longrightarrow> a = None"
    by (auto simp: check_iteration_def Let_def open_iteration_def split: if_splits)
  assume "tid \<in> set body_ids"
  with t(2) have "tid \<in> set templates"
    by simp
  from mapE_mem [OF t(1) this] obtain c where c: "c \<in> set ?it" "template_id_from_step_snapshot C c = Inr tid"
    by blast
  with keys [OF c(1)] show "\<exists>c \<in> set children. iteration_no c = Some n \<and>
      iteration_step_key (st_id parent) n tid = Inr (step_key c)"
    by auto
qed

lemma check_iterations_active:
  "foldE (check_iteration C parent body_ids children) ns a = Inr b \<Longrightarrow>
     (\<forall>n \<in> set ns. open_iteration children n \<longrightarrow> b = Some n) \<and> (a \<noteq> None \<longrightarrow> b = a)"
proof (induction ns arbitrary: a)
  case (Cons n ns)
  then obtain a' where a': "check_iteration C parent body_ids children n a = Inr a'"
      "foldE (check_iteration C parent body_ids children) ns a' = Inr b"
    by auto
  note it = check_iterationD(2,3) [OF a'(1)]
  show ?case
  proof (cases "open_iteration children n")
    case True
    with Cons.IH [OF a'(2)] it show ?thesis
      by auto
  next
    case False
    with Cons.IH [OF a'(2)] it show ?thesis
      by auto
  qed
qed simp

lemma max_materialized_upper:
  assumes "s \<in> set steps" and "parent_step_id s = Some pid" and "iteration_no s = Some n"
  shows "n \<le> max_materialized_iteration steps pid"
proof -
  let ?ns = "List.map_filter (\<lambda>s. if parent_step_id s = Some pid then iteration_no s else None) steps"
  have "n \<in> set ?ns"
    using assms by (force simp: List.map_filter_def)
  then show ?thesis
    by (cases ?ns) (auto simp: max_materialized_iteration_def simp flip: Max.set_eq_fold)
qed

text \<open>What the shape check says of the children of one LOOP row.\<close>

lemma check_childrenD:
  assumes ok: "check_loop_children C own parents by_id (Some pid, children) = Inr ()"
    and kids: "\<And>c. c \<in> set children \<Longrightarrow> parent_step_id c = Some pid" and "children \<noteq> []"
    and pid: "map_of parents pid = Some parent" "st_id parent = pid"
    and N: "N = max_materialized_iteration children pid"
    and body: "body_ids = dict_get (loop_to_body own) (step_key parent) []"
  shows "1 \<le> N" and "c \<in> set children \<Longrightarrow> \<exists>n. iteration_no c = Some n \<and> 1 \<le> n \<and> n \<le> N"
    and "1 \<le> n \<Longrightarrow> n \<le> N \<Longrightarrow> tid \<in> set body_ids \<Longrightarrow> \<exists>c \<in> set children. iteration_no c = Some n \<and>
      iteration_step_key pid n tid = Inr (step_key c)"
    and "c \<in> set children \<Longrightarrow> \<not> terminal_status (status c) \<Longrightarrow> iteration_no c = Some N"
proof -
  from ok pid obtain bound where
      "\<forall>c \<in> set children. \<not> (case iteration_no c of None \<Rightarrow> True | Some n \<Rightarrow> n < 1 \<or> n > bound)"
    by (auto simp: check_loop_children_def Let_def)
  then have each: "\<exists>n. iteration_no c = Some n \<and> 1 \<le> n \<and> n \<le> N" if "c \<in> set children" for c
    using max_materialized_upper [OF that kids [OF that]] that N by (cases "iteration_no c") fastforce+
  with assms(3) show N1: "1 \<le> N"
    by (cases children) (auto, fastforce)
  show "c \<in> set children \<Longrightarrow> \<exists>n. iteration_no c = Some n \<and> 1 \<le> n \<and> n \<le> N"
    by (rule each)
  from ok pid N N1 body obtain active where
      active: "foldE (check_iteration C parent body_ids children) [1..N] None = Inr active"
        "active = None \<or> active = Some N"
    by (auto simp: check_loop_children_def Let_def split: if_splits)
  show "\<exists>c \<in> set children. iteration_no c = Some n \<and> iteration_step_key pid n tid = Inr (step_key c)"
    if "1 \<le> n" "n \<le> N" "tid \<in> set body_ids" for n tid
    using foldE_each [OF active(1), of n] check_iterationD(1) that pid(2) by fastforce
  show "iteration_no c = Some N" if c: "c \<in> set children" "\<not> terminal_status (status c)" for c
  proof -
    from each [OF c(1)] obtain n where n: "iteration_no c = Some n" "n \<in> set [1..N]"
      by auto
    with c have "open_iteration children n"
      by (auto simp: open_iteration_def)
    with check_iterations_active [OF active(1)] n(2) active(2) show ?thesis
      using n(1) by auto
  qed
qed

subsection \<open>Every dependency is a node\<close>

lemma child_deps_keys:
  assumes "child_template C by_id own parent n c = Inr (expected, ds)" and "k \<in> set ds"
  shows "\<exists>t \<in> set (dict_get (loop_to_body own) (step_key parent) []).
    iteration_step_key (st_id parent) n t = Inr k"
proof -
  let ?body = "dict_get (loop_to_body own) (step_key parent) []"
  from assms(1) have "foldE (child_dep parent n ?body) (ps_depends_on expected) [] = Inr ds"
    by (auto simp: child_template_def Let_def split: if_splits)
  then have "\<forall>k \<in> set ds. \<exists>t \<in> set ?body. iteration_step_key (st_id parent) n t = Inr k"
    by (rule foldE_preserves) (auto simp: child_dep_def split: if_splits)
  with assms(2) show ?thesis
    by blast
qed

lemma parent_lookup:
  "map_of (dict_of (map (\<lambda>s. (st_id s, s)) rows)) pid = Some parent \<Longrightarrow> st_id parent = pid \<and> parent \<in> set rows"
  by (auto simp: map_of_dict_of dest!: map_of_SomeD)

lemma shapes_of_loop:
  assumes shapes: "validate_loop_iteration_shapes C own (filter is_toplevel steps)
      (filter (\<lambda>s. \<not> is_toplevel s) steps) by_id = Inr ()"
    and c: "c \<in> set steps" "parent_step_id c = Some pid"
  shows "check_loop_children C own (dict_of (map (\<lambda>s. (st_id s, s)) (filter is_toplevel steps))) by_id
    (Some pid, filter (\<lambda>s. parent_step_id s = Some pid) steps) = Inr ()"
proof -
  let ?kids = "filter (\<lambda>s. \<not> is_toplevel s) steps"
  have same: "filter (\<lambda>s. parent_step_id s = Some pid) ?kids = filter (\<lambda>s. parent_step_id s = Some pid) steps"
    by (auto simp: is_toplevel_def intro: filter_cong)
  have "c \<in> set ?kids"
    using c by (simp add: is_toplevel_def)
  then have "map_of (children_by_parent ?kids) (Some pid) = Some (filter (\<lambda>s. parent_step_id s = Some pid) steps)"
    using c(2) unfolding map_of_children_by_parent same by auto
  then show ?thesis
    using shapes by (auto simp: validate_loop_iteration_shapes_def dest!: map_of_SomeD)
qed

lemma graph_closed:
  assumes g: "build_graph C plan own tops steps = Inr g" and "distinct (map ps_id tops)"
    and "distinct (map step_key steps)"
    and shapes: "filter (\<lambda>s. \<not> is_toplevel s) steps \<noteq> [] \<Longrightarrow> validate_loop_iteration_shapes C own
      (filter is_toplevel steps) (filter (\<lambda>s. \<not> is_toplevel s) steps) (plan_by_id plan) = Inr ()"
  shows "\<forall>n \<in> fst ` set (fst g). set (dict_get (fst g) n []) \<subseteq> fst ` set (fst g)"
proof
  note ok = build_graph_ok [OF assms(1-3)]
  fix n
  assume "n \<in> fst ` set (fst g)"
  with ok(2) consider ps where "ps \<in> set tops" "n = ps_id ps"
    | c where "c \<in> set steps" "\<not> is_toplevel c" "n = step_key c"
    by auto
  then show "set (dict_get (fst g) n []) \<subseteq> fst ` set (fst g)"
  proof cases
    case 1
    with ok(3) [OF 1(1)] show ?thesis
      unfolding ok(2) by auto
  next
    case 2
    let ?kids = "\<lambda>pid. filter (\<lambda>s. parent_step_id s = Some pid) steps"
    from ok(4) [OF 2(1,2)] obtain i pid parent expected where c: "iteration_no c = Some i" "1 \<le> i"
        "parent_step_id c = Some pid"
        "map_of (dict_of (map (\<lambda>s. (st_id s, s)) (filter is_toplevel steps))) pid = Some parent"
        "child_template C (plan_by_id plan) own parent i c = Inr (expected, dict_get (fst g) n [])"
      unfolding 2(3) by blast
    from 2(1,2) have "filter (\<lambda>s. \<not> is_toplevel s) steps \<noteq> []"
      by (auto simp: filter_empty_conv)
    note chk = shapes_of_loop [OF shapes [OF this] 2(1) c(3)]
    have kids: "?kids pid \<noteq> []"
      using 2(1) c(3) by (auto simp: filter_empty_conv)
    have pid: "st_id parent = pid"
      using parent_lookup [OF c(4)] by blast
    note D = check_childrenD [OF chk _ kids c(4) pid refl refl]
    show ?thesis
    proof
      fix k
      assume "k \<in> set (dict_get (fst g) n [])"
      from child_deps_keys [OF c(5) this] obtain t where
          t: "t \<in> set (dict_get (loop_to_body own) (step_key parent) [])" "iteration_step_key pid i t = Inr k"
        unfolding pid by blast
      have "i \<le> max_materialized_iteration (?kids pid) pid"
        using max_materialized_upper [OF _ c(3,1), of steps] 2(1) by simp
      with D(3) [OF _ c(2) _ t(1)] t(2) obtain c' where "c' \<in> set steps" "parent_step_id c' = Some pid"
          "step_key c' = k"
        by auto
      then show "k \<in> fst ` set (fst g)"
        unfolding ok(2) by (auto simp: is_toplevel_def)
    qed
  qed
qed

lemma graph_keys_rows:
  assumes "build_graph C plan own tops steps = Inr g" and "distinct (map ps_id tops)"
    and "distinct (map step_key steps)"
    and tops: "tops = filter (\<lambda>s. \<not> is_owned own (ps_id s)) (plan_steps plan)"
    and rows: "if body_to_loop own \<noteq> [] then assert_rows_with_loops tops (filter is_toplevel steps) = Inr ()
         else assert_rows_without_loops plan steps = Inr ()"
  shows "fst ` set (fst g) = step_key ` set steps"
proof (cases "body_to_loop own = []")
  case True
  then have "tops = plan_steps plan"
    unfolding tops by (simp add: is_owned_def)
  with True rows build_graph_ok(2) [OF assms(1-3)] show ?thesis
    by (auto simp: assert_rows_without_loops_def)
next
  case False
  with rows have "ps_id ` set tops = step_key ` set (filter is_toplevel steps)"
    by (auto simp: assert_rows_with_loops_def)
  then show ?thesis
    unfolding build_graph_ok(2) [OF assms(1-3)] by auto
qed

text \<open>Everything above, for an accepted execution.\<close>

lemma accepted_graph:
  assumes "validate_tool_join_dag C plan steps = Inr dag" and "distinct (map ps_id (plan_steps plan))"
  shows "distinct (map step_key steps)"
    and "fst ` set (dependencies dag) = step_key ` set steps"
    and "kahn_tables (dependencies dag) (dependents dag)"
    and "least_first (order_of C plan steps) (dependencies dag) (ordered_step_keys dag)"
    and "distinct (ordered_step_keys dag)"
    and "set (ordered_step_keys dag) = step_key ` set steps"
    and "\<forall>n \<in> step_key ` set steps. set (dict_get (dependencies dag) n []) \<subseteq> step_key ` set steps"
proof -
  from validate_dagD [OF assms(1)] obtain own tops g where "dag_run C plan steps dag own tops g"
    by blast
  note V = dag_runD [OF this]
  have dist: "distinct (map ps_id tops)"
    using assms(2) unfolding V(2) by (rule distinct_map_filter)
  note keys = graph_keys_rows [OF V(4) dist V(1,2,3)]
  from schedule_spec [OF V(4) dist V(1)] obtain xs where
      xs: "least_first (order_of C plan steps) (fst g) xs" "distinct xs" "set xs \<subseteq> fst ` set (fst g)"
        "schedule C plan steps g = (if length xs \<noteq> length (fst g) then Inl RESOURCE_CONFLICT else Inr xs)"
    by blast
  with V(6) have seen: "ordered_step_keys dag = xs" "length xs = length (fst g)"
    by (simp_all split: if_splits)
  show "distinct (map step_key steps)" "fst ` set (dependencies dag) = step_key ` set steps"
    using V(1,7) keys by simp_all
  show "kahn_tables (dependencies dag) (dependents dag)"
    unfolding V(7,8) using build_graph_ok(1) [OF V(4) dist V(1)] by (rule graph_ok_tables)
  show "least_first (order_of C plan steps) (dependencies dag) (ordered_step_keys dag)"
      "distinct (ordered_step_keys dag)"
    unfolding V(7) seen by (rule xs)+
  have "card (set xs) = card (fst ` set (fst g))"
    using xs(2) seen(2) build_graph_ok(1) [OF V(4) dist V(1)]
    by (metis distinct_card graph_ok_def length_map list.set_map)
  with xs(3) show "set (ordered_step_keys dag) = step_key ` set steps"
    unfolding seen keys by (intro card_subset_eq) auto
  show "\<forall>n \<in> step_key ` set steps. set (dict_get (dependencies dag) n []) \<subseteq> step_key ` set steps"
    using graph_closed [OF V(4) dist V(1,5)] unfolding V(7) keys by blast
qed

subsection \<open>Eligibility\<close>

text \<open>Every dependency of \<open>step\<close> has a row that lets \<open>step\<close> go on.\<close>

definition deps_done :: "codec \<Rightarrow> tool_join_dag \<Rightarrow> execution_step list \<Rightarrow> execution_step \<Rightarrow> bool" where
  "deps_done C dag steps step \<longleftrightarrow>
     (\<forall>d \<in> set (dict_get (dependencies dag) (step_key step) []).
        \<exists>dep \<in> set steps. step_key dep = d \<and> \<not> is_intentional_conditional_skip dep \<and>
          dependency_progression_complete C dep (Some step))"

lemma allE_total:
  assumes "\<And>x. x \<in> set xs \<Longrightarrow> p x = Inr (q x)"
  shows "allE p xs = Inr (\<forall>x \<in> set xs. q x)" and "anyE p xs = Inr (\<exists>x \<in> set xs. q x)"
  using assms by (induction xs) auto

lemma accepted_deps_rows:
  assumes "validate_tool_join_dag C plan steps = Inr dag" and "distinct (map ps_id (plan_steps plan))"
    and "step \<in> set steps" and "d \<in> set (dict_get (dependencies dag) (step_key step) [])"
  shows "\<exists>dep \<in> set steps. step_key dep = d \<and> map_of (by_step_key steps) d = Some dep"
proof -
  note A = accepted_graph [OF assms(1,2)]
  have "step_key step \<in> step_key ` set steps"
    using assms(3) by (rule imageI)
  with A(7) assms(4) obtain dep where "dep \<in> set steps" "step_key dep = d"
    by blast
  with by_step_key_lookup [OF A(1)] show ?thesis
    by blast
qed

lemma deps_allow_iff:
  assumes "validate_tool_join_dag C plan steps = Inr dag" and "distinct (map ps_id (plan_steps plan))"
    and "step \<in> set steps"
  shows "deps_allow C step dag (by_step_key steps) = Inr (deps_done C dag steps step)"
proof -
  let ?deps = "dict_get (dependencies dag) (step_key step) []"
  define row where "row d = the (map_of (by_step_key steps) d)" for d
  have row: "map_of (by_step_key steps) d = Some (row d)" "row d \<in> set steps" "step_key (row d) = d"
    if "d \<in> set ?deps" for d
    using accepted_deps_rows [OF assms that] by (auto simp: row_def)
  have uniq: "dep = row (step_key dep)" if "dep \<in> set steps" "step_key dep \<in> set ?deps" for dep
    using by_step_key_lookup [OF accepted_graph(1) [OF assms(1,2)] that(1)] row(1) [OF that(2)] by simp
  have "deps_done C dag steps step \<longleftrightarrow> (\<forall>d \<in> set ?deps. \<not> is_intentional_conditional_skip (row d) \<and>
      dependency_progression_complete C (row d) (Some step))"
    unfolding deps_done_def using row uniq by metis
  moreover have "has_intentional_skip_dependency step dag (by_step_key steps) =
      Inr (\<exists>d \<in> set ?deps. is_intentional_conditional_skip (row d))"
    unfolding has_intentional_skip_dependency_def by (intro allE_total(2)) (simp add: dict_at_def row)
  moreover have "allE (\<lambda>d. and_then (dict_at (by_step_key steps) d) (\<lambda>dep.
        Inr (dependency_progression_complete C dep (Some step)))) ?deps =
      Inr (\<forall>d \<in> set ?deps. dependency_progression_complete C (row d) (Some step))"
    by (intro allE_total(1)) (simp add: dict_at_def row)
  ultimately show ?thesis
    by (auto simp: deps_allow_def)
qed

lemma join_ready_iff:
  assumes "validate_tool_join_dag C plan steps = Inr dag" and "distinct (map ps_id (plan_steps plan))"
    and "step \<in> set steps"
  shows "join_barrier_ready step dag (by_step_key steps) = Inr
    (status step = PENDING \<and> st_type step = JOIN \<and> parent_loop_running_if_body step (by_step_key steps) \<and>
     dict_get (dependencies dag) (step_key step) [] \<noteq> [] \<and>
     (\<forall>d \<in> set (dict_get (dependencies dag) (step_key step) []).
        \<exists>dep \<in> set steps. step_key dep = d \<and> terminal_status (status dep)))"
proof -
  let ?deps = "dict_get (dependencies dag) (step_key step) []"
  define row where "row d = the (map_of (by_step_key steps) d)" for d
  have row: "map_of (by_step_key steps) d = Some (row d)" "row d \<in> set steps" "step_key (row d) = d"
    if "d \<in> set ?deps" for d
    using accepted_deps_rows [OF assms that] by (auto simp: row_def)
  have uniq: "dep = row (step_key dep)" if "dep \<in> set steps" "step_key dep \<in> set ?deps" for dep
    using by_step_key_lookup [OF accepted_graph(1) [OF assms(1,2)] that(1)] row(1) [OF that(2)] by simp
  have "(\<forall>d \<in> set ?deps. \<exists>dep \<in> set steps. step_key dep = d \<and> terminal_status (status dep)) \<longleftrightarrow>
      (\<forall>d \<in> set ?deps. terminal_status (status (row d)))"
    using row uniq by metis
  moreover have "allE (\<lambda>d. and_then (dict_at (by_step_key steps) d) (\<lambda>dep. Inr (terminal_status (status dep)))) ?deps
      = Inr (\<forall>d \<in> set ?deps. terminal_status (status (row d)))"
    by (intro allE_total(1)) (simp add: dict_at_def row)
  ultimately show ?thesis
    by (auto simp: join_barrier_ready_def Let_def)
qed

subsection \<open>Sweeps over the rows\<close>

text \<open>
  The contract the two stop sweeps share: the change takes a row out of the guard and keeps its key.
\<close>

locale row_sweep =
  fixes guard :: "execution_step \<Rightarrow> bool"
    and act :: "time \<Rightarrow> execution_step \<Rightarrow> execution_step"
  assumes act_leaves: "\<not> guard (act now s)"
    and act_key: "step_key (act now s) = step_key s"
begin

lemma sweep_rows:
  "map_of (fst (sweep guard (act now) rows)) k = map_option (\<lambda>s. if guard s then act now s else s) (map_of rows k)"
  by (induction rows) (auto simp: sweep_def)

lemma sweep_none_left: "s \<in> set (dict_values (fst (sweep guard (act now) rows))) \<Longrightarrow> \<not> guard s"
  using act_leaves by (auto simp: sweep_def split: if_splits)

lemma sweep_again:
  "sweep guard (act later) (fst (sweep guard (act now) rows)) = (fst (sweep guard (act now) rows), [])"
proof -
  have "map (\<lambda>(k, s). (k, if guard s then act later s else s)) rs = rs \<and> filter (\<lambda>(k, s). guard s) rs = []"
    if "\<And>s. s \<in> set (dict_values rs) \<Longrightarrow> \<not> guard s" for rs
    using that by (induction rs) auto
  from this [OF sweep_none_left] show ?thesis
    by (simp add: sweep_def [of _ "act later"])
qed

lemma sweep_step_keys: "map step_key (dict_values (fst (sweep guard (act now) rows))) = map step_key (dict_values rows)"
  by (induction rows) (auto simp: sweep_def act_key)

end

interpretation pending: row_sweep "\<lambda>s. status s = PENDING" mark_skipped
  by unfold_locales simp_all

interpretation unused: row_sweep unused_ready_tool mark_cancelled
  by unfold_locales (simp_all add: unused_ready_tool_def mark_cancelled_def)

subsection \<open>Stop causes\<close>

lemma sort_hd_min: "xs \<noteq> [] \<Longrightarrow> hd (sort_key f xs) \<in> set xs \<and> (\<forall>x \<in> set xs. f (hd (sort_key f xs)) \<le> f x)"
proof -
  assume "xs \<noteq> []"
  then have ne: "sort_key f xs \<noteq> []"
    by (metis length_0_conv length_sort)
  moreover have "sorted (map f (sort_key f xs))"
    by simp
  ultimately have "f (hd (sort_key f xs)) \<le> f x" if "x \<in> set (sort_key f xs)" for x
    using that by (cases "sort_key f xs") auto
  with hd_in_set [OF ne] show ?thesis
    by simp
qed

subsection \<open>A sample\<close>

definition dag_sample_steps :: "plan_step list" where
  "dag_sample_steps = [sample_step ''b'' TOOL [''a''], sample_step ''a'' TOOL []]"

definition dag_sample_cycle :: "plan_step list" where
  "dag_sample_cycle = [sample_step ''a'' TOOL [''b''], sample_step ''b'' TOOL [''a'']]"

definition dag_sample_codec :: codec where
  "dag_sample_codec = table_codec dag_sample_steps
     [(''a'', \<lparr>tc_tool_version_id = 5, tc_bindings = []\<rparr>), (''b'', \<lparr>tc_tool_version_id = 5, tc_bindings = []\<rparr>)]
     [] [] []"

definition dag_sample_rows :: "execution_step list" where
  "dag_sample_rows = [sample_row 1 (sample_step ''a'' TOOL []) SUCCEEDED,
     sample_row 2 (sample_step ''b'' TOOL [''a'']) PENDING]"

definition dag_sample :: tool_join_dag where
  "dag_sample = \<lparr>ordered_step_keys = [''a'', ''b''], root_tool_keys = [''a''], dag_max_parallelism = 4,
     dependents = [(''b'', []), (''a'', [''b''])], dependencies = [(''b'', [''a'']), (''a'', [])]\<rparr>"

lemma dag_sample_ok:
  "validate_tool_join_dag dag_sample_codec (sample_plan dag_sample_steps) dag_sample_rows = Inr dag_sample"
  by code_simp

text \<open>The same for a LOOP with one running iteration; the digests stay symbolic.\<close>

definition loop_sample_key :: string where
  "loop_sample_key = ''loop:'' @ uuid_hex 1 @ '':'' @ zero_pad 6 (nat_dec 1) @ '':'' @ sha256_hexdigest ''b''"

definition loop_sample_codec :: codec where
  "loop_sample_codec = table_codec foreach_sample_steps
     [(''b'', \<lparr>tc_tool_version_id = 5, tc_bindings = []\<rparr>)] [] []
     [(''f'', \<lparr>lc_mode = FOR_EACH, lc_max_iterations = 3, lc_body_step_ids = [''b''],
       lc_collection = Some (PlanLiteralBinding (JList [])), lc_predicate = None\<rparr>)]"

definition loop_sample_parent :: execution_step where
  "loop_sample_parent = (sample_row 1 (sample_step ''f'' LOOP []) RUNNING)
     \<lparr>resolved_input := JObj [(''mode'', JStr ''FOR_EACH''),
        (''collection_hash'', JStr (sha256_hexdigest ''e'')), (''collection_size'', JInt 2)]\<rparr>"

definition loop_sample_child :: execution_step where
  "loop_sample_child = (sample_row 2 (sample_step ''b'' TOOL []) RUNNING)
     \<lparr>step_key := loop_sample_key, parent_step_id := Some 1, iteration_no := Some 1\<rparr>"

definition loop_sample_graph :: graph where
  "loop_sample_graph = ([(''f'', []), (loop_sample_key, [])], [(''f'', []), (loop_sample_key, [])])"

definition loop_sample_own :: loop_body_ownership where
  "loop_sample_own = \<lparr>body_to_loop = [(''b'', ''f'')], loop_to_body = [(''f'', [''b''])]\<rparr>"

lemmas loop_sample_defs = loop_sample_codec_def foreach_sample_steps_def loop_sample_parent_def
  loop_sample_child_def sample_simps

lemma loop_sample_key_neq [simp]: "loop_sample_key \<noteq> ''f''" "''f'' \<noteq> loop_sample_key"
  by (simp_all add: loop_sample_key_def)

lemma loop_sample_fields [simp]:
  "step_key loop_sample_parent = ''f''" "step_key loop_sample_child = loop_sample_key"
  "is_toplevel loop_sample_parent" "\<not> is_toplevel loop_sample_child"
  "st_id loop_sample_parent = 1" "parent_step_id loop_sample_child = Some 1"
  "parent_step_id loop_sample_parent = None" "iteration_no loop_sample_parent = None"
  "iteration_no loop_sample_child = Some 1" "st_type loop_sample_parent = LOOP"
  "st_type loop_sample_child = TOOL" "step_snapshot loop_sample_child = JStr ''b''"
  "step_snapshot loop_sample_parent = JStr ''f''" "mcp_tool_version_id loop_sample_child = Some 5"
  "mcp_tool_version_id loop_sample_parent = None"
  by (simp_all add: loop_sample_defs is_toplevel_def)

lemma loop_sample_key_eq: "iteration_step_key 1 1 ''b'' = Inr loop_sample_key"
  by (simp add: iteration_step_key_def loop_sample_key_def)

lemma loop_sample_by_key:
  "by_step_key [loop_sample_parent, loop_sample_child] = [(''f'', loop_sample_parent), (loop_sample_key, loop_sample_child)]"
  by (simp add: by_step_key_def dict_of_def dict_set_def)

lemma loop_sample_own:
  "build_loop_body_ownership loop_sample_codec (sample_plan foreach_sample_steps) = Inr loop_sample_own"
  by (simp add: build_loop_body_ownership_def own_step_def own_body_def loop_sample_defs dict_set_def loop_sample_own_def)

lemma loop_sample_plan:
  "plan_by_id (sample_plan foreach_sample_steps) = [(''f'', sample_step ''f'' LOOP []), (''b'', sample_step ''b'' TOOL [])]"
  by (simp add: plan_by_id_def dict_of_def dict_set_def foreach_sample_steps_def sample_plan_def sample_step_def)

lemma loop_sample_tops:
  "top_level_plan_steps loop_sample_codec (sample_plan foreach_sample_steps) = Inr [sample_step ''f'' LOOP []]"
  by (simp add: top_level_plan_steps_def loop_sample_own)
    (simp add: loop_sample_own_def is_owned_def foreach_sample_steps_def sample_plan_def sample_step_def)

lemma loop_sample_flat:
  "assert_flat_foreach_runtime_compatible loop_sample_codec (sample_plan foreach_sample_steps) = Inr loop_sample_own"
  by (simp add: assert_flat_foreach_runtime_compatible_def loop_sample_own)
    (simp add: loop_sample_own_def is_owned_def assert_flat_body_def loop_sample_plan dict_at_def,
     simp add: loop_sample_defs)

lemma loop_sample_codec_simps:
  "validate_plan_step loop_sample_codec (JStr ''f'') = Some (sample_step ''f'' LOOP [])"
  "validate_plan_step loop_sample_codec (JStr ''b'') = Some (sample_step ''b'' TOOL [])"
  "py_eq (dump_plan_step loop_sample_codec (sample_step ''f'' LOOP [])) (JStr ''f'')"
  "py_eq (dump_plan_step loop_sample_codec (sample_step ''b'' TOOL [])) (JStr ''b'')"
  "validate_tool_config loop_sample_codec (ps_config (sample_step ''b'' TOOL [])) = Some \<lparr>tc_tool_version_id = 5, tc_bindings = []\<rparr>"
  "ps_type (sample_step i t ds) = t" "ps_id (sample_step i t ds) = i" "ps_depends_on (sample_step i t ds) = ds"
  "validate_loop_config loop_sample_codec (ps_config (sample_step ''f'' LOOP [])) = Some \<lparr>lc_mode = FOR_EACH, lc_max_iterations = 3, lc_body_step_ids = [''b''],
       lc_collection = Some (PlanLiteralBinding (JList [])), lc_predicate = None\<rparr>"
  by (simp_all add: loop_sample_defs py_eq.simps)

lemma loop_sample_graph:
  "build_graph loop_sample_codec (sample_plan foreach_sample_steps) loop_sample_own [sample_step ''f'' LOOP []]
     [loop_sample_parent, loop_sample_child] = Inr loop_sample_graph"
  by (simp add: build_graph_def Let_def loop_sample_by_key loop_sample_plan dict_of_def dict_set_def
      dag_top_step_def dict_at_def assert_exact_plan_projection_def loop_sample_codec_simps validate_typed_config_def
      add_node_def dict_default_def dag_child_step_def child_template_def loop_sample_own_def dict_get_def
      loop_sample_key_eq tool_version_for_template_def loop_sample_graph_def)

lemma loop_sample_shapes:
  "validate_loop_iteration_shapes loop_sample_codec loop_sample_own [loop_sample_parent] [loop_sample_child]
     (plan_by_id (sample_plan foreach_sample_steps)) = Inr ()"
proof -
  have pin: "parse_foreach_collection_pin (resolved_input loop_sample_parent) =
      Inr \<lparr>pin_collection_hash = sha256_hexdigest ''e'', pin_collection_size = 2\<rparr>"
    by (simp add: loop_sample_parent_def parse_foreach_collection_pin_def has_keys_def get_str_def get_int_def)
  have "check_iteration loop_sample_codec loop_sample_parent [''b''] [loop_sample_child] 1 None
      \<in> {Inr None, Inr (Some 1)}"
    by (simp add: check_iteration_def template_id_from_step_snapshot_def loop_sample_codec_simps loop_sample_key_eq Let_def)
  then show ?thesis
    by (auto simp: validate_loop_iteration_shapes_def children_by_parent_def dict_append_def dict_of_def dict_set_def
      check_loop_children_def loop_sample_own_def dict_get_def loop_sample_plan loop_sample_codec_simps dict_at_def
      loop_bound_def pin max_materialized_iteration_def map_filter_simps present_iterations_def Let_def)
qed


lemma loop_sample_schedule:
  "schedule loop_sample_codec (sample_plan foreach_sample_steps) [loop_sample_parent, loop_sample_child] loop_sample_graph
     = Inr [''f'', loop_sample_key]"
proof -
  let ?f = "order_key loop_sample_codec (sample_plan foreach_sample_steps)
    [(''f'', loop_sample_parent), (loop_sample_key, loop_sample_child)] [(1, loop_sample_parent)]"
  have idx: "plan_order_index (sample_plan foreach_sample_steps) = [(''f'', 0), (''b'', 1)]"
    by (simp add: plan_order_index_def dict_of_def dict_set_def foreach_sample_steps_def sample_plan_def sample_step_def upt_rec)
  have f: "?f ''f'' = Inr (0, 0, 0, 0)" "?f loop_sample_key = Inr (1, 0, 1, 1)"
    by (simp_all add: order_key_def Let_def dict_at_def idx dict_get_def template_id_from_step_snapshot_def
        loop_sample_codec_simps)
  have sort: "sort_by ?f [''f'', loop_sample_key] = Inr [''f'', loop_sample_key]" "sort_by ?f [] = Inr []"
    by (simp_all add: sort_by_def f)
  have "kahn_order ?f (fst loop_sample_graph) (snd loop_sample_graph) = Inr [''f'', loop_sample_key]"
    by (simp add: kahn_order_def loop_sample_graph_def sort Let_def dict_at_def)
  then show ?thesis
    by (simp add: schedule_def Let_def loop_sample_by_key dict_of_def dict_set_def loop_sample_graph_def dict_default_def)
qed

lemma loop_sample_ok:
  "\<exists>dag. validate_tool_join_dag loop_sample_codec (sample_plan foreach_sample_steps)
     [loop_sample_parent, loop_sample_child] = Inr dag"
proof -
  have "check_while_row loop_sample_codec (sample_plan foreach_sample_steps)
      [loop_sample_parent, loop_sample_child] loop_sample_parent = Inr ()"
    by (simp add: check_while_row_def loop_sample_plan loop_sample_codec_simps)
  moreover have "body_to_loop loop_sample_own \<noteq> []"
    by (simp add: loop_sample_own_def)
  moreover have "assert_rows_with_loops [sample_step ''f'' LOOP []] [loop_sample_parent] = Inr ()"
    by (simp add: assert_rows_with_loops_def loop_sample_codec_simps)
  moreover have "root_tools [sample_step ''f'' LOOP []] [(''f'', loop_sample_parent), (loop_sample_key, loop_sample_child)]
      (fst loop_sample_graph) = Inr []"
    by (simp add: root_tools_def loop_sample_graph_def dict_get_def dict_at_def loop_sample_codec_simps)
  moreover have "\<not> max_parallelism (plan_limits (sample_plan foreach_sample_steps)) < 1"
    by (simp add: sample_plan_def default_plan_limits_def)
  ultimately show ?thesis
    by (simp add: validate_tool_join_dag_def Let_def loop_sample_by_key loop_sample_own loop_sample_flat
        loop_sample_tops loop_sample_graph loop_sample_shapes loop_sample_schedule)
qed

subsection \<open>Properties\<close>

text \<open>C1: The schedule of an accepted execution is a permutation of its rows in which every step comes
  after all its dependencies, and at every position it takes, of all steps that could come next, the
  one with the least order key (plan position, then LOOP, iteration and template position).\<close>

theorem dag_order_topological:
  assumes "validate_tool_join_dag C plan steps = Inr dag" and "distinct (map ps_id (plan_steps plan))"
  shows "distinct (ordered_step_keys dag) \<and> set (ordered_step_keys dag) = step_key ` set steps \<and>
    (\<forall>i < length (ordered_step_keys dag).
       set (dict_get (dependencies dag) (ordered_step_keys dag ! i) []) \<subseteq> set (take i (ordered_step_keys dag)) \<and>
       (\<forall>k \<in> ready_after (dependencies dag) (take i (ordered_step_keys dag)).
          order_of C plan steps (ordered_step_keys dag ! i) \<le> order_of C plan steps k))"
  using accepted_graph(4,5,6) [OF assms] by (auto simp: least_first_def ready_after_def)

theorem dag_order_topological_witness:
  "\<exists>dag. validate_tool_join_dag dag_sample_codec (sample_plan dag_sample_steps) dag_sample_rows = Inr dag \<and>
     distinct (ordered_step_keys dag) \<and>
     set (dict_get (dependencies dag) (ordered_step_keys dag ! 1) []) \<subseteq> set (take 1 (ordered_step_keys dag))"
proof -
  have "distinct (map ps_id (plan_steps (sample_plan dag_sample_steps)))"
    by (simp add: dag_sample_steps_def sample_plan_def sample_step_def)
  note T = dag_order_topological [OF dag_sample_ok this]
  have len: "1 < length (ordered_step_keys dag_sample)"
    by (simp add: dag_sample_def)
  show ?thesis
    by (intro exI [of _ dag_sample] conjI dag_sample_ok conjunct1 [OF T]
        conjunct1 [OF conjunct2 [OF conjunct2 [OF T], rule_format, OF len]])
qed

lemma schedule_complete:
  assumes "build_graph C plan own tops steps = Inr g" and "distinct (map ps_id tops)"
    and "distinct (map step_key steps)"
    and "filter (\<lambda>s. \<not> is_toplevel s) steps \<noteq> [] \<longrightarrow> validate_loop_iteration_shapes C own
      (filter is_toplevel steps) (filter (\<lambda>s. \<not> is_toplevel s) steps) (plan_by_id plan) = Inr ()"
  shows "if acyclic (edges_of (fst g)) then \<exists>xs. schedule C plan steps g = Inr xs
    else schedule C plan steps g = Inl RESOURCE_CONFLICT"
proof -
  let ?f = "order_key C plan (by_step_key steps) (dict_of (map (\<lambda>s. (st_id s, s)) (filter is_toplevel steps)))"
  from schedule_spec [OF assms(1-3)] obtain xs where
      xs: "kahn_order ?f (fst g) (fold dict_default (dict_keys (fst g)) (snd g)) = Inr xs"
        "schedule C plan steps g = (if length xs \<noteq> length (fst g) then Inl RESOURCE_CONFLICT else Inr xs)"
    by blast
  have key: "?f k = Inr (order_of C plan steps k)" if "k \<in> fst ` set (fst g)" for k
    using order_key_total [OF assms(1-3) that] by (auto simp: order_of_def)
  have "length xs = length (fst g) \<longleftrightarrow> acyclic (edges_of (fst g))"
    by (rule kahn_order_complete_iff [OF graph_ok_tables [OF build_graph_ok(1) [OF assms(1-3)]] key
          graph_closed [OF assms(1-3) assms(4) [rule_format]] xs(1)])
  with xs(2) show ?thesis
    by simp
qed

text \<open>C2: The scheduling step rejects exactly the cyclic graphs: on the tables built from a plan and its
  rows, with complete iterations, it always returns, with an order if the graph is acyclic and with
  a conflict otherwise.\<close>

theorem schedule_iff_acyclic:
  assumes "build_graph C plan own tops steps = Inr g" and "distinct (map ps_id tops)"
    and "distinct (map step_key steps)"
    and "filter (\<lambda>s. \<not> is_toplevel s) steps \<noteq> [] \<longrightarrow> validate_loop_iteration_shapes C own
      (filter is_toplevel steps) (filter (\<lambda>s. \<not> is_toplevel s) steps) (plan_by_id plan) = Inr ()"
  shows "if acyclic (edges_of (fst g)) then \<exists>xs. schedule C plan steps g = Inr xs
    else schedule C plan steps g = Inl RESOURCE_CONFLICT"
  using assms by (rule schedule_complete)

theorem schedule_iff_acyclic_witness:
  "let g = ([(''a'', [''b'']), (''b'', [''a''])], [(''a'', [''b'']), (''b'', [''a''])]) in
   build_graph dag_sample_codec (sample_plan dag_sample_cycle)
       \<lparr>body_to_loop = [], loop_to_body = []\<rparr> dag_sample_cycle dag_sample_rows = Inr g \<and>
   schedule dag_sample_codec (sample_plan dag_sample_cycle) dag_sample_rows g = Inl RESOURCE_CONFLICT"
proof -
  let ?g = "([(''a'', [''b'']), (''b'', [''a''])], [(''a'', [''b'']), (''b'', [''a''])])"
  have g: "build_graph dag_sample_codec (sample_plan dag_sample_cycle)
      \<lparr>body_to_loop = [], loop_to_body = []\<rparr> dag_sample_cycle dag_sample_rows = Inr ?g"
    by code_simp
  have "(''a'', ''b'') \<in> edges_of (fst ?g)" "(''b'', ''a'') \<in> edges_of (fst ?g)"
    by (simp_all add: edges_of_def dict_get_def)
  then have "(''a'', ''a'') \<in> (edges_of (fst ?g))\<^sup>+"
    by (meson trancl.simps)
  then have "\<not> acyclic (edges_of (fst ?g))"
    by (auto simp: acyclic_def)
  with schedule_iff_acyclic [OF g] g show ?thesis
    by (simp add: dag_sample_cycle_def dag_sample_rows_def sample_step_def sample_row_def is_toplevel_def Let_def)
qed

text \<open>The two adjacency tables of an accepted execution are converse: a row depends on another exactly
  when it is listed among its dependents, and both only mention rows of the execution.\<close>

theorem dag_edges_converse:
  assumes "validate_tool_join_dag C plan steps = Inr dag" and "distinct (map ps_id (plan_steps plan))"
    and "n \<in> step_key ` set steps" and "d \<in> step_key ` set steps"
  shows "(d \<in> set (dict_get (dependencies dag) n []) \<longleftrightarrow> n \<in> set (dict_get (dependents dag) d [])) \<and>
    set (dict_get (dependencies dag) n []) \<subseteq> step_key ` set steps \<and>
    set (dict_get (dependents dag) d []) \<subseteq> step_key ` set steps"
proof -
  note A = accepted_graph [OF assms(1,2)]
  from A(3) assms(4) obtain ds where ds: "map_of (dependents dag) d = Some ds"
      "set ds \<subseteq> step_key ` set steps"
      "\<forall>n \<in> step_key ` set steps. count_list ds n = count_list (dict_get (dependencies dag) n []) d"
    unfolding kahn_tables_def A(2) by blast
  from ds(3) assms(3) have "count_list ds n = count_list (dict_get (dependencies dag) n []) d"
    by blast
  then have "n \<in> set ds \<longleftrightarrow> d \<in> set (dict_get (dependencies dag) n [])"
    by (metis count_list_0_iff)
  with A(7) assms(3) ds(1,2) show ?thesis
    by (auto simp: dict_get_def)
qed

theorem dag_edges_converse_witness:
  "\<exists>dag. validate_tool_join_dag dag_sample_codec (sample_plan dag_sample_steps) dag_sample_rows = Inr dag \<and>
     (''a'' \<in> set (dict_get (dependencies dag) ''b'' []) \<longleftrightarrow> ''b'' \<in> set (dict_get (dependents dag) ''a'' []))"
  using dag_edges_converse [OF dag_sample_ok, of "''b''" "''a''"] dag_sample_ok
  by (auto simp: dag_sample_steps_def dag_sample_rows_def sample_plan_def sample_step_def sample_row_def)

text \<open>C3: The child rows of a LOOP in an accepted execution form complete, consecutive iterations 1 to N, and
  only the last one may still be running: every child has an iteration number between 1 and N, every
  iteration has a row for every body step, and a child that is not terminal belongs to iteration N.\<close>

theorem loop_iterations_shape:
  assumes "validate_tool_join_dag C plan steps = Inr dag" and "distinct (map ps_id (plan_steps plan))"
    and c: "c \<in> set steps" "parent_step_id c = Some pid"
    and N: "N = max_materialized_iteration steps pid"
  shows "(\<exists>n. iteration_no c = Some n \<and> 1 \<le> n \<and> n \<le> N) \<and>
    (\<not> terminal_status (status c) \<longrightarrow> iteration_no c = Some N) \<and>
    (\<exists>parent own. parent \<in> set steps \<and> st_id parent = pid \<and> st_type parent = LOOP \<and>
       build_loop_body_ownership C plan = Inr own \<and>
       (\<forall>n tid. 1 \<le> n \<and> n \<le> N \<and> tid \<in> set (dict_get (loop_to_body own) (step_key parent) []) \<longrightarrow>
          (\<exists>c' \<in> set steps. parent_step_id c' = Some pid \<and> iteration_no c' = Some n \<and>
             iteration_step_key pid n tid = Inr (step_key c'))))"
proof -
  from validate_dagD [OF assms(1)] obtain own tops g where run: "dag_run C plan steps dag own tops g"
    by blast
  note V = dag_runD [OF run]
  have own: "build_loop_body_ownership C plan = Inr own"
    using run by (simp add: dag_run_def)
  have dist: "distinct (map ps_id tops)"
    using assms(2) unfolding V(2) by (rule distinct_map_filter)
  let ?kids = "filter (\<lambda>s. parent_step_id s = Some pid) steps"
  let ?parents = "dict_of (map (\<lambda>s. (st_id s, s)) (filter is_toplevel steps))"
  have child: "\<not> is_toplevel c"
    using c(2) by (simp add: is_toplevel_def)
  then have "filter (\<lambda>s. \<not> is_toplevel s) steps \<noteq> []"
    using c(1) by (auto simp: filter_empty_conv)
  note chk = shapes_of_loop [OF V(5) [OF this] c]
  from build_graph_ok(4) [OF V(4) dist V(1) c(1) child] c(2) obtain parent where
      parent: "map_of ?parents pid = Some parent" "st_type parent = LOOP"
    by auto
  note pid = parent_lookup [OF parent(1)]
  have "?kids \<noteq> []"
    using c by (auto simp: filter_empty_conv)
  note D = check_childrenD [OF chk _ this parent(1) conjunct1 [OF pid] refl refl]
  have max: "max_materialized_iteration ?kids pid = N"
    by (simp add: N)
  have "\<exists>n. iteration_no c = Some n \<and> 1 \<le> n \<and> n \<le> N"
    using D(2) [of c] c unfolding max by simp
  moreover have "iteration_no c = Some N" if "\<not> terminal_status (status c)"
    using D(4) [of c] c that unfolding max by simp
  moreover have "\<exists>c' \<in> set steps. parent_step_id c' = Some pid \<and> iteration_no c' = Some n \<and>
      iteration_step_key pid n tid = Inr (step_key c')"
    if "1 \<le> n" "n \<le> N" "tid \<in> set (dict_get (loop_to_body own) (step_key parent) [])" for n tid
    using D(3) [of n tid] that unfolding max by auto
  ultimately show ?thesis
    using pid parent(2) own by auto
qed

theorem loop_iterations_shape_witness:
  "(\<exists>n. iteration_no loop_sample_child = Some n \<and> 1 \<le> n \<and> n \<le>
      max_materialized_iteration [loop_sample_parent, loop_sample_child] 1) \<and>
   \<not> terminal_status (status loop_sample_child) \<and>
   iteration_no loop_sample_child = Some (max_materialized_iteration [loop_sample_parent, loop_sample_child] 1)"
proof -
  from loop_sample_ok obtain dag where dag: "validate_tool_join_dag loop_sample_codec
      (sample_plan foreach_sample_steps) [loop_sample_parent, loop_sample_child] = Inr dag"
    by blast
  have dist: "distinct (map ps_id (plan_steps (sample_plan foreach_sample_steps)))"
    by (simp add: foreach_sample_steps_def sample_plan_def sample_step_def)
  have open_child: "\<not> terminal_status (status loop_sample_child)"
    by (simp add: loop_sample_child_def sample_row_def terminal_status_def)
  have "loop_sample_child \<in> set [loop_sample_parent, loop_sample_child]"
    by simp
  note T = loop_iterations_shape [OF dag dist this loop_sample_fields(6) refl]
  show ?thesis
    using conjunct1 [OF T] conjunct1 [OF conjunct2 [OF T]] open_child by blast
qed

text \<open>C4: In an accepted execution the eligibility questions never raise, and they mean what they say: a
  TOOL, CONDITION, APPROVAL or LOOP step may start exactly when it is pending, of that type, inside
  a running LOOP if it is a body instance, and every dependency has a row that is not intentionally
  skipped and is progression-complete; a JOIN when all its dependencies, at least one, are terminal.\<close>

theorem eligibility_characterisation:
  assumes "validate_tool_join_dag C plan steps = Inr dag" and "distinct (map ps_id (plan_steps plan))"
    and "step \<in> set steps"
  shows "tool_structurally_eligible C step dag (by_step_key steps) = Inr
      (status step = PENDING \<and> st_type step = TOOL \<and> parent_loop_running_if_body step (by_step_key steps)
       \<and> deps_done C dag steps step) \<and>
    condition_structurally_eligible C step dag (by_step_key steps) = Inr
      (status step = PENDING \<and> st_type step = CONDITION \<and> parent_loop_running_if_body step (by_step_key steps)
       \<and> deps_done C dag steps step) \<and>
    approval_structurally_eligible C step dag (by_step_key steps) = Inr
      (status step = PENDING \<and> st_type step = APPROVAL \<and> deps_done C dag steps step) \<and>
    loop_structurally_eligible C step dag (by_step_key steps) = Inr
      (status step = PENDING \<and> st_type step = LOOP \<and> is_toplevel step \<and> deps_done C dag steps step) \<and>
    join_barrier_ready step dag (by_step_key steps) = Inr
      (status step = PENDING \<and> st_type step = JOIN \<and> parent_loop_running_if_body step (by_step_key steps)
       \<and> dict_get (dependencies dag) (step_key step) [] \<noteq> []
       \<and> (\<forall>d \<in> set (dict_get (dependencies dag) (step_key step) []).
            \<exists>dep \<in> set steps. step_key dep = d \<and> terminal_status (status dep)))"
  unfolding join_ready_iff [OF assms]
  by (simp add: tool_structurally_eligible_def condition_structurally_eligible_def is_toplevel_def
      approval_structurally_eligible_def loop_structurally_eligible_def deps_allow_iff [OF assms])

theorem eligibility_characterisation_witness:
  "tool_structurally_eligible dag_sample_codec (dag_sample_rows ! 1) dag_sample (by_step_key dag_sample_rows)
     = Inr (deps_done dag_sample_codec dag_sample dag_sample_rows (dag_sample_rows ! 1))"
proof -
  have "distinct (map ps_id (plan_steps (sample_plan dag_sample_steps)))"
    by (simp add: dag_sample_steps_def sample_plan_def sample_step_def)
  moreover have "dag_sample_rows ! 1 \<in> set dag_sample_rows"
    by (simp add: dag_sample_rows_def)
  ultimately have "tool_structurally_eligible dag_sample_codec (dag_sample_rows ! 1) dag_sample (by_step_key dag_sample_rows)
     = Inr (status (dag_sample_rows ! 1) = PENDING \<and> st_type (dag_sample_rows ! 1) = TOOL
       \<and> parent_loop_running_if_body (dag_sample_rows ! 1) (by_step_key dag_sample_rows)
       \<and> deps_done dag_sample_codec dag_sample dag_sample_rows (dag_sample_rows ! 1))"
    using eligibility_characterisation [OF dag_sample_ok] by blast
  then show ?thesis
    by (simp add: parent_loop_running_if_body_def) (simp add: dag_sample_rows_def sample_row_def sample_step_def)
qed

text \<open>The DAG-wide stop skips every pending row and no other, reports exactly their keys, keeps all keys,
  and is idempotent; cancelling the unused READY TOOL rows has the same contract, and afterwards no
  pending and no unused READY TOOL row is left.\<close>

theorem stop_sweeps_settle:
  "let (rows', skipped) = skip_all_pending rows now; (rows'', cancelled) = cancel_unused_ready_tools rows' now in
   (\<forall>k. map_of rows'' k = map_option (\<lambda>s. if status s = PENDING then mark_skipped now s
       else if unused_ready_tool s then mark_cancelled now s else s) (map_of rows k)) \<and>
   skipped = [step_key s. (k, s) \<leftarrow> rows, status s = PENDING] \<and>
   cancelled = [step_key s. (k, s) \<leftarrow> rows, unused_ready_tool s] \<and>
   map step_key (dict_values rows'') = map step_key (dict_values rows) \<and>
   (\<forall>s \<in> set (dict_values rows''). status s \<noteq> PENDING \<and> \<not> unused_ready_tool s) \<and>
   skip_all_pending rows'' later = (rows'', []) \<and> cancel_unused_ready_tools rows'' later = (rows'', [])"
proof -
  let ?r1 = "fst (skip_all_pending rows now)"
  let ?r2 = "fst (cancel_unused_ready_tools ?r1 now)"
  have skip_not_unused: "\<not> unused_ready_tool (mark_skipped now s)" for s
    by (simp add: unused_ready_tool_def)
  have pend_not_unused: "status s = PENDING \<Longrightarrow> \<not> unused_ready_tool s" for s
    by (simp add: unused_ready_tool_def)
  have rows: "map_of ?r2 k = map_option (\<lambda>s. if status s = PENDING then mark_skipped now s
      else if unused_ready_tool s then mark_cancelled now s else s) (map_of rows k)" for k
    unfolding cancel_unused_ready_tools_def skip_all_pending_def unused.sweep_rows pending.sweep_rows
    by (cases "map_of rows k") (simp_all add: skip_not_unused)
  have "snd (skip_all_pending rows now) = [step_key s. (k, s) \<leftarrow> rows, status s = PENDING]"
    unfolding skip_all_pending_def sweep_def by (induction rows) auto
  moreover have "snd (cancel_unused_ready_tools ?r1 now) = [step_key s. (k, s) \<leftarrow> rows, unused_ready_tool s]"
    unfolding skip_all_pending_def cancel_unused_ready_tools_def sweep_def
    by (induction rows) (auto simp: unused_ready_tool_def split: if_splits)
  moreover have "map step_key (dict_values ?r2) = map step_key (dict_values rows)"
    unfolding cancel_unused_ready_tools_def skip_all_pending_def unused.sweep_step_keys pending.sweep_step_keys ..
  moreover have none: "status s \<noteq> PENDING \<and> \<not> unused_ready_tool s" if "s \<in> set (dict_values ?r2)" for s
    using that unfolding cancel_unused_ready_tools_def skip_all_pending_def sweep_def
    by (auto simp: skip_not_unused pend_not_unused mark_cancelled_def unused_ready_tool_def split: if_splits)
  moreover have "skip_all_pending ?r2 later = (?r2, [])"
  proof -
    have "map (\<lambda>(k, s). (k, if status s = PENDING then mark_skipped later s else s)) rs = rs
        \<and> filter (\<lambda>(k, s). status s = PENDING) rs = []" if "\<And>s. s \<in> set (dict_values rs) \<Longrightarrow> status s \<noteq> PENDING" for rs
      using that by (induction rs) auto
    from this [of ?r2] none show ?thesis
      by (simp add: skip_all_pending_def [of _ later] sweep_def [of _ "mark_skipped later"])
  qed
  moreover have "cancel_unused_ready_tools ?r2 later = (?r2, [])"
    unfolding cancel_unused_ready_tools_def by (rule unused.sweep_again)
  ultimately show ?thesis
    using rows by (simp add: Let_def split_beta)
qed

theorem stop_sweeps_settle_witness:
  "snd (skip_all_pending [(''a'', sample_row 1 (sample_step ''a'' TOOL []) PENDING)] 5) = [''a'']"
  using stop_sweeps_settle [of "[(''a'', sample_row 1 (sample_step ''a'' TOOL []) PENDING)]" 5]
  by (simp add: Let_def split_beta) (simp add: sample_row_def sample_step_def)

text \<open>The stop cause of a wave does not depend on the order in which the outcomes arrive: it is a cause
  with the least precedence, plan position and step key, and with distinct keys any permutation of
  the causes gives the same answer.\<close>

theorem stop_cause_deterministic:
  assumes "inj_on stop_key (set causes)" and "mset causes' = mset causes" and "causes \<noteq> []"
  shows "\<exists>c \<in> set causes. pick_stop_cause causes = Some c \<and> pick_stop_cause causes' = Some c \<and>
    (\<forall>c' \<in> set causes. stop_key c \<le> stop_key c')"
proof -
  have set': "set causes' = set causes" "causes' \<noteq> []"
    using assms(2,3) by (metis set_mset_mset, auto)
  let ?c = "hd (sort_key stop_key causes)" and ?c' = "hd (sort_key stop_key causes')"
  have c: "?c \<in> set causes" "\<forall>x \<in> set causes. stop_key ?c \<le> stop_key x"
    using sort_hd_min [OF assms(3), of stop_key] by auto
  have c': "?c' \<in> set causes" "\<forall>x \<in> set causes. stop_key ?c' \<le> stop_key x"
    using sort_hd_min [OF set'(2), of stop_key] set'(1) by auto
  from c c' have "stop_key ?c = stop_key ?c'"
    by (meson antisym)
  with assms(1) c(1) c'(1) have "?c = ?c'"
    by (auto dest: inj_onD)
  with c assms(3) set'(2) show ?thesis
    by (auto simp: pick_stop_cause_def)
qed

definition stop_sample :: "string \<Rightarrow> string \<Rightarrow> stop_cause" where
  "stop_sample k kind = \<lparr>sc_step_key = k, sc_plan_index = 0, sc_kind = kind, sc_step_status = FAILED,
     sc_error_code = None\<rparr>"

theorem stop_cause_deterministic_witness:
  "pick_stop_cause [stop_sample ''a'' ''FAIL_EXECUTION_FAILED'', stop_sample ''b'' ''FATAL'']
     = pick_stop_cause [stop_sample ''b'' ''FATAL'', stop_sample ''a'' ''FAIL_EXECUTION_FAILED'']"
  using stop_cause_deterministic [of "[stop_sample ''a'' ''FAIL_EXECUTION_FAILED'', stop_sample ''b'' ''FATAL'']"
      "[stop_sample ''b'' ''FATAL'', stop_sample ''a'' ''FAIL_EXECUTION_FAILED'']"]
  by (auto simp: stop_key_def stop_sample_def)

text \<open>What a JOIN decides depends only on the set of its dependencies' statuses: ALL_SUCCESS wants all
  succeeded, ANY_SUCCESS wants one, ALL_COMPLETE nothing; and a JOIN that succeeds still succeeds
  when some of the failed dependencies succeed instead.\<close>

theorem join_policy_monotone:
  assumes "list_all2 (\<lambda>s t. s = SUCCEEDED \<longrightarrow> t = SUCCEEDED) sts sts'"
  shows "(fst (evaluate_join_policy policy sts) = SUCCEEDED \<longleftrightarrow>
      (case policy of ALL_SUCCESS \<Rightarrow> set sts \<subseteq> {SUCCEEDED} | ALL_COMPLETE \<Rightarrow> True
       | ANY_SUCCESS \<Rightarrow> SUCCEEDED \<in> set sts)) \<and>
    (snd (evaluate_join_policy policy sts) = None \<longleftrightarrow> fst (evaluate_join_policy policy sts) = SUCCEEDED) \<and>
    (fst (evaluate_join_policy policy sts) = SUCCEEDED \<longrightarrow> fst (evaluate_join_policy policy sts') = SUCCEEDED)"
proof -
  have "list_all (\<lambda>s. s = SUCCEEDED) sts \<Longrightarrow> list_all (\<lambda>s. s = SUCCEEDED) sts'"
      "list_ex (\<lambda>s. s = SUCCEEDED) sts \<Longrightarrow> list_ex (\<lambda>s. s = SUCCEEDED) sts'"
    using assms by (induction rule: list_all2_induct) auto
  then show ?thesis
    by (cases policy) (auto simp: list_all_iff list_ex_iff)
qed

theorem join_policy_monotone_witness:
  "fst (evaluate_join_policy ANY_SUCCESS [FAILED, SUCCEEDED]) = SUCCEEDED \<and>
   fst (evaluate_join_policy ANY_SUCCESS [SUCCEEDED, SUCCEEDED]) = SUCCEEDED"
  using join_policy_monotone [of "[FAILED, SUCCEEDED]" "[SUCCEEDED, SUCCEEDED]" ANY_SUCCESS] by simp

end
