(* ===== verification/LeaseSafety.thy ===== *)
theory LeaseSafety
  imports RecoveryService DagCorrectness
begin

section \<open>The lease protocol of an AgentRequest execution\<close>

text \<open>
  Claim, renewal, cancellation and recovery (\<open>ClaimService\<close>, \<open>CancelService\<close>,
  \<open>RecoveryService\<close>) as the steps of a
  transition system.  A state is the database and the list of lease tokens \<open>uuid.uuid4()\<close> has
  handed out; a step that calls \<open>uuid4\<close> gets a token that is not in the list.  The locale
  \<open>lease_protocol\<close> states what fencing by tokens needs of the steps; it is interpreted on these
  services.
\<close>

subsection \<open>Fencing, abstractly\<close>

locale lease_protocol =
  fixes step :: "'w \<Rightarrow> 'w \<Rightarrow> bool" and good :: "'w \<Rightarrow> bool"
    and holder :: "'w \<Rightarrow> uuid option" and issued :: "'w \<Rightarrow> uuid set"
  assumes good_step: "good w \<Longrightarrow> step w w' \<Longrightarrow> good w'"
    and issued_step: "good w \<Longrightarrow> step w w' \<Longrightarrow> issued w \<subseteq> issued w'"
    and holder_step: "good w \<Longrightarrow> step w w' \<Longrightarrow> holder w' = Some t \<Longrightarrow> holder w = Some t \<or> t \<notin> issued w"
begin

lemma good_reach: "step\<^sup>*\<^sup>* w w' \<Longrightarrow> good w \<Longrightarrow> good w'"
  by (induction rule: rtranclp_induct) (auto intro: good_step)

lemma issued_reach: "step\<^sup>*\<^sup>* w w' \<Longrightarrow> good w \<Longrightarrow> issued w \<subseteq> issued w'"
proof (induction rule: rtranclp_induct)
  case (step y z)
  then show ?case
    using issued_step [of y z] good_reach [of w y] by blast
qed simp

text \<open>A token that has lost the lease never holds it again.\<close>

lemma fenced_forever:
  assumes "step\<^sup>*\<^sup>* w w'" and "good w" and "t \<in> issued w" and "holder w \<noteq> Some t"
  shows "holder w' \<noteq> Some t"
  using assms
proof (induction rule: rtranclp_induct)
  case (step y z)
  have "t \<in> issued y"
    using issued_reach [OF step.hyps(1) step.prems(1)] step.prems(2) by blast
  with step holder_step [OF good_reach [OF step.hyps(1) step.prems(1)] step.hyps(2), of t] show ?case
    by blast
qed simp

end

subsection \<open>Rows\<close>

definition row_ok :: "execution_row \<Rightarrow> bool" where
  "row_ok ex \<longleftrightarrow>
     source_type ex = ''AGENT_REQUEST'' \<and>
     (ex_status ex = E_QUEUED \<and> unleased ex \<or>
      ex_status ex = E_RUNNING \<and> leased ex \<and> ex_started_at ex \<noteq> None \<or>
      ex_status ex = E_CANCEL_REQUESTED \<and> leased ex \<and> ex_started_at ex \<noteq> None \<and> cancel_requested_at ex \<noteq> None \<or>
      ex_status ex = E_CANCELLED \<and> unleased ex \<and> ex_finished_at ex \<noteq> None \<or>
      ex_status ex = E_FAILED \<and> unleased ex \<and> ex_finished_at ex \<noteq> None)"

lemma find_row [simp]:
  "find (\<lambda>ex. ex_id ex = eid) (case db_execution d of None \<Rightarrow> [] | Some ex \<Rightarrow> [ex]) = Some r \<longleftrightarrow>
     db_execution d = Some r \<and> ex_id r = eid"
  by (auto split: option.splits)

lemma find_no_row [simp]:
  "find (\<lambda>ex. ex_id ex = eid) (case db_execution d of None \<Rightarrow> [] | Some ex \<Rightarrow> [ex]) = None \<longleftrightarrow>
     (\<forall>r. db_execution d = Some r \<longrightarrow> ex_id r \<noteq> eid)"
  by (auto split: option.splits)

lemma claimed_row_simps [simp]:
  "ex_id (claimed_row lease w t ts ex) = ex_id ex"
  "source_type (claimed_row lease w t ts ex) = source_type ex"
  "ex_status (claimed_row lease w t ts ex) = E_RUNNING"
  "lease_token (claimed_row lease w t ts ex) = Some t"
  "worker_id (claimed_row lease w t ts ex) = Some w"
  "lease_expires_at (claimed_row lease w t ts ex) = Some (ts + lease * 1000000)"
  "leased (claimed_row lease w t ts ex)"
  "ex_started_at (claimed_row lease w t ts ex) = Some ts"
  "schedule_occurrence_id (claimed_row lease w t ts ex) = schedule_occurrence_id ex"
  by (simp_all add: claimed_row_def leased_def)

lemma assign_lease_simps [simp]:
  "ex_id (assign_lease lease w t ts ex) = ex_id ex"
  "source_type (assign_lease lease w t ts ex) = source_type ex"
  "ex_status (assign_lease lease w t ts ex) = ex_status ex"
  "lease_token (assign_lease lease w t ts ex) = Some t"
  "worker_id (assign_lease lease w t ts ex) = Some w"
  "lease_expires_at (assign_lease lease w t ts ex) = Some (ts + lease * 1000000)"
  "leased (assign_lease lease w t ts ex)"
  "ex_started_at (assign_lease lease w t ts ex) = ex_started_at ex"
  "policy_snapshot (assign_lease lease w t ts ex) = policy_snapshot ex"
  by (simp_all add: assign_lease_def leased_def)

lemma fail_row_simps [simp]:
  "ex_id (fail_row code ts ex) = ex_id ex"
  "source_type (fail_row code ts ex) = source_type ex"
  "ex_status (fail_row code ts ex) = E_FAILED"
  "unleased (fail_row code ts ex)"
  "lease_token (fail_row code ts ex) = None"
  "ex_error_code (fail_row code ts ex) = Some code"
  "ex_finished_at (fail_row code ts ex) = Some ts"
  by (simp_all add: fail_row_def clear_lease_def unleased_def)

lemma finalize_row_simps [simp]:
  "ex_id (finalize_row st code steps ts ex) = ex_id ex"
  "source_type (finalize_row st code steps ts ex) = source_type ex"
  "ex_status (finalize_row st code steps ts ex) = st"
  "unleased (finalize_row st code steps ts ex)"
  "lease_token (finalize_row st code steps ts ex) = None"
  "ex_finished_at (finalize_row st code steps ts ex) = Some ts"
  by (simp_all add: finalize_row_def clear_lease_def unleased_def)

subsection \<open>What each service does to the execution row\<close>

lemma promote_roots_row:
  "promote_roots ts by_key keys slots d = Inr (ids, d') \<Longrightarrow>
     db_execution d' = db_execution d \<and> db_occurrences d' = db_occurrences d \<and>
     db_attempts d' = db_attempts d \<and> db_calls d' = db_calls d"
  by (induction keys arbitrary: slots d ids)
    (force simp: Let_def put_step_def split: if_splits)+

lemma mark_occurrence_row:
  "mark_occurrence_running ex d = Inr d' \<Longrightarrow> db_execution d' = db_execution d \<and> db_steps d' = db_steps d"
  by (auto simp: mark_occurrence_running_def split: option.splits if_splits)

text \<open>A claim that gets past the guards: the checks, the promotion and the occurrence.\<close>

definition claim_run :: "(json \<Rightarrow> execution_plan option) \<Rightarrow> codec \<Rightarrow> (rat \<Rightarrow> string) \<Rightarrow> execution_row \<Rightarrow> execution_row
    \<Rightarrow> time \<Rightarrow> db \<Rightarrow> tool_join_dag \<Rightarrow> uuid list \<Rightarrow> db \<Rightarrow> db \<Rightarrow> bool" where
  "claim_run vplan C fr ex ex' ts d dag ids d2 d' \<longleftrightarrow>
     claim_checks vplan C fr ex d = Inr dag \<and>
     promote_roots ts (by_step_key (list_steps d (ex_id ex))) (root_tool_keys dag) (dag_max_parallelism dag)
       (emit_execution_status_changed ex' E_QUEUED ts (put_execution ex' d)) = Inr (ids, d2) \<and>
     (if source_type ex = ''SCHEDULE_OCCURRENCE'' then mark_occurrence_running ex' d2 else Inr d2) = Inr d'"

lemma claim_queued:
  assumes "normalize_worker_id w = Inr worker" and "db_execution d = Some ex" and "ex_status ex = E_QUEUED"
  shows "claim vplan C fr lease (ex_id ex) w token ts d = Inr (out, d') \<longleftrightarrow>
    (\<exists>dag ids d2. claim_run vplan C fr ex (claimed_row lease worker token ts ex) ts d dag ids d2 d' \<and>
       out = \<lparr>co_execution_id = ex_id ex, claimed = True, co_status = Some E_RUNNING,
              co_worker_id = Some worker, co_lease_token = Some token,
              co_lease_expires_at = Some (ts + lease * 1000000), ready_step_ids = ids, co_reason = None\<rparr>)"
  unfolding claim_def Let_def claim_run_def using assms
  by (simp only: and_then.simps list.case option.case find.simps if_True refl simp_thms if_False
        and_then_Inr_iff split_paired_Ex prod.case sum.inject prod.inject) blast

lemma claim_not_queued:
  assumes "normalize_worker_id w = Inr worker" and "db_execution d = Some ex" and "ex_status ex \<noteq> E_QUEUED"
  shows "claim vplan C fr lease (ex_id ex) w token ts d =
    Inr (\<lparr>co_execution_id = ex_id ex, claimed = False, co_status = Some (ex_status ex),
          co_worker_id = worker_id ex, co_lease_token = None, co_lease_expires_at = lease_expires_at ex,
          ready_step_ids = [], co_reason = Some ''STALE_DELIVERY''\<rparr>, d)"
  using assms by (simp add: claim_def)

lemma claim_run_row:
  assumes "claim_run vplan C fr ex ex' ts d dag ids d2 d'"
  shows "db_execution d' = Some ex'"
proof -
  have "db_execution d2 = Some ex'"
    using assms by (auto simp: claim_run_def dest: promote_roots_row)
  with assms show ?thesis
    by (auto simp: claim_run_def split: if_splits dest: mark_occurrence_row)
qed

lemma claim_cases:
  assumes "claim vplan C fr lease eid w token ts d = Inr (out, d')"
  obtains (Stale) "d' = d" "\<not> claimed out"
  | (Claimed) worker ex where "normalize_worker_id w = Inr worker"
      "db_execution d = Some ex" "ex_id ex = eid" "ex_status ex = E_QUEUED"
      "db_execution d' = Some (claimed_row lease worker token ts ex)" "claimed out"
proof -
  from assms obtain worker where worker: "normalize_worker_id w = Inr worker"
    by (auto simp: claim_def)
  show thesis
  proof (cases "\<exists>ex. db_execution d = Some ex \<and> ex_id ex = eid \<and> ex_status ex = E_QUEUED")
    case False
    with assms have "d' = d \<and> \<not> claimed out"
      by (auto simp: claim_def worker split: option.splits if_splits)
    then show thesis
      by (auto intro: Stale)
  next
    case True
    then obtain ex where ex: "db_execution d = Some ex" "ex_id ex = eid" "ex_status ex = E_QUEUED"
      by blast
    with assms claim_queued [OF worker ex(1,3)] have
      "db_execution d' = Some (claimed_row lease worker token ts ex)" "claimed out"
      by (auto dest: claim_run_row)
    with worker ex show thesis
      by (rule_tac Claimed)
  qed
qed

lemma renew_lease_row:
  assumes "normalize_worker_id w = Inr worker" and "db_execution d = Some ex"
  shows "renew_lease lease (ex_id ex) w token ts d =
    (if ex_status ex \<noteq> E_RUNNING \<or> worker_id ex \<noteq> Some worker \<or> lease_token ex \<noteq> Some token
        \<or> (case lease_expires_at ex of None \<Rightarrow> True | Some t \<Rightarrow> t \<le> ts)
     then Inl RESOURCE_CONFLICT
     else Inr (ts + lease * 1000000,
               put_execution (ex\<lparr>heartbeat_at := Some ts, lease_expires_at := Some (ts + lease * 1000000),
                                 ex_lock_version := ex_lock_version ex + 1\<rparr>) d))"
  using assms by (simp add: renew_lease_def Let_def)

lemma renew_lease_found:
  assumes "renew_lease lease eid w token ts d = Inr r"
  obtains worker ex where "normalize_worker_id w = Inr worker" "db_execution d = Some ex" "ex_id ex = eid"
proof -
  from assms obtain worker where worker: "normalize_worker_id w = Inr worker"
    by (auto simp: renew_lease_def)
  with assms show thesis
    using that by (cases "db_execution d") (simp_all add: renew_lease_def split: if_splits)
qed

lemma renew_cases:
  assumes "renew_lease lease eid w token ts d = Inr (expires, d')"
  obtains worker ex where "normalize_worker_id w = Inr worker" "db_execution d = Some ex" "ex_id ex = eid"
    "ex_status ex = E_RUNNING" "worker_id ex = Some worker" "lease_token ex = Some token"
    "db_execution d' = Some (ex\<lparr>heartbeat_at := Some ts, lease_expires_at := Some (ts + lease * 1000000),
                               ex_lock_version := ex_lock_version ex + 1\<rparr>)"
proof -
  from renew_lease_found [OF assms] obtain worker ex where
      row: "normalize_worker_id w = Inr worker" "db_execution d = Some ex" "ex_id ex = eid" .
  with assms have "ex_status ex = E_RUNNING" "worker_id ex = Some worker" "lease_token ex = Some token"
    "db_execution d' = Some (ex\<lparr>heartbeat_at := Some ts, lease_expires_at := Some (ts + lease * 1000000),
                               ex_lock_version := ex_lock_version ex + 1\<rparr>)"
    using renew_lease_row [OF row(1,2), of lease token ts] by (auto split: if_splits)
  with row show thesis
    by (rule_tac that)
qed

lemma terminalize_row [simp]:
  "db_execution (terminalize_orphan_attempt_tool_call a c ts t r d) = db_execution d"
  by (simp add: terminalize_orphan_attempt_tool_call_def)

lemma apply_decision_row:
  assumes "apply_decision ex step dec worker token ts d = Inr (out, d')"
  shows "taken_over out" and "ro_decision out = dec"
    and "if invoke_runner out
         then db_execution d' = Some ex \<and> ro_worker_id out = Some worker \<and> ro_lease_token out = Some token
         else db_execution d' = Some (fail_row ''WORKER_LEASE_EXPIRED'' ts ex)"
  using assms
  by (auto simp: apply_decision_def keep_lease_def drop_lease_def fail_execution_step_def Let_def
      split: recovery_decision.splits)

lemma fail_inconsistent_row:
  "db_execution (fail_inconsistent ex ts d) = Some (fail_row ''RECOVERY_INCONSISTENT_EVIDENCE'' ts ex)"
  by (simp add: fail_inconsistent_def Let_def)

text \<open>The two ways a takeover ends: with a new lease, or failed and lease free.\<close>

definition taken_row :: "int \<Rightarrow> string \<Rightarrow> uuid \<Rightarrow> time \<Rightarrow> execution_row \<Rightarrow> recovery_outcome \<Rightarrow> execution_row \<Rightarrow> bool" where
  "taken_row lease worker token ts ex out ex' \<longleftrightarrow>
     taken_over out \<and>
     (if invoke_runner out
      then ex' = assign_lease lease worker token ts ex \<and> ro_worker_id out = Some worker \<and> ro_lease_token out = Some token
      else \<exists>code. ex' = fail_row code ts (assign_lease lease worker token ts ex))"

lemma recover_foundation_row:
  assumes "recover_foundation E lease ex worker token ts d = Inr (out, d')"
  shows "\<exists>ex'. db_execution d' = Some ex' \<and> taken_row lease worker token ts ex out ex'"
proof (cases "and_then (lock_foundation_step ex d) (\<lambda>step. and_then (decide E ex step d) (\<lambda>dec. Inr (step, dec)))")
  case (Inl e)
  with assms show ?thesis
    by (cases e) (auto simp: recover_foundation_def Let_def taken_row_def drop_lease_def fail_inconsistent_row
        split: if_splits)
next
  case (Inr p)
  obtain step dec where p: "p = (step, dec)"
    by (cases p)
  with Inr assms have run: "apply_decision (assign_lease lease worker token ts ex) step dec worker token ts d = Inr (out, d')"
    by (simp add: recover_foundation_def)
  from apply_decision_row [OF run] show ?thesis
    by (auto simp: taken_row_def split: if_splits)
qed

lemma reconcile_row:
  assumes "reconcile_cancel_requested_locked ex now d = Inr (out, d')" and "db_execution d = Some ex"
  shows "db_execution d' = Some ex \<or>
    (\<exists>st code steps. st \<in> {E_FAILED, E_CANCELLED} \<and> db_execution d' = Some (finalize_row st code steps now ex))"
  using assms unfolding reconcile_cancel_requested_locked_def Let_def
  by (fastforce simp: write_execution_def finalize_cancelled_def split: if_splits list.splits)

lemma recover_expired_row:
  assumes "recover_expired_cancel_requested_locked ex now d = Inr (out, d')" and "db_execution d = Some ex"
  shows "db_execution d' = Some ex \<or>
    (\<exists>st code steps. st \<in> {E_FAILED, E_CANCELLED} \<and> db_execution d' = Some (finalize_row st code steps now ex))"
proof (cases "ex_status ex = E_CANCEL_REQUESTED")
  case True
  let ?d1 = "fold (mark_started_call_unknown (ex_id ex) now) (list_started_tool_calls d (ex_id ex)) d"
  let ?d2 = "fold (lift_step now) (sort_key (\<lambda>s. uuid_str (st_id s)) (list_steps ?d1 (ex_id ex))) ?d1"
  from assms(1) True have "reconcile_cancel_requested_locked ex now ?d2 = Inr (out, d')"
    by (simp add: recover_expired_cancel_requested_locked_def Let_def)
  then show ?thesis
    by (rule reconcile_row) (simp add: assms(2))
next
  case False
  with assms show ?thesis
    by (auto simp: recover_expired_cancel_requested_locked_def split: if_splits)
qed

lemma recover_cases:
  assumes "recover E M lease eid w token ts d = Inr (out, d')"
    and "pred_option row_ok (db_execution d)"
  obtains (Untouched) "db_execution d' = db_execution d"
  | (Taken) worker ex ex' where "normalize_worker_id w = Inr worker" "db_execution d = Some ex" "ex_id ex = eid"
      "ex_status ex = E_RUNNING" "row_ok ex" "recover_route ex ts = Route_Foundation"
      "db_execution d' = Some ex'" "taken_row lease worker token ts ex out ex'"
  | (Cancelled) ex st code steps where "db_execution d = Some ex" "row_ok ex" "st \<in> {E_FAILED, E_CANCELLED}"
      "db_execution d' = Some (finalize_row st code steps ts ex)"
proof -
  from assms(1) obtain worker where worker: "normalize_worker_id w = Inr worker"
    by (auto simp: recover_def)
  show thesis
  proof (cases "\<exists>ex. db_execution d = Some ex \<and> ex_id ex = eid")
    case False
    then have "find (\<lambda>ex. ex_id ex = eid) (case db_execution d of None \<Rightarrow> [] | Some ex \<Rightarrow> [ex]) = None"
      unfolding find_no_row by blast
    with assms(1) have "d' = d"
      by (simp add: recover_def worker)
    then show thesis
      by (auto intro: Untouched)
  next
    case True
    then obtain ex where ex: "db_execution d = Some ex" "ex_id ex = eid"
      by blast
    with assms(2) have ok: "row_ok ex"
      by simp
    show thesis
    proof (cases "recover_route ex ts")
      case Route_Foundation
      with ex assms(1) have "recover_foundation E lease ex worker token ts d = Inr (out, d')"
        by (simp add: recover_def worker)
      from recover_foundation_row [OF this] obtain ex' where
        "db_execution d' = Some ex'" "taken_row lease worker token ts ex out ex'" by blast
      moreover have "ex_status ex = E_RUNNING"
        using Route_Foundation by (simp add: recover_route_def split: if_splits)
      ultimately show thesis
        using worker ex ok Route_Foundation by (rule_tac Taken) simp_all
    next
      case Route_Cancel
      with ex assms(1) have "recover_cancel_requested ex ts d = Inr (out, d')"
        by (simp add: recover_def worker)
      then consider "d' = d" | out' where "recover_expired_cancel_requested_locked ex ts d = Inr (out', d')"
        by (auto simp: recover_cancel_requested_def split: if_splits)
      then show thesis
      proof cases
        case 1
        then show ?thesis
          by (auto intro: Untouched)
      next
        case 2
        from recover_expired_row [OF this ex(1)] show ?thesis
          using ex ok by (auto intro: Untouched Cancelled)
      qed
    next
      case Route_Workflow
      with ok have False
        by (auto simp: recover_route_def row_ok_def split: if_splits)
      then show ?thesis ..
    next
      case Route_NoOp
      with ex assms(1) have "d' = d"
        by (simp add: recover_def worker)
      then show thesis
        by (auto intro: Untouched)
    qed
  qed
qed

lemma apply_cancellation_row:
  assumes "apply_cancellation_locked ex now who reason d = Inr (out, d')" and "db_execution d = Some ex"
  obtains (Same) "d' = d"
  | (Immediate) ex1 steps where "ex1 = set_cancel_metadata_once now who reason ex"
      "db_execution d' = Some (finalize_cancelled steps now ex1)"
  | (Requested) ex1 where "ex1 = set_cancel_metadata_once now who reason ex" "ex_status ex = E_RUNNING"
      "db_execution d' = Some (ex1\<lparr>ex_status := E_CANCEL_REQUESTED, ex_lock_version := ex_lock_version ex1 + 1\<rparr>)"
proof -
  consider (Nothing) "d' = d" | (Cancels) "immediate_status (ex_status ex) \<or> ex_status ex = E_RUNNING"
      "ex_status ex \<notin> {E_CANCELLED, E_CANCEL_REQUESTED}" "\<not> non_cancel_terminal (ex_status ex)"
    using assms(1)
    by (cases "ex_status ex") (simp_all add: apply_cancellation_locked_def immediate_status_def non_cancel_terminal_def)
  then show thesis
  proof cases
    case Nothing
    then show ?thesis
      by (rule Same)
  next
    case Cancels
    define ex1 where "ex1 = set_cancel_metadata_once now who reason ex"
    show ?thesis
    proof (cases "immediate_status (ex_status ex) \<or> ex_status ex = E_RUNNING \<and>
        list_started_tool_calls d (ex_id ex) = []")
      case True
      then have "\<exists>steps. db_execution d' = Some (finalize_cancelled steps now ex1)"
        using assms(1) Cancels by (auto simp: apply_cancellation_locked_def Let_def write_execution_def ex1_def)
      then show ?thesis
        using Immediate [OF ex1_def] by blast
    next
      case False
      then have "db_execution d' =
          Some (ex1\<lparr>ex_status := E_CANCEL_REQUESTED, ex_lock_version := ex_lock_version ex1 + 1\<rparr>)"
        using assms(1) Cancels by (auto simp: apply_cancellation_locked_def Let_def write_execution_def ex1_def)
      moreover have "ex_status ex = E_RUNNING"
        using False Cancels(1) by simp
      ultimately show ?thesis
        using Requested [OF ex1_def] by blast
    qed
  qed
qed

subsection \<open>The transition system\<close>

record lease_world =
  lw_db :: db
  lw_tokens :: "uuid list"

inductive lease_step :: "lineage_env \<Rightarrow> recovery_modules \<Rightarrow> int \<Rightarrow> lease_world \<Rightarrow> lease_world \<Rightarrow> bool"
  for E M lease where
  claim_step: "claim (le_vplan E) (le_codec E) (le_repr E) lease eid w token ts (lw_db s) = Inr (out, d') \<Longrightarrow>
      token \<notin> set (lw_tokens s) \<Longrightarrow>
      lease_step E M lease s \<lparr>lw_db = d', lw_tokens = token # lw_tokens s\<rparr>"
| renew_step: "renew_lease lease eid w token ts (lw_db s) = Inr (expires, d') \<Longrightarrow>
      lease_step E M lease s \<lparr>lw_db = d', lw_tokens = lw_tokens s\<rparr>"
| recover_step: "recover E M lease eid w token ts (lw_db s) = Inr (out, d') \<Longrightarrow>
      token \<notin> set (lw_tokens s) \<Longrightarrow>
      lease_step E M lease s \<lparr>lw_db = d', lw_tokens = token # lw_tokens s\<rparr>"
| cancel_step: "apply_cancellation_locked ex ts who reason (lw_db s) = Inr (out, d') \<Longrightarrow>
      db_execution (lw_db s) = Some ex \<Longrightarrow>
      lease_step E M lease s \<lparr>lw_db = d', lw_tokens = lw_tokens s\<rparr>"

definition lease_holder :: "lease_world \<Rightarrow> uuid option" where
  "lease_holder s = Option.bind (db_execution (lw_db s)) lease_token"

definition lease_world_ok :: "lease_world \<Rightarrow> bool" where
  "lease_world_ok s \<longleftrightarrow>
     pred_option row_ok (db_execution (lw_db s)) \<and> pred_option (\<lambda>t. t \<in> set (lw_tokens s)) (lease_holder s)"

lemma lease_world_okD:
  assumes "lease_world_ok s" and "db_execution (lw_db s) = Some ex"
  shows "row_ok ex" and "lease_token ex = Some t \<Longrightarrow> t \<in> set (lw_tokens s)"
  using assms by (auto simp: lease_world_ok_def lease_holder_def)

lemma lease_world_ok_rows: "lease_world_ok s \<Longrightarrow> pred_option row_ok (db_execution (lw_db s))"
  by (simp add: lease_world_ok_def)

lemma row_ok_claimed [simp]: "row_ok (claimed_row lease w t ts ex) \<longleftrightarrow> source_type ex = ''AGENT_REQUEST''"
  by (simp add: row_ok_def)

lemma row_ok_taken:
  assumes "taken_row lease worker token ts ex out ex'" and "row_ok ex" and "ex_status ex = E_RUNNING"
  shows "row_ok ex'" and "lease_token ex' = (if invoke_runner out then Some token else None)"
  using assms by (auto simp: taken_row_def row_ok_def split: if_splits)

text \<open>What one step does to the invariant and to the holder of the lease.\<close>

lemma lease_step_effect:
  assumes "lease_step E M lease s s'" and "lease_world_ok s"
  shows "lease_world_ok s' \<and> set (lw_tokens s) \<subseteq> set (lw_tokens s') \<and>
    (lease_holder s' = lease_holder s \<or> lease_holder s' = None \<or>
     (\<exists>t. lease_holder s' = Some t \<and> t \<notin> set (lw_tokens s)))"
  using assms(1)
proof (cases rule: lease_step.cases)
  case (claim_step eid w token ts out d')
  from claim_step(2) show ?thesis
  proof (cases rule: claim_cases)
    case (Claimed worker ex)
    with claim_step lease_world_okD(1) [OF assms(2)] show ?thesis
      by (simp add: lease_world_ok_def lease_holder_def row_ok_def subset_insertI)
  qed (use claim_step assms(2) in \<open>auto simp: lease_world_ok_def lease_holder_def pred_option_def\<close>)
next
  case (renew_step eid w token ts expires d')
  from renew_step(2) show ?thesis
  proof (cases rule: renew_cases)
    case (1 worker ex)
    with renew_step(1) lease_world_okD [OF assms(2)] show ?thesis
      by (simp add: lease_world_ok_def lease_holder_def row_ok_def leased_def)
  qed
next
  case (recover_step eid w token ts out d')
  from recover_step(2) lease_world_ok_rows [OF assms(2)] show ?thesis
  proof (cases rule: recover_cases)
    case Untouched
    with recover_step assms(2) show ?thesis
      by (auto simp: lease_world_ok_def lease_holder_def pred_option_def)
  next
    case (Taken worker ex ex')
    with recover_step(1,3) row_ok_taken [OF Taken(8,5,4)] show ?thesis
      by (auto simp: lease_world_ok_def lease_holder_def)
  next
    case (Cancelled ex st code steps)
    with recover_step(1,3) show ?thesis
      by (auto simp: lease_world_ok_def lease_holder_def row_ok_def)
  qed
next
  case (cancel_step ex ts who reason out d')
  note ok = lease_world_okD [OF assms(2) cancel_step(3)]
  from cancel_step(2,3) show ?thesis
  proof (cases rule: apply_cancellation_row)
    case Same
    with cancel_step(1) assms(2) show ?thesis
      by (auto simp: lease_world_ok_def lease_holder_def)
  next
    case (Immediate ex1 steps)
    with cancel_step(1) ok show ?thesis
      by (simp add: lease_world_ok_def lease_holder_def row_ok_def finalize_cancelled_def set_cancel_metadata_once_def)
  next
    case (Requested ex1)
    with cancel_step(1,3) ok show ?thesis
      by (auto simp: lease_world_ok_def lease_holder_def row_ok_def leased_def set_cancel_metadata_once_def)
  qed
qed

interpretation lease: lease_protocol "lease_step E M lease" lease_world_ok lease_holder "\<lambda>s. set (lw_tokens s)"
  for E M lease
proof unfold_locales
  fix s s' t
  assume "lease_world_ok s" and step: "lease_step E M lease s s'"
  note effect = lease_step_effect [OF step this(1)]
  then show "lease_world_ok s'" and "set (lw_tokens s) \<subseteq> set (lw_tokens s')"
    by simp_all
  assume "lease_holder s' = Some t"
  with effect show "lease_holder s = Some t \<or> t \<notin> set (lw_tokens s)"
    by auto
qed

subsection \<open>Promotion of root steps\<close>

definition promoted :: "time \<Rightarrow> execution_step \<Rightarrow> execution_step" where
  "promoted ts s = s\<lparr>status := READY, ready_at := Some ts, lock_version := lock_version s + 1\<rparr>"

lemma st_id_promoted [simp]: "st_id (promoted ts s) = st_id s"
  by (simp add: promoted_def)

definition replace_row :: "time \<Rightarrow> execution_step \<Rightarrow> execution_step \<Rightarrow> execution_step" where
  "replace_row ts s r = (if st_id r = st_id s then promoted ts s else r)"

lemma fold_map_rows: "fold (\<lambda>s. map (f s)) ss rows = map (fold f ss) rows"
  by (induction ss arbitrary: rows) (simp_all add: comp_def)

lemma fold_replace_row:
  assumes "\<And>s. s \<in> set ss \<Longrightarrow> st_id s = st_id r \<Longrightarrow> s = r"
  shows "fold (replace_row ts) ss r = (if st_id r \<in> st_id ` set ss then promoted ts r else r)"
proof -
  have "fold (replace_row ts) ss x = (if st_id r \<in> st_id ` set ss then promoted ts r else x)"
    if "x \<in> {r, promoted ts r}" "\<And>s. s \<in> set ss \<Longrightarrow> st_id s = st_id r \<Longrightarrow> s = r" for x
    using that
  proof (induction ss arbitrary: x)
    case (Cons s ss)
    show ?case
    proof (cases "st_id s = st_id r")
      case True
      with Cons.prems have "s = r" and "replace_row ts s x = promoted ts r"
        by (auto simp: replace_row_def)
      with Cons.IH [of "promoted ts r"] Cons.prems(2) show ?thesis
        by (auto simp: image_iff)
    next
      case False
      with Cons.prems(1) have "replace_row ts s x = x"
        by (auto simp: replace_row_def)
      with Cons.IH [of x] Cons.prems False show ?thesis
        by (auto simp: image_iff)
    qed
  qed simp
  with assms show ?thesis
    by simp
qed

definition promote_row :: "time \<Rightarrow> execution_step \<Rightarrow> db \<Rightarrow> db" where
  "promote_row ts s d = emit_step_status_changed (promoted ts s) (status s) ts (put_step (promoted ts s) d)"

lemma promote_roots_spec:
  "promote_roots ts by_key keys slots d =
     and_then (mapE (dict_at by_key) (take (nat slots) keys)) (\<lambda>ss.
       Inr (map st_id ss, fold (promote_row ts) ss d))"
proof (induction keys arbitrary: slots d)
  case (Cons key keys)
  show ?case
  proof (cases "slots \<le> 0")
    case False
    then have "nat slots = Suc (nat (slots - 1))"
      by simp
    with False Cons.IH show ?thesis
      by (cases "map_of by_key key")
        (simp_all add: Let_def promoted_def [symmetric] promote_row_def [symmetric] dict_at_def)
  qed simp
qed simp

lemma db_steps_promotions:
  "db_steps (fold (promote_row ts) ss d) = map (fold (replace_row ts) ss) (db_steps d)"
proof (induction ss arbitrary: d)
  case (Cons s ss)
  show ?case
    unfolding fold.simps comp_def Cons.IH by (simp add: promote_row_def put_step_def replace_row_def)
qed simp

lemma root_tools_keys:
  assumes "root_tools tops by_key deps = Inr roots" and "k \<in> set roots"
  shows "\<exists>s. map_of by_key k = Some s \<and> st_type s = TOOL \<and> dict_get deps k [] = []"
proof -
  have "\<forall>k \<in> set roots. \<exists>s. map_of by_key k = Some s \<and> st_type s = TOOL \<and> dict_get deps k [] = []"
    by (rule foldE_preserves [OF assms(1) [unfolded root_tools_def]]) (auto split: if_splits)
  with assms(2) show ?thesis
    by blast
qed

subsection \<open>A claim as a whole\<close>

lemma claim_checksD:
  assumes "claim_checks vplan C fr ex d = Inr dag"
  shows "\<exists>plan. assert_execution_plan_lineage vplan fr ex = Inr plan \<and>
      validate_tool_join_dag C plan (list_steps d (ex_id ex)) = Inr dag"
    and "s \<in> set (list_steps d (ex_id ex)) \<Longrightarrow> assert_initial_step s = Inr ()"
    and "source_type ex = ''SCHEDULE_OCCURRENCE'' \<Longrightarrow> lock_and_assert_occurrence_enqueued ex d = Inr ()"
    and "unleased ex"
  using assms unfolding claim_checks_def Let_def unleased_def by (auto split: if_splits)

text \<open>The steps a claim may promote: fresh TOOL rows of the execution that depend on nothing.\<close>

definition root_row :: "db \<Rightarrow> execution_row \<Rightarrow> tool_join_dag \<Rightarrow> execution_step \<Rightarrow> bool" where
  "root_row d ex dag s \<longleftrightarrow>
     s \<in> set (list_steps d (ex_id ex)) \<and> st_type s = TOOL \<and> status s = PENDING \<and>
     dict_get (dependencies dag) (step_key s) [] = []"

lemma claim_roots:
  assumes "claim_checks vplan C fr ex d = Inr dag" and "k \<in> set (root_tool_keys dag)"
  shows "\<exists>s. map_of (by_step_key (list_steps d (ex_id ex))) k = Some s \<and> s \<in> set (list_steps d (ex_id ex)) \<and>
    step_key s = k \<and> st_type s = TOOL \<and> status s = PENDING \<and> dict_get (dependencies dag) k [] = []"
proof -
  from claim_checksD(1) [OF assms(1)] obtain plan where
    "validate_tool_join_dag C plan (list_steps d (ex_id ex)) = Inr dag" by blast
  from validate_dagD [OF this] obtain own tops g where
      run: "dag_run C plan (list_steps d (ex_id ex)) dag own tops g" by blast
  obtain s where s: "map_of (by_step_key (list_steps d (ex_id ex))) k = Some s" "st_type s = TOOL"
      "dict_get (dependencies dag) k [] = []"
    using root_tools_keys [OF dag_runD(9) [OF run] assms(2)] dag_runD(7) [OF run] by auto
  from map_of_by_step_key [OF s(1)] have row: "s \<in> set (list_steps d (ex_id ex))" "step_key s = k"
    by simp_all
  with claim_checksD(2) [OF assms(1) row(1)] s show ?thesis
    by (auto simp: assert_initial_step_def split: if_splits)
qed

lemma claim_root_rows:
  assumes "claim_checks vplan C fr ex d = Inr dag"
  shows "\<exists>ss. mapE (dict_at (by_step_key (list_steps d (ex_id ex)))) (take n (root_tool_keys dag)) = Inr ss \<and>
    map step_key ss = take n (root_tool_keys dag) \<and>
    (\<forall>s \<in> set ss. root_row d ex dag s)"
proof -
  have "\<exists>ss. mapE (dict_at (by_step_key (list_steps d (ex_id ex)))) ks = Inr ss \<and> map step_key ss = ks \<and>
    (\<forall>s \<in> set ss. root_row d ex dag s)"
    if "set ks \<subseteq> set (root_tool_keys dag)" for ks
    using that
  proof (induction ks)
    case (Cons k ks)
    from Cons obtain ss where ss: "mapE (dict_at (by_step_key (list_steps d (ex_id ex)))) ks = Inr ss" "map step_key ss = ks"
        "\<forall>s \<in> set ss. root_row d ex dag s"
      by (auto simp: root_row_def)
    from claim_roots [OF assms, of k] Cons.prems obtain s where
        "map_of (by_step_key (list_steps d (ex_id ex))) k = Some s" "step_key s = k" "root_row d ex dag s"
      by (auto simp: root_row_def)
    with ss show ?case
      by (intro exI [of _ "s # ss"]) simp
  qed simp
  then show ?thesis
    using set_take_subset [of n "root_tool_keys dag"] by blast
qed

lemma mark_occurrence_total:
  assumes "lock_and_assert_occurrence_enqueued ex d = Inr ()"
    and "schedule_occurrence_id ex' = schedule_occurrence_id ex" and "db_occurrences d' = db_occurrences d"
  shows "\<exists>d''. mark_occurrence_running ex' d' = Inr d''"
  using assms
  by (auto simp: lock_and_assert_occurrence_enqueued_def mark_occurrence_running_def split: option.splits if_splits)

lemma db_occurrences_promotions [simp]: "db_occurrences (fold (promote_row ts) ss d) = db_occurrences d"
  by (induction ss arbitrary: d) (simp_all add: promote_row_def put_step_def)

text \<open>Once the checks have passed, nothing that follows can raise.\<close>

lemma claim_run_total:
  assumes "claim_checks vplan C fr ex d = Inr dag" and "schedule_occurrence_id ex' = schedule_occurrence_id ex"
  shows "\<exists>ids d2 d'. claim_run vplan C fr ex ex' ts d dag ids d2 d'"
proof -
  obtain ss where ss: "mapE (dict_at (by_step_key (list_steps d (ex_id ex))))
      (take (nat (dag_max_parallelism dag)) (root_tool_keys dag)) = Inr ss"
    using claim_root_rows [OF assms(1)] by blast
  define d2 where "d2 = fold (promote_row ts) ss (emit_execution_status_changed ex' E_QUEUED ts (put_execution ex' d))"
  have "\<exists>d'. (if source_type ex = ''SCHEDULE_OCCURRENCE'' then mark_occurrence_running ex' d2 else Inr d2) = Inr d'"
    using mark_occurrence_total [OF claim_checksD(3) [OF assms(1)] assms(2), of d2] by (simp add: d2_def)
  with assms(1) show ?thesis
    by (auto simp: claim_run_def promote_roots_spec ss d2_def)
qed

lemma claim_goes_through:
  assumes "normalize_worker_id w = Inr worker" and "db_execution d = Some ex" and "ex_status ex = E_QUEUED"
    and "claim_checks vplan C fr ex d = Inr dag"
  shows "\<exists>out d'. claim vplan C fr lease (ex_id ex) w token ts d = Inr (out, d') \<and> claimed out"
proof -
  from claim_run_total [OF assms(4), of "claimed_row lease worker token ts ex" ts] obtain ids d2 d' where
    run: "claim_run vplan C fr ex (claimed_row lease worker token ts ex) ts d dag ids d2 d'" by auto
  show ?thesis
    by (intro exI conjI, rule iffD2 [OF claim_queued [OF assms(1-3)]], intro exI conjI, rule run, rule refl) simp
qed

lemma claim_run_steps:
  assumes "claim_run vplan C fr ex ex' ts d dag ids d2 d'" and "distinct (map st_id (db_steps d))"
  shows "\<exists>ss. ids = map st_id ss \<and> map step_key ss = take (nat (dag_max_parallelism dag)) (root_tool_keys dag) \<and>
    (\<forall>s \<in> set ss. root_row d ex dag s) \<and>
    db_steps d' = map (\<lambda>s. if st_id s \<in> set ids then promoted ts s else s) (db_steps d)"
proof -
  from assms(1) have checks: "claim_checks vplan C fr ex d = Inr dag"
    by (simp add: claim_run_def)
  from claim_root_rows [OF this] obtain ss where
      ss: "mapE (dict_at (by_step_key (list_steps d (ex_id ex))))
             (take (nat (dag_max_parallelism dag)) (root_tool_keys dag)) = Inr ss"
        "map step_key ss = take (nat (dag_max_parallelism dag)) (root_tool_keys dag)"
      and rows: "\<forall>s \<in> set ss. root_row d ex dag s" by blast
  have ids: "ids = map st_id ss" and d2: "db_steps d2 = map (fold (replace_row ts) ss) (db_steps d)"
    using assms(1) ss(1) by (auto simp: claim_run_def promote_roots_spec db_steps_promotions)
  have "s = r" if "s \<in> set ss" "r \<in> set (db_steps d)" "st_id s = st_id r" for s r
    using that rows assms(2) by (auto simp: root_row_def set_list_steps distinct_map inj_on_def)
  then have "db_steps d2 = map (\<lambda>s. if st_id s \<in> set ids then promoted ts s else s) (db_steps d)"
    unfolding d2 ids by (intro map_cong refl, subst fold_replace_row) auto
  moreover have "db_steps d' = db_steps d2"
    using assms(1) by (auto simp: claim_run_def split: if_splits dest: mark_occurrence_row)
  ultimately show ?thesis
    using ids ss(2) rows by (intro exI [of _ ss]) simp
qed

subsection \<open>A sample\<close>

definition lease_sample_steps :: "plan_step list" where
  "lease_sample_steps = [sample_step ''tool_1'' TOOL []]"

definition lease_sample_tool :: tool_config where
  "lease_sample_tool = \<lparr>tc_tool_version_id = 5, tc_bindings = []\<rparr>"

definition lease_sample_env :: lineage_env where
  "lease_sample_env =
     \<lparr>le_vplan = (\<lambda>_. Some (sample_plan lease_sample_steps)), le_vtool = (\<lambda>_. Some lease_sample_tool),
      le_codec = table_codec lease_sample_steps [(''tool_1'', lease_sample_tool)] [] [] [],
      le_repr = (\<lambda>_. []), le_dump = (\<lambda>_. JNull), le_tool_of = (\<lambda>_. Some 8)\<rparr>"

definition lease_sample_row :: execution_row where
  "lease_sample_row =
     \<lparr>ex_id = 7, source_type = ''AGENT_REQUEST'', trigger_type = ''CHAT'', trace_id = None,
      input_snapshot = JNull, ex_status = E_QUEUED, requester_id = 3, agent_request_id = Some 4,
      agent_version_id = Some 9, workflow_version_id = None, schedule_occurrence_id = None,
      plan_validation_run_id = Some 6, plan_schema_version = ''1.0'', plan_snapshot = JNull,
      plan_hash = compute_plan_hash (\<lambda>_. []) JNull, policy_snapshot = JNull, ex_error_code = None,
      queued_at = Some 1, ex_started_at = None, ex_finished_at = None, worker_id = None, lease_token = None,
      lease_expires_at = None, heartbeat_at = None, ex_lock_version = 0, result_summary = JNull,
      cancel_requested_at = None, cancel_requested_by = None, cancel_reason = None\<rparr>"

definition lease_sample_rows :: "execution_step list" where
  "lease_sample_rows = [sample_row 1 (sample_step ''tool_1'' TOOL []) PENDING]"

definition lease_sample_db :: db where
  "lease_sample_db =
     \<lparr>db_execution = Some lease_sample_row, db_steps = lease_sample_rows,
      db_attempts = [], db_calls = [], db_occurrences = [], db_schedules = [],
      db_approvals = [], db_inputs = [], db_events = []\<rparr>"

definition lease_sample_dag :: tool_join_dag where
  "lease_sample_dag = \<lparr>ordered_step_keys = [''tool_1''], root_tool_keys = [''tool_1''], dag_max_parallelism = 4,
     dependents = [(''tool_1'', [])], dependencies = [(''tool_1'', [])]\<rparr>"

lemma lease_sample_dag_ok:
  "validate_tool_join_dag (le_codec lease_sample_env) (sample_plan lease_sample_steps) lease_sample_rows =
     Inr lease_sample_dag"
  by code_simp

lemma normalize_worker_samples:
  "normalize_worker_id ''w1'' = Inr ''w1''" "normalize_worker_id ''w2'' = Inr ''w2''"
  by code_simp+

lemma lease_sample_steps_listed: "list_steps lease_sample_db 7 = lease_sample_rows"
  by (simp add: list_steps_def lease_sample_db_def lease_sample_rows_def sample_row_def)

lemma lease_sample_checks:
  "claim_checks (le_vplan lease_sample_env) (le_codec lease_sample_env) (le_repr lease_sample_env)
     lease_sample_row lease_sample_db = Inr lease_sample_dag"
proof -
  have fields: "ex_id lease_sample_row = 7" "le_vplan lease_sample_env = (\<lambda>_. Some (sample_plan lease_sample_steps))"
      "le_repr lease_sample_env = (\<lambda>_. [])"
    by (simp_all add: lease_sample_row_def lease_sample_env_def)
  have "assert_claim_source (le_vplan lease_sample_env) lease_sample_row = Inr ()"
    by (simp add: assert_claim_source_def claimable_source_def lease_sample_row_def)
  moreover have "assert_execution_plan_lineage (\<lambda>_. Some (sample_plan lease_sample_steps)) (\<lambda>_. []) lease_sample_row =
      Inr (sample_plan lease_sample_steps)"
    by (simp add: assert_execution_plan_lineage_def lease_sample_row_def)
  moreover have "eachE assert_initial_step lease_sample_rows = Inr ()"
    by (simp add: assert_initial_step_def lease_sample_rows_def sample_row_def sample_step_def)
  moreover have "lease_sample_rows \<noteq> []"
    by (simp add: lease_sample_rows_def)
  ultimately show ?thesis
    unfolding claim_checks_def fields lease_sample_steps_listed Let_def
    by (simp add: lease_sample_dag_ok) (simp add: lease_sample_row_def)
qed

lemma lease_sample_claims:
  "\<exists>out d'. claim (le_vplan lease_sample_env) (le_codec lease_sample_env) (le_repr lease_sample_env) 30 7 ''w1'' 11 100
     lease_sample_db = Inr (out, d') \<and> claimed out"
proof -
  have row: "db_execution lease_sample_db = Some lease_sample_row" "ex_status lease_sample_row = E_QUEUED"
      "ex_id lease_sample_row = 7"
    by (simp_all add: lease_sample_db_def lease_sample_row_def)
  from claim_goes_through [OF normalize_worker_samples(1) row(1,2) lease_sample_checks] show ?thesis
    unfolding row(3) .
qed

definition lease_sample_world :: lease_world where
  "lease_sample_world = \<lparr>lw_db = lease_sample_db, lw_tokens = []\<rparr>"

definition lease_sample_modules :: recovery_modules where
  "lease_sample_modules = \<lparr>rm_workflow = (\<lambda>ex w t now d. Inr (no_op, d))\<rparr>"

lemma lease_sample_world_ok: "lease_world_ok lease_sample_world"
  by (simp add: lease_world_ok_def lease_holder_def lease_sample_world_def lease_sample_db_def lease_sample_row_def
      row_ok_def unleased_def)

lemma lease_sample_reach:
  "\<exists>s. (lease_step lease_sample_env lease_sample_modules 30)\<^sup>*\<^sup>* lease_sample_world s \<and>
     lease_holder s = Some 11 \<and> 12 \<notin> set (lw_tokens s)"
proof -
  from lease_sample_claims obtain out d' where
      run: "claim (le_vplan lease_sample_env) (le_codec lease_sample_env) (le_repr lease_sample_env) 30 7 ''w1'' 11 100
        (lw_db lease_sample_world) = Inr (out, d')" "claimed out"
    by (auto simp: lease_sample_world_def)
  have "11 \<notin> set (lw_tokens lease_sample_world)"
    by (simp add: lease_sample_world_def)
  from lease_step.claim_step [OF run(1) this] have
    "lease_step lease_sample_env lease_sample_modules 30 lease_sample_world
       \<lparr>lw_db = d', lw_tokens = 11 # lw_tokens lease_sample_world\<rparr>" .
  moreover have "Option.bind (db_execution d') lease_token = Some 11"
    using run(1)
  proof (cases rule: claim_cases)
    case Stale
    with run(2) show ?thesis
      by simp
  next
    case (Claimed worker ex)
    then show ?thesis
      by simp
  qed
  ultimately show ?thesis
    by (intro exI [of _ "\<lparr>lw_db = d', lw_tokens = 11 # lw_tokens lease_sample_world\<rparr>"] conjI r_into_rtranclp)
      (auto simp: lease_holder_def lease_sample_world_def)
qed

subsection \<open>Properties\<close>

text \<open>C7: In every state of an AgentRequest execution that claims, renewals, cancellations and recoveries can
  reach, the lease columns fit the status of the execution: a RUNNING or CANCEL\_REQUESTED execution has worker, token, expiry, heartbeat and a
  start time, a QUEUED, FAILED or CANCELLED one has no lease at all, the latter two have a finish time, and the
  token of the lease is one that was handed out.\<close>

theorem lease_invariant:
  assumes "(lease_step E M lease)\<^sup>*\<^sup>* s s'" and "lease_world_ok s"
  shows "lease_world_ok s'"
  using assms by (rule lease.good_reach)

theorem lease_invariant_witness:
  "\<exists>s. lease_world_ok s \<and> lease_holder s = Some 11"
  using lease_sample_reach lease_invariant [OF _ lease_sample_world_ok] by blast

text \<open>C6: Fencing, for AgentRequest executions.  Once the token of a worker is no longer the one on the row, because recovery gave the
  execution to another worker, or it failed or was cancelled, that worker can never renew again, whatever
  sequence of claims, renewals, cancellations and recoveries follows.\<close>

theorem stale_token_fenced:
  assumes "(lease_step E M lease)\<^sup>*\<^sup>* s s'" and "lease_world_ok s"
    and "t \<in> set (lw_tokens s)" and "lease_holder s \<noteq> Some t"
  shows "\<exists>e. renew_lease lease eid w t ts (lw_db s') = Inl e"
proof (cases "renew_lease lease eid w t ts (lw_db s')")
  case (Inr r)
  obtain expires d' where "r = (expires, d')"
    by (cases r)
  with Inr have "renew_lease lease eid w t ts (lw_db s') = Inr (expires, d')"
    by simp
  then have "lease_holder s' = Some t"
    by (rule renew_cases) (simp add: lease_holder_def)
  with lease.fenced_forever [OF assms] show ?thesis
    by simp
qed simp

theorem stale_token_fenced_witness:
  "\<exists>s e. lease_holder s = Some 11 \<and> renew_lease 30 7 ''w2'' 12 200 (lw_db s) = Inl e"
proof -
  from lease_sample_reach obtain s where
      s: "(lease_step lease_sample_env lease_sample_modules 30)\<^sup>*\<^sup>* lease_sample_world s" "lease_holder s = Some 11"
        "12 \<notin> set (lw_tokens s)"
    by blast
  define s2 where "s2 = \<lparr>lw_db = lw_db s, lw_tokens = 12 # lw_tokens s\<rparr>"
  have "lease_world_ok s2" and "12 \<in> set (lw_tokens s2)" and holder: "lease_holder s2 = Some 11"
    using lease.good_reach [OF s(1) lease_sample_world_ok] s(2)
    by (simp_all add: s2_def lease_world_ok_def lease_holder_def)
  from stale_token_fenced [OF rtranclp.rtrancl_refl this(1,2)] holder show ?thesis
    by (intro exI [of _ s2]) simp
qed

text \<open>At any moment exactly one of the two may happen to a RUNNING AgentRequest execution: the worker that
  holds the lease renews it, or recovery takes the execution over.\<close>

theorem renewal_excludes_recovery:
  assumes "db_execution d = Some ex" and "ex_status ex = E_RUNNING" and "row_ok ex"
    and "worker_id ex = Some worker" and "lease_token ex = Some t" and "normalize_worker_id w = Inr worker"
  shows "(\<exists>r. renew_lease lease (ex_id ex) w t ts d = Inr r) \<longleftrightarrow> recover_route ex ts \<noteq> Route_Foundation"
  using assms unfolding renew_lease_row [OF assms(6,1)]
  by (auto simp: recover_route_def row_ok_def leased_def is_agent_schedule_occurrence_def not_le)

theorem renewal_excludes_recovery_witness:
  "(\<exists>r. renew_lease 30 7 ''w1'' 11 200 (put_execution (claimed_row 30 ''w1'' 11 100 lease_sample_row) lease_sample_db) = Inr r)
     \<longleftrightarrow> recover_route (claimed_row 30 ''w1'' 11 100 lease_sample_row) 200 \<noteq> Route_Foundation"
  using renewal_excludes_recovery [of "put_execution (claimed_row 30 ''w1'' 11 100 lease_sample_row) lease_sample_db"
      "claimed_row 30 ''w1'' 11 100 lease_sample_row" "''w1''" 11 "''w1''" 30 200]
  by (simp add: normalize_worker_samples lease_sample_row_def)

text \<open>C11: A claim of a QUEUED execution goes through exactly when all its checks do; it then gives the row its
  lease and makes READY, of the root TOOL steps in schedule order, the first \<open>max_parallelism\<close>, which
  were PENDING and depend on nothing.  No other step changes.\<close>

theorem claim_effect:
  assumes "normalize_worker_id w = Inr worker" and "db_execution d = Some ex" and "ex_status ex = E_QUEUED"
    and "distinct (map st_id (db_steps d))"
  shows "case claim_checks vplan C fr ex d of
      Inl e \<Rightarrow> claim vplan C fr lease (ex_id ex) w token ts d = Inl e
    | Inr dag \<Rightarrow> \<exists>out d' ss. claim vplan C fr lease (ex_id ex) w token ts d = Inr (out, d') \<and>
        db_execution d' = Some (claimed_row lease worker token ts ex) \<and> ready_step_ids out = map st_id ss \<and>
        map step_key ss = take (nat (dag_max_parallelism dag)) (root_tool_keys dag) \<and>
        (\<forall>s \<in> set ss. root_row d ex dag s) \<and>
        db_steps d' = map (\<lambda>s. if st_id s \<in> set (ready_step_ids out) then promoted ts s else s) (db_steps d)"
proof (cases "claim_checks vplan C fr ex d")
  case (Inl e)
  with assms(1-3) show ?thesis
    by (simp add: claim_def)
next
  case (Inr dag)
  from claim_goes_through [OF assms(1-3) Inr, of lease token ts] obtain out d' where
      claim: "claim vplan C fr lease (ex_id ex) w token ts d = Inr (out, d')" by blast
  with claim_queued [OF assms(1-3)] obtain dag' ids d2 where
      run: "claim_run vplan C fr ex (claimed_row lease worker token ts ex) ts d dag' ids d2 d'"
        and out: "ready_step_ids out = ids" by auto
  then have [simp]: "dag' = dag"
    using Inr by (simp add: claim_run_def)
  from claim_run_steps [OF run assms(4)] claim claim_run_row [OF run] out Inr show ?thesis
    by auto
qed

theorem claim_effect_witness:
  "\<exists>out d'. claim (le_vplan lease_sample_env) (le_codec lease_sample_env) (le_repr lease_sample_env) 30 7 ''w1'' 11 100
     lease_sample_db = Inr (out, d') \<and> db_execution d' = Some (claimed_row 30 ''w1'' 11 100 lease_sample_row)"
proof -
  have row: "db_execution lease_sample_db = Some lease_sample_row" "ex_status lease_sample_row = E_QUEUED"
      "distinct (map st_id (db_steps lease_sample_db))" "ex_id lease_sample_row = 7"
    by (simp_all add: lease_sample_db_def lease_sample_row_def lease_sample_rows_def)
  from claim_effect [OF normalize_worker_samples(1) row(1-3), of "le_vplan lease_sample_env"
      "le_codec lease_sample_env" "le_repr lease_sample_env" 30 11 100]
  show ?thesis
    unfolding lease_sample_checks row(4) by auto
qed

text \<open>A delivery of the same execution after a successful claim, by any worker at any time, changes nothing
  and reports STALE\_DELIVERY: an execution is claimed at most once.\<close>

theorem claim_exclusive:
  assumes "claim vplan C fr lease eid w token ts d = Inr (out, d')" and "claimed out"
    and "normalize_worker_id w' = Inr worker'"
  shows "\<exists>out'. claim vplan' C' fr' lease' eid w' token' ts' d' = Inr (out', d') \<and>
    \<not> claimed out' \<and> co_reason out' = Some ''STALE_DELIVERY'' \<and> co_lease_token out' = None"
  using assms(1)
proof (cases rule: claim_cases)
  case Stale
  with assms(2) show ?thesis
    by simp
next
  case (Claimed worker ex)
  then show ?thesis
    using claim_not_queued [OF assms(3), of d' "claimed_row lease worker token ts ex" vplan' C' fr' lease' token' ts']
    by simp
qed

theorem claim_exclusive_witness:
  "\<exists>out d' out'. claim (le_vplan lease_sample_env) (le_codec lease_sample_env) (le_repr lease_sample_env) 30 7 ''w1'' 11
     100 lease_sample_db = Inr (out, d') \<and>
     claim (le_vplan lease_sample_env) (le_codec lease_sample_env) (le_repr lease_sample_env) 30 7 ''w2'' 12 101 d' =
       Inr (out', d') \<and> \<not> claimed out'"
proof -
  from lease_sample_claims obtain out d' where
      run: "claim (le_vplan lease_sample_env) (le_codec lease_sample_env) (le_repr lease_sample_env) 30 7 ''w1'' 11
        100 lease_sample_db = Inr (out, d')" "claimed out"
    by (elim exE conjE)
  from claim_exclusive [OF run normalize_worker_samples(2), of "le_vplan lease_sample_env" "le_codec lease_sample_env"
      "le_repr lease_sample_env" 30 12 101] run(1)
  show ?thesis
    by (elim exE conjE) (intro exI conjI)
qed

end
