(* ===== verification/BindingCorrectness.thy ===== *)
theory BindingCorrectness
  imports BindingResolver
begin

section \<open>Correctness of binding resolution\<close>

text \<open>
  The ancestor table of an acyclic plan is the transitive closure of its dependencies; a resolved
  secret is a reference in canonical form; a STEP\_OUTPUT value comes from a SUCCEEDED ancestor of the
  same execution and, inside a LOOP body, of the same iteration; and no value of
  \<open>resolved_input\<close> is \<open>MISSING\<close>.
\<close>

subsection \<open>The memoised walk computes the transitive closure\<close>

definition dep_edges :: "(string, string list) dict \<Rightarrow> (string \<times> string) set" where
  "dep_edges deps = {(d, sid). d \<in> set (dict_get deps sid [])}"

definition closure :: "(string, string list) dict \<Rightarrow> string \<Rightarrow> string set" where
  "closure deps sid = {a. (a, sid) \<in> (dep_edges deps)\<^sup>+}"

definition cache_ok :: "(string, string list) dict \<Rightarrow> ancestor_map \<Rightarrow> bool" where
  "cache_ok deps cache \<longleftrightarrow>
     (\<forall>sid out. map_of cache sid = Some out \<longrightarrow> out = closure deps sid \<and> sid \<in> Wellfounded.acc (dep_edges deps))"

lemma cache_okD:
  "cache_ok deps cache \<Longrightarrow> map_of cache sid = Some out
     \<Longrightarrow> out = closure deps sid \<and> sid \<in> Wellfounded.acc (dep_edges deps)"
  by (auto simp: cache_ok_def)

lemma cache_ok_set:
  "cache_ok deps cache \<Longrightarrow> sid \<in> Wellfounded.acc (dep_edges deps)
     \<Longrightarrow> cache_ok deps (dict_set sid (closure deps sid) cache)"
  by (auto simp: cache_ok_def)

lemma closure_unfold: "closure deps sid = (\<Union>d \<in> set (dict_get deps sid []). insert d (closure deps d))"
proof -
  have "(a, sid) \<in> (dep_edges deps)\<^sup>+
      \<longleftrightarrow> (\<exists>d \<in> set (dict_get deps sid []). a = d \<or> (a, d) \<in> (dep_edges deps)\<^sup>+)" for a
    by (subst trancl_unfold) (auto simp: dep_edges_def)
  then show ?thesis
    by (auto simp: closure_def)
qed

text \<open>Whatever the walk returns is the closure, and it only returns below no cycle.\<close>

lemma walk_sound:
  "walk fuel deps sid cache = Inr (out, cache') \<Longrightarrow> cache_ok deps cache \<Longrightarrow>
     out = closure deps sid \<and> sid \<in> Wellfounded.acc (dep_edges deps) \<and> cache_ok deps cache'
     \<and> map_of cache' sid = Some out \<and> (\<forall>k. map_of cache k \<noteq> None \<longrightarrow> map_of cache' k \<noteq> None)"
proof (induction fuel arbitrary: sid cache out cache')
  case (Suc fuel)
  show ?case
  proof (cases "map_of cache sid")
    case (Some s)
    then show ?thesis
      using Suc.prems cache_okD [OF Suc.prems(2) Some] by auto
  next
    case None
    let ?I = "\<lambda>ds (o', c). o' = (\<Union>d \<in> set ds. insert d (closure deps d)) \<and> cache_ok deps c
      \<and> set ds \<subseteq> Wellfounded.acc (dep_edges deps) \<and> (\<forall>k. map_of cache k \<noteq> None \<longrightarrow> map_of c k \<noteq> None)"
    from Suc.prems None obtain c where c: "foldE (\<lambda>dep (out, c).
          and_then (walk fuel deps dep c) (\<lambda>(s, c'). Inr (insert dep out \<union> s, c')))
        (dict_get deps sid []) ({}, cache) = Inr (out, c)" and c': "cache' = dict_set sid out c"
      by auto
    have "?I (dict_get deps sid []) (out, c)"
      using c by (rule foldE_invariant [where I = ?I])
        (use Suc.prems(2) in \<open>auto dest!: Suc.IH\<close>)
    moreover from this have "sid \<in> Wellfounded.acc (dep_edges deps)"
      by (auto simp: dep_edges_def intro!: accI [of sid])
    ultimately show ?thesis
      using c' cache_ok_set [of deps c sid] closure_unfold [of deps sid] by auto
  qed
qed simp

lemma walk_error: "walk fuel deps sid cache = Inl e \<Longrightarrow> e = RecursionError"
proof (induction fuel arbitrary: sid cache e)
  case (Suc fuel)
  have "foldE (\<lambda>dep (out, c).
          and_then (walk fuel deps dep c) (\<lambda>(s, c'). Inr (insert dep out \<union> s, c'))) ds oc = Inl e
      \<Longrightarrow> e = RecursionError" for ds oc
    by (induction ds arbitrary: oc) (auto simp: and_then_Inl_iff split: prod.splits dest: Suc.IH)
  then show ?case
    using Suc.prems by (auto simp: and_then_Inl_iff split: option.splits)
qed simp

text \<open>Below no cycle, fuel above the number of ancestors is enough.\<close>

lemma closure_shrinks:
  assumes "acyclic (dep_edges deps)" and "d \<in> set (dict_get deps sid [])" and "finite (closure deps sid)"
  shows "card (closure deps d) < card (closure deps sid)"
proof (rule psubset_card_mono [OF assms(3)])
  have "d \<notin> closure deps d"
    using assms(1) by (auto simp: closure_def acyclic_def)
  then show "closure deps d \<subset> closure deps sid"
    using assms(2) closure_unfold [of deps sid] by auto
qed

lemma walk_enough_fuel:
  assumes "acyclic (dep_edges deps)" and "\<And>sid. finite (closure deps sid)"
  shows "card (closure deps sid) < fuel \<Longrightarrow> \<exists>r. walk fuel deps sid cache = Inr r"
proof (induction fuel arbitrary: sid cache)
  case (Suc fuel)
  have "\<exists>t. (case oc of (out, c) \<Rightarrow>
        and_then (walk fuel deps d c) (\<lambda>(s, c'). Inr (insert d out \<union> s, c'))) = Inr t"
    if "d \<in> set (dict_get deps sid [])" for d oc
  proof -
    have "card (closure deps d) < fuel"
      using closure_shrinks [OF assms(1) that assms(2)] Suc.prems by linarith
    from Suc.IH [OF this, of "snd oc"] show ?thesis
      by (cases oc) auto
  qed
  from foldE_total [OF this, where s = "({}, cache)"] show ?case
    by (auto split: option.splits)
qed simp

lemma dep_edges_plan: "dep_edges (plan_deps plan) \<subseteq> set (map ps_id (plan_steps plan)) \<times> set (map ps_id (plan_steps plan))"
proof -
  have "d \<in> set (map ps_id (plan_steps plan)) \<and> sid \<in> set (map ps_id (plan_steps plan))"
    if "d \<in> set (dict_get (plan_deps plan) sid [])" for d sid
    using in_dict_getD [OF that] unfolding plan_deps_def Let_def map_of_dict_of
    by (auto dest!: map_of_SomeD)
  then show ?thesis
    unfolding dep_edges_def by blast
qed

lemma closure_plan: "closure (plan_deps plan) sid \<subseteq> set (map ps_id (plan_steps plan))"
proof -
  have "(dep_edges (plan_deps plan))\<^sup>+ \<subseteq> set (map ps_id (plan_steps plan)) \<times> set (map ps_id (plan_steps plan))"
    using dep_edges_plan by (rule trancl_subset_Sigma)
  then show ?thesis
    unfolding closure_def by blast
qed

lemma walk_plan:
  assumes "acyclic (dep_edges (plan_deps plan))"
  shows "\<exists>r. walk (Suc (length (plan_steps plan))) (plan_deps plan) sid cache = Inr r"
proof (rule walk_enough_fuel [OF assms])
  show "finite (closure (plan_deps plan) sid)" for sid
    using closure_plan by (rule finite_subset) simp
  have "card (closure (plan_deps plan) sid) \<le> card (set (map ps_id (plan_steps plan)))"
    using closure_plan by (intro card_mono) auto
  also have "\<dots> \<le> length (plan_steps plan)"
    using card_length [of "map ps_id (plan_steps plan)"] by simp
  finally show "card (closure (plan_deps plan) sid) < Suc (length (plan_steps plan))"
    by simp
qed

lemma transitive_ancestors_sound:
  assumes "transitive_ancestors plan = Inr anc"
  shows "cache_ok (plan_deps plan) anc \<and> (\<forall>sid \<in> set (map ps_id (plan_steps plan)). map_of anc sid \<noteq> None)"
proof -
  let ?I = "\<lambda>ids c. cache_ok (plan_deps plan) c \<and> (\<forall>sid \<in> set ids. map_of c sid \<noteq> None)"
  have "?I (map ps_id (plan_steps plan)) anc"
    using assms unfolding transitive_ancestors_def
  proof (rule foldE_invariant [where I = ?I])
    show "?I [] []"
      by (simp add: cache_ok_def)
  next
    fix ids sid c t
    assume I: "?I ids c" and t: "and_then (walk (Suc (length (plan_steps plan))) (plan_deps plan) sid c)
        (\<lambda>(_, c). Inr c) = Inr t"
    then obtain out where "walk (Suc (length (plan_steps plan))) (plan_deps plan) sid c = Inr (out, t)"
      by (auto simp del: walk.simps)
    from walk_sound [OF this] I show "?I (ids @ [sid]) t"
      by auto
  qed
  then show ?thesis
    by simp
qed

lemma transitive_ancestors_total:
  assumes "acyclic (dep_edges (plan_deps plan))"
  shows "\<exists>anc. transitive_ancestors plan = Inr anc"
  unfolding transitive_ancestors_def
proof (rule foldE_total)
  fix sid cache
  from walk_plan [OF assms, of sid cache] show "\<exists>t. and_then
      (walk (Suc (length (plan_steps plan))) (plan_deps plan) sid cache) (\<lambda>(_, c). Inr c) = Inr t"
    by (auto simp del: walk.simps)
qed

lemma transitive_ancestors_acyclic:
  assumes "transitive_ancestors plan = Inr anc"
  shows "acyclic (dep_edges (plan_deps plan))"
proof -
  let ?E = "dep_edges (plan_deps plan)"
  have "sid \<in> Wellfounded.acc ?E" for sid
  proof (cases "sid \<in> set (map ps_id (plan_steps plan))")
    case True
    then show ?thesis
      using transitive_ancestors_sound [OF assms] cache_okD [of "plan_deps plan" anc sid] by auto
  next
    case False
    then show ?thesis
      using dep_edges_plan by (intro accI [of sid]) blast
  qed
  then have "wf ?E"
    by (simp add: wf_iff_acc)
  then show ?thesis
    by (rule wf_acyclic)
qed

lemma transitive_ancestors_error: "transitive_ancestors plan = Inl e \<Longrightarrow> e = RecursionError"
proof -
  have "foldE (\<lambda>sid cache. and_then (walk n deps sid cache) (\<lambda>(_, c). Inr c)) ids c = Inl e
      \<Longrightarrow> e = RecursionError" for n deps ids c
    by (induction ids arbitrary: c) (auto simp: and_then_Inl_iff dest: walk_error simp del: walk.simps)
  then show "transitive_ancestors plan = Inl e \<Longrightarrow> e = RecursionError"
    unfolding transitive_ancestors_def by blast
qed

lemma ancestors_of_closure:
  assumes "transitive_ancestors plan = Inr anc"
  shows "ancestors_of anc sid = closure (plan_deps plan) sid"
proof (cases "map_of anc sid")
  case None
  then have "sid \<notin> set (map ps_id (plan_steps plan))"
    using transitive_ancestors_sound [OF assms] by blast
  then have "dict_get (plan_deps plan) sid [] = []"
    using dep_edges_plan [of plan] list.set_sel(1) [of "dict_get (plan_deps plan) sid []"]
    unfolding dep_edges_def by blast
  then show ?thesis
    using None closure_unfold [of "plan_deps plan" sid] by (simp add: ancestors_of_def dict_get_def)
next
  case (Some out)
  then show ?thesis
    using transitive_ancestors_sound [OF assms] cache_okD [OF _ Some] by (simp add: ancestors_of_def dict_get_def)
qed

subsection \<open>Secret references\<close>

lemma is_secret_ref_resolved [simp]: "is_secret_ref_value (secret_ref_resolved u)"
  by (simp add: is_secret_ref_value_def secret_ref_resolved_def kind_is_secret_ref_def parse_secret_id_def
      uuid_parse_str)

lemma canonicalize_resolved [simp]:
  "canonicalize_secret_ref_value (secret_ref_resolved u) = Inr (secret_ref_resolved u)"
  by (simp add: canonicalize_secret_ref_value_def secret_ref_resolved_def kind_is_secret_ref_def
      parse_secret_id_def uuid_parse_str has_keys_def)

lemma canonicalize_Inr:
  "canonicalize_secret_ref_value v = Inr w \<Longrightarrow> \<exists>u. w = secret_ref_resolved u"
  by (auto simp: canonicalize_secret_ref_value_def split: json.splits if_splits option.splits)

lemma canonicalize_parses:
  "canonicalize_secret_ref_value v = Inr w \<Longrightarrow> \<exists>kvs s u. v = JObj kvs \<and> map_of kvs ''secret_id'' = Some (JStr s) \<and>
     uuid_parse s = Some u \<and> w = secret_ref_resolved u"
  by (auto simp: canonicalize_secret_ref_value_def parse_secret_id_def
      split: json.splits if_splits option.splits)

lemma canonicalize_Inl:
  "canonicalize_secret_ref_value v = Inl e \<Longrightarrow> e = PRECONDITION_FAILED"
  by (auto simp: canonicalize_secret_ref_value_def split: json.splits if_splits option.splits)

lemma is_secret_ref_obj:
  "is_secret_ref_value v \<Longrightarrow> \<exists>kvs. v = JObj kvs \<and> kind_is_secret_ref kvs"
  by (auto simp: is_secret_ref_value_def split: json.splits if_splits)

lemma canonicalize_iff:
  assumes "wf_json v"
  shows "(\<exists>w. canonicalize_secret_ref_value v = Inr w) \<longleftrightarrow> is_secret_ref_value v"
proof (cases v)
  case (JObj kvs)
  have two: "length kvs = 2 \<longleftrightarrow> has_keys kvs [''kind'', ''secret_id'']"
    if "map_of kvs ''kind'' \<noteq> None" "map_of kvs ''secret_id'' \<noteq> None"
  proof -
    have sub: "{''kind'', ''secret_id''} \<subseteq> set (map fst kvs)"
      using that by (auto simp: map_of_eq_None_iff)
    have card: "card (set (map fst kvs)) = length kvs"
      using assms JObj by (metis distinct_card length_map wf_json.simps(2))
    have two: "card {''kind'', ''secret_id''} = 2"
      by simp
    show ?thesis
    proof
      assume "length kvs = 2"
      then show "has_keys kvs [''kind'', ''secret_id'']"
        using card_subset_eq [OF _ sub] card two by (simp add: has_keys_def del: set_map)
    next
      assume "has_keys kvs [''kind'', ''secret_id'']"
      then show "length kvs = 2"
        using card two by (simp add: has_keys_def del: set_map)
    qed
  qed
  have "(\<exists>w. canonicalize_secret_ref_value v = Inr w) \<longleftrightarrow>
      kind_is_secret_ref kvs \<and> has_keys kvs [''kind'', ''secret_id''] \<and> parse_secret_id (map_of kvs ''secret_id'') \<noteq> None"
    unfolding JObj canonicalize_secret_ref_value_def by (simp split: option.split)
  moreover have "is_secret_ref_value v \<longleftrightarrow>
      length kvs = 2 \<and> kind_is_secret_ref kvs \<and> parse_secret_id (map_of kvs ''secret_id'') \<noteq> None"
    unfolding JObj is_secret_ref_value_def by simp
  moreover have "kind_is_secret_ref kvs \<Longrightarrow> map_of kvs ''kind'' \<noteq> None"
    by (simp add: kind_is_secret_ref_def)
  moreover have "parse_secret_id (map_of kvs ''secret_id'') \<noteq> None \<Longrightarrow> map_of kvs ''secret_id'' \<noteq> None"
    by (cases "map_of kvs ''secret_id''") (auto simp: parse_secret_id_def)
  ultimately show ?thesis
    using two by argo
qed (auto simp: canonicalize_secret_ref_value_def is_secret_ref_value_def)

subsection \<open>PLAN\_INPUT\<close>

lemma split_first_token:
  assumes "CHR ''/'' \<notin> set t"
  shows "\<exists>r. drop 1 (str_split_max 2 (CHR ''/'') (path_of_tokens (t # ts))) = t # r"
proof -
  let ?s = "t @ path_of_tokens ts"
  have hd: "hd (str_split (CHR ''/'') ?s) = t"
  proof (cases ts)
    case Nil
    then show ?thesis
      using assms by (simp add: str_split_no_sep)
  next
    case (Cons u us)
    then show ?thesis
      using assms by (simp add: str_split_append_sep)
  qed
  have ne: "str_split_max (Suc 0) (CHR ''/'') s \<noteq> []" for s
    by (cases s) (auto split: list.splits)
  have "drop 1 (str_split_max 2 (CHR ''/'') (CHR ''/'' # ?s)) = str_split_max (Suc 0) (CHR ''/'') ?s"
    by (simp add: numeral_2_eq_2)
  moreover have "hd (str_split_max (Suc 0) (CHR ''/'') ?s) = t"
    using str_split_max_second [of "CHR ''/''" ?s] hd ne [of ?s] by (simp add: numeral_2_eq_2 hd_conv_nth)
  ultimately show ?thesis
    using ne [of ?s] by (metis list.collapse path_of_tokens.simps(2))
qed

lemma encoded_no_slash: "CHR ''/'' \<notin> set (encode_pointer_token k)"
  using escaped_no_slash [OF escaped_encode] .

text \<open>The address of something at or below the input \<open>key\<close>.\<close>

definition input_path :: "string \<Rightarrow> string list \<Rightarrow> string" where
  "input_path key ts = path_of_tokens (map encode_pointer_token (key # ts))"

lemma resolve_plan_input_Found:
  assumes "resolve_plan_input ex plan path mok = Inr (Found v)"
  shows "\<exists>doc x. input_snapshot ex = JObj doc \<and> read_path mok (JObj doc) path = Inr (Found x)
    \<and> assert_plan_input_secret_safe plan path doc x = Inr ()
    \<and> (path = ''/'' \<longrightarrow> (\<exists>kvs. project_plan_input_root plan doc = Inr kvs \<and> v = JObj kvs))
    \<and> (path \<noteq> ''/'' \<and> (\<exists>kvs. x = JObj kvs \<and> kind_is_secret_ref kvs) \<longrightarrow> canonicalize_secret_ref_value x = Inr v)
    \<and> (path \<noteq> ''/'' \<and> (\<nexists>kvs. x = JObj kvs \<and> kind_is_secret_ref kvs) \<longrightarrow> v = x)"
proof (cases "input_snapshot ex")
  case (JObj doc)
  with assms obtain r where r: "read_path mok (JObj doc) path = Inr r"
    by (auto simp: resolve_plan_input_def)
  with assms JObj obtain x where "r = Found x"
    by (cases r) (auto simp: resolve_plan_input_def)
  with assms JObj r have x: "read_path mok (JObj doc) path = Inr (Found x)"
      "assert_plan_input_secret_safe plan path doc x = Inr ()"
    and v: "(if path = ''/'' then and_then (project_plan_input_root plan doc) (\<lambda>w. Inr (Found (JObj w)))
             else case x of JObj kvs \<Rightarrow>
               if kind_is_secret_ref kvs then and_then (canonicalize_secret_ref_value x) (\<lambda>w. Inr (Found w))
               else Inr (Found x) | _ \<Rightarrow> Inr (Found x)) = Inr (Found v)"
    by (auto simp: resolve_plan_input_def)
  show ?thesis
    using x v JObj by (cases x) (auto split: if_splits)
qed (use assms in \<open>auto simp: resolve_plan_input_def\<close>)

lemma secret_input_leaf:
  assumes "resolve_plan_input ex plan (input_path key ts) mok = Inr (Found v)"
    and "input_path key ts \<noteq> ''/''"
    and "map_of (plan_inputs plan) key = Some decl" and "pi_secret decl"
  shows "\<exists>u. v = secret_ref_resolved u"
proof -
  obtain doc x where x: "assert_plan_input_secret_safe plan (input_path key ts) doc x = Inr ()"
    and v: "\<exists>kvs. x = JObj kvs \<and> kind_is_secret_ref kvs \<Longrightarrow> canonicalize_secret_ref_value x = Inr v"
    using resolve_plan_input_Found [OF assms(1)] assms(2) by blast
  obtain r where "drop 1 (str_split_max 2 (CHR ''/'') (input_path key ts)) = encode_pointer_token key # r"
    unfolding input_path_def using split_first_token [OF encoded_no_slash] by auto
  with x assms(2-4) have "is_secret_ref_value x"
    by (auto simp: assert_plan_input_secret_safe_def split: if_splits)
  then show ?thesis
    using v is_secret_ref_obj canonicalize_Inr by blast
qed

lemma project_keys: "project_plan_input_root plan doc = Inr kvs \<Longrightarrow>
    (case map_of doc key of None \<Rightarrow> map_of kvs key = None
     | Some v \<Rightarrow> \<exists>w. map_of kvs key = Some w \<and> project_input_value plan key v = Inr w)"
  unfolding project_plan_input_root_def
proof (induction doc arbitrary: kvs)
  case (Cons kv doc)
  obtain k x where kv: "kv = (k, x)"
    by (cases kv)
  with Cons.prems obtain w rest where w: "project_input_value plan k x = Inr w" "kvs = (k, w) # rest"
    and rest: "mapE (\<lambda>(key, v). and_then (project_input_value plan key v) (\<lambda>w. Inr (key, w))) doc = Inr rest"
    by auto
  show ?case
    using Cons.IH [OF rest] w kv by (auto split: option.splits)
qed simp

lemma secret_input_root:
  assumes "resolve_plan_input ex plan ''/'' mok = Inr (Found v)"
    and "(key, decl) \<in> set (plan_inputs plan)" and "map_of (plan_inputs plan) key = Some decl" and "pi_secret decl"
  shows "\<exists>kvs. v = JObj kvs \<and> (pi_required decl \<longrightarrow> map_of kvs key \<noteq> None)
           \<and> (\<forall>w. map_of kvs key = Some w \<longrightarrow> (\<exists>u. w = secret_ref_resolved u))"
proof -
  obtain doc kvs where kvs: "project_plan_input_root plan doc = Inr kvs" "v = JObj kvs"
    and safe: "eachE (assert_secret_input doc) (plan_inputs plan) = Inr ()"
    using resolve_plan_input_Found [OF assms(1)] by (auto simp: assert_plan_input_secret_safe_def)
  have "assert_secret_input doc (key, decl) = Inr ()"
    using safe assms(2) by simp
  then have "pi_required decl \<Longrightarrow> map_of doc key \<noteq> None"
    using assms(4) by (auto simp: assert_secret_input_def split: option.splits)
  moreover have "project_input_value plan key x = Inr w \<Longrightarrow> \<exists>u. w = secret_ref_resolved u" for x w
    using assms(3,4) canonicalize_Inr by (auto simp: project_input_value_def)
  ultimately show ?thesis
    using project_keys [OF kvs(1), of key] kvs(2) by (auto split: option.splits)
qed

subsection \<open>STEP\_OUTPUT\<close>

lemma same_iteration_matchesD:
  "same_iteration_matches C pid n sid ss = Inr ms \<Longrightarrow> m \<in> set ms \<Longrightarrow>
     m \<in> set ss \<and> parent_step_id m = pid \<and> iteration_no m = n \<and> template_id_from_step_snapshot C m = Inr sid"
  by (induction ss arbitrary: ms) (auto split: if_splits)

lemma body_source:
  assumes "resolve_body_instance_step_output_source C sid owning by_key anc b2l = Inr source"
  shows "\<exists>t l. template_id_from_step_snapshot C owning = Inr t \<and> map_of b2l t = Some l
      \<and> source \<in> set (dict_values by_key)
      \<and> (if map_of b2l sid = Some l
         then sid \<in> ancestors_of anc t \<and> parent_step_id source = parent_step_id owning
              \<and> iteration_no source = iteration_no owning \<and> template_id_from_step_snapshot C source = Inr sid
         else sid \<in> ancestors_of anc l \<and> parent_step_id source = None)"
proof -
  from assms obtain t l where t: "template_id_from_step_snapshot C owning = Inr t" "map_of b2l t = Some l"
    by (auto simp: resolve_body_instance_step_output_source_def split: option.splits)
  show ?thesis
  proof (cases "map_of b2l sid = Some l")
    case True
    with assms t have anc: "sid \<in> ancestors_of anc t"
      and "\<exists>ms. same_iteration_matches C (parent_step_id owning) (iteration_no owning) sid (dict_values by_key) = Inr ms
        \<and> (case ms of [m] \<Rightarrow> Inr m | _ \<Rightarrow> Inl PRECONDITION_FAILED) = Inr source"
      unfolding resolve_body_instance_step_output_source_def by auto
    then obtain ms where
      "same_iteration_matches C (parent_step_id owning) (iteration_no owning) sid (dict_values by_key) = Inr ms"
      and one: "(case ms of [m] \<Rightarrow> Inr m | _ \<Rightarrow> Inl PRECONDITION_FAILED) = Inr source"
      by blast
    moreover from one have "source \<in> set ms"
      by (cases ms rule: remdups_adj.cases) auto
    ultimately have "source \<in> set (dict_values by_key) \<and> parent_step_id source = parent_step_id owning
        \<and> iteration_no source = iteration_no owning \<and> template_id_from_step_snapshot C source = Inr sid"
      using same_iteration_matchesD by blast
    with t True anc show ?thesis
      by simp
  next
    case False
    with assms t have "map_of by_key sid = Some source" "parent_step_id source = None"
      "sid \<in> ancestors_of anc l"
      unfolding resolve_body_instance_step_output_source_def by (auto split: option.splits)
    with t False show ?thesis
      using map_of_dict_values by (metis (no_types, lifting))
  qed
qed

text \<open>Where the value of a STEP\_OUTPUT binding was read.\<close>

definition output_source :: "codec \<Rightarrow> execution_plan \<Rightarrow> ancestor_map \<Rightarrow> execution_step list \<Rightarrow> execution_step
    \<Rightarrow> string \<Rightarrow> execution_step \<Rightarrow> bool" where
  "output_source C plan anc steps owning sid source \<longleftrightarrow>
     source \<in> set steps \<and> status source = SUCCEEDED
     \<and> st_execution_id source = st_execution_id owning \<and> result_inline source \<noteq> JNull
     \<and> (\<exists>ps \<in> set (plan_steps plan). ps_id ps = sid \<and> py_eq (dump_plan_step C ps) (step_snapshot source))
     \<and> (if parent_step_id owning = None
        then parent_step_id source = None \<and> step_key source = sid \<and> sid \<in> ancestors_of anc (step_key owning)
        else \<exists>t own l. template_id_from_step_snapshot C owning = Inr t
          \<and> build_loop_body_ownership C plan = Inr own \<and> map_of (body_to_loop own) t = Some l
          \<and> (if map_of (body_to_loop own) sid = Some l
             then sid \<in> ancestors_of anc t \<and> parent_step_id source = parent_step_id owning
                  \<and> iteration_no source = iteration_no owning
             else sid \<in> ancestors_of anc l \<and> parent_step_id source = None \<and> step_key source = sid))"

lemma lineage_ok:
  assumes "assert_step_output_source_lineage C sid source plan = Inr u"
  shows "(parent_step_id source = None \<longrightarrow> step_key source = sid)
    \<and> (\<exists>ps \<in> set (plan_steps plan). ps_id ps = sid \<and> py_eq (dump_plan_step C ps) (step_snapshot source))"
proof -
  from assms obtain ps where ps: "find (\<lambda>ps. ps_id ps = sid) (plan_steps plan) = Some ps"
    "py_eq (dump_plan_step C ps) (step_snapshot source)"
    by (auto simp: assert_step_output_source_lineage_def)
  from assms have "parent_step_id source = None \<longrightarrow> step_key source = sid"
    by (auto simp: assert_step_output_source_lineage_def)
  with ps find_SomeD [OF ps(1)] show ?thesis
    by blast
qed

lemma top_source:
  assumes "top_level_source sid owning by_key anc b2l = Inr source"
  shows "source \<in> set (dict_values by_key) \<and> parent_step_id source = None
    \<and> sid \<in> ancestors_of anc (step_key owning)"
  using assms map_of_dict_values [of by_key sid source]
  by (auto simp: top_level_source_def simp del: set_map split: if_splits option.splits)

lemma step_output_source:
  assumes "resolve_step_output C sid path owning by_key plan anc mok = Inr v"
  shows "\<exists>source. output_source C plan anc (dict_values by_key) owning sid source
           \<and> read_path mok (result_inline source) path = Inr v"
proof -
  from assms obtain own source where own: "build_loop_body_ownership C plan = Inr own"
    and src: "(if parent_step_id owning = None
        then top_level_source sid owning by_key anc (body_to_loop own)
        else resolve_body_instance_step_output_source C sid owning by_key anc (body_to_loop own)) = Inr source"
    and lin: "assert_step_output_source_lineage C sid source plan = Inr ()"
    and rest: "st_execution_id source = st_execution_id owning" "status source = SUCCEEDED"
      "result_inline source \<noteq> JNull" "read_path mok (result_inline source) path = Inr v"
    by (auto simp: resolve_step_output_def)
  have "output_source C plan anc (dict_values by_key) owning sid source"
  proof (cases "parent_step_id owning = None")
    case True
    with src have "top_level_source sid owning by_key anc (body_to_loop own) = Inr source"
      by simp
    from top_source [OF this] lineage_ok [OF lin] rest True show ?thesis
      unfolding output_source_def by simp
  next
    case False
    with src have "resolve_body_instance_step_output_source C sid owning by_key anc (body_to_loop own) = Inr source"
      by simp
    from body_source [OF this] obtain t l where t: "template_id_from_step_snapshot C owning = Inr t"
      "map_of (body_to_loop own) t = Some l" "source \<in> set (dict_values by_key)"
      and src': "if map_of (body_to_loop own) sid = Some l
         then sid \<in> ancestors_of anc t \<and> parent_step_id source = parent_step_id owning
              \<and> iteration_no source = iteration_no owning \<and> template_id_from_step_snapshot C source = Inr sid
         else sid \<in> ancestors_of anc l \<and> parent_step_id source = None"
      by blast
    have "if map_of (body_to_loop own) sid = Some l
          then sid \<in> ancestors_of anc t \<and> parent_step_id source = parent_step_id owning
               \<and> iteration_no source = iteration_no owning
          else sid \<in> ancestors_of anc l \<and> parent_step_id source = None \<and> step_key source = sid"
      using src' lineage_ok [OF lin] by argo
    with t lineage_ok [OF lin] rest False own show ?thesis
      unfolding output_source_def by metis
  qed
  with rest show ?thesis
    by blast
qed

subsection \<open>A whole step\<close>

definition resolve_env :: "codec \<Rightarrow> (rat \<Rightarrow> string) \<Rightarrow> execution \<Rightarrow> execution_step list \<Rightarrow> execution_plan
    \<Rightarrow> ancestor_map \<Rightarrow> resolver_env" where
  "resolve_env C fr ex steps plan anc =
     \<lparr>env_codec = C, env_repr = fr, env_execution = ex, env_rows = by_step_key steps, env_plan = plan,
      env_ancestors = anc\<rparr>"

lemma resolve_env_simps [simp]:
  "env_codec (resolve_env C fr ex steps plan anc) = C"
  "env_repr (resolve_env C fr ex steps plan anc) = fr"
  "env_execution (resolve_env C fr ex steps plan anc) = ex"
  "env_rows (resolve_env C fr ex steps plan anc) = by_step_key steps"
  "env_plan (resolve_env C fr ex steps plan anc) = plan"
  "env_ancestors (resolve_env C fr ex steps plan anc) = anc"
  by (simp_all add: resolve_env_def)

lemma read_path_Inr_iff:
  "read_path mok doc path = Inr v \<longleftrightarrow> resolve_json_pointer doc path = Inr v \<and> (v = Missing \<longrightarrow> mok)"
proof (cases "resolve_json_pointer doc path")
  case (Inr r)
  then show ?thesis
    by (cases r) (auto simp: read_path_def)
qed (simp add: read_path_def)

lemma read_path_strict: "read_path False doc path = Inr v \<Longrightarrow> \<exists>j. v = Found j"
  by (cases v) (auto simp: read_path_Inr_iff)

lemma resolve_plan_input_Missing:
  assumes "resolve_plan_input ex plan path mok = Inr Missing"
  shows "\<exists>doc. input_snapshot ex = JObj doc \<and> read_path mok (JObj doc) path = Inr Missing"
proof (cases "input_snapshot ex")
  case (JObj doc)
  with assms obtain r where r: "read_path mok (JObj doc) path = Inr r"
    by (auto simp: resolve_plan_input_def)
  show ?thesis
  proof (cases r)
    case (Found v)
    then show ?thesis
      using assms JObj r by (cases v) (auto simp: resolve_plan_input_def split: if_splits)
  qed (use JObj r in simp)
qed (use assms in \<open>auto simp: resolve_plan_input_def\<close>)

lemma resolve_binding_strict: "resolve_binding R owning False override b = Inr v \<Longrightarrow> \<exists>j. v = Found j"
proof (cases b)
  case (PlanInputBinding path)
  assume "resolve_binding R owning False override b = Inr v"
  then show ?thesis
    using PlanInputBinding by (cases v) (auto dest!: resolve_plan_input_Missing read_path_strict)
next
  case (PlanStepOutputBinding sid path)
  assume "resolve_binding R owning False override b = Inr v"
  then show ?thesis
    using PlanStepOutputBinding step_output_source read_path_strict by fastforce
next
  case (PlanLoopContextBinding path)
  assume "resolve_binding R owning False override b = Inr v"
  then show ?thesis
    using PlanLoopContextBinding
    by (auto split: option.splits json.splits prod.splits if_splits dest: read_path_strict
        simp del: build_foreach_body_context.simps)
qed (auto dest: read_path_strict)

lemma mapE_pairs:
  assumes "mapE (\<lambda>(k, b). and_then (f b) (\<lambda>v. Inr (k, v))) kvs = Inr out"
  shows "map fst out = map fst kvs \<and> list_all2 (\<lambda>(k, b) (k', v). k = k' \<and> f b = Inr v) kvs out"
  using assms by (induction kvs arbitrary: out) (auto split: prod.splits)

lemma resolve_Inr:
  assumes "resolve C fr ex step steps bindings plan = Inr out"
  shows "\<exists>anc. transitive_ancestors plan = Inr anc \<and> st_execution_id step = ex_id ex
    \<and> map fst out = map fst bindings
    \<and> list_all2 (\<lambda>(k, b) (k', v). k = k' \<and> resolve_binding (resolve_env C fr ex steps plan anc) step False None b = Inr v)
        bindings out"
  using assms unfolding resolve_def Let_def resolve_env_def [symmetric]
  by (auto split: if_splits dest: mapE_pairs)

lemma list_all2_keyed:
  assumes "list_all2 (\<lambda>(k, b) (k', v). k = k' \<and> P b v) bs vs" and "(k, b) \<in> set bs"
  shows "\<exists>v. (k, v) \<in> set vs \<and> P b v"
  using assms by (induction bs vs rule: list_all2_induct) auto

subsection \<open>Which exceptions a binding can raise\<close>

definition binding_error :: "py_error \<Rightarrow> bool" where
  "binding_error e \<longleftrightarrow>
     e \<in> {PRECONDITION_FAILED, RESOURCE_CONFLICT, LOOP_COLLECTION_TYPE_MISMATCH, ValueError}"

lemma binding_error_intros [raises_intros]:
  "binding_error PRECONDITION_FAILED" "binding_error RESOURCE_CONFLICT"
  "binding_error LOOP_COLLECTION_TYPE_MISMATCH" "binding_error ValueError"
  by (simp_all add: binding_error_def)

lemma pointer_step_raises: "only_raises binding_error (pointer_step doc t)"
  by (cases doc) (auto simp: pointer_step_def py_int_digits_def intro!: raises_intros)

lemma pointer_walk_raises: "only_raises binding_error (pointer_walk doc ts)"
proof (induction ts arbitrary: doc)
  case (Cons t ts)
  have "only_raises binding_error (case p of Missing \<Rightarrow> Inr Missing | Found v \<Rightarrow> pointer_walk v ts)" for p
    using Cons.IH by (cases p) simp_all
  then show ?case
    by (auto intro!: raises_intros pointer_step_raises)
qed simp

lemma read_path_raises [raises_intros]: "only_raises binding_error (read_path mok doc path)"
proof -
  have "only_raises binding_error (case p of Missing \<Rightarrow> if mok then Inr Missing else Inl PRECONDITION_FAILED
      | Found j \<Rightarrow> Inr (Found j))" for p
    by (cases p) (auto intro: raises_intros)
  then show ?thesis
    unfolding read_path_def resolve_json_pointer_def pointer_tokens_def
    by (intro raises_intros pointer_walk_raises) auto
qed

lemma template_id_raises [raises_intros]: "only_raises binding_error (template_id_from_step_snapshot C s)"
  unfolding template_id_from_step_snapshot_def by (intro raises_intros)

lemma same_iteration_matches_raises [raises_intros]:
  "only_raises binding_error (same_iteration_matches C pid n sid ss)"
  by (induction ss) (auto intro!: raises_intros)

lemma ownership_raises [raises_intros]: "only_raises binding_error (build_loop_body_ownership C plan)"
  unfolding build_loop_body_ownership_def own_step_def own_body_def by (intro raises_intros)

lemma singleton_raises [raises_intros]:
  "only_raises binding_error (case ms of [m] \<Rightarrow> Inr m | _ \<Rightarrow> Inl PRECONDITION_FAILED)"
  by (cases ms rule: remdups_adj.cases) (auto intro: raises_intros)

lemma step_output_raises [raises_intros]:
  "only_raises binding_error (resolve_step_output C sid path owning by_key plan anc mok)"
  unfolding resolve_step_output_def top_level_source_def resolve_body_instance_step_output_source_def
    assert_step_output_source_lineage_def
  by (intro raises_intros)

lemma canonicalize_raises [raises_intros]: "only_raises binding_error (canonicalize_secret_ref_value v)"
  by (rule only_raisesI) (auto dest: canonicalize_Inl simp: binding_error_def)

lemma only_raises_obj [raises_intros]:
  "(\<And>kvs. v = JObj kvs \<Longrightarrow> only_raises P (f kvs)) \<Longrightarrow> only_raises P r
     \<Longrightarrow> only_raises P (case v of JObj kvs \<Rightarrow> f kvs | _ \<Rightarrow> r)"
  by (cases v) simp_all

lemma only_raises_pointed [raises_intros]:
  "(p = Missing \<Longrightarrow> only_raises P r) \<Longrightarrow> (\<And>v. p = Found v \<Longrightarrow> only_raises P (f v))
     \<Longrightarrow> only_raises P (case p of Missing \<Rightarrow> r | Found v \<Rightarrow> f v)"
  by (cases p) simp_all

text \<open>A path that resolves starts with a slash, so splitting it gives a first token.\<close>

lemma resolved_path_splits:
  assumes "resolve_json_pointer doc path = Inr p"
  shows "drop 1 (str_split_max 2 (CHR ''/'') path) \<noteq> []"
proof -
  have "is_valid_json_pointer_subset path"
  proof (rule ccontr)
    assume "\<not> is_valid_json_pointer_subset path"
    then have "pointer_tokens path = Inl ValueError"
      by (simp add: pointer_tokens_Inl_iff)
    with assms show False
      by (simp add: resolve_json_pointer_def)
  qed
  then obtain s where "path = CHR ''/'' # s"
    by (cases path) (auto simp: is_valid_json_pointer_subset_def split: if_splits)
  moreover have "str_split_max (Suc 0) (CHR ''/'') s \<noteq> []"
    by (cases s) (auto split: list.splits)
  ultimately show ?thesis
    by (simp add: numeral_2_eq_2)
qed

lemma secret_safe_raises:
  assumes "read_path mok doc path = Inr p"
  shows "only_raises binding_error (assert_plan_input_secret_safe plan path kvs v)"
proof (cases "drop 1 (str_split_max 2 (CHR ''/'') path)")
  case Nil
  then show ?thesis
    using resolved_path_splits [of doc path p] assms by (auto simp: read_path_Inr_iff)
next
  case (Cons t ts)
  then show ?thesis
    unfolding assert_plan_input_secret_safe_def assert_secret_input_def
    by simp (intro impI conjI raises_intros)
qed

lemma plan_input_raises [raises_intros]: "only_raises binding_error (resolve_plan_input ex plan path mok)"
  unfolding resolve_plan_input_def project_plan_input_root_def project_input_value_def
  by (intro raises_intros secret_safe_raises)

lemma child_lineage_raises [raises_intros]:
  "only_raises binding_error (assert_while_child_immutable_lineage C child pid n template)"
  unfolding assert_while_child_immutable_lineage_def iteration_step_key_def by (intro raises_intros)

lemma previous_iteration_raises [raises_intros]:
  "only_raises binding_error (build_previous_iteration_projection C steps pid n body_ids plan)"
proof -
  have child: "only_raises binding_error (project_previous_child C pid n plan by_template tid)"
    if "set (dict_keys by_template) = set body_ids" "tid \<in> set body_ids" for by_template tid
  proof -
    have "map_of by_template tid \<noteq> None"
      using that by (simp add: map_of_eq_None_iff)
    then show ?thesis
      unfolding project_previous_child_def dict_at_def iteration_step_key_def by (intro raises_intros) simp
  qed
  show ?thesis
    unfolding build_previous_iteration_projection_def insert_template_def Let_def
    by (intro raises_intros child) auto
qed

lemma while_context_raises [raises_intros]:
  "only_raises binding_error (build_while_body_context C parent pps cfg by_key n plan)"
  unfolding build_while_body_context_def build_while_loop_context_projection_def by (intro raises_intros)

lemma pinned_item_raises [raises_intros]:
  "only_raises binding_error (pinned_item fr collection parent pps cfg n)"
proof (cases collection)
  case (Found v)
  then show ?thesis
    by (cases v; cases "resolved_input parent")
      (auto simp: pinned_item_def build_loop_context_projection_def intro!: raises_intros)
qed (simp add: pinned_item_def binding_error_def)

lemma loop_context_parent_raises [raises_intros]: "only_raises binding_error (loop_context_parent C owning by_key)"
  unfolding loop_context_parent_def by (intro raises_intros)

lemma flat_binding_raises:
  "\<not> is_loop_context b \<Longrightarrow> only_raises binding_error (resolve_binding R owning mok override b)"
  by (cases b) (auto intro: raises_intros)

lemma foreach_context_raises [raises_intros]:
  "only_raises binding_error (build_foreach_body_context R parent pps cfg n)"
  unfolding build_foreach_body_context.simps by (intro raises_intros flat_binding_raises)

lemma loop_context_raises [raises_intros]:
  "only_raises binding_error (resolve_loop_context R owning mok override path)"
proof (cases override)
  case (Some v)
  then show ?thesis
    by (cases v) (auto intro: raises_intros)
qed (auto intro!: raises_intros simp del: build_foreach_body_context.simps)

lemma resolve_binding_raises: "only_raises binding_error (resolve_binding R owning mok override b)"
  by (cases b) (auto intro: raises_intros simp del: resolve_loop_context.simps)

subsection \<open>Properties\<close>

definition binding_sample_steps :: "plan_step list" where
  "binding_sample_steps = [sample_step ''a'' TOOL [], sample_step ''b'' TOOL [''a'']]"

definition binding_sample_plan :: execution_plan where
  "binding_sample_plan = (sample_plan binding_sample_steps)
     \<lparr>plan_inputs := [(''tok'', \<lparr>pi_type = ''string'', pi_required = True, pi_secret = True\<rparr>)]\<rparr>"

definition binding_sample_codec :: codec where
  "binding_sample_codec = table_codec binding_sample_steps [] [] [] []"

definition binding_sample_rows :: "execution_step list" where
  "binding_sample_rows =
     [(sample_row 1 (binding_sample_steps ! 0) SUCCEEDED) \<lparr>result_inline := JObj [(''x'', JInt 5)]\<rparr>,
      sample_row 2 (binding_sample_steps ! 1) READY]"

definition binding_sample_execution :: "json \<Rightarrow> execution" where
  "binding_sample_execution snapshot =
     \<lparr>ex_id = 7, source_type = ''AGENT'', trigger_type = ''MANUAL'', trace_id = None,
      input_snapshot = snapshot\<rparr>"

lemma binding_sample_resolve:
  "resolve binding_sample_codec (\<lambda>_. []) (binding_sample_execution (JObj [])) (binding_sample_rows ! 1)
     binding_sample_rows [(''k'', PlanStepOutputBinding ''a'' ''/x''), (''n'', PlanLiteralBinding (JInt 1))]
     binding_sample_plan
   = Inr [(''k'', Found (JInt 5)), (''n'', Found (JInt 1))]"
  by code_simp

text \<open>A secret reference as a client may send it, with the keys in the other order.\<close>

definition binding_sample_secret :: json where
  "binding_sample_secret = JObj [(''secret_id'', JStr (uuid_str 3)), (''kind'', JStr ''SECRET_REF'')]"

lemma binding_sample_secret_refers:
  "is_secret_ref_value binding_sample_secret"
  "canonicalize_secret_ref_value binding_sample_secret = Inr (secret_ref_resolved 3)"
  by (simp_all add: binding_sample_secret_def is_secret_ref_value_def canonicalize_secret_ref_value_def
      kind_is_secret_ref_def parse_secret_id_def has_keys_def uuid_parse_str insert_commute)

lemma tok_path: "pointer_tokens ''/tok'' = Inr [''tok'']"
  by code_simp

text \<open>C36: On a plan without dependency cycle the memoised walk returns, and the table it returns is the
  transitive closure of the dependencies; on a plan with a cycle the recursion does not end, which
  Python reports as \<open>RecursionError\<close>.\<close>

theorem transitive_ancestors_closure:
  "if acyclic (dep_edges (plan_deps plan))
   then \<exists>anc. transitive_ancestors plan = Inr anc
          \<and> (\<forall>sid. ancestors_of anc sid = {a. (a, sid) \<in> (dep_edges (plan_deps plan))\<^sup>+})
   else transitive_ancestors plan = Inl RecursionError"
proof (cases "acyclic (dep_edges (plan_deps plan))")
  case True
  then show ?thesis
    using transitive_ancestors_total ancestors_of_closure unfolding closure_def by fastforce
next
  case False
  then show ?thesis
    using transitive_ancestors_acyclic transitive_ancestors_error by (cases "transitive_ancestors plan") auto
qed

text \<open>C35: Every STEP\_OUTPUT value that reaches \<open>resolved_input\<close> was read from a SUCCEEDED row of the same
  execution whose snapshot is the plan's own step, and that step is an ancestor of the consumer: of the
  consumer itself at top level, of the consumer's template in the same LOOP iteration, or of the LOOP
  that owns the consumer.\<close>

theorem step_output_provenance:
  assumes "resolve C fr ex step steps bindings plan = Inr out"
    and "(key, PlanStepOutputBinding sid path) \<in> set bindings"
  shows "\<exists>anc source v. transitive_ancestors plan = Inr anc
    \<and> output_source C plan anc steps step sid source
    \<and> (key, Found v) \<in> set out \<and> resolve_json_pointer (result_inline source) path = Inr (Found v)"
proof -
  obtain anc where anc: "transitive_ancestors plan = Inr anc"
    and all: "list_all2 (\<lambda>(k, b) (k', v). k = k'
        \<and> resolve_binding (resolve_env C fr ex steps plan anc) step False None b = Inr v) bindings out"
    using resolve_Inr [OF assms(1)] by blast
  obtain v where v: "(key, v) \<in> set out"
    "resolve_binding (resolve_env C fr ex steps plan anc) step False None (PlanStepOutputBinding sid path) = Inr v"
    using list_all2_keyed [OF all assms(2)] by blast
  then obtain source where "output_source C plan anc (dict_values (by_step_key steps)) step sid source"
    and read: "read_path False (result_inline source) path = Inr v"
    using step_output_source by force
  moreover have "set (dict_values (by_step_key steps)) \<subseteq> set steps"
    using map_of_by_step_key by (force simp: by_step_key_def)
  ultimately have "output_source C plan anc steps step sid source"
    unfolding output_source_def by blast
  moreover obtain j where "v = Found j"
    using read_path_strict [OF read] by blast
  ultimately show ?thesis
    using anc v(1) read by (auto simp: read_path_Inr_iff)
qed

theorem step_output_provenance_witness:
  "\<exists>anc source v. transitive_ancestors binding_sample_plan = Inr anc
    \<and> output_source binding_sample_codec binding_sample_plan anc binding_sample_rows (binding_sample_rows ! 1)
        ''a'' source
    \<and> (''k'', Found v) \<in> set [(''k'', Found (JInt 5)), (''n'', Found (JInt 1))]
    \<and> resolve_json_pointer (result_inline source) ''/x'' = Inr (Found v)"
  by (rule step_output_provenance [OF binding_sample_resolve]) simp

text \<open>C34: A plan input declared secret only ever enters \<open>resolved_input\<close> as a canonical secret
  reference: a binding to it, or to anything inside it, either raises or yields such a reference, and in
  the projection of the whole input every declared secret is one, and is present when required.\<close>

theorem plan_input_secrets_are_references:
  assumes "resolve_plan_input ex plan path mok = Inr (Found v)"
    and "map_of (plan_inputs plan) key = Some decl" and "pi_secret decl"
    and "path = ''/'' \<or> path = path_of_tokens (map encode_pointer_token (key # ts))"
  shows "if path = ''/''
    then \<exists>kvs. v = JObj kvs \<and> (pi_required decl \<longrightarrow> map_of kvs key \<noteq> None)
           \<and> (\<forall>w. map_of kvs key = Some w \<longrightarrow> (\<exists>u. w = secret_ref_resolved u))
    else \<exists>u. v = secret_ref_resolved u"
proof (cases "path = ''/''")
  case True
  with assms show ?thesis
    using secret_input_root [of ex plan mok v key decl] map_of_SomeD [OF assms(2)] by simp
next
  case False
  with assms(4) have path: "path = input_path key ts" "input_path key ts \<noteq> ''/''"
    by (auto simp: input_path_def)
  then show ?thesis
    using secret_input_leaf [of ex plan key ts mok v decl] assms(1-3) False by argo
qed

theorem plan_input_secrets_are_references_witness:
  "\<exists>v u. resolve_plan_input
       (binding_sample_execution (JObj [(''tok'', binding_sample_secret)])) binding_sample_plan ''/tok'' False =
       Inr (Found v) \<and> v = secret_ref_resolved u"
proof -
  have "resolve_json_pointer (JObj [(''tok'', binding_sample_secret)]) ''/tok'' = Inr (Found binding_sample_secret)"
    by (simp add: resolve_json_pointer_def tok_path pointer_step_def)
  then have run: "resolve_plan_input (binding_sample_execution (JObj [(''tok'', binding_sample_secret)]))
      binding_sample_plan ''/tok'' False = Inr (Found (secret_ref_resolved 3))"
    by (simp add: resolve_plan_input_def binding_sample_execution_def read_path_def
        assert_plan_input_secret_safe_def binding_sample_plan_def binding_sample_secret_refers
        numeral_2_eq_2 sample_plan_def)
      (simp add: binding_sample_secret_def kind_is_secret_ref_def
        binding_sample_secret_refers(2) [unfolded binding_sample_secret_def])
  then show ?thesis
    using plan_input_secrets_are_references [OF run, of "''tok''" _ "[]"]
    by (simp add: binding_sample_plan_def)
qed

text \<open>C37: The canonical form of a secret reference reads back as itself, and the two tests of the module
  agree: on a JSON value with distinct keys, canonicalisation succeeds exactly where
  \<open>is_secret_ref_value\<close> holds, its result is the reference to the very UUID that the string at key secret\_id
  parses to, and otherwise it raises EXECUTION\_PRECONDITION\_FAILED.\<close>

theorem secret_ref_round_trip:
  assumes "wf_json v"
  shows "canonicalize_secret_ref_value (secret_ref_resolved u) = Inr (secret_ref_resolved u)
    \<and> (if is_secret_ref_value v
       then \<exists>kvs s w. v = JObj kvs \<and> map_of kvs ''secret_id'' = Some (JStr s) \<and> uuid_parse s = Some w \<and>
              canonicalize_secret_ref_value v = Inr (secret_ref_resolved w)
       else canonicalize_secret_ref_value v = Inl PRECONDITION_FAILED)"
  using canonicalize_iff [OF assms] canonicalize_parses canonicalize_Inl
  by (cases "canonicalize_secret_ref_value v") auto

theorem secret_ref_round_trip_witness:
  "canonicalize_secret_ref_value binding_sample_secret = Inr (secret_ref_resolved 3) \<and>
   canonicalize_secret_ref_value (JObj [(''kind'', JStr ''SECRET_REF'')]) = Inl PRECONDITION_FAILED"
proof -
  have "wf_json binding_sample_secret"
    by (simp add: binding_sample_secret_def)
  then have "canonicalize_secret_ref_value binding_sample_secret = Inr (secret_ref_resolved 3)"
    using secret_ref_round_trip [of binding_sample_secret 0] unfolding if_P [OF binding_sample_secret_refers(1)]
    by (auto simp: binding_sample_secret_def uuid_parse_str)
  with secret_ref_round_trip [of "JObj [(''kind'', JStr ''SECRET_REF'')]" 0] show ?thesis
    by (simp add: is_secret_ref_value_def)
qed

text \<open>A successful resolution has one value per binding, in order and under the same key, and none of
  them is MISSING; literals and secret references are passed through as they are.\<close>

theorem resolved_input_complete:
  assumes "resolve C fr ex step steps bindings plan = Inr out"
  shows "map fst out = map fst bindings \<and> (\<forall>(k, v) \<in> set out. v \<noteq> Missing)
    \<and> (\<forall>k x. (k, PlanLiteralBinding x) \<in> set bindings \<longrightarrow> (k, Found x) \<in> set out)
    \<and> (\<forall>k u. (k, PlanSecretRefBinding u) \<in> set bindings \<longrightarrow> (k, Found (secret_ref_resolved u)) \<in> set out)"
proof -
  obtain anc where keys: "map fst out = map fst bindings"
    and all: "list_all2 (\<lambda>(k, b) (k', v). k = k'
        \<and> resolve_binding (resolve_env C fr ex steps plan anc) step False None b = Inr v) bindings out"
    using resolve_Inr [OF assms] by blast
  have "\<forall>(k, v) \<in> set out. v \<noteq> Missing"
    using all by (induction rule: list_all2_induct) (auto dest: resolve_binding_strict)
  with keys list_all2_keyed [OF all] show ?thesis
    by fastforce
qed

theorem resolved_input_complete_witness:
  "(''n'', Found (JInt 1)) \<in> set [(''k'', Found (JInt 5)), (''n'', Found (JInt 1))]"
  using resolved_input_complete [OF binding_sample_resolve] by simp

text \<open>Inside a FOR\_EACH body the LOOP\_CONTEXT of iteration \<open>n\<close> is element \<open>n\<close> of a collection
  whose hash and size are the ones pinned on the parent row when the LOOP started, so a collection that
  has changed since can never supply an item.\<close>

theorem foreach_context_item:
  assumes "build_foreach_body_context R parent pps cfg n = Inr ctx"
  shows "\<exists>b xs ri k. lc_collection cfg = Some b
    \<and> resolve_binding R parent False None b = Inr (Found (JList xs))
    \<and> resolved_input parent = JObj ri \<and> map_of ri ''collection_hash'' = Some (JStr (hash_collection (env_repr R) xs))
    \<and> map_of ri ''collection_size'' = Some k \<and> py_eq k (JInt (int (length xs)))
    \<and> 1 \<le> n \<and> n \<le> int (length xs)
    \<and> obj_get ctx ''item'' = Some (xs ! nat (n - 1)) \<and> obj_get ctx ''index'' = Some (JInt (n - 1))"
proof -
  from assms obtain b c where b: "lc_collection cfg = Some b"
    and c: "resolve_binding R parent False None b = Inr c"
    and item: "pinned_item (env_repr R) c parent pps cfg n = Inr ctx"
    by (auto split: option.splits)
  obtain xs where xs: "c = Found (JList xs)"
    using item by (cases c) (auto simp: pinned_item_def split: json.splits)
  obtain ri where ri: "resolved_input parent = JObj ri"
    using item xs by (cases "resolved_input parent") (auto simp: pinned_item_def)
  have str: "py_eq h (JStr s) \<Longrightarrow> h = JStr s" for h s
    by (cases h rule: pynum_of.cases) (auto simp: py_eq.simps)
  show ?thesis
    using item b c unfolding xs ri pinned_item_def build_loop_context_projection_def
    by (auto simp: ri split: if_splits option.splits dest!: str)
qed

definition foreach_sample_env :: resolver_env where
  "foreach_sample_env = resolve_env binding_sample_codec (\<lambda>_. []) (binding_sample_execution JNull) []
     binding_sample_plan []"

definition foreach_sample_cfg :: loop_config where
  "foreach_sample_cfg = \<lparr>lc_mode = FOR_EACH, lc_max_iterations = 5, lc_body_step_ids = [''t''],
     lc_collection = Some (PlanLiteralBinding (JList [JNull, JInt 8])), lc_predicate = None\<rparr>"

definition foreach_sample_parent :: execution_step where
  "foreach_sample_parent = (sample_row 4 (sample_step ''l'' LOOP []) RUNNING)
     \<lparr>resolved_input := JObj [(''collection_hash'', JStr (hash_collection (\<lambda>_. []) [JNull, JInt 8])),
                              (''collection_size'', JInt 2)]\<rparr>"

theorem foreach_context_item_witness:
  "\<exists>ctx xs. build_foreach_body_context foreach_sample_env foreach_sample_parent (sample_step ''l'' LOOP [])
       foreach_sample_cfg 2 = Inr ctx \<and> obj_get ctx ''item'' = Some (xs ! 1) \<and> 2 \<le> length xs"
proof -
  have "\<exists>ctx. build_foreach_body_context foreach_sample_env foreach_sample_parent
      (sample_step ''l'' LOOP []) foreach_sample_cfg 2 = Inr ctx"
    by (simp add: foreach_sample_env_def foreach_sample_cfg_def foreach_sample_parent_def pinned_item_def
        build_loop_context_projection_def)
  then obtain ctx where ctx: "build_foreach_body_context foreach_sample_env foreach_sample_parent
      (sample_step ''l'' LOOP []) foreach_sample_cfg 2 = Inr ctx"
    by blast
  obtain xs where "obj_get ctx ''item'' = Some (xs ! nat (2 - 1))" "(2 :: int) \<le> int (length xs)"
    using foreach_context_item [OF ctx] by (elim exE conjE) (rule that)
  with ctx show ?thesis
    by (intro exI [of _ ctx] exI [of _ xs]) simp
qed

end
