(* ===== verification/RecoverySafety.thy ===== *)
theory RecoverySafety
  imports LeaseSafety BindingCorrectness
begin

section \<open>What recovery decides and leaves behind\<close>

text \<open>
  Facts on \<open>RecoveryService\<close>: a decision is always carried out, a tool call that may have had an
  effect is only repeated when its risk class allows it, and evidence that does not fit together ends in
  a state with nothing left running.
\<close>

subsection \<open>Decisions\<close>

text \<open>The evidence each decision rests on.\<close>

definition sole_started :: "db \<Rightarrow> execution_step \<Rightarrow> step_attempt \<Rightarrow> bool" where
  "sole_started d step a \<longleftrightarrow> filter (\<lambda>a. at_status a = A_STARTED) (list_attempts d (st_id step)) = [a]"

definition decision_evidence :: "lineage_env \<Rightarrow> execution_row \<Rightarrow> execution_step \<Rightarrow> db \<Rightarrow> recovery_decision \<Rightarrow> bool" where
  "decision_evidence E ex step d dec \<longleftrightarrow>
     (case dec of
        TAKEOVER_READY \<Rightarrow>
          status step = READY \<and> list_all (\<lambda>a. at_status a \<noteq> A_STARTED) (list_attempts d (st_id step))
      | RESUME_ATTEMPT \<Rightarrow>
          status step = RUNNING \<and> (\<exists>a. sole_started d step a \<and> list_tool_calls d (at_id a) = [])
      | SAFE_RETRY \<Rightarrow>
          status step = RUNNING \<and> (\<exists>a c risk n. sole_started d step a \<and> list_tool_calls d (at_id a) = [c] \<and>
            normalized_status c = A_STARTED \<and> load_risk_and_attempts E ex step = Inr (risk, n) \<and>
            is_safe_retry_risk risk \<and> can_safe_retry (attempt_count step) n)
      | FAIL_EXHAUSTED \<Rightarrow>
          status step = RUNNING \<and> (\<exists>a c risk n. sole_started d step a \<and> list_tool_calls d (at_id a) = [c] \<and>
            normalized_status c = A_STARTED \<and> load_risk_and_attempts E ex step = Inr (risk, n) \<and>
            is_safe_retry_risk risk \<and> \<not> can_safe_retry (attempt_count step) n)
      | DECIDE_UNKNOWN_OUTCOME \<Rightarrow>
          status step = RUNNING \<and> (\<exists>a c risk n. sole_started d step a \<and> list_tool_calls d (at_id a) = [c] \<and>
            normalized_status c = A_STARTED \<and> load_risk_and_attempts E ex step = Inr (risk, n) \<and>
            is_unsafe_ambiguous_risk risk)
      | _ \<Rightarrow> False)"

lemma ready_checkpoint_evidence:
  assumes "decide_ready_checkpoint E ex step d = Inr dec"
  shows "dec = TAKEOVER_READY" and "list_all (\<lambda>a. at_status a \<noteq> A_STARTED) (list_attempts d (st_id step))"
proof -
  show "dec = TAKEOVER_READY"
    using assms unfolding decide_ready_checkpoint_def Let_def by (auto split: if_splits)
  show "list_all (\<lambda>a. at_status a \<noteq> A_STARTED) (list_attempts d (st_id step))"
    using assms unfolding decide_ready_checkpoint_def Let_def
    by (auto simp: list_ex_iff list_all_iff split: if_splits)
qed

lemma started_call_evidence:
  assumes "decide_started_call E ex step a c = Inr dec"
  obtains risk n where "load_risk_and_attempts E ex step = Inr (risk, n)"
    "dec = (if is_unsafe_ambiguous_risk risk then DECIDE_UNKNOWN_OUTCOME
            else if can_safe_retry (attempt_count step) n then SAFE_RETRY else FAIL_EXHAUSTED)"
    "is_unsafe_ambiguous_risk risk \<or> is_safe_retry_risk risk"
  using assms by (auto simp: decide_started_call_def split: option.splits if_splits)

lemma filter_split_Nil:
  "filter (\<lambda>x. \<not> P x) xs = [] \<Longrightarrow> filter P xs = xs"
  by (induction xs) (auto split: if_splits)

lemma decide_evidence:
  assumes "decide E ex step d = Inr dec"
  shows "decision_evidence E ex step d dec"
proof (cases "status step = READY")
  case True
  with assms have "decide_ready_checkpoint E ex step d = Inr dec"
    by (simp add: decide_def)
  from ready_checkpoint_evidence [OF this] True show ?thesis
    by (simp add: decision_evidence_def)
next
  case False
  with assms have running: "status step = RUNNING"
    by (auto simp: decide_def split: if_splits)
  from assms False running obtain a where sole: "sole_started d step a"
    unfolding decide_def sole_started_def by (auto split: list.splits)
  note sole' = sole [unfolded sole_started_def]
  define calls where "calls = list_tool_calls d (at_id a)"
  from assms False running have open_calls: "filter (\<lambda>c. normalized_status c \<noteq> A_STARTED) calls = []"
    by (auto simp: decide_def sole' Let_def calls_def split: if_splits)
  then have started: "filter (\<lambda>c. normalized_status c = A_STARTED) calls = calls"
    by (rule filter_split_Nil)
  show ?thesis
  proof (cases calls)
    case Nil
    with assms False running sole show ?thesis
      by (auto simp: decide_def sole' Let_def calls_def [symmetric] decision_evidence_def split: if_splits)
  next
    case (Cons c cs)
    with assms False running open_calls started have "cs = []" and run: "decide_started_call E ex step a c = Inr dec"
      by (auto simp: decide_def sole' Let_def calls_def [symmetric] split: if_splits list.splits)
    with Cons have one: "list_tool_calls d (at_id a) = [c]" and st: "normalized_status c = A_STARTED"
      using started by (auto simp: calls_def split: if_splits)
    from run show ?thesis
    proof (cases rule: started_call_evidence)
      case (1 risk n)
      with running sole one st show ?thesis
        by (cases "is_unsafe_ambiguous_risk risk"; cases "can_safe_retry (attempt_count step) n")
          (auto simp: decision_evidence_def)
    qed
  qed
qed

subsection \<open>A decision is carried out\<close>

lemma sole_started_required: "sole_started d step a \<Longrightarrow> require_single_started_attempt d step = Inr a"
  by (simp add: sole_started_def require_single_started_attempt_def)

lemma sole_call_required:
  "list_tool_calls d (at_id a) = [c] \<Longrightarrow> normalized_status c = A_STARTED \<Longrightarrow> require_started_tool_call d a = Inr c"
  by (simp add: require_started_tool_call_def)

lemma apply_decision_total:
  assumes "decision_evidence E ex step d dec"
  shows "\<exists>out d'. apply_decision ex' step dec worker token ts d = Inr (out, d')"
  using assms
  by (cases dec) (auto simp: decision_evidence_def apply_decision_def Let_def sole_call_required
      dest!: sole_started_required)

definition replay_error :: "lineage_env \<Rightarrow> execution_row \<Rightarrow> execution_step \<Rightarrow> db \<Rightarrow> py_error \<Rightarrow> bool" where
  "replay_error E ex step d e \<longleftrightarrow>
     (\<exists>a. sole_started d step a \<and>
        assert_resume_attempt_lineage E ex step a (list_steps d (ex_id ex)) None = Inl e)"

lemma load_risk_conflicts: "only_raises (\<lambda>e. e = RESOURCE_CONFLICT) (load_risk_and_attempts E ex step)"
  unfolding load_risk_and_attempts_def
  by (auto split: json.split option.split intro!: raises_intros)

lemma ready_checkpoint_conflicts: "only_raises (\<lambda>e. e = RESOURCE_CONFLICT) (decide_ready_checkpoint E ex step d)"
  unfolding decide_ready_checkpoint_def Let_def ready_attempt_ok_def
  by (intro raises_intros load_risk_conflicts refl)

lemma started_call_conflicts: "only_raises (\<lambda>e. e = RESOURCE_CONFLICT) (decide_started_call E ex step a c)"
  unfolding decide_started_call_def
  by (intro raises_intros load_risk_conflicts refl)

lemma decide_errors:
  assumes "decide E ex step d = Inl e"
  shows "e = RESOURCE_CONFLICT \<or> replay_error E ex step d e"
proof (cases "status step = READY \<or> status step \<noteq> RUNNING")
  case True
  with assms show ?thesis
    by (auto simp: decide_def split: if_splits dest: only_raisesD [OF ready_checkpoint_conflicts])
next
  case False
  show ?thesis
  proof (cases "\<exists>a. sole_started d step a")
    case True
    then obtain a where sole: "sole_started d step a"
      by blast
    note sole' = sole [unfolded sole_started_def]
    have "e = RESOURCE_CONFLICT \<or> assert_resume_attempt_lineage E ex step a (list_steps d (ex_id ex)) None = Inl e"
      using assms False
      by (auto simp: decide_def sole' Let_def and_then_Inl_iff split: if_splits list.splits
          dest: only_raisesD [OF started_call_conflicts])
    with sole show ?thesis
      by (auto simp: replay_error_def)
  next
    case none: False
    with assms False show ?thesis
      by (auto simp: decide_def sole_started_def split: list.splits)
  qed
qed

lemma lock_foundation_conflicts: "lock_foundation_step ex d = Inl e \<Longrightarrow> e = RESOURCE_CONFLICT"
  by (auto simp: lock_foundation_step_def split: list.splits if_splits)

text \<open>The foundation path, with its three ends made explicit.\<close>

lemma recover_foundation_cases:
  obtains (Decided) step dec out d' where "lock_foundation_step ex d = Inr step" "decide E ex step d = Inr dec"
      "apply_decision (assign_lease lease worker token ts ex) step dec worker token ts d = Inr (out, d')"
      "recover_foundation E lease ex worker token ts d = Inr (out, d')"
  | (Inconsistent) "recover_foundation E lease ex worker token ts d =
        Inr (drop_lease FAIL_INCONSISTENT, fail_inconsistent (assign_lease lease worker token ts ex) ts d)"
  | (Replay) step e where "lock_foundation_step ex d = Inr step" "replay_error E ex step d e" "\<forall>st. e \<noteq> AppError ''RESOURCE_CONFLICT'' st"
      "recover_foundation E lease ex worker token ts d = Inl e"
proof (cases "lock_foundation_step ex d")
  case (Inl e)
  with lock_foundation_conflicts [OF Inl] show thesis
    by (intro Inconsistent) (simp add: recover_foundation_def)
next
  case (Inr step)
  show thesis
  proof (cases "decide E ex step d")
    case (Inl e)
    note err = this
    show thesis
    proof (cases "\<exists>st. e = AppError ''RESOURCE_CONFLICT'' st")
      case True
      with Inr err show thesis
        by (intro Inconsistent) (auto simp: recover_foundation_def)
    next
      case False
      with decide_errors [OF err] have "replay_error E ex step d e"
        by auto
      moreover have "recover_foundation E lease ex worker token ts d = Inl e"
        using False Inr err by (cases e) (simp_all add: recover_foundation_def)
      ultimately show thesis
        using False Inr by (intro Replay) simp_all
    qed
  next
    case (Inr dec)
    from apply_decision_total [OF decide_evidence [OF Inr]] obtain out d' where
      "apply_decision (assign_lease lease worker token ts ex) step dec worker token ts d = Inr (out, d')"
      by blast
    with \<open>lock_foundation_step ex d = Inr step\<close> Inr show thesis
      by (intro Decided) (simp_all add: recover_foundation_def)
  qed
qed

definition replay_exception :: "py_error \<Rightarrow> bool" where
  "replay_exception e \<longleftrightarrow> binding_error e \<or> e = RecursionError"

lemma replay_exception_intros [raises_intros]:
  "replay_exception RESOURCE_CONFLICT" "replay_exception PRECONDITION_FAILED"
  by (simp_all add: replay_exception_def binding_error_def)

lemma resolve_raises [raises_intros]: "only_raises replay_exception (resolve C fr ex step steps bs plan)"
proof -
  have binding: "only_raises replay_exception (resolve_binding R owning mok ov b)" for R owning mok ov b
    using resolve_binding_raises by (rule only_raises_mono) (simp add: replay_exception_def)
  have ancestors: "only_raises replay_exception (transitive_ancestors plan)"
    by (rule only_raisesI) (simp add: transitive_ancestors_error replay_exception_def)
  show ?thesis
    unfolding resolve_def Let_def by (intro raises_intros binding ancestors)
qed

lemma lineage_raises [raises_intros]:
  "only_raises replay_exception (assert_plan_head E ex)"
  "only_raises replay_exception (complex_lineage E step plan ps expected)"
  "only_raises replay_exception (build_secret_safe_request_snapshot E tv key bs r)"
  unfolding assert_plan_head_def complex_lineage_def build_secret_safe_request_snapshot_def
  by (intro raises_intros)+

lemma top_level_raises [raises_intros]:
  "only_raises replay_exception (assert_top_level_tool_step_lineage E ex step plan)"
  unfolding assert_top_level_tool_step_lineage_def by (intro raises_intros)

lemma replay_lineage_raises [raises_intros]:
  "only_raises replay_exception (assert_started_attempt_replay_lineage E ex step a l steps w)"
  unfolding assert_started_attempt_replay_lineage_def Let_def by (intro raises_intros)

lemma replay_errors: "replay_error E ex step d e \<Longrightarrow> replay_exception e"
  unfolding replay_error_def assert_resume_attempt_lineage_def
  by (elim exE conjE, erule only_raisesD [rotated], intro raises_intros)

subsection \<open>Failing closed\<close>

lemma mark_pair_calls:
  assumes "distinct (map tl_id (db_calls d))"
  shows "db_calls (mark_pair_unknown now p d) =
    map (\<lambda>c. if tl_id c = tl_id (snd p) then unknown_call now c else c) (db_calls d)"
proof -
  define d1 where "d1 = (case find (\<lambda>a. at_id a = at_id (fst p)) (db_attempts d) of
                  None \<Rightarrow> d
                | Some a \<Rightarrow>
                    put_attempt (a\<lparr>at_status := A_UNKNOWN_OUTCOME, at_error_layer := Some ''WORKER'',
                                   at_error_code := Some ''RECOVERY_INCONSISTENT_EVIDENCE'',
                                   is_retryable := Some False,
                                   at_finished_at := (case at_finished_at a of None \<Rightarrow> Some now | t \<Rightarrow> t)\<rparr>) d)"
  have calls: "db_calls d1 = db_calls d"
    by (simp add: d1_def split: option.split)
  show ?thesis
  proof (cases "find (\<lambda>c. tl_id c = tl_id (snd p)) (db_calls d)")
    case None
    then show ?thesis
      by (simp add: mark_pair_unknown_def Let_def d1_def [symmetric] calls update_no_key)
  next
    case (Some c)
    then show ?thesis
      using update_by_key [OF assms Some, of "unknown_call now"]
      by (simp add: mark_pair_unknown_def Let_def d1_def [symmetric] calls put_call_def Some unknown_call_def [symmetric]
          del: map_eq_conv)
  qed
qed

lemma mark_pair_steps [simp]:
  "db_steps (mark_pair_unknown now p d) = db_steps d"
  by (simp add: mark_pair_unknown_def Let_def split: option.split)

lemma fold_mark_pair_steps [simp]: "db_steps (fold (mark_pair_unknown now) ps d) = db_steps d"
  by (induction ps arbitrary: d) simp_all

lemma fold_mark_pair_calls:
  "distinct (map tl_id (db_calls d)) \<Longrightarrow> db_calls (fold (mark_pair_unknown now) ps d) =
     map (\<lambda>c. if tl_id c \<in> tl_id ` snd ` set ps then unknown_call now c else c) (db_calls d)"
proof (induction ps arbitrary: d)
  case (Cons p ps)
  note calls = mark_pair_calls [OF Cons.prems, of now p]
  have "distinct (map tl_id (db_calls (mark_pair_unknown now p d)))"
    using Cons.prems unfolding calls by (simp add: comp_def if_distrib cong: if_cong)
  from Cons.IH [OF this] show ?case
    unfolding calls by simp
qed simp

definition settled_step :: "bool \<Rightarrow> time \<Rightarrow> execution_step \<Rightarrow> execution_step" where
  "settled_step ambiguous now s =
     (if terminal_status (status s) then s
      else fail_step (if ambiguous then UNKNOWN_OUTCOME else FAILED) ''RECOVERY_INCONSISTENT_EVIDENCE'' now s)"

lemma settled_step_simps [simp]:
  "st_id (settled_step b now s) = st_id s" "st_execution_id (settled_step b now s) = st_execution_id s"
  "terminal_status (status (settled_step b now s))"
  by (simp_all add: settled_step_def fail_step_def terminal_status_def)

lemma settled_step_terminal: "terminal_status (status s) \<Longrightarrow> settled_step b now s = s"
  by (simp add: settled_step_def)

lemma terminalize_steps:
  assumes "distinct (map st_id (db_steps d))"
  shows "db_steps (terminalize_inconsistent_step b now s d) =
    map (\<lambda>r. if st_id r = st_id s then (if terminal_status (status s) then r else settled_step b now r) else r)
      (db_steps d)"
proof (cases "find (\<lambda>r. st_id r = st_id s) (db_steps d)")
  case None
  then show ?thesis
    by (simp add: terminalize_inconsistent_step_def update_no_key)
next
  case (Some r)
  note upd = update_by_key [OF assms Some, of "settled_step b now"]
  show ?thesis
  proof (cases "terminal_status (status s) \<or> terminal_status (status r)")
    case True
    have "map (\<lambda>r. if st_id r = st_id s then settled_step b now r else r) (db_steps d) = db_steps d"
      if "terminal_status (status r)"
      using upd update_by_key [OF assms Some, of "\<lambda>r. r"]
      unfolding settled_step_terminal [OF that] by (simp del: map_eq_conv)
    with True Some show ?thesis
      by (cases "terminal_status (status s)") (simp_all add: terminalize_inconsistent_step_def cong: if_cong)
  next
    case False
    then have "settled_step b now r =
        fail_step (if b then UNKNOWN_OUTCOME else FAILED) ''RECOVERY_INCONSISTENT_EVIDENCE'' now r"
      by (simp add: settled_step_def)
    with False Some have "db_steps (terminalize_inconsistent_step b now s d) = db_steps (put_step (settled_step b now r) d)"
      by (simp add: terminalize_inconsistent_step_def Let_def split: option.split)
    also have "\<dots> = map (\<lambda>x. if st_id x = st_id s then settled_step b now x else x) (db_steps d)"
      using upd by (simp add: put_step_def del: map_eq_conv)
    finally show ?thesis
      using False by (simp cong: if_cong)
  qed
qed

lemma terminalize_calls [simp]: "db_calls (terminalize_inconsistent_step b now s d) = db_calls d"
  by (auto simp: terminalize_inconsistent_step_def Let_def split: option.split)

lemma fold_terminalize_calls [simp]: "db_calls (fold (terminalize_inconsistent_step b now) ss d) = db_calls d"
  by (induction ss arbitrary: d) simp_all

lemma fold_terminalize_steps:
  "distinct (map st_id (db_steps d)) \<Longrightarrow>
   db_steps (fold (terminalize_inconsistent_step b now) ss d) =
     map (\<lambda>r. if \<exists>s \<in> set ss. st_id s = st_id r \<and> \<not> terminal_status (status s) then settled_step b now r else r)
       (db_steps d)"
proof (induction ss arbitrary: d)
  case (Cons s ss)
  note steps = terminalize_steps [OF Cons.prems, of b now s]
  have "map st_id (db_steps (terminalize_inconsistent_step b now s d)) = map st_id (db_steps d)"
    unfolding steps by simp
  with Cons.prems have "distinct (map st_id (db_steps (terminalize_inconsistent_step b now s d)))"
    by simp
  from Cons.IH [OF this] show ?case
    unfolding steps by (auto simp: settled_step_terminal)
qed simp

text \<open>The state a failed recovery leaves.\<close>

lemma fail_inconsistent_steps:
  assumes "distinct (map st_id (db_steps d))"
  shows "db_steps (fail_inconsistent ex now d) =
    map (\<lambda>r. if st_execution_id r = ex_id ex
             then settled_step (started_pairs d (list_steps d (ex_id ex)) \<noteq> []) now r else r) (db_steps d)"
proof -
  have "(if \<exists>s \<in> set (list_steps d (ex_id ex)). st_id s = st_id r \<and> \<not> terminal_status (status s)
         then settled_step b now r else r) =
        (if st_execution_id r = ex_id ex then settled_step b now r else r)" if r: "r \<in> set (db_steps d)" for r b
  proof -
    have uniq: "s = r" if "s \<in> set (db_steps d)" "st_id s = st_id r" for s
      using that r assms by (auto simp: distinct_map dest: inj_onD)
    show ?thesis
      using r uniq by (auto simp: set_list_steps settled_step_terminal)
  qed
  with assms show ?thesis
    by (simp add: fail_inconsistent_def Let_def fold_terminalize_steps)
qed

lemma fail_inconsistent_calls:
  assumes "distinct (map tl_id (db_calls d))"
  shows "db_calls (fail_inconsistent ex now d) =
    map (\<lambda>c. if tl_id c \<in> tl_id ` snd ` set (started_pairs d (list_steps d (ex_id ex)))
             then unknown_call now c else c) (db_calls d)"
  using assms by (simp add: fail_inconsistent_def Let_def fold_mark_pair_calls)

lemma set_started_pairs:
  "(a, c) \<in> set (started_pairs d steps) \<longleftrightarrow>
     (\<exists>s \<in> set steps. a \<in> set (db_attempts d) \<and> at_step_id a = st_id s) \<and>
     c \<in> set (db_calls d) \<and> tl_attempt_id c = at_id a \<and> normalized_status c = A_STARTED"
  by (auto simp: started_pairs_def list_attempts_def list_tool_calls_def)

text \<open>The decision when the worker died during a tool call.\<close>

lemma load_risk_valid: "load_risk_and_attempts E ex step = Inr (risk, n) \<Longrightarrow> risk_class_valid risk \<and> 1 \<le> n"
  unfolding load_risk_and_attempts_def by (auto split: json.splits option.splits if_splits)

lemma valid_risk_cases: "risk_class_valid risk \<Longrightarrow> is_safe_retry_risk risk \<longleftrightarrow> \<not> is_unsafe_ambiguous_risk risk"
  by (auto simp: risk_class_valid_def is_safe_retry_risk_def is_unsafe_ambiguous_risk_def)

definition interrupted_call :: "lineage_env \<Rightarrow> execution_row \<Rightarrow> execution_step \<Rightarrow> step_attempt \<Rightarrow> tool_call \<Rightarrow> db
    \<Rightarrow> string \<Rightarrow> int \<Rightarrow> bool" where
  "interrupted_call E ex step a c d risk n \<longleftrightarrow>
     lock_foundation_step ex d = Inr step \<and> status step = RUNNING \<and> sole_started d step a \<and>
     list_tool_calls d (at_id a) = [c] \<and> normalized_status c = A_STARTED \<and>
     mcp_tool_version_id step = Some (tl_tool_version_id c) \<and> load_risk_and_attempts E ex step = Inr (risk, n)"

lemma interrupted_call_decides:
  assumes "interrupted_call E ex step a c d risk n"
  shows "decide E ex step d = Inr (if is_unsafe_ambiguous_risk risk then DECIDE_UNKNOWN_OUTCOME
           else if can_safe_retry (attempt_count step) n then SAFE_RETRY else FAIL_EXHAUSTED)"
proof -
  note A = assms [unfolded interrupted_call_def]
  have "a \<in> set (filter (\<lambda>a. at_status a = A_STARTED) (list_attempts d (st_id step)))"
    using A by (simp add: sole_started_def)
  then have ids: "at_step_id a = st_id step"
    by (simp add: list_attempts_def)
  have "c \<in> set (list_tool_calls d (at_id a))"
    using A by simp
  then have "tl_attempt_id c = at_id a"
    by (simp add: list_tool_calls_def)
  with A load_risk_valid [of E ex step risk n] valid_risk_cases [of risk]
  have "decide_started_call E ex step a c = Inr (if is_unsafe_ambiguous_risk risk then DECIDE_UNKNOWN_OUTCOME
           else if can_safe_retry (attempt_count step) n then SAFE_RETRY else FAIL_EXHAUSTED)"
    by (simp add: decide_started_call_def)
  with A ids show ?thesis
    by (simp add: decide_def sole_started_def Let_def)
qed

lemma put_row_effect:
  "s \<in> set (db_steps (put_step s' d)) \<Longrightarrow> st_id s = st_id s' \<Longrightarrow> s = s'"
  "x \<in> set (db_calls (put_call c' d)) \<Longrightarrow> tl_id x = tl_id c' \<Longrightarrow> x = c'"
  "a \<in> set (db_attempts (put_attempt a' d)) \<Longrightarrow> at_id a = at_id a' \<Longrightarrow> a = a'"
  by (auto simp: put_step_def put_call_def put_attempt_def split: if_splits)

definition settled_attempt :: "attempt_status \<Rightarrow> bool \<Rightarrow> time \<Rightarrow> step_attempt \<Rightarrow> step_attempt" where
  "settled_attempt t r ts a =
     a\<lparr>at_status := t, at_error_layer := Some ''WORKER'', at_error_code := Some ''WORKER_LEASE_EXPIRED'',
       is_retryable := Some r, at_finished_at := Some ts\<rparr>"

lemma settled_attempt_id [simp]: "at_id (settled_attempt t r ts a) = at_id a"
  by (simp add: settled_attempt_def)

lemma terminalize_orphan_effect:
  "db_calls (terminalize_orphan_attempt_tool_call a c ts t r d) =
     db_calls (put_call (c\<lparr>normalized_status := t, tl_finished_at := Some ts\<rparr>) d)"
  "db_steps (terminalize_orphan_attempt_tool_call a c ts t r d) = db_steps d"
  "db_attempts (terminalize_orphan_attempt_tool_call a c ts t r d) =
     db_attempts (put_attempt (settled_attempt t r ts a) d)"
  by (simp_all add: terminalize_orphan_attempt_tool_call_def settled_attempt_def put_attempt_def)

lemma put_attempt_rows:
  "db_attempts (put_attempt a d) = map (\<lambda>x. if at_id x = at_id a then a else x) (db_attempts d)"
  by (simp add: put_attempt_def)

subsection \<open>A sample\<close>

text \<open>A RUNNING execution whose worker died during its first tool call.\<close>

definition recovery_sample_row :: "string \<Rightarrow> execution_row" where
  "recovery_sample_row risk =
     (claimed_row 30 ''w1'' 11 100 lease_sample_row)\<lparr>policy_snapshot := JObj [(''tool_policy'',
        JObj [(''risk_class'', JStr risk), (''max_attempts'', JInt 2), (''mcp_tool_id'', JStr (uuid_str 8))])]\<rparr>"

definition recovery_sample_step :: execution_step where
  "recovery_sample_step = (sample_row 1 (sample_step ''tool_1'' TOOL []) RUNNING)\<lparr>attempt_count := 1\<rparr>"

definition recovery_sample_attempt :: step_attempt where
  "recovery_sample_attempt =
     \<lparr>at_id = 21, at_step_id = 1, attempt_no = 1, at_status = A_STARTED, at_worker_id = Some ''w1'',
      at_lease_expires_at = None, request_snapshot = JNull, at_error_layer = None, at_error_code = None,
      is_retryable = None, at_finished_at = None\<rparr>"

definition recovery_sample_call :: tool_call where
  "recovery_sample_call =
     \<lparr>tl_id = 31, tl_attempt_id = 21, tl_tool_version_id = 5, normalized_status = A_STARTED, tl_finished_at = None,
      response_meta = JNull, response_bytes = None, first_byte_at = None\<rparr>"

definition recovery_sample_db :: "string \<Rightarrow> db" where
  "recovery_sample_db risk =
     \<lparr>db_execution = Some (recovery_sample_row risk), db_steps = [recovery_sample_step],
      db_attempts = [recovery_sample_attempt], db_calls = [recovery_sample_call], db_occurrences = [],
      db_schedules = [], db_approvals = [], db_inputs = [], db_events = []\<rparr>"

lemmas recovery_sample_defs = recovery_sample_db_def recovery_sample_step_def
  recovery_sample_attempt_def recovery_sample_call_def sample_row_def sample_step_def

lemma recovery_sample_row_simps [simp]:
  "ex_id (recovery_sample_row risk) = 7" "ex_status (recovery_sample_row risk) = E_RUNNING"
  "source_type (recovery_sample_row risk) = ''AGENT_REQUEST''"
  "lease_expires_at (recovery_sample_row risk) = Some 30000100"
  "schedule_occurrence_id (recovery_sample_row risk) = None"
  by (simp_all add: recovery_sample_row_def claimed_row_def lease_sample_row_def)

lemma recovery_sample_evidence:
  "list_steps (recovery_sample_db risk) 7 = [recovery_sample_step]"
  "lock_foundation_step (recovery_sample_row risk) (recovery_sample_db risk) = Inr recovery_sample_step"
  "sole_started (recovery_sample_db risk) recovery_sample_step recovery_sample_attempt"
  "list_tool_calls (recovery_sample_db risk) (at_id recovery_sample_attempt) = [recovery_sample_call]"
  by (simp_all add: lock_foundation_step_def list_steps_def sole_started_def list_attempts_def list_tool_calls_def
      recovery_sample_defs)

lemma recovery_sample_risk:
  "risk_class_valid risk \<Longrightarrow>
   load_risk_and_attempts lease_sample_env (recovery_sample_row risk) recovery_sample_step = Inr (risk, 2)"
  by (simp add: load_risk_and_attempts_def recovery_sample_row_def get_str_def get_int_def lease_sample_env_def
      recovery_sample_step_def sample_row_def sample_step_def uuid_str_def Let_def)

lemma recovery_sample_interrupted:
  "risk_class_valid risk \<Longrightarrow> interrupted_call lease_sample_env (recovery_sample_row risk) recovery_sample_step
     recovery_sample_attempt recovery_sample_call (recovery_sample_db risk) risk 2"
  using recovery_sample_evidence [of risk] recovery_sample_risk [of risk]
  by (simp add: interrupted_call_def) (simp add: recovery_sample_defs)

lemma recovery_sample_expired:
  "db_execution (recovery_sample_db risk) = Some (recovery_sample_row risk)"
  "recover_route (recovery_sample_row risk) 40000000 = Route_Foundation"
  by (simp_all add: recovery_sample_db_def recover_route_def is_agent_schedule_occurrence_def)

text \<open>The same row as an occurrence of an AGENT\_VERSION schedule.\<close>

definition schedule_sample_row :: execution_row where
  "schedule_sample_row = (recovery_sample_row ''READ_ONLY'')\<lparr>source_type := ''SCHEDULE_OCCURRENCE'',
     schedule_occurrence_id := Some 2\<rparr>"

definition schedule_sample_db :: db where
  "schedule_sample_db = put_execution schedule_sample_row (recovery_sample_db ''READ_ONLY'')"

lemma schedule_sample_simps:
  "ex_id schedule_sample_row = 7" "ex_status schedule_sample_row = E_RUNNING"
  "lease_expires_at schedule_sample_row = Some 30000100" "is_agent_schedule_occurrence schedule_sample_row"
  "db_execution schedule_sample_db = Some schedule_sample_row"
  "db_steps schedule_sample_db = [recovery_sample_step]"
  by (simp_all add: schedule_sample_row_def schedule_sample_db_def recovery_sample_db_def
      is_agent_schedule_occurrence_def)
    (simp_all add: recovery_sample_row_def claimed_row_def lease_sample_row_def)

lemma recovery_sample_runs:
  "\<exists>d'. recover_foundation lease_sample_env 30 (recovery_sample_row ''READ_ONLY'') ''w2'' 12 40000000
     (recovery_sample_db ''READ_ONLY'') = Inr (keep_lease SAFE_RETRY ''w2'' 12, d')"
proof -
  have int: "interrupted_call lease_sample_env (recovery_sample_row ''READ_ONLY'') recovery_sample_step
     recovery_sample_attempt recovery_sample_call (recovery_sample_db ''READ_ONLY'') ''READ_ONLY'' 2"
    by (rule recovery_sample_interrupted) (simp add: risk_class_valid_def)
  have "decide lease_sample_env (recovery_sample_row ''READ_ONLY'') recovery_sample_step
      (recovery_sample_db ''READ_ONLY'') = Inr SAFE_RETRY"
    using interrupted_call_decides [OF int]
    by (simp add: is_unsafe_ambiguous_risk_def can_safe_retry_def recovery_sample_step_def)
  then show ?thesis
    using recovery_sample_evidence [of "''READ_ONLY''"] int
    by (simp add: recover_foundation_def apply_decision_def sole_started_required sole_call_required Let_def
        interrupted_call_def)
qed

subsection \<open>Where an expired execution is sent\<close>

lemma expired_route:
  assumes "ex_status ex = E_RUNNING" and "lease_expires_at ex = Some t" and "t \<le> ts"
    and "source_type ex = ''AGENT_REQUEST'' \<or> is_agent_schedule_occurrence ex"
  shows "recover_route ex ts = Route_Foundation"
  using assms by (auto simp: recover_route_def is_agent_schedule_occurrence_def)

lemma recover_expired:
  assumes "normalize_worker_id w = Inr worker" and "db_execution d = Some ex"
    and "ex_status ex = E_RUNNING" and "lease_expires_at ex = Some t" and "t \<le> ts"
    and "source_type ex = ''AGENT_REQUEST'' \<or> is_agent_schedule_occurrence ex"
  shows "recover E M lease (ex_id ex) w token ts d = recover_foundation E lease ex worker token ts d"
  using assms(1,2) expired_route [OF assms(3-6)] by (simp add: recover_def)

lemma schedule_lock_conflict:
  assumes "is_agent_schedule_occurrence ex"
  shows "lock_foundation_step ex d = Inl RESOURCE_CONFLICT"
  using assms by (auto simp: lock_foundation_step_def is_agent_schedule_occurrence_def split: list.split)

subsection \<open>Properties\<close>

text \<open>C8: Whoever calls \<open>recover\<close> on a RUNNING execution whose lease has expired, of an AgentRequest or of an
  AGENT\_VERSION schedule, takes it over: the call returns, with a fresh lease for the caller or with the execution
  FAILED and lease free.  It can only raise while replaying the input of a RUNNING step that has not called its tool,
  and then only four errors.  (Executions of a workflow go to the whole-DAG recovery, which is not modelled, and for
  the remaining source types \<open>recover\<close> answers NO\_OP.)\<close>

theorem expired_lease_taken_over:
  assumes "normalize_worker_id w = Inr worker" and "db_execution d = Some ex"
    and "ex_status ex = E_RUNNING" and "lease_expires_at ex = Some t" and "t \<le> ts"
    and "source_type ex = ''AGENT_REQUEST'' \<or> is_agent_schedule_occurrence ex"
  shows "(\<exists>out d' ex'. recover E M lease (ex_id ex) w token ts d = Inr (out, d') \<and>
            db_execution d' = Some ex' \<and> taken_row lease worker token ts ex out ex') \<or>
    (\<exists>step e. recover E M lease (ex_id ex) w token ts d = Inl e \<and> lock_foundation_step ex d = Inr step \<and>
       replay_error E ex step d e \<and>
       e \<in> {PRECONDITION_FAILED, LOOP_COLLECTION_TYPE_MISMATCH, ValueError, RecursionError})"
proof -
  note eq = recover_expired [OF assms]
  show ?thesis
  proof (cases "recover_foundation E lease ex worker token ts d")
    case (Inr r)
    obtain out d' where "r = (out, d')"
      by (cases r)
    with Inr recover_foundation_row [of E lease ex worker token ts d out d'] show ?thesis
      unfolding eq by blast
  next
    case (Inl e)
    from Inl obtain step where "lock_foundation_step ex d = Inr step" "replay_error E ex step d e"
        "\<forall>st. e \<noteq> AppError ''RESOURCE_CONFLICT'' st"
      by (cases rule: recover_foundation_cases [of ex d E lease worker token ts]) auto
    moreover from this(3) replay_errors [OF this(2)] have
      "e \<in> {PRECONDITION_FAILED, LOOP_COLLECTION_TYPE_MISMATCH, ValueError, RecursionError}"
      by (auto simp: replay_exception_def binding_error_def)
    ultimately show ?thesis
      using Inl unfolding eq by blast
  qed
qed

theorem expired_lease_taken_over_witness:
  "\<exists>out d' ex'. recover lease_sample_env lease_sample_modules 30 7 ''w2'' 12 40000000
       (recovery_sample_db ''READ_ONLY'') = Inr (out, d') \<and> db_execution d' = Some ex' \<and>
     taken_row 30 ''w2'' 12 40000000 (recovery_sample_row ''READ_ONLY'') out ex'"
proof -
  have "\<exists>r. recover lease_sample_env lease_sample_modules 30 (ex_id (recovery_sample_row ''READ_ONLY'')) ''w2'' 12
      40000000 (recovery_sample_db ''READ_ONLY'') = Inr r"
    using recovery_sample_runs by (auto simp: recover_def normalize_worker_samples recovery_sample_expired)
  with expired_lease_taken_over [OF normalize_worker_samples(2) recovery_sample_expired(1) [of "''READ_ONLY''"],
      of 30000100 40000000 lease_sample_env lease_sample_modules 30 12]
  show ?thesis
    by auto
qed

text \<open>C9: A tool call that had started when the lease expired, so that its effect is unknown, is only followed
  by another run of its step when the pinned risk class is READ\_ONLY or IDEMPOTENT\_WRITE and the pinned
  number of attempts is not used up.\<close>

theorem unsafe_call_not_repeated:
  assumes "recover_foundation E lease ex worker token ts d = Inr (out, d')" and "invoke_runner out"
    and "s \<in> set (list_steps d (ex_id ex))" and "a \<in> set (db_attempts d)" and "at_step_id a = st_id s"
    and "at_status a = A_STARTED" and "c \<in> set (db_calls d)" and "tl_attempt_id c = at_id a"
  shows "\<exists>risk n. load_risk_and_attempts E ex s = Inr (risk, n) \<and>
    risk \<in> {''READ_ONLY'', ''IDEMPOTENT_WRITE''} \<and> attempt_count s < n"
proof (cases rule: recover_foundation_cases [of ex d E lease worker token ts])
  case (Decided step dec out' d'')
  with assms(1) have run: "apply_decision (assign_lease lease worker token ts ex) step dec worker token ts d = Inr (out, d')"
    by simp
  from Decided(1) assms(3) have [simp]: "step = s"
    by (auto simp: lock_foundation_step_def split: list.splits if_splits)
  have here: "a \<in> set (list_attempts d (st_id s))" "c \<in> set (list_tool_calls d (at_id a))"
    using assms(4-8) by (simp_all add: list_attempts_def list_tool_calls_def)
  have sole: "a' = a" if "sole_started d s a'" for a'
  proof -
    have "a \<in> set (filter (\<lambda>a. at_status a = A_STARTED) (list_attempts d (st_id s)))"
      using here(1) assms(6) by simp
    with that show ?thesis
      by (simp add: sole_started_def)
  qed
  have "decision_evidence E ex s d dec"
    using decide_evidence [OF Decided(2)] by simp
  moreover have "dec \<noteq> FAIL_EXHAUSTED" "dec \<noteq> DECIDE_UNKNOWN_OUTCOME"
    using run assms(2) by (auto simp: apply_decision_def drop_lease_def Let_def)
  ultimately show ?thesis
    using here assms(6)
    by (cases dec) (auto simp: decision_evidence_def list_all_iff is_safe_retry_risk_def can_safe_retry_def
        split: if_splits dest!: sole)
next
  case Inconsistent
  with assms(1,2) show ?thesis
    by (auto simp: drop_lease_def)
next
  case (Replay step e)
  with assms(1) show ?thesis
    by simp
qed

theorem unsafe_call_not_repeated_witness:
  "\<exists>risk n. load_risk_and_attempts lease_sample_env (recovery_sample_row ''READ_ONLY'') recovery_sample_step =
     Inr (risk, n) \<and> risk \<in> {''READ_ONLY'', ''IDEMPOTENT_WRITE''} \<and> attempt_count recovery_sample_step < n"
proof -
  from recovery_sample_runs obtain d' where
    run: "recover_foundation lease_sample_env 30 (recovery_sample_row ''READ_ONLY'') ''w2'' 12 40000000
      (recovery_sample_db ''READ_ONLY'') = Inr (keep_lease SAFE_RETRY ''w2'' 12, d')" by blast
  show ?thesis
    by (rule unsafe_call_not_repeated [OF run, of _ recovery_sample_attempt recovery_sample_call])
      (simp_all add: keep_lease_def recovery_sample_evidence, simp_all add: recovery_sample_defs)
qed

text \<open>C30: The finding of the schedule recovery.  When the lease of a RUNNING execution of an AGENT\_VERSION schedule
  has expired, \<open>recover\<close> sends it to the AgentRequest recovery, and that one never resumes it, whatever its
  steps, attempts and tool calls say: the outcome is always FAIL\_INCONSISTENT, the execution ends FAILED and lease
  free, and every step of it that was still open ends FAILED or UNKNOWN\_OUTCOME.\<close>

theorem agent_schedule_never_resumed:
  assumes "normalize_worker_id w = Inr worker" and "db_execution d = Some ex"
    and "ex_status ex = E_RUNNING" and "lease_expires_at ex = Some t" and "t \<le> ts"
    and "is_agent_schedule_occurrence ex" and "distinct (map st_id (db_steps d))"
  shows "\<exists>d'. recover E M lease (ex_id ex) w token ts d = Inr (drop_lease FAIL_INCONSISTENT, d') \<and>
    db_execution d' =
      Some (fail_row ''RECOVERY_INCONSISTENT_EVIDENCE'' ts (assign_lease lease worker token ts ex)) \<and>
    db_steps d' = map (\<lambda>s. if st_execution_id s = ex_id ex
      then settled_step (started_pairs d (list_steps d (ex_id ex)) \<noteq> []) ts s else s) (db_steps d)"
proof -
  have "recover E M lease (ex_id ex) w token ts d =
      Inr (drop_lease FAIL_INCONSISTENT, fail_inconsistent (assign_lease lease worker token ts ex) ts d)"
    using recover_expired [OF assms(1-5) disjI2 [OF assms(6)]] schedule_lock_conflict [OF assms(6)]
    by (simp add: recover_foundation_def)
  then show ?thesis
    using fail_inconsistent_steps [OF assms(7), of "assign_lease lease worker token ts ex" ts]
    by (simp add: fail_inconsistent_row)
qed

theorem agent_schedule_never_resumed_witness:
  "\<exists>d'. recover lease_sample_env lease_sample_modules 30 7 ''w2'' 12 40000000 schedule_sample_db =
       Inr (drop_lease FAIL_INCONSISTENT, d') \<and> map status (db_steps d') = [UNKNOWN_OUTCOME]"
proof -
  have "started_pairs schedule_sample_db [recovery_sample_step] \<noteq> []"
    by (simp add: started_pairs_def schedule_sample_db_def recovery_sample_defs list_attempts_def list_tool_calls_def
        put_execution_def)
  moreover have "list_steps schedule_sample_db 7 = [recovery_sample_step]"
    by (simp add: list_steps_def schedule_sample_simps) (simp add: recovery_sample_defs)
  moreover have "status (settled_step True 40000000 recovery_sample_step) = UNKNOWN_OUTCOME"
    "st_execution_id recovery_sample_step = 7"
    by (simp_all add: settled_step_def fail_step_def terminal_status_def recovery_sample_defs)
  ultimately show ?thesis
    using agent_schedule_never_resumed [OF normalize_worker_samples(2) schedule_sample_simps(5,2,3) _ schedule_sample_simps(4),
        of 40000000 lease_sample_env lease_sample_modules 30 12]
    by (auto simp: schedule_sample_simps)
qed

text \<open>C10: When the worker died during a tool call, recovery settles the call once and for all by its risk class.  An
  unsafe class: call, attempt and step end in UNKNOWN\_OUTCOME, the execution FAILED.  A safe class with attempts
  left: call and attempt FAILED, the attempt marked retryable, the step READY again, and the caller has the lease.  A
  safe class with none left: call, attempt, step and execution FAILED.  No other attempt changes.\<close>

theorem interrupted_call_recovery:
  assumes "interrupted_call E ex step a c d risk n"
  shows "let unsafe = risk \<in> {''NON_IDEMPOTENT_WRITE'', ''DESTRUCTIVE'', ''UNKNOWN''};
             retry = (\<not> unsafe \<and> 0 \<le> attempt_count step \<and> attempt_count step < n);
             leased_ex = assign_lease lease worker token ts ex
    in \<exists>d'. recover_foundation E lease ex worker token ts d =
      Inr (if retry then keep_lease SAFE_RETRY worker token
           else drop_lease (if unsafe then DECIDE_UNKNOWN_OUTCOME else FAIL_EXHAUSTED), d') \<and>
    db_execution d' = Some (if retry then leased_ex else fail_row ''WORKER_LEASE_EXPIRED'' ts leased_ex) \<and>
    (\<forall>s \<in> set (db_steps d'). st_id s = st_id step \<longrightarrow>
       status s = (if unsafe then UNKNOWN_OUTCOME else if retry then READY else FAILED)) \<and>
    (\<forall>x \<in> set (db_calls d'). tl_id x = tl_id c \<longrightarrow>
       normalized_status x = (if unsafe then A_UNKNOWN_OUTCOME else A_FAILED)) \<and>
    db_attempts d' = map (\<lambda>x. if at_id x = at_id a
      then settled_attempt (if unsafe then A_UNKNOWN_OUTCOME else A_FAILED) retry ts a else x) (db_attempts d)"
proof -
  define unsafe where "unsafe \<longleftrightarrow> risk \<in> {''NON_IDEMPOTENT_WRITE'', ''DESTRUCTIVE'', ''UNKNOWN''}"
  define leased_ex where "leased_ex = assign_lease lease worker token ts ex"
  note A = assms(1) [unfolded interrupted_call_def]
  have risk: "is_unsafe_ambiguous_risk risk = unsafe"
    by (simp add: unsafe_def is_unsafe_ambiguous_risk_def)
  have n: "1 \<le> n"
    using load_risk_valid A by blast
  have req: "require_single_started_attempt d step = Inr a" "require_started_tool_call d a = Inr c"
    using A by (simp_all add: sole_started_required sole_call_required)
  note eq = interrupted_call_decides [OF assms(1), unfolded risk]
  have run: "recover_foundation E lease ex worker token ts d = apply_decision leased_ex step
      (if unsafe then DECIDE_UNKNOWN_OUTCOME else if can_safe_retry (attempt_count step) n then SAFE_RETRY
       else FAIL_EXHAUSTED) worker token ts d"
    using A eq by (simp add: recover_foundation_def leased_ex_def)
  have retry: "can_safe_retry (attempt_count step) n \<longleftrightarrow> 0 \<le> attempt_count step \<and> attempt_count step < n"
    using n by (auto simp: can_safe_retry_def)
  show ?thesis
    unfolding run Let_def unsafe_def [symmetric] leased_ex_def [symmetric]
    by (cases unsafe; cases "can_safe_retry (attempt_count step) n")
      (auto simp: retry apply_decision_def req Let_def fail_execution_step_def terminalize_orphan_effect
        fail_step_def retry_ready_step_def put_attempt_rows dest!: put_row_effect)
qed

theorem interrupted_call_recovery_witness:
  "\<exists>d'. recover_foundation lease_sample_env 30 (recovery_sample_row ''DESTRUCTIVE'') ''w2'' 12 40000000
     (recovery_sample_db ''DESTRUCTIVE'') = Inr (drop_lease DECIDE_UNKNOWN_OUTCOME, d') \<and>
     map at_status (db_attempts d') = [A_UNKNOWN_OUTCOME]"
proof -
  have "db_attempts (recovery_sample_db ''DESTRUCTIVE'') = [recovery_sample_attempt]"
    by (simp add: recovery_sample_db_def)
  then show ?thesis
    using interrupted_call_recovery [OF recovery_sample_interrupted, of "''DESTRUCTIVE''" 30 "''w2''" 12 40000000]
    by (auto simp: Let_def risk_class_valid_def settled_attempt_def)
qed

text \<open>C29: A recovery that finds evidence that does not fit together leaves nothing of the execution running: every
  step is terminal (steps that were keep their row, the others become UNKNOWN\_OUTCOME if some tool call had
  started anywhere in the execution, else FAILED), every tool call that had started is UNKNOWN\_OUTCOME, and the
  execution is FAILED and lease free.\<close>

theorem inconsistent_recovery_settles:
  assumes "distinct (map st_id (db_steps d))" and "distinct (map tl_id (db_calls d))"
  shows "db_execution (fail_inconsistent ex now d) = Some (fail_row ''RECOVERY_INCONSISTENT_EVIDENCE'' now ex) \<and>
    db_steps (fail_inconsistent ex now d) =
      map (\<lambda>s. if st_execution_id s = ex_id ex
               then settled_step (started_pairs d (list_steps d (ex_id ex)) \<noteq> []) now s else s) (db_steps d) \<and>
    (\<forall>s \<in> set (db_steps (fail_inconsistent ex now d)).
       st_execution_id s = ex_id ex \<longrightarrow> terminal_status (status s)) \<and>
    (\<forall>s a c. s \<in> set (db_steps d) \<and> st_execution_id s = ex_id ex \<and> a \<in> set (db_attempts d) \<and> at_step_id a = st_id s
       \<and> c \<in> set (db_calls (fail_inconsistent ex now d)) \<and> tl_attempt_id c = at_id a
       \<longrightarrow> normalized_status c \<noteq> A_STARTED)"
proof -
  let ?pairs = "started_pairs d (list_steps d (ex_id ex))"
  have calls: "normalized_status c \<noteq> A_STARTED"
    if "s \<in> set (db_steps d)" "st_execution_id s = ex_id ex" "a \<in> set (db_attempts d)" "at_step_id a = st_id s"
      "c \<in> set (db_calls (fail_inconsistent ex now d))" "tl_attempt_id c = at_id a" for s a c
  proof
    assume started: "normalized_status c = A_STARTED"
    with that(5) have c: "c \<in> set (db_calls d)" "tl_id c \<notin> tl_id ` snd ` set ?pairs"
      by (auto simp: fail_inconsistent_calls [OF assms(2)] split: if_splits)
    with that started have "(a, c) \<in> set ?pairs"
      unfolding set_started_pairs set_list_steps by auto
    with c(2) show False
      by force
  qed
  show ?thesis
    using calls by (auto simp: fail_inconsistent_row fail_inconsistent_steps [OF assms(1)] split: if_splits)
qed

theorem inconsistent_recovery_settles_witness:
  "db_execution (fail_inconsistent (recovery_sample_row ''READ_ONLY'') 5 (recovery_sample_db ''READ_ONLY'')) =
     Some (fail_row ''RECOVERY_INCONSISTENT_EVIDENCE'' 5 (recovery_sample_row ''READ_ONLY''))"
  by (rule conjunct1 [OF inconsistent_recovery_settles]) (simp_all add: recovery_sample_db_def)

text \<open>An attempt that failed is retried at once exactly when the failure is transient and harmless: the error is
  marked retryable, the outcome is neither unknown nor a success, the pinned risk class is READ\_ONLY, no backoff is
  configured, attempts are left, and the step has time left in its timeout.\<close>

theorem retry_decision_iff:
  "schedule_retry (decide_safe_transient_retry err classified risk attempts maxn backoff started timeout now) \<longleftrightarrow>
     (\<exists>e. err = Some e \<and> retryable e) \<and> classified \<notin> {UNKNOWN_OUTCOME, SUCCEEDED} \<and> risk = ''READ_ONLY'' \<and>
     backoff = JNull \<and> 0 \<le> attempts \<and> attempts < maxn \<and>
     (\<forall>s t. started = Some s \<and> timeout = Some t \<longrightarrow> 1 \<le> t \<and> now < s + t * 1000000)"
  by (cases err; cases started; cases timeout)
    (auto simp: decide_safe_transient_retry_def is_normal_auto_retry_risk_def can_safe_retry_def
      step_timeout_budget_exhausted_def)

theorem retry_decision_iff_witness:
  "schedule_retry (decide_safe_transient_retry
     (Some \<lparr>error_layer = ''TRANSPORT'', me_error_code = ''TIMEOUT'', retryable = True, outcome_unknown = False\<rparr>)
     FAILED ''READ_ONLY'' 1 3 JNull (Some 0) (Some 60) 1000000)"
  by (simp add: retry_decision_iff)

text \<open>
  What failing closed does not settle: with a started tool call anywhere in the execution, an attempt that has not
  called its tool stays as it is, so it may stay STARTED below a terminal step.
\<close>

lemma mark_pair_keeps_attempt:
  "a \<in> set (db_attempts d) \<Longrightarrow> at_id a \<noteq> at_id (fst p) \<Longrightarrow> a \<in> set (db_attempts (mark_pair_unknown now p d))"
  by (auto simp: mark_pair_unknown_def Let_def put_attempt_def image_iff split: option.split dest: find_SomeD)

lemma fold_mark_pair_keeps_attempt:
  "a \<in> set (db_attempts d) \<Longrightarrow> at_id a \<notin> at_id ` fst ` set ps \<Longrightarrow>
     a \<in> set (db_attempts (fold (mark_pair_unknown now) ps d))"
  by (induction ps arbitrary: d) (simp_all add: mark_pair_keeps_attempt)

lemma fold_terminalize_keeps_attempts:
  "db_attempts (fold (terminalize_inconsistent_step True now) ss d) = db_attempts d"
proof (induction ss arbitrary: d)
  case (Cons s ss)
  have "db_attempts (terminalize_inconsistent_step True now s d) = db_attempts d"
    by (simp add: terminalize_inconsistent_step_def Let_def split: option.split)
  with Cons show ?case
    by simp
qed simp

lemma ambiguous_failure_keeps_attempt:
  assumes "started_pairs d (list_steps d (ex_id ex)) \<noteq> []" and "a \<in> set (db_attempts d)"
    and "at_id a \<notin> at_id ` fst ` set (started_pairs d (list_steps d (ex_id ex)))"
  shows "a \<in> set (db_attempts (fail_inconsistent ex now d))"
  using fold_mark_pair_keeps_attempt [OF assms(2,3), of now] assms(1)
  by (simp add: fail_inconsistent_def Let_def fold_terminalize_keeps_attempts)

end
