(* ===== verification/CancelSafety.thy ===== *)
theory CancelSafety
  imports RecoverySafety
begin

section \<open>What a cancellation leaves behind\<close>

text \<open>
  Closed forms of the loops of \<open>CancelService\<close>: which rows each of them changes, given that the primary keys
  are distinct.  From these follows that a cancellation stops everything except tool calls in flight.
\<close>

definition keyed :: "db \<Rightarrow> bool" where
  "keyed d \<longleftrightarrow> distinct (map st_id (db_steps d)) \<and> distinct (map at_id (db_attempts d)) \<and>
     distinct (map tl_id (db_calls d))"

lemma same_key: "distinct (map f xs) \<Longrightarrow> x \<in> set xs \<Longrightarrow> y \<in> set xs \<Longrightarrow> f x = f y \<Longrightarrow> x = y"
  by (simp add: distinct_map inj_on_def)

lemma find_row_key: "distinct (map f xs) \<Longrightarrow> x \<in> set xs \<Longrightarrow> f x = k \<Longrightarrow> find (\<lambda>r. f r = k) xs = Some x"
  using find_unique [of f xs x] by simp

lemma write_row:
  assumes "distinct (map f xs)" and "x \<in> set xs" and "f (g x) = f x"
  shows "map (\<lambda>r. if f r = f (g x) then g x else r) xs = map (\<lambda>r. if f r = f x then g r else r) xs"
  using update_by_key [where g = g and k = "f x", OF assms(1) find_unique [OF assms(1,2)] assms(3)] .

text \<open>Rows of a step that no write changes: their keys, and the statuses the joins look at.\<close>

definition attempt_key :: "step_attempt \<Rightarrow> uuid \<times> uuid" where
  "attempt_key a = (at_id a, at_step_id a)"

lemma step_has_started_iff:
  "step_has_started_tool_call d sid \<longleftrightarrow>
     (\<exists>c \<in> set (db_calls d). normalized_status c = A_STARTED \<and> (tl_attempt_id c, sid) \<in> attempt_key ` set (db_attempts d))"
  by (auto simp: step_has_started_tool_call_def list_ex_iff attempt_key_def image_iff) metis+

lemma step_has_started_cong:
  "db_calls d = db_calls d' \<Longrightarrow> map attempt_key (db_attempts d) = map attempt_key (db_attempts d') \<Longrightarrow>
     step_has_started_tool_call d = step_has_started_tool_call d'"
  by (rule ext) (simp add: step_has_started_iff set_map [symmetric] del: set_map)

lemma attempt_key_cancel [simp]: "attempt_key (cancel_attempt now a) = attempt_key a"
  by (simp add: attempt_key_def cancel_attempt_def)

lemma attempt_key_unknown [simp]: "attempt_key (unknown_attempt now code a) = attempt_key a"
  by (simp add: attempt_key_def unknown_attempt_def)

lemma put_attempt_keys:
  assumes "distinct (map at_id (db_attempts d))" and "a \<in> set (db_attempts d)" and "attempt_key a' = attempt_key a"
  shows "map attempt_key (db_attempts (put_attempt a' d)) = map attempt_key (db_attempts d)"
proof -
  have "attempt_key (if at_id r = at_id a' then a' else r) = attempt_key r" if "r \<in> set (db_attempts d)" for r
    using same_key [OF assms(1) that assms(2)] assms(3) by (auto simp: attempt_key_def)
  then show ?thesis
    by (simp add: put_attempt_def)
qed

lemma map_key_ids:
  assumes "map attempt_key xs = map attempt_key ys"
  shows "map at_id xs = map at_id ys"
proof -
  have "map at_id zs = map fst (map attempt_key zs)" for zs
    by (simp add: attempt_key_def)
  then show ?thesis
    unfolding assms [symmetric] by (metis assms)
qed

lemma distinct_list_steps:
  "distinct (map st_id (db_steps d)) \<Longrightarrow> distinct (map st_id (list_steps d eid))"
  by (auto simp: list_steps_def distinct_map inj_on_def)

lemma list_steps_ids:
  "distinct (map st_id (db_steps d)) \<Longrightarrow> r \<in> set (db_steps d) \<Longrightarrow>
     st_id r \<in> st_id ` set (list_steps d eid) \<longleftrightarrow> st_execution_id r = eid"
  using same_key [of st_id "db_steps d"] by (auto simp: set_list_steps image_iff)

subsection \<open>Cancelling the steps that can be cancelled\<close>

lemma cancel_attempts_keys:
  assumes "distinct (map at_id (db_attempts d))"
  shows "map attempt_key (db_attempts (cancel_started_attempts_without_inflight_tool_call now s d)) =
    map attempt_key (db_attempts d)"
proof -
  have "map attempt_key (db_attempts (fold (\<lambda>a d. if at_status a \<noteq> A_STARTED \<or> inflight d a then d
          else put_attempt (cancel_attempt now a) d) xs d')) = map attempt_key (db_attempts d)"
    if "attempt_key ` set xs \<subseteq> attempt_key ` set (db_attempts d)"
      "map attempt_key (db_attempts d') = map attempt_key (db_attempts d)" for xs d'
    using that
  proof (induction xs arbitrary: d')
    case (Cons a xs)
    have dist: "distinct (map at_id (db_attempts d'))"
      using assms map_key_ids [OF Cons.prems(2)] by simp
    from Cons.prems obtain b where b: "b \<in> set (db_attempts d')" "attempt_key b = attempt_key a"
      by (metis (mono_tags, lifting) image_iff insert_subset list.set_map list.simps(15) list.set_intros(1)
          image_subset_iff)
    have "map attempt_key (db_attempts (put_attempt (cancel_attempt now a) d')) = map attempt_key (db_attempts d)"
      using put_attempt_keys [OF dist b(1), of "cancel_attempt now a"] b(2) Cons.prems(2) by simp
    with Cons show ?case
      by simp
  qed simp
  moreover have "attempt_key ` set (list_attempts d (st_id s)) \<subseteq> attempt_key ` set (db_attempts d)"
    by (auto simp: list_attempts_def)
  ultimately show ?thesis
    by (simp add: cancel_started_attempts_without_inflight_tool_call_def)
qed

definition may_cancel :: "db \<Rightarrow> uuid list \<Rightarrow> execution_step \<Rightarrow> bool" where
  "may_cancel d preserve r \<longleftrightarrow>
     st_id r \<notin> set preserve \<and> \<not> (status r = RUNNING \<and> step_has_started_tool_call d (st_id r))"

lemma cancel_step_terminal: "terminal_status (status s) \<Longrightarrow> cancel_step now s = s"
  by (simp add: cancel_step_def)

lemma cancel_step_simps [simp]:
  "st_id (cancel_step now s) = st_id s" "st_execution_id (cancel_step now s) = st_execution_id s"
  "terminal_status (status (cancel_step now s))"
  by (simp_all add: cancel_step_def terminal_status_def)

lemma cancel_safe_step_effect:
  assumes "keyed d" and "s \<in> set (db_steps d)"
  shows "db_steps (cancel_safe_step now preserve s d) =
      map (\<lambda>r. if st_id r = st_id s \<and> may_cancel d preserve r then cancel_step now r else r) (db_steps d)"
    and "map attempt_key (db_attempts (cancel_safe_step now preserve s d)) = map attempt_key (db_attempts d)"
proof -
  have dist: "distinct (map st_id (db_steps d))" "distinct (map at_id (db_attempts d))"
    using assms(1) by (simp_all add: keyed_def)
  have upd: "map (\<lambda>r. if st_id r = st_id (cancel_step now s) then cancel_step now s else r) (db_steps d) =
      map (\<lambda>r. if st_id r = st_id s then cancel_step now r else r) (db_steps d)"
    by (rule write_row [OF dist(1) assms(2)]) simp
  have keep: "map (\<lambda>r. if st_id r = st_id s then cancel_step now r else r) (db_steps d) = db_steps d"
    if "terminal_status (status s)"
    using write_row [OF dist(1) assms(2), of "\<lambda>r. r"] upd unfolding cancel_step_terminal [OF that]
    by (simp del: map_eq_conv)
  show "db_steps (cancel_safe_step now preserve s d) =
      map (\<lambda>r. if st_id r = st_id s \<and> may_cancel d preserve r then cancel_step now r else r) (db_steps d)"
  proof (cases "may_cancel d preserve s")
    case True
    have "(if st_id r = st_id s then cancel_step now r else r) =
        (if st_id r = st_id s \<and> may_cancel d preserve r then cancel_step now r else r)" if "r \<in> set (db_steps d)" for r
      using same_key [OF dist(1) that assms(2)] True by auto
    then have only: "map (\<lambda>r. if st_id r = st_id s then cancel_step now r else r) (db_steps d) =
        map (\<lambda>r. if st_id r = st_id s \<and> may_cancel d preserve r then cancel_step now r else r) (db_steps d)"
      by (rule map_cong [OF refl])
    show ?thesis
    proof (cases "terminal_status (status s)")
      case True
      then have "db_steps (cancel_safe_step now preserve s d) = db_steps d"
        by (simp add: cancel_safe_step_def)
      with keep [OF True] only show ?thesis
        by (simp only:)
    next
      case False
      with \<open>may_cancel d preserve s\<close> have "db_steps (cancel_safe_step now preserve s d) =
          map (\<lambda>r. if st_id r = st_id (cancel_step now s) then cancel_step now s else r) (db_steps d)"
        by (simp add: cancel_safe_step_def may_cancel_def put_step_def)
      with upd only show ?thesis
        by (simp only:)
    qed
  next
    case False
    have "r = (if st_id r = st_id s \<and> may_cancel d preserve r then cancel_step now r else r)"
      if "r \<in> set (db_steps d)" for r
      using same_key [OF dist(1) that assms(2)] False by auto
    then have "db_steps d =
        map (\<lambda>r. if st_id r = st_id s \<and> may_cancel d preserve r then cancel_step now r else r) (db_steps d)"
      by (intro map_idI [symmetric]) auto
    with False show ?thesis
      by (auto simp: cancel_safe_step_def may_cancel_def)
  qed
  show "map attempt_key (db_attempts (cancel_safe_step now preserve s d)) = map attempt_key (db_attempts d)"
    using cancel_attempts_keys [OF dist(2)] by (simp add: cancel_safe_step_def)
qed

lemma keyed_cong:
  "map st_id (db_steps d') = map st_id (db_steps d) \<Longrightarrow>
   map attempt_key (db_attempts d') = map attempt_key (db_attempts d) \<Longrightarrow>
   map tl_id (db_calls d') = map tl_id (db_calls d) \<Longrightarrow> keyed d \<Longrightarrow> keyed d'"
  by (drule map_key_ids) (simp add: keyed_def)

lemma cancel_safe_steps_effect:
  assumes "keyed d"
  shows "db_steps (cancel_safe_nonterminal_steps now preserve (list_steps d eid) d) =
    map (\<lambda>r. if st_execution_id r = eid \<and> may_cancel d preserve r then cancel_step now r else r) (db_steps d)"
proof -
  have "db_steps (fold (cancel_safe_step now preserve) ss d') =
      map (\<lambda>r. if st_id r \<in> st_id ` set ss \<and> may_cancel d preserve r then cancel_step now r else r) (db_steps d')"
    if "set ss \<subseteq> set (db_steps d')" "distinct (map st_id ss)" "keyed d'" "db_calls d' = db_calls d"
      "map attempt_key (db_attempts d') = map attempt_key (db_attempts d)" for ss d'
    using that
  proof (induction ss arbitrary: d')
    case (Cons s ss)
    define d2 where "d2 = cancel_safe_step now preserve s d'"
    have s: "s \<in> set (db_steps d')"
      using Cons.prems(1) by simp
    have may: "may_cancel d' preserve = may_cancel d preserve"
      using step_has_started_cong [OF Cons.prems(4,5)] by (simp add: may_cancel_def fun_eq_iff)
    note effect = cancel_safe_step_effect [OF Cons.prems(3) s, of now preserve, folded d2_def, unfolded may]
    have ids: "map st_id (db_steps d2) = map st_id (db_steps d')"
      unfolding effect(1) by simp
    have "set ss \<subseteq> set (db_steps d2)"
    proof
      fix t assume t: "t \<in> set ss"
      then have "st_id t \<in> st_id ` set ss"
        by (rule imageI)
      with Cons.prems(2) have "st_id t \<noteq> st_id s"
        by auto
      then have "t = (if st_id t = st_id s \<and> may_cancel d preserve t then cancel_step now t else t)"
        by simp
      moreover have "t \<in> set (db_steps d')"
        using t Cons.prems(1) by auto
      ultimately show "t \<in> set (db_steps d2)"
        unfolding effect(1) set_map by (rule image_eqI)
    qed
    moreover have "keyed d2"
      using keyed_cong [OF ids effect(2)] Cons.prems(3) by (simp add: d2_def)
    ultimately have "db_steps (fold (cancel_safe_step now preserve) ss d2) =
      map (\<lambda>r. if st_id r \<in> st_id ` set ss \<and> may_cancel d preserve r then cancel_step now r else r) (db_steps d2)"
      using Cons.prems(2,4,5) effect(2) by (intro Cons.IH) (simp_all add: d2_def)
    also have "\<dots> = map (\<lambda>r. if st_id r \<in> st_id ` set (s # ss) \<and> may_cancel d preserve r
        then cancel_step now r else r) (db_steps d')"
      unfolding effect(1) using Cons.prems(2) by (auto simp: image_iff)
    finally show ?case
      by (simp add: d2_def)
  qed simp
  from this [of "list_steps d eid" d] assms
  have "db_steps (cancel_safe_nonterminal_steps now preserve (list_steps d eid) d) =
      map (\<lambda>r. if st_id r \<in> st_id ` set (list_steps d eid) \<and> may_cancel d preserve r then cancel_step now r else r)
        (db_steps d)"
    by (simp add: cancel_safe_nonterminal_steps_def set_list_steps distinct_list_steps keyed_def)
  also have "\<dots> = map (\<lambda>r. if st_execution_id r = eid \<and> may_cancel d preserve r then cancel_step now r else r) (db_steps d)"
    using list_steps_ids [of d _ eid] assms by (auto simp: keyed_def)
  finally show ?thesis .
qed

subsection \<open>Requesting a cancellation\<close>

lemma close_open_work_steps:
  assumes "keyed d"
  shows "db_steps (close_open_work eid now who preserve (list_steps d eid) d) =
    map (\<lambda>r. if st_execution_id r = eid \<and> may_cancel d preserve r then cancel_step now r else r) (db_steps d)"
proof -
  define d1 where "d1 = reject_open_mrtr_requests eid now who (cancel_pending_approvals eid now d)"
  have same: "db_steps d1 = db_steps d" "db_attempts d1 = db_attempts d" "db_calls d1 = db_calls d"
    by (simp_all add: d1_def reject_open_mrtr_requests_def cancel_pending_approvals_def)
  have "keyed d1" "list_steps d1 eid = list_steps d eid" "may_cancel d1 preserve = may_cancel d preserve"
    using assms by (simp_all add: keyed_def list_steps_def may_cancel_def step_has_started_tool_call_def same fun_eq_iff)
  with cancel_safe_steps_effect [of d1 now preserve eid] show ?thesis
    by (simp add: close_open_work_def d1_def [symmetric] same)
qed

lemma started_calls_of_step:
  assumes "s \<in> set (db_steps d)" and "st_execution_id s = eid"
  shows "step_has_started_tool_call d (st_id s) \<longleftrightarrow>
    (\<exists>a \<in> set (list_attempts d (st_id s)). at_id a \<in> tl_attempt_id ` set (list_started_tool_calls d eid))"
  using assms by (auto simp: step_has_started_tool_call_def list_ex_iff list_attempts_def list_started_tool_calls_def
      image_iff) metis+

lemma preserved_steps_iff:
  assumes "keyed d" and "s \<in> set (db_steps d)" and "st_execution_id s = eid"
  shows "st_id s \<in> set (preserved_steps d (list_steps d eid) (list_started_tool_calls d eid)) \<longleftrightarrow>
    status s = RUNNING \<and> step_has_started_tool_call d (st_id s)"
proof -
  have unique: "t = s" if "t \<in> set (list_steps d eid)" "st_id s = st_id t" for t
    using that assms by (auto simp: keyed_def set_list_steps dest: same_key)
  have "s \<in> set (list_steps d eid)"
    using assms(2,3) by (simp add: set_list_steps)
  then have "st_id s \<in> st_id ` {t \<in> set (list_steps d eid). P t} \<longleftrightarrow> P s" for P
    by (auto dest: unique)
  then show ?thesis
    unfolding started_calls_of_step [OF assms(2,3)] preserved_steps_def by (simp add: list_ex_iff)
qed

text \<open>Preserving the steps in flight and not touching them comes to the same.\<close>

lemma close_open_work_preserved:
  assumes "keyed d"
    and "preserve = [] \<or> preserve = preserved_steps d (list_steps d eid) (list_started_tool_calls d eid)"
  shows "db_steps (close_open_work eid now who preserve (list_steps d eid) d) =
    map (\<lambda>s. if st_execution_id s = eid \<and> \<not> (status s = RUNNING \<and> step_has_started_tool_call d (st_id s))
             then cancel_step now s else s) (db_steps d)"
  unfolding close_open_work_steps [OF assms(1)]
  using assms(2) preserved_steps_iff [OF assms(1)] by (auto simp: may_cancel_def)

lemma close_open_work_requests:
  "\<forall>r \<in> set (db_approvals (close_open_work eid now who preserve steps d)).
     ap_execution_id r = eid \<longrightarrow> ap_status r \<noteq> AP_PENDING"
  "\<forall>r \<in> set (db_inputs (close_open_work eid now who preserve steps d)).
     in_execution_id r = eid \<longrightarrow> in_status r \<noteq> IN_OPEN"
proof -
  have attempts: "db_approvals (cancel_started_attempts_without_inflight_tool_call now s d') = db_approvals d'"
    "db_inputs (cancel_started_attempts_without_inflight_tool_call now s d') = db_inputs d'" for s d'
    unfolding cancel_started_attempts_without_inflight_tool_call_def
    by (rule fold_keeps; simp add: put_attempt_def)+
  have "db_approvals (cancel_safe_step now preserve s d') = db_approvals d'"
    "db_inputs (cancel_safe_step now preserve s d') = db_inputs d'" for s d'
    by (simp_all add: cancel_safe_step_def put_step_def attempts)
  note kept = this
  have "db_approvals (cancel_safe_nonterminal_steps now preserve steps d') = db_approvals d'"
    "db_inputs (cancel_safe_nonterminal_steps now preserve steps d') = db_inputs d'" for d'
    unfolding cancel_safe_nonterminal_steps_def
    by (rule fold_keeps [where f = db_approvals], rule kept) (rule fold_keeps [where f = db_inputs], rule kept)
  note kept = this
  show "\<forall>r \<in> set (db_approvals (close_open_work eid now who preserve steps d)).
     ap_execution_id r = eid \<longrightarrow> ap_status r \<noteq> AP_PENDING"
    unfolding close_open_work_def kept by (simp add: reject_open_mrtr_requests_def cancel_pending_approvals_def ball_Un)
  show "\<forall>r \<in> set (db_inputs (close_open_work eid now who preserve steps d)).
     in_execution_id r = eid \<longrightarrow> in_status r \<noteq> IN_OPEN"
    unfolding close_open_work_def kept by (simp add: reject_open_mrtr_requests_def cancel_pending_approvals_def ball_Un)
qed

lemma write_execution_simps [simp]:
  "db_execution (write_execution ex p now d) = Some ex" "db_steps (write_execution ex p now d) = db_steps d"
  "db_approvals (write_execution ex p now d) = db_approvals d" "db_inputs (write_execution ex p now d) = db_inputs d"
  "db_calls (write_execution ex p now d) = db_calls d"
  by (simp_all add: write_execution_def emit_execution_status_changed_def put_execution_def)

lemma cancellation_again:
  "ex_status ex \<in> {E_CANCELLED, E_CANCEL_REQUESTED} \<Longrightarrow>
     apply_cancellation_locked ex now who reason d = Inr (cancel_outcome ex CM_IDEMPOTENT, d)"
  by (auto simp: apply_cancellation_locked_def)

definition stopped_by_cancel :: "execution_row \<Rightarrow> time \<Rightarrow> uuid option \<Rightarrow> string option \<Rightarrow> db \<Rightarrow> execution_row" where
  "stopped_by_cancel ex now who reason d =
     (let ex1 = set_cancel_metadata_once now who reason ex;
          d1 = close_open_work (ex_id ex) now who [] (list_steps d (ex_id ex)) d
      in finalize_cancelled (list_steps d1 (ex_id ex)) now ex1)"

text \<open>C27: A cancellation of a live execution stops it at once, unless it is RUNNING with a tool call in flight; then it
  becomes CANCEL\_REQUESTED and keeps its lease.  Either way every step of the execution is cancelled that was not
  terminal, except RUNNING steps with a tool call in flight, whose rows stay as they are; no approval stays pending and
  no input request open; the first request's time is kept; and a second cancellation changes nothing.\<close>

theorem cancellation_effect:
  assumes "keyed d" and "ex_status ex \<in> {E_CREATED, E_QUEUED, E_RUNNING, E_WAITING_INPUT, E_WAITING_APPROVAL}"
  shows "\<exists>out d' ex'. apply_cancellation_locked ex now who reason d = Inr (out, d') \<and> db_execution d' = Some ex' \<and>
    (if ex_status ex = E_RUNNING \<and> list_started_tool_calls d (ex_id ex) \<noteq> []
     then ex_status ex' = E_CANCEL_REQUESTED \<and> lease_token ex' = lease_token ex \<and> worker_id ex' = worker_id ex \<and>
       lease_expires_at ex' = lease_expires_at ex
     else ex_status ex' = E_CANCELLED \<and> unleased ex' \<and> ex_finished_at ex' = Some now) \<and>
    cancel_requested_at ex' = (case cancel_requested_at ex of None \<Rightarrow> Some now | t \<Rightarrow> t) \<and>
    db_steps d' = map (\<lambda>s. if st_execution_id s = ex_id ex \<and>
                              \<not> (status s = RUNNING \<and> step_has_started_tool_call d (st_id s))
                           then cancel_step now s else s) (db_steps d) \<and>
    (\<forall>r \<in> set (db_approvals d'). ap_execution_id r = ex_id ex \<longrightarrow> ap_status r \<noteq> AP_PENDING) \<and>
    (\<forall>r \<in> set (db_inputs d'). in_execution_id r = ex_id ex \<longrightarrow> in_status r \<noteq> IN_OPEN) \<and>
    (\<forall>now' who' reason'. apply_cancellation_locked ex' now' who' reason' d' = Inr (cancel_outcome ex' CM_IDEMPOTENT, d'))"
proof -
  define eid where "eid = ex_id ex"
  define ex1 where "ex1 = set_cancel_metadata_once now who reason ex"
  define waits where "waits \<longleftrightarrow> ex_status ex = E_RUNNING \<and> list_started_tool_calls d eid \<noteq> []"
  define preserve where "preserve =
    (if waits then preserved_steps d (list_steps d eid) (list_started_tool_calls d eid) else [])"
  define d1 where "d1 = close_open_work eid now who preserve (list_steps d eid) d"
  define ex' where "ex' = (if waits then ex1\<lparr>ex_status := E_CANCEL_REQUESTED, ex_lock_version := ex_lock_version ex1 + 1\<rparr>
    else finalize_cancelled (list_steps d1 eid) now ex1)"
  have live: "ex_status ex \<notin> {E_CANCELLED, E_CANCEL_REQUESTED}" "\<not> non_cancel_terminal (ex_status ex)"
      "(immediate_status (ex_status ex) \<or> ex_status ex = E_RUNNING \<and> list_started_tool_calls d eid = []) = (\<not> waits)"
    using assms(2) by (auto simp: waits_def non_cancel_terminal_def immediate_status_def)
  have run: "apply_cancellation_locked ex now who reason d =
      Inr (cancel_outcome ex' (if waits then CM_REQUESTED else CM_IMMEDIATE), write_execution ex' (ex_status ex) now d1)"
    using live by (simp add: apply_cancellation_locked_def Let_def eid_def [symmetric] ex1_def [symmetric] ex'_def
        preserve_def d1_def)
  have steps: "db_steps d1 = map (\<lambda>s. if st_execution_id s = eid \<and>
      \<not> (status s = RUNNING \<and> step_has_started_tool_call d (st_id s)) then cancel_step now s else s) (db_steps d)"
    unfolding d1_def by (rule close_open_work_preserved [OF assms(1)]) (simp add: preserve_def)
  have row: "if waits then ex_status ex' = E_CANCEL_REQUESTED \<and> lease_token ex' = lease_token ex \<and>
        worker_id ex' = worker_id ex \<and> lease_expires_at ex' = lease_expires_at ex
      else ex_status ex' = E_CANCELLED \<and> unleased ex' \<and> ex_finished_at ex' = Some now"
    by (simp add: ex'_def ex1_def set_cancel_metadata_once_def finalize_cancelled_def finalize_row_def clear_lease_def
        unleased_def)
  have meta: "cancel_requested_at ex' = (case cancel_requested_at ex of None \<Rightarrow> Some now | t \<Rightarrow> t)"
    by (simp add: ex'_def ex1_def set_cancel_metadata_once_def finalize_cancelled_def finalize_row_def clear_lease_def
        split: option.split)
  have requests: "\<forall>r \<in> set (db_approvals d1). ap_execution_id r = eid \<longrightarrow> ap_status r \<noteq> AP_PENDING"
    "\<forall>r \<in> set (db_inputs d1). in_execution_id r = eid \<longrightarrow> in_status r \<noteq> IN_OPEN"
    unfolding d1_def by (rule close_open_work_requests)+
  have again: "apply_cancellation_locked ex' now' who' reason' (write_execution ex' (ex_status ex) now d1) =
      Inr (cancel_outcome ex' CM_IDEMPOTENT, write_execution ex' (ex_status ex) now d1)" for now' who' reason'
    using row by (intro cancellation_again) (auto split: if_splits)
  show ?thesis
    unfolding eid_def [symmetric] waits_def [symmetric] run
    using row meta steps requests again by (intro exI conjI) (rule refl | simp)+
qed

theorem cancellation_effect_witness:
  "\<exists>out d' ex'. apply_cancellation_locked (recovery_sample_row ''READ_ONLY'') 5 None None
     (recovery_sample_db ''READ_ONLY'') = Inr (out, d') \<and> db_execution d' = Some ex' \<and>
     ex_status ex' = E_CANCEL_REQUESTED \<and> db_steps d' = [recovery_sample_step]"
proof -
  have "keyed (recovery_sample_db ''READ_ONLY'')"
    by (simp add: keyed_def recovery_sample_defs)
  moreover have "list_started_tool_calls (recovery_sample_db ''READ_ONLY'') 7 = [recovery_sample_call]"
    by (simp add: list_started_tool_calls_def recovery_sample_defs)
  moreover have "step_has_started_tool_call (recovery_sample_db ''READ_ONLY'') (st_id recovery_sample_step)"
    "status recovery_sample_step = RUNNING" "db_steps (recovery_sample_db ''READ_ONLY'') = [recovery_sample_step]"
    by (simp_all add: step_has_started_tool_call_def recovery_sample_defs)
  ultimately show ?thesis
    using cancellation_effect [of "recovery_sample_db ''READ_ONLY''" "recovery_sample_row ''READ_ONLY''" 5 None None]
    by auto
qed

end
