(* ===== verification/CancelRecovery.thy ===== *)
theory CancelRecovery
  imports CancelSafety
begin

section \<open>Recovering an expired cancellation\<close>

text \<open>
  \<open>recover_expired_cancel_requested_locked\<close> in two passes and a reconciliation.  The first pass turns every
  tool call in flight into an unknown outcome, the second lifts unknown outcomes of attempts and tool calls to
  their steps, and the reconciliation fails the execution if some step is unknown.  Both passes keep the joins
  of the rows (\<open>joined\<close>) and the set of steps with evidence of an unknown outcome (\<open>unknown_evidence\<close>).
\<close>

definition step_join :: "execution_step \<Rightarrow> uuid \<times> uuid" where
  "step_join s = (st_id s, st_execution_id s)"

definition call_join :: "tool_call \<Rightarrow> uuid \<times> uuid" where
  "call_join c = (tl_id c, tl_attempt_id c)"

definition joined :: "db \<Rightarrow> (uuid \<times> uuid) list \<times> (uuid \<times> uuid) list \<times> (uuid \<times> uuid) list" where
  "joined d = (map step_join (db_steps d), map attempt_key (db_attempts d), map call_join (db_calls d))"

definition attempt_evidence :: "db \<Rightarrow> step_attempt \<Rightarrow> bool" where
  "attempt_evidence d a \<longleftrightarrow> at_status a = A_UNKNOWN_OUTCOME \<or>
     (\<exists>c \<in> set (db_calls d). tl_attempt_id c = at_id a \<and> normalized_status c \<in> {A_STARTED, A_UNKNOWN_OUTCOME})"

definition step_unknown :: "db \<Rightarrow> uuid \<Rightarrow> bool" where
  "step_unknown d sid \<longleftrightarrow> (\<exists>s \<in> set (db_steps d). st_id s = sid \<and> status s = UNKNOWN_OUTCOME)"

definition unknown_evidence :: "db \<Rightarrow> uuid \<Rightarrow> bool" where
  "unknown_evidence d sid \<longleftrightarrow> step_unknown d sid \<or>
     (\<exists>a \<in> set (db_attempts d). at_step_id a = sid \<and> attempt_evidence d a)"

definition in_execution :: "db \<Rightarrow> uuid \<Rightarrow> uuid \<Rightarrow> bool" where
  "in_execution d eid aid \<longleftrightarrow>
     (\<exists>sid. (aid, sid) \<in> set (map attempt_key (db_attempts d)) \<and> (sid, eid) \<in> set (map step_join (db_steps d)))"

lemma in_execution_joined: "joined d' = joined d \<Longrightarrow> in_execution d' = in_execution d"
  by (simp add: joined_def in_execution_def fun_eq_iff del: set_map)

lemma keyed_joined:
  assumes "joined d' = joined d" and "keyed d"
  shows "keyed d'"
proof -
  have steps: "map st_id (db_steps e) = map fst (fst (joined e))" for e
    by (simp add: joined_def step_join_def)
  have calls: "map tl_id (db_calls e) = map fst (snd (snd (joined e)))" for e
    by (simp add: joined_def call_join_def)
  show ?thesis
    using keyed_cong [of d' d] assms by (simp add: steps calls) (simp add: joined_def)
qed

lemma set_list_started:
  "set (list_started_tool_calls d eid) =
     {c \<in> set (db_calls d). normalized_status c = A_STARTED \<and> in_execution d eid (tl_attempt_id c)}"
proof -
  have "(\<exists>a \<in> set (db_attempts d). at_id a = tl_attempt_id c \<and>
      (\<exists>s \<in> set (db_steps d). st_id s = at_step_id a \<and> st_execution_id s = eid)) \<longleftrightarrow>
      in_execution d eid (tl_attempt_id c)" for c
    unfolding in_execution_def attempt_key_def step_join_def by force
  then show ?thesis
    by (auto simp: list_started_tool_calls_def)
qed

subsection \<open>Writing one row\<close>

text \<open>Replacing a row under its key swaps it in the set of rows.\<close>

lemma set_replaced:
  assumes "distinct (map f xs)" and "x \<in> set xs" and "f x' = f x"
  shows "set (map (\<lambda>r. if f r = f x' then x' else r) xs) = insert x' (set xs - {x})"
  using same_key [OF assms(1) _ assms(2)] assms(2,3) by auto

lemma map_replaced:
  assumes "distinct (map f xs)" and "x \<in> set xs" and "f x' = f x" and "k x' = k x"
  shows "map k (map (\<lambda>r. if f r = f x' then x' else r) xs) = map k xs"
  using same_key [OF assms(1) _ assms(2)] assms(3,4) by auto

lemma put_row_sets:
  assumes "keyed d"
  shows "c \<in> set (db_calls d) \<Longrightarrow> tl_id c' = tl_id c \<Longrightarrow>
      set (db_calls (put_call c' d)) = insert c' (set (db_calls d) - {c})"
    and "a \<in> set (db_attempts d) \<Longrightarrow> at_id a' = at_id a \<Longrightarrow>
      set (db_attempts (put_attempt a' d)) = insert a' (set (db_attempts d) - {a})"
    and "s \<in> set (db_steps d) \<Longrightarrow> st_id s' = st_id s \<Longrightarrow>
      set (db_steps (put_step s' d)) = insert s' (set (db_steps d) - {s})"
proof -
  have dist: "distinct (map st_id (db_steps d))" "distinct (map at_id (db_attempts d))" "distinct (map tl_id (db_calls d))"
    using assms by (simp_all add: keyed_def)
  show "set (db_calls (put_call c' d)) = insert c' (set (db_calls d) - {c})"
    if "c \<in> set (db_calls d)" "tl_id c' = tl_id c"
    using set_replaced [OF dist(3) that] by (simp add: put_call_def del: set_map)
  show "set (db_attempts (put_attempt a' d)) = insert a' (set (db_attempts d) - {a})"
    if "a \<in> set (db_attempts d)" "at_id a' = at_id a"
    using set_replaced [OF dist(2) that] by (simp add: put_attempt_def del: set_map)
  show "set (db_steps (put_step s' d)) = insert s' (set (db_steps d) - {s})"
    if "s \<in> set (db_steps d)" "st_id s' = st_id s"
    using set_replaced [OF dist(1) that] by (simp add: put_step_def del: set_map)
qed

lemma put_row_joined:
  assumes "keyed d"
  shows "c \<in> set (db_calls d) \<Longrightarrow> call_join c' = call_join c \<Longrightarrow> joined (put_call c' d) = joined d"
    and "a \<in> set (db_attempts d) \<Longrightarrow> attempt_key a' = attempt_key a \<Longrightarrow> joined (put_attempt a' d) = joined d"
    and "s \<in> set (db_steps d) \<Longrightarrow> step_join s' = step_join s \<Longrightarrow> joined (put_step s' d) = joined d"
proof -
  have dist: "distinct (map st_id (db_steps d))" "distinct (map at_id (db_attempts d))" "distinct (map tl_id (db_calls d))"
    using assms by (simp_all add: keyed_def)
  show "joined (put_call c' d) = joined d" if "c \<in> set (db_calls d)" "call_join c' = call_join c"
    using map_replaced [OF dist(3) that(1), of c' call_join] that(2)
    by (simp add: joined_def put_call_def call_join_def del: map_map)
  show "joined (put_attempt a' d) = joined d" if "a \<in> set (db_attempts d)" "attempt_key a' = attempt_key a"
    using map_replaced [OF dist(2) that(1), of a' attempt_key] that(2)
    by (simp add: joined_def put_attempt_def attempt_key_def del: map_map)
  show "joined (put_step s' d) = joined d" if "s \<in> set (db_steps d)" "step_join s' = step_join s"
    using map_replaced [OF dist(1) that(1), of s' step_join] that(2)
    by (simp add: joined_def put_step_def step_join_def del: map_map)
qed

subsection \<open>Writes that keep the evidence\<close>

lemma evidence_cong:
  "set (db_steps d') = set (db_steps d) \<Longrightarrow> set (db_attempts d') = set (db_attempts d) \<Longrightarrow>
   (\<And>a. attempt_evidence d' a = attempt_evidence d a) \<Longrightarrow> unknown_evidence d' = unknown_evidence d"
  by (simp add: unknown_evidence_def step_unknown_def fun_eq_iff)

text \<open>A started call becomes unknown: both count as evidence.\<close>

lemma unknown_call_evidence:
  assumes "keyed d" and "c \<in> set (db_calls d)" and "normalized_status c = A_STARTED"
  shows "unknown_evidence (put_call (unknown_call now c) d) = unknown_evidence d"
proof (rule evidence_cong)
  have calls: "set (db_calls (put_call (unknown_call now c) d)) = insert (unknown_call now c) (set (db_calls d) - {c})"
    using put_row_sets(1) [OF assms(1,2)] by simp
  show "attempt_evidence (put_call (unknown_call now c) d) a = attempt_evidence d a" for a
    unfolding attempt_evidence_def calls using assms(2,3) by auto
qed simp_all

text \<open>An attempt with evidence becomes unknown, and so does a step with evidence.\<close>

lemma unknown_attempt_evidence:
  assumes "keyed d" and "a \<in> set (db_attempts d)" and "attempt_evidence d a"
  shows "unknown_evidence (put_attempt (unknown_attempt now code a) d) = unknown_evidence d"
proof
  fix sid
  have same: "attempt_evidence (put_attempt (unknown_attempt now code a) d) b = attempt_evidence d b" for b
    by (simp add: attempt_evidence_def)
  have attempts: "set (db_attempts (put_attempt (unknown_attempt now code a) d)) =
      insert (unknown_attempt now code a) (set (db_attempts d) - {a})"
    using put_row_sets(2) [OF assms(1,2)] by (simp add: unknown_attempt_def)
  have "attempt_evidence d (unknown_attempt now code a)" "at_step_id (unknown_attempt now code a) = at_step_id a"
    by (simp_all add: attempt_evidence_def unknown_attempt_def)
  then show "unknown_evidence (put_attempt (unknown_attempt now code a) d) sid = unknown_evidence d sid"
    unfolding unknown_evidence_def step_unknown_def same attempts using assms(2,3) by auto
qed

lemma unknown_step_effect:
  assumes "keyed d" and "s \<in> set (db_steps d)"
    and d'_def: "d' = write_step (unknown_step fin code s) p now d"
  shows "step_unknown d' sid \<longleftrightarrow> step_unknown d sid \<or> sid = st_id s"
    and "unknown_evidence d (st_id s) \<Longrightarrow> unknown_evidence d' = unknown_evidence d"
    and "joined d' = joined d"
    and "t \<in> set (db_steps d) \<Longrightarrow> st_id s \<noteq> st_id t \<Longrightarrow> t \<in> set (db_steps d')"
proof -
  have steps: "set (db_steps d') = insert (unknown_step fin code s) (set (db_steps d) - {s})"
    using put_row_sets(3) [OF assms(1,2)] by (simp add: d'_def unknown_step_def)
  show unknown: "step_unknown d' sid \<longleftrightarrow> step_unknown d sid \<or> sid = st_id s" for sid
    unfolding step_unknown_def steps using assms(2) by (auto simp: unknown_step_def)
  have "attempt_evidence d' a = attempt_evidence d a" for a
    by (simp add: attempt_evidence_def d'_def)
  then show "unknown_evidence d' = unknown_evidence d" if "unknown_evidence d (st_id s)"
    using that unfolding fun_eq_iff unknown_evidence_def unknown by (auto simp: d'_def)
  have "joined d' = joined (put_step (unknown_step fin code s) d)"
    by (simp add: joined_def d'_def)
  then show "joined d' = joined d"
    using put_row_joined(3) [OF assms(1,2)] by (simp add: step_join_def unknown_step_def)
  show "t \<in> set (db_steps d')" if "t \<in> set (db_steps d)" "st_id s \<noteq> st_id t"
    using that by (auto simp: steps)
qed

subsection \<open>The first pass: calls in flight become unknown\<close>

lemma mark_started_call_calls:
  assumes "keyed d"
  shows "db_calls (mark_started_call_unknown eid now tc d) =
      map (\<lambda>c. if tl_id c = tl_id tc \<and> normalized_status c = A_STARTED then unknown_call now c else c) (db_calls d)"
proof (cases "find (\<lambda>c. tl_id c = tl_id tc) (db_calls d)")
  case None
  then have "tl_id c \<noteq> tl_id tc" if "c \<in> set (db_calls d)" for c
    using that by (auto simp: find_None_iff)
  then have "map (\<lambda>c. if tl_id c = tl_id tc \<and> normalized_status c = A_STARTED then unknown_call now c else c)
      (db_calls d) = db_calls d"
    by (intro map_idI) simp
  then show ?thesis
    using None by (simp add: mark_started_call_unknown_def)
next
  case (Some c)
  have dist: "distinct (map tl_id (db_calls d))"
    using assms by (simp add: keyed_def)
  have c: "c \<in> set (db_calls d)" "tl_id c = tl_id tc"
    using find_SomeD [OF Some] by simp_all
  have only: "r = c" if "r \<in> set (db_calls d)" "tl_id r = tl_id tc" for r
    using same_key [OF dist that(1) c(1)] that(2) c(2) by simp
  show ?thesis
  proof (cases "normalized_status c = A_STARTED")
    case True
    have "db_calls (mark_started_call_unknown eid now tc d) = db_calls (put_call (unknown_call now c) d)"
      using Some True by (simp add: mark_started_call_unknown_def unknown_call_def [symmetric] Let_def split: option.split)
    also have "\<dots> = map (\<lambda>r. if tl_id r = tl_id (unknown_call now c) then unknown_call now c else r) (db_calls d)"
      by (simp add: put_call_def)
    also have "\<dots> = map (\<lambda>r. if tl_id r = tl_id tc \<and> normalized_status r = A_STARTED then unknown_call now r else r)
        (db_calls d)"
      using only True c(2) by (intro map_cong refl) auto
    finally show ?thesis .
  next
    case False
    have "map (\<lambda>c. if tl_id c = tl_id tc \<and> normalized_status c = A_STARTED then unknown_call now c else c)
        (db_calls d) = db_calls d"
      using only False by (intro map_idI) auto
    then show ?thesis
      using Some False by (simp add: mark_started_call_unknown_def)
  qed
qed

lemma mark_started_call_effect:
  assumes "keyed d"
  shows "joined (mark_started_call_unknown eid now tc d) = joined d"
    and "unknown_evidence (mark_started_call_unknown eid now tc d) = unknown_evidence d"
    and "db_calls (mark_started_call_unknown eid now tc d) =
      map (\<lambda>c. if tl_id c = tl_id tc \<and> normalized_status c = A_STARTED then unknown_call now c else c) (db_calls d)"
proof -
  define d1 where "d1 c = put_call (unknown_call now c) d" for c
  define d2 where "d2 c a = put_attempt (unknown_attempt now (Some ''CANCEL_RECOVERY_UNKNOWN_OUTCOME'') a) (d1 c)" for c a
  define d' where "d' = mark_started_call_unknown eid now tc d"
  have first: "joined (d1 c) = joined d" "unknown_evidence (d1 c) = unknown_evidence d"
    if "c \<in> set (db_calls d)" "normalized_status c = A_STARTED" for c
    using put_row_joined(1) [OF assms that(1)] unknown_call_evidence [OF assms that] by (simp_all add: d1_def call_join_def)
  have second: "joined (d2 c a) = joined d" "unknown_evidence (d2 c a) = unknown_evidence d"
      "unknown_evidence (d2 c a) (at_step_id a)"
    if "c \<in> set (db_calls d)" "normalized_status c = A_STARTED" "a \<in> set (db_attempts (d1 c))"
      "at_id a = tl_attempt_id c" for c a
  proof -
    note f = first [OF that(1,2)]
    have k: "keyed (d1 c)"
      using keyed_joined [OF f(1) assms] .
    have "unknown_call now c \<in> set (db_calls (d1 c))"
      using put_row_sets(1) [OF assms that(1)] by (simp add: d1_def)
    then have ev: "attempt_evidence (d1 c) a"
      unfolding attempt_evidence_def using that(4) by (intro disjI2 bexI [of _ "unknown_call now c"]) simp_all
    show "joined (d2 c a) = joined d" "unknown_evidence (d2 c a) = unknown_evidence d"
      using put_row_joined(2) [OF k that(3)] unknown_attempt_evidence [OF k that(3) ev] f by (simp_all add: d2_def)
    with f(2) show "unknown_evidence (d2 c a) (at_step_id a)"
      using that(3) ev by (auto simp: unknown_evidence_def [of "d1 c"] f(2) [symmetric])
  qed
  have cases: "joined d' = joined d \<and> unknown_evidence d' = unknown_evidence d"
  proof (cases "find (\<lambda>c. tl_id c = tl_id tc) (db_calls d)")
    case (Some c)
    show ?thesis
    proof (cases "normalized_status c = A_STARTED")
      case True
      have c: "c \<in> set (db_calls d)"
        using find_SomeD [OF Some] by simp
      show ?thesis
      proof (cases "find (\<lambda>a. at_id a = tl_attempt_id c) (db_attempts (d1 c))")
        case None
        then have "d' = d1 c"
          using Some True by (simp add: d'_def mark_started_call_unknown_def d1_def unknown_call_def)
        with first [OF c True] show ?thesis by simp
      next
        case found: (Some a)
        have a: "a \<in> set (db_attempts (d1 c))" "at_id a = tl_attempt_id c"
          using find_SomeD [OF found] by simp_all
        note snd = second [OF c True a]
        have run: "d' = (case find (\<lambda>s. st_id s = at_step_id a) (list_steps (d2 c a) eid) of
            None \<Rightarrow> d2 c a
          | Some s \<Rightarrow> if terminal_status (status s) then d2 c a
              else write_step (unknown_step (Some now) (Some ''CANCEL_RECOVERY_UNKNOWN_OUTCOME'') s) (status s) now (d2 c a))"
          using Some True found by (simp add: d'_def mark_started_call_unknown_def d1_def d2_def unknown_call_def Let_def
              cong: option.case_cong if_cong)
        show ?thesis
        proof (cases "find (\<lambda>s. st_id s = at_step_id a) (list_steps (d2 c a) eid)")
          case (Some s)
          have "s \<in> set (db_steps (d2 c a))" "st_id s = at_step_id a"
            using find_SomeD [OF Some] by (simp_all add: set_list_steps)
          with unknown_step_effect(2,3) [OF keyed_joined [OF snd(1) assms] _ refl] snd run Some show ?thesis
            by simp
        qed (simp add: run snd)
      qed
    qed (use Some in \<open>simp add: d'_def mark_started_call_unknown_def\<close>)
  qed (simp add: d'_def mark_started_call_unknown_def)
  then show "joined (mark_started_call_unknown eid now tc d) = joined d"
    "unknown_evidence (mark_started_call_unknown eid now tc d) = unknown_evidence d"
    by (simp_all add: d'_def)
  show "db_calls (mark_started_call_unknown eid now tc d) =
      map (\<lambda>c. if tl_id c = tl_id tc \<and> normalized_status c = A_STARTED then unknown_call now c else c) (db_calls d)"
    by (rule mark_started_call_calls [OF assms])
qed

lemma first_pass_effect:
  assumes "keyed d"
    and d1_def: "d1 = fold (mark_started_call_unknown eid now) (list_started_tool_calls d eid) d"
  shows "joined d1 = joined d" and "unknown_evidence d1 = unknown_evidence d"
    and "db_calls d1 =
      map (\<lambda>c. if c \<in> set (list_started_tool_calls d eid) then unknown_call now c else c) (db_calls d)"
    and "list_started_tool_calls d1 eid = []"
proof -
  have fold: "joined (fold (mark_started_call_unknown eid now) tcs e) = joined e \<and>
      unknown_evidence (fold (mark_started_call_unknown eid now) tcs e) = unknown_evidence e \<and>
      db_calls (fold (mark_started_call_unknown eid now) tcs e) =
        map (\<lambda>c. if tl_id c \<in> tl_id ` set tcs \<and> normalized_status c = A_STARTED then unknown_call now c else c) (db_calls e)"
    if "keyed e" for tcs e
    using that
  proof (induction tcs arbitrary: e)
    case (Cons tc tcs)
    note effect = mark_started_call_effect [OF Cons.prems, of eid now tc]
    from Cons.IH [OF keyed_joined [OF effect(1) Cons.prems]] show ?case
      by (auto simp: effect)
  qed simp
  from fold [OF assms(1)] show joined: "joined d1 = joined d" and "unknown_evidence d1 = unknown_evidence d"
    by (simp_all add: d1_def)
  have dist: "distinct (map tl_id (db_calls d))"
    using assms by (simp add: keyed_def)
  have mem: "tl_id c \<in> tl_id ` set (list_started_tool_calls d eid) \<and> normalized_status c = A_STARTED \<longleftrightarrow>
      c \<in> set (list_started_tool_calls d eid)" if "c \<in> set (db_calls d)" for c
    using same_key [OF dist that] by (auto simp: set_list_started)
  have "db_calls d1 = map (\<lambda>c. if tl_id c \<in> tl_id ` set (list_started_tool_calls d eid) \<and>
      normalized_status c = A_STARTED then unknown_call now c else c) (db_calls d)"
    using fold [OF assms(1)] by (simp add: d1_def)
  then show calls: "db_calls d1 =
      map (\<lambda>c. if c \<in> set (list_started_tool_calls d eid) then unknown_call now c else c) (db_calls d)"
    using mem by (simp cong: map_cong)
  have "c \<notin> set (list_started_tool_calls d1 eid)" for c
    unfolding set_list_started in_execution_joined [OF joined] calls
    by (auto simp: set_list_started split: if_splits)
  then show "list_started_tool_calls d1 eid = []"
    by (metis list.set_intros(1) neq_Nil_conv)
qed

subsection \<open>The second pass: unknown outcomes reach their steps\<close>

text \<open>Before it, no attempt of the execution has a call in flight.\<close>

definition no_call_in_flight :: "db \<Rightarrow> uuid \<Rightarrow> bool" where
  "no_call_in_flight d sid \<longleftrightarrow>
     (\<forall>a \<in> set (db_attempts d). at_step_id a = sid \<longrightarrow>
        (\<forall>c \<in> set (db_calls d). tl_attempt_id c = at_id a \<longrightarrow> normalized_status c \<noteq> A_STARTED))"

lemma attempt_unknown_iff:
  assumes "no_call_in_flight d (at_step_id a)" and "a \<in> set (db_attempts d)"
  shows "attempt_unknown_evidence d a \<longleftrightarrow> attempt_evidence d a"
  using assms by (auto simp: attempt_unknown_evidence_def attempt_evidence_def inflight_def list_tool_calls_def
      list_ex_iff no_call_in_flight_def)

lemma no_call_in_flight_joined:
  assumes "joined d' = joined d" and "db_calls d' = db_calls d"
  shows "no_call_in_flight d' = no_call_in_flight d"
proof -
  have "no_call_in_flight e sid \<longleftrightarrow> (\<forall>k \<in> set (map attempt_key (db_attempts e)). snd k = sid \<longrightarrow>
      (\<forall>c \<in> set (db_calls e). tl_attempt_id c = fst k \<longrightarrow> normalized_status c \<noteq> A_STARTED))" for e sid
    by (auto simp: no_call_in_flight_def attempt_key_def)
  then show ?thesis
    using assms by (simp add: joined_def fun_eq_iff del: set_map)
qed

lemma lift_attempt_effect:
  assumes "keyed d" and "a \<in> set (db_attempts d)" and "no_call_in_flight d (at_step_id a)"
  shows "joined (lift_attempt now a d) = joined d"
    and "unknown_evidence (lift_attempt now a d) = unknown_evidence d"
    and "b \<in> set (db_attempts d) \<Longrightarrow> at_id a \<noteq> at_id b \<Longrightarrow> b \<in> set (db_attempts (lift_attempt now a d))"
  using put_row_joined(2) [OF assms(1,2)] unknown_attempt_evidence [OF assms(1,2)]
    attempt_unknown_iff [OF assms(3,2)] put_row_sets(2) [OF assms(1,2)]
  by (auto simp: lift_attempt_def unknown_attempt_def attempt_key_def)

lemma lift_attempts_effect:
  assumes "keyed d" and "no_call_in_flight d sid"
    and "set as \<subseteq> {a \<in> set (db_attempts d). at_step_id a = sid}" and "distinct (map at_id as)"
  shows "joined (fold (lift_attempt now) as d) = joined d \<and>
    unknown_evidence (fold (lift_attempt now) as d) = unknown_evidence d"
  using assms
proof (induction as arbitrary: d)
  case (Cons a as)
  have a: "a \<in> set (db_attempts d)" "no_call_in_flight d (at_step_id a)"
    using Cons.prems by auto
  note effect = lift_attempt_effect [where now = now, OF Cons.prems(1) a]
  have "set as \<subseteq> {b \<in> set (db_attempts (lift_attempt now a d)). at_step_id b = sid}"
    using Cons.prems(3,4) effect(3) by (auto simp: image_iff)
  moreover have "no_call_in_flight (lift_attempt now a d) sid"
    using no_call_in_flight_joined [OF effect(1)] Cons.prems(2) by simp
  ultimately show ?case
    using Cons.IH keyed_joined [OF effect(1) Cons.prems(1)] Cons.prems(4) effect by simp
qed simp

lemma lift_step_effect:
  assumes "keyed d" and "s \<in> set (db_steps d)" and "no_call_in_flight d (st_id s)"
  shows "joined (lift_step now s d) = joined d"
    and "unknown_evidence (lift_step now s d) = unknown_evidence d"
    and "step_unknown (lift_step now s d) sid \<longleftrightarrow>
      step_unknown d sid \<or> sid = st_id s \<and> unknown_evidence d sid"
    and "t \<in> set (db_steps d) \<Longrightarrow> st_id s \<noteq> st_id t \<Longrightarrow> t \<in> set (db_steps (lift_step now s d))"
proof -
  define as where "as = list_attempts d (st_id s)"
  define d1 where "d1 = fold (lift_attempt now) as d"
  have as_set: "set as = {a \<in> set (db_attempts d). at_step_id a = st_id s}"
    by (auto simp: as_def list_attempts_def)
  moreover have "distinct (map at_id as)"
    using assms(1) by (auto simp: as_def list_attempts_def keyed_def distinct_map inj_on_def)
  ultimately have d1: "joined d1 = joined d" "unknown_evidence d1 = unknown_evidence d"
    using lift_attempts_effect [OF assms(1,3)] by (simp_all add: d1_def)
  have steps: "db_steps d1 = db_steps d"
    by (simp add: d1_def)
  then have unknown1: "step_unknown d1 = step_unknown d"
    by (simp add: step_unknown_def fun_eq_iff)
  define some_unknown where "some_unknown \<longleftrightarrow> list_ex (attempt_unknown_evidence d) as"
  have evidence: "some_unknown \<longleftrightarrow> (\<exists>a \<in> set (db_attempts d). at_step_id a = st_id s \<and> attempt_evidence d a)"
    using attempt_unknown_iff [of d] assms(3) by (auto simp: some_unknown_def list_ex_iff as_set)
  have self: "step_unknown d (st_id s) \<longleftrightarrow> status s = UNKNOWN_OUTCOME"
    using assms(1,2) same_key [of st_id "db_steps d"] by (auto simp: step_unknown_def keyed_def)
  have found: "find (\<lambda>r. st_id r = st_id s) (db_steps d1) = Some s"
    using find_row_key [of st_id "db_steps d" s] assms(1,2) by (simp add: steps keyed_def)
  have run: "lift_step now s d = (if some_unknown \<and> status s \<noteq> UNKNOWN_OUTCOME
      then write_step (unknown_step (case finished_at s of None \<Rightarrow> Some now | t \<Rightarrow> t)
             (or_code (error_code s) ''CANCEL_RECOVERY_UNKNOWN_OUTCOME'') s) (status s) now d1
      else d1)"
    using found by (simp add: lift_step_def Let_def some_unknown_def as_def d1_def)
  have s1: "s \<in> set (db_steps d1)" and k1: "keyed d1"
    using assms(2) keyed_joined [OF d1(1) assms(1)] by (simp_all add: steps)
  show "joined (lift_step now s d) = joined d"
    using unknown_step_effect(3) [OF k1 s1 refl] d1(1) by (simp add: run)
  show "unknown_evidence (lift_step now s d) = unknown_evidence d"
    using unknown_step_effect(2) [OF k1 s1 refl] d1(2) evidence by (auto simp: run unknown_evidence_def [of d])
  show "step_unknown (lift_step now s d) sid \<longleftrightarrow> step_unknown d sid \<or> sid = st_id s \<and> unknown_evidence d sid"
    using unknown_step_effect(1) [OF k1 s1 refl] evidence self by (auto simp: run unknown1 unknown_evidence_def)
  show "t \<in> set (db_steps (lift_step now s d))" if "t \<in> set (db_steps d)" "st_id s \<noteq> st_id t"
    using unknown_step_effect(4) [OF k1 s1 refl] that by (simp add: run steps)
qed

lemma second_pass_effect:
  assumes "keyed d" and "\<forall>s \<in> set ss. no_call_in_flight d (st_id s)"
    and "set ss \<subseteq> set (db_steps d)" and "distinct (map st_id ss)"
  shows "joined (fold (lift_step now) ss d) = joined d \<and>
    (\<forall>sid. step_unknown (fold (lift_step now) ss d) sid \<longleftrightarrow>
       step_unknown d sid \<or> sid \<in> st_id ` set ss \<and> unknown_evidence d sid)"
  using assms
proof (induction ss arbitrary: d)
  case (Cons s ss)
  have s: "s \<in> set (db_steps d)" "no_call_in_flight d (st_id s)"
    using Cons.prems(2,3) by auto
  note effect = lift_step_effect [where now = now, OF Cons.prems(1) s]
  have "set ss \<subseteq> set (db_steps (lift_step now s d))"
    using Cons.prems(3,4) effect(4) by (auto simp: image_iff)
  moreover have "no_call_in_flight (lift_step now s d) = no_call_in_flight d"
    by (rule no_call_in_flight_joined [OF effect(1)]) simp
  ultimately show ?case
    using Cons.IH [of "lift_step now s d"] keyed_joined [OF effect(1) Cons.prems(1)] Cons.prems(2,4) effect(1-3)
    by auto
qed simp

subsection \<open>Recovering\<close>

lemma reconcile_run:
  assumes "ex_status ex = E_CANCEL_REQUESTED" and "list_started_tool_calls d (ex_id ex) = []"
  shows "\<exists>ex' d1. d1 = close_open_work (ex_id ex) now (cancel_requested_by ex) [] (list_steps d (ex_id ex)) d \<and>
    reconcile_cancel_requested_locked ex now d =
      Inr (cancel_outcome ex' CM_RECONCILED, write_execution ex' E_CANCEL_REQUESTED now d1) \<and>
    ex_status ex' = (if \<exists>s \<in> set (db_steps d). st_execution_id s = ex_id ex \<and> status s = UNKNOWN_OUTCOME
                     then E_FAILED else E_CANCELLED) \<and>
    unleased ex' \<and> cancel_requested_at ex' = cancel_requested_at ex \<and>
    cancel_requested_by ex' = cancel_requested_by ex \<and> cancel_reason ex' = cancel_reason ex"
proof -
  define d1 where "d1 = close_open_work (ex_id ex) now (cancel_requested_by ex) [] (list_steps d (ex_id ex)) d"
  define bad where "bad = filter (\<lambda>s. status s = UNKNOWN_OUTCOME) (list_steps d (ex_id ex))"
  define ex' where "ex' = (case bad of
      cause # _ \<Rightarrow> finalize_row E_FAILED (error_code cause) (list_steps d1 (ex_id ex)) now ex
    | [] \<Rightarrow> finalize_cancelled (list_steps d1 (ex_id ex)) now ex)"
  have "set bad = {s \<in> set (db_steps d). st_execution_id s = ex_id ex \<and> status s = UNKNOWN_OUTCOME}"
    by (auto simp: bad_def set_list_steps)
  then have bad: "bad \<noteq> [] \<longleftrightarrow> (\<exists>s \<in> set (db_steps d). st_execution_id s = ex_id ex \<and> status s = UNKNOWN_OUTCOME)"
    unfolding set_empty [symmetric] by auto
  have "reconcile_cancel_requested_locked ex now d =
      Inr (cancel_outcome ex' CM_RECONCILED, write_execution ex' E_CANCEL_REQUESTED now d1)"
    using assms by (simp add: reconcile_cancel_requested_locked_def Let_def ex'_def bad_def d1_def
        cong: list.case_cong)
  moreover have "ex_status ex' = (if bad \<noteq> [] then E_FAILED else E_CANCELLED)"
    "unleased ex'" "cancel_requested_at ex' = cancel_requested_at ex"
    "cancel_requested_by ex' = cancel_requested_by ex" "cancel_reason ex' = cancel_reason ex"
    by (simp_all add: ex'_def finalize_cancelled_def finalize_row_def clear_lease_def unleased_def split: list.split)
  ultimately show ?thesis
    unfolding bad d1_def by blast
qed

lemma all_may_cancel:
  assumes "list_started_tool_calls d eid = []" and "s \<in> set (db_steps d)" and "st_execution_id s = eid"
  shows "may_cancel d [] s"
  using set_list_started [of d eid] assms
  by (auto simp: may_cancel_def step_has_started_iff in_execution_def step_join_def image_iff)

lemma second_pass_status:
  assumes k2: "keyed d2" and joined: "joined d2 = joined d1"
    and second: "\<And>sid. step_unknown d2 sid \<longleftrightarrow> step_unknown d1 sid \<or> sid \<in> st_id ` set ss \<and> unknown_evidence d1 sid"
    and evidence: "joined d1 = joined d" "unknown_evidence d1 = unknown_evidence d"
    and ss: "set ss = {s \<in> set (db_steps d1). st_execution_id s = eid}"
    and s: "s \<in> set (db_steps d2)" "st_execution_id s = eid"
  shows "status s = UNKNOWN_OUTCOME \<longleftrightarrow> unknown_evidence d (st_id s)"
proof -
  have "t = s" if "t \<in> set (db_steps d2)" "st_id t = st_id s" for t
    using same_key [OF _ that(1) s(1) that(2)] k2 by (simp add: keyed_def)
  then have "status s = UNKNOWN_OUTCOME \<longleftrightarrow> step_unknown d2 (st_id s)"
    using s(1) by (auto simp: step_unknown_def)
  moreover have "step_join s \<in> set (map step_join (db_steps d1))"
    using joined s(1) by (simp add: joined_def del: set_map) (metis imageI set_map)
  then have "st_id s \<in> st_id ` set ss"
    using s(2) by (auto simp: ss step_join_def)
  moreover have "step_unknown d1 sid \<Longrightarrow> unknown_evidence d1 sid" for sid
    by (simp add: unknown_evidence_def)
  ultimately show ?thesis
    using second [of "st_id s"] evidence(2) by auto
qed

definition after_passes :: "uuid \<Rightarrow> time \<Rightarrow> db \<Rightarrow> db" where
  "after_passes eid now d =
     (let d1 = fold (mark_started_call_unknown eid now) (list_started_tool_calls d eid) d
      in fold (lift_step now) (sort_key (\<lambda>s. uuid_str (st_id s)) (list_steps d1 eid)) d1)"

lemma after_passes_effect:
  assumes "keyed d"
  shows "joined (after_passes eid now d) = joined d"
    and "db_calls (after_passes eid now d) =
      map (\<lambda>c. if c \<in> set (list_started_tool_calls d eid) then unknown_call now c else c) (db_calls d)"
    and "list_started_tool_calls (after_passes eid now d) eid = []"
    and "s \<in> set (db_steps (after_passes eid now d)) \<Longrightarrow> st_execution_id s = eid \<Longrightarrow>
      status s = UNKNOWN_OUTCOME \<longleftrightarrow> unknown_evidence d (st_id s)"
proof -
  define d1 where "d1 = fold (mark_started_call_unknown eid now) (list_started_tool_calls d eid) d"
  define ss where "ss = sort_key (\<lambda>s. uuid_str (st_id s)) (list_steps d1 eid)"
  define d2 where "d2 = fold (lift_step now) ss d1"
  note first = first_pass_effect [OF assms d1_def]
  have k1: "keyed d1"
    using keyed_joined [OF first(1) assms] .
  have ss: "set ss = {s \<in> set (db_steps d1). st_execution_id s = eid}" "distinct (map st_id ss)"
    using k1 by (auto simp: ss_def list_steps_def keyed_def distinct_map inj_on_def)
  have quiet: "no_call_in_flight d1 (st_id s)" if "s \<in> set ss" for s
    using first(4) that set_list_started [of d1 eid] unfolding no_call_in_flight_def in_execution_def ss(1)
    by (auto simp: attempt_key_def step_join_def image_iff)
  from second_pass_effect [OF k1 _ _ ss(2), of now] quiet ss(1)
  have second: "joined d2 = joined d1"
      "step_unknown d2 sid \<longleftrightarrow> step_unknown d1 sid \<or> sid \<in> st_id ` set ss \<and> unknown_evidence d1 sid" for sid
    by (auto simp: d2_def)
  have joined2: "joined d2 = joined d"
    using second(1) first(1) by simp
  have calls2: "db_calls d2 = db_calls d1"
    by (simp add: d2_def)
  have "set (list_started_tool_calls d2 eid) = set (list_started_tool_calls d1 eid)"
    unfolding set_list_started calls2 in_execution_joined [OF second(1)] ..
  then have started2: "list_started_tool_calls d2 eid = []"
    using first(4) by simp
  have d2: "after_passes eid now d = d2"
    by (simp add: after_passes_def Let_def d1_def d2_def ss_def)
  show "joined (after_passes eid now d) = joined d" "list_started_tool_calls (after_passes eid now d) eid = []"
    "db_calls (after_passes eid now d) =
      map (\<lambda>c. if c \<in> set (list_started_tool_calls d eid) then unknown_call now c else c) (db_calls d)"
    using joined2 started2 calls2 first(3) by (simp_all add: d2)
  show "status s = UNKNOWN_OUTCOME \<longleftrightarrow> unknown_evidence d (st_id s)"
    if "s \<in> set (db_steps (after_passes eid now d))" "st_execution_id s = eid"
    using second_pass_status [OF keyed_joined [OF joined2 assms] second first(1,2) ss(1)] that by (simp add: d2)
qed

text \<open>C28: Recovering a cancellation whose worker died never hides an unknown outcome.  The execution becomes FAILED
  if any of its steps, attempts or tool calls has an unknown outcome or a tool call was in flight, and CANCELLED
  otherwise; either way its lease ends, the request's time, author and reason are kept, exactly the calls in flight
  become UNKNOWN\_OUTCOME, and every step of it is terminal, UNKNOWN\_OUTCOME exactly where there is evidence for it.\<close>

theorem cancel_recovery_keeps_unknown:
  assumes "keyed d" and "ex_status ex = E_CANCEL_REQUESTED"
  shows "\<exists>d' ex'. recover_expired_cancel_requested_locked ex now d = Inr (cancel_outcome ex' CM_RECONCILED, d') \<and>
    db_execution d' = Some ex' \<and>
    ex_status ex' = (if \<exists>s \<in> set (db_steps d). st_execution_id s = ex_id ex \<and> unknown_evidence d (st_id s)
                     then E_FAILED else E_CANCELLED) \<and>
    unleased ex' \<and> cancel_requested_at ex' = cancel_requested_at ex \<and>
    cancel_requested_by ex' = cancel_requested_by ex \<and> cancel_reason ex' = cancel_reason ex \<and>
    db_calls d' = map (\<lambda>c. if c \<in> set (list_started_tool_calls d (ex_id ex)) then unknown_call now c else c) (db_calls d) \<and>
    map step_join (db_steps d') = map step_join (db_steps d) \<and>
    (\<forall>s \<in> set (db_steps d'). st_execution_id s = ex_id ex \<longrightarrow> terminal_status (status s) \<and>
       (status s = UNKNOWN_OUTCOME \<longleftrightarrow> unknown_evidence d (st_id s)))"
proof -
  define eid where "eid = ex_id ex"
  define d2 where "d2 = after_passes eid now d"
  note passes = after_passes_effect [where eid = eid and now = now, OF assms(1), folded d2_def]
  have k2: "keyed d2"
    using keyed_joined [OF passes(1) assms(1)] .
  obtain ex' d3 where d3: "d3 = close_open_work eid now (cancel_requested_by ex) [] (list_steps d2 eid) d2"
    and run: "reconcile_cancel_requested_locked ex now d2 =
      Inr (cancel_outcome ex' CM_RECONCILED, write_execution ex' E_CANCEL_REQUESTED now d3)"
    and row: "ex_status ex' = (if \<exists>s \<in> set (db_steps d2). st_execution_id s = eid \<and> status s = UNKNOWN_OUTCOME
        then E_FAILED else E_CANCELLED)"
      "unleased ex' \<and> cancel_requested_at ex' = cancel_requested_at ex \<and>
        cancel_requested_by ex' = cancel_requested_by ex \<and> cancel_reason ex' = cancel_reason ex"
    using reconcile_run [OF assms(2), of d2 now] passes(3) unfolding eid_def by blast
  have mapped: "db_steps d3 = map (\<lambda>r. if st_execution_id r = eid then cancel_step now r else r) (db_steps d2)"
    unfolding d3 close_open_work_steps [OF k2] using all_may_cancel [OF passes(3)]
    by (simp cong: map_cong)
  define d' where "d' = write_execution ex' E_CANCEL_REQUESTED now d3"
  have recovers: "recover_expired_cancel_requested_locked ex now d = Inr (cancel_outcome ex' CM_RECONCILED, d')"
    using run assms(2)
    by (simp add: recover_expired_cancel_requested_locked_def after_passes_def Let_def eid_def d2_def d'_def)
  have evidence: "(\<exists>s \<in> set (db_steps d2). st_execution_id s = eid \<and> status s = UNKNOWN_OUTCOME) \<longleftrightarrow>
      (\<exists>s \<in> set (db_steps d). st_execution_id s = eid \<and> unknown_evidence d (st_id s))"
  proof -
    have "(\<exists>s \<in> set (db_steps e). st_execution_id s = eid \<and> unknown_evidence d (st_id s)) \<longleftrightarrow>
        (\<exists>k \<in> set (map step_join (db_steps e)). snd k = eid \<and> unknown_evidence d (fst k))" for e
      by (auto simp: step_join_def)
    note joins = this
    have "(\<exists>s \<in> set (db_steps d2). st_execution_id s = eid \<and> status s = UNKNOWN_OUTCOME) \<longleftrightarrow>
        (\<exists>s \<in> set (db_steps d2). st_execution_id s = eid \<and> unknown_evidence d (st_id s))"
      using passes(4) by auto
    then show ?thesis
      unfolding joins using passes(1) by (simp add: joined_def del: set_map)
  qed
  have calls: "db_calls d' = map (\<lambda>c. if c \<in> set (list_started_tool_calls d eid) then unknown_call now c else c) (db_calls d)"
    by (simp add: d'_def d3 passes(2))
  have "map step_join (db_steps d') = map step_join (db_steps d2)"
    by (simp add: d'_def mapped step_join_def)
  then have joins: "map step_join (db_steps d') = map step_join (db_steps d)"
    using passes(1) by (simp add: joined_def)
  have settled: "terminal_status (status s) \<and> (status s = UNKNOWN_OUTCOME \<longleftrightarrow> unknown_evidence d (st_id s))"
    if "s \<in> set (db_steps d')" "st_execution_id s = eid" for s
  proof -
    from that obtain r where r: "r \<in> set (db_steps d2)" "st_execution_id r = eid" "s = cancel_step now r"
      by (auto simp: d'_def mapped split: if_splits)
    moreover have "status (cancel_step now r) = UNKNOWN_OUTCOME \<longleftrightarrow> status r = UNKNOWN_OUTCOME"
      by (simp add: cancel_step_def terminal_status_def)
    ultimately show ?thesis
      using passes(4) [OF r(1,2)] by simp
  qed
  have "db_execution d' = Some ex'"
    by (simp add: d'_def)
  with recovers row evidence calls joins settled show ?thesis
    unfolding eid_def by (intro exI [of _ d'] exI [of _ ex']) auto
qed

theorem cancel_recovery_keeps_unknown_witness:
  "\<exists>out d' ex'. recover_expired_cancel_requested_locked
       ((recovery_sample_row ''READ_ONLY'')\<lparr>ex_status := E_CANCEL_REQUESTED\<rparr>) 50
       (recovery_sample_db ''READ_ONLY'') = Inr (out, d') \<and>
     db_execution d' = Some ex' \<and> ex_status ex' = E_FAILED"
proof -
  have evidence: "unknown_evidence (recovery_sample_db ''READ_ONLY'') 1"
    by (simp add: unknown_evidence_def attempt_evidence_def recovery_sample_defs)
  have "keyed (recovery_sample_db ''READ_ONLY'')"
    by (simp add: keyed_def recovery_sample_defs)
  moreover have "db_steps (recovery_sample_db ''READ_ONLY'') = [recovery_sample_step]"
    "st_id recovery_sample_step = 1" "st_execution_id recovery_sample_step = 7"
    by (simp_all add: recovery_sample_defs)
  ultimately show ?thesis
    using cancel_recovery_keeps_unknown [of "recovery_sample_db ''READ_ONLY''"
        "(recovery_sample_row ''READ_ONLY'')\<lparr>ex_status := E_CANCEL_REQUESTED\<rparr>" 50] evidence
    by auto
qed

end
