(* ===== verification/PredicateEvaluator.thy ===== *)
theory PredicateEvaluator
  imports BindingCorrectness
begin

section \<open>The predicate evaluator\<close>

text \<open>
  \<^verbatim>\<open>src/backend/app/execution/predicate_evaluator.py\<close>: conditions and WHILE gates.  The
  evaluation of a predicate tree is a function of the function that resolves one operand, which is how
  the class uses its resolver; \<open>evaluate\<close> composes it with
  \<open>resolve_binding\<close>.  The interface between the two is the locale \<open>operand_source\<close>.
\<close>

abbreviation OPERAND_MISSING :: py_error where
  "OPERAND_MISSING \<equiv> AppError ''PREDICATE_OPERAND_MISSING'' 409"

abbreviation TYPE_MISMATCH :: py_error where
  "TYPE_MISMATCH \<equiv> AppError ''PREDICATE_TYPE_MISMATCH'' 409"

abbreviation EVALUATION_FAILED :: py_error where
  "EVALUATION_FAILED \<equiv> AppError ''PREDICATE_EVALUATION_FAILED'' 409"

subsection \<open>Numbers and strict equality\<close>

fun is_number :: "json \<Rightarrow> bool" where
  "is_number (JInt _) = True"
| "is_number (JFloat _) = True"
| "is_number _ = False"

definition reject_non_finite_number :: "json \<Rightarrow> unit result" where
  "reject_non_finite_number v = raise_if (\<not> (case v of JFloat f \<Rightarrow> finite_json v | _ \<Rightarrow> True)) TYPE_MISMATCH"

text \<open>Python's exact comparison of an int or float with an int or float, both finite here.\<close>

fun num_val :: "json \<Rightarrow> rat" where
  "num_val (JInt i) = of_int i"
| "num_val (JFloat (Finite q)) = q"
| "num_val _ = 0"

lemma size_dict_value [termination_simp]:
  "(k, v) \<in> set kvs \<Longrightarrow> size v < Suc (size_list (size_prod (\<lambda>_. 0) size) kvs)"
  using size_list_estimation' [of "(k, v)" kvs "size v" "size_prod (\<lambda>_. 0) size"] by simp

function (sequential) json_strict_equal :: "json \<Rightarrow> json \<Rightarrow> bool result" where
  "json_strict_equal l r =
     (if l = JNull \<and> r = JNull then Inr True
      else if is_bool l \<or> is_bool r then Inr (is_bool l \<and> is_bool r \<and> l = r)
      else if is_number l \<or> is_number r then
        and_then (if is_number l then reject_non_finite_number l else Inr ()) (\<lambda>_.
        and_then (if is_number r then reject_non_finite_number r else Inr ()) (\<lambda>_.
          if is_number l \<and> is_number r then Inr (num_val l = num_val r) else Inr False))
      else case l of
        JStr s \<Rightarrow> (case r of JStr t \<Rightarrow> Inr (s = t) | _ \<Rightarrow> Inr False)
      | JList xs \<Rightarrow>
          (case r of
             JList ys \<Rightarrow> if length xs \<noteq> length ys then Inr False
                        else allE (\<lambda>(a, b). json_strict_equal a b) (zip xs ys)
           | _ \<Rightarrow> Inr False)
      | JObj kvs \<Rightarrow>
          (case r of
             JObj kvs' \<Rightarrow> if set (dict_keys kvs) \<noteq> set (dict_keys kvs') then Inr False
                         else allE (\<lambda>(k, a). and_then (dict_at kvs' k) (\<lambda>b. json_strict_equal a b)) kvs
           | _ \<Rightarrow> Inr False)
      | _ \<Rightarrow> Inr False)"
  by pat_completeness auto
termination
proof (relation "measure (size \<circ> fst)")
  fix l r xs ys z a b
  assume "l = JList xs" "z \<in> set (zip xs ys)" "(a, b) = z"
  then show "((a, b), l, r) \<in> measure (size \<circ> fst)"
    using size_list_estimation' [of a xs "size a" size] by (auto dest: set_zip_leftD)
next
  fix l r kvs z k a b
  assume "l = JObj kvs" "z \<in> set kvs" "(k, a) = z"
  then show "((a, b), l, r) \<in> measure (size \<circ> fst)"
    using size_dict_value [of k a kvs] by auto
qed auto

declare json_strict_equal.simps [simp del]

subsection \<open>Comparisons\<close>

text \<open>\<open>right in left\<close> on strings.\<close>

definition str_contains :: "string \<Rightarrow> string \<Rightarrow> bool" where
  "str_contains haystack needle =
     list_ex (\<lambda>i. take (length needle) (drop i haystack) = needle) [0..<Suc (length haystack)]"

fun ordered_op :: "comparison_op \<Rightarrow> 'a :: linorder \<Rightarrow> 'a \<Rightarrow> bool" where
  "ordered_op OP_GT x y = (x > y)"
| "ordered_op OP_GTE x y = (x \<ge> y)"
| "ordered_op OP_LT x y = (x < y)"
| "ordered_op OP_LTE x y = (x \<le> y)"
| "ordered_op _ x y = False"

definition ordered_compare :: "comparison_op \<Rightarrow> json \<Rightarrow> json \<Rightarrow> bool result" where
  "ordered_compare op l r =
     (if is_number l \<and> is_number r then
        and_then (reject_non_finite_number l) (\<lambda>_.
        and_then (reject_non_finite_number r) (\<lambda>_.
          Inr (ordered_op op (num_val l) (num_val r))))
      else case (l, r) of
        (JStr s, JStr t) \<Rightarrow> Inr (ordered_op op s t)
      | _ \<Rightarrow> Inl TYPE_MISMATCH)"

definition dispatch_comparison :: "comparison_op \<Rightarrow> json \<Rightarrow> json \<Rightarrow> bool result" where
  "dispatch_comparison op l r =
     (case op of
        OP_EQ \<Rightarrow> json_strict_equal l r
      | OP_NE \<Rightarrow> and_then (json_strict_equal l r) (\<lambda>b. Inr (\<not> b))
      | OP_IN \<Rightarrow>
          (case as_list r of
             None \<Rightarrow> Inl TYPE_MISMATCH
           | Some ys \<Rightarrow> anyE (\<lambda>y. json_strict_equal l y) ys)
      | OP_CONTAINS \<Rightarrow>
          (case (as_str l, as_str r) of
             (Some s, Some t) \<Rightarrow> Inr (str_contains s t)
           | _ \<Rightarrow>
               (case as_list l of
                  None \<Rightarrow> Inl TYPE_MISMATCH
                | Some xs \<Rightarrow> anyE (\<lambda>x. json_strict_equal x r) xs))
      | _ \<Rightarrow> ordered_compare op l r)"

definition compare_values :: "comparison_op \<Rightarrow> json \<Rightarrow> json \<Rightarrow> bool result" where
  "compare_values op l r =
     (if is_secret_ref_value l \<or> is_secret_ref_value r then Inl TYPE_MISMATCH
      else and_then (if is_number l then reject_non_finite_number l else Inr ()) (\<lambda>_.
        and_then (if is_number r then reject_non_finite_number r else Inr ()) (\<lambda>_.
          dispatch_comparison op l r)))"

fun is_secret_binding :: "plan_binding \<Rightarrow> bool" where
  "is_secret_binding (PlanSecretRefBinding _) = True"
| "is_secret_binding _ = False"

text \<open>\<open>value is MISSING\<close> raises, anything else is the operand's value.\<close>

definition present :: "pointed \<Rightarrow> json result" where
  "present p = (case p of Missing \<Rightarrow> Inl OPERAND_MISSING | Found v \<Rightarrow> Inr v)"

definition eval_comparison :: "(plan_binding \<Rightarrow> pointed result) \<Rightarrow> comparison_op \<Rightarrow> plan_binding
    \<Rightarrow> plan_binding \<Rightarrow> bool result" where
  "eval_comparison operand op l r =
     (if is_secret_binding l \<or> is_secret_binding r then Inl TYPE_MISMATCH
      else and_then (operand l) (\<lambda>lv.
        and_then (operand r) (\<lambda>rv.
        and_then (present lv) (\<lambda>x.
        and_then (present rv) (\<lambda>y.
          compare_values op x y)))))"

definition eval_unary :: "(plan_binding \<Rightarrow> pointed result) \<Rightarrow> unary_op \<Rightarrow> plan_binding \<Rightarrow> bool result" where
  "eval_unary operand op b =
     (if is_secret_binding b then Inr (op = OP_EXISTS)
      else and_then (operand b) (\<lambda>v.
        case op of
          OP_EXISTS \<Rightarrow> Inr (v \<noteq> Missing)
        | OP_IS_NULL \<Rightarrow> Inr (v = Found JNull)))"

fun eval_predicate :: "(plan_binding \<Rightarrow> pointed result) \<Rightarrow> predicate \<Rightarrow> bool result" where
  "eval_predicate operand (LogicalPredicate op ps) =
     (case op of
        OP_AND \<Rightarrow> allE (eval_predicate operand) ps
      | OP_OR \<Rightarrow> anyE (eval_predicate operand) ps)"
| "eval_predicate operand (NotPredicate p) = and_then (eval_predicate operand p) (\<lambda>b. Inr (\<not> b))"
| "eval_predicate operand (UnaryPredicate op b) = eval_unary operand op b"
| "eval_predicate operand (ComparisonPredicate op l r) = eval_comparison operand op l r"

subsection \<open>Composition with the resolver\<close>

text \<open>\<open>except AppError\<close>: the three predicate codes pass, every other \<open>AppError\<close> is renamed.\<close>

fun as_predicate_error :: "py_error \<Rightarrow> py_error" where
  "as_predicate_error (AppError code st) =
     (if code \<in> {''PREDICATE_OPERAND_MISSING'', ''PREDICATE_TYPE_MISMATCH'', ''PREDICATE_EVALUATION_FAILED''}
      then AppError code st else EVALUATION_FAILED)"
| "as_predicate_error e = e"

definition resolve_operand ::
    "resolver_env \<Rightarrow> execution_step \<Rightarrow> json option \<Rightarrow> plan_binding \<Rightarrow> pointed result" where
  "resolve_operand R owning override b =
     (case resolve_binding R owning True override b of
        Inl e \<Rightarrow> Inl (as_predicate_error e)
      | Inr v \<Rightarrow> Inr v)"

text \<open>The predicate is a parsed tree (\<open>Inr\<close>) or a JSON object still to be parsed (\<open>Inl\<close>).\<close>

definition evaluate :: "codec \<Rightarrow> (rat \<Rightarrow> string) \<Rightarrow> (string, json) dict + predicate \<Rightarrow> execution
    \<Rightarrow> execution_step \<Rightarrow> execution_step list \<Rightarrow> execution_plan \<Rightarrow> json option \<Rightarrow> bool result" where
  "evaluate C fr p ex owning steps plan override =
     and_then
       (case p of Inl j \<Rightarrow> opt_or (validate_predicate C (JObj j)) EVALUATION_FAILED | Inr q \<Rightarrow> Inr q)
       (\<lambda>parsed. let by_key = by_step_key steps in
          if (case map_of by_key (step_key owning) of None \<Rightarrow> True | Some s \<Rightarrow> st_id s \<noteq> st_id owning)
          then Inl EVALUATION_FAILED
          else and_then (transitive_ancestors plan) (\<lambda>anc.
            eval_predicate
              (resolve_operand
                 \<lparr>env_codec = C, env_repr = fr, env_execution = ex, env_rows = by_key, env_plan = plan,
                  env_ancestors = anc\<rparr> owning override)
              parsed))"

subsection \<open>Strict equality is equality of denotations\<close>

text \<open>
  What a JSON value without non-finite numbers means: numbers by value, objects as finite maps.
\<close>

datatype jval =
    VNull
  | VBool bool
  | VNum rat
  | VStr string
  | VList "jval list"
  | VObj "string \<Rightarrow> jval option"

fun denote :: "json \<Rightarrow> jval" where
  "denote JNull = VNull"
| "denote (JBool b) = VBool b"
| "denote (JInt i) = VNum (of_int i)"
| "denote (JFloat f) = VNum (num_val (JFloat f))"
| "denote (JStr s) = VStr s"
| "denote (JList xs) = VList (map denote xs)"
| "denote (JObj kvs) = VObj (map_of (map (\<lambda>(k, v). (k, denote v)) kvs))"

lemma allE_decided:
  "(\<And>x. x \<in> set xs \<Longrightarrow> p x = Inr (q x)) \<Longrightarrow> allE p xs = Inr (list_all q xs)"
  by (induction xs) auto

lemma anyE_decided:
  "(\<And>x. x \<in> set xs \<Longrightarrow> p x = Inr (q x)) \<Longrightarrow> anyE p xs = Inr (list_ex q xs)"
  by (induction xs) auto

lemma reject_finite: "finite_json v \<Longrightarrow> reject_non_finite_number v = Inr ()"
  by (cases v) (auto simp: reject_non_finite_number_def)

lemma number_denote: "is_number v \<Longrightarrow> denote v = VNum (num_val v)"
  by (cases v) auto

lemma map_of_denote: "map_of (map (\<lambda>(k, v). (k, denote v)) kvs) k = map_option denote (map_of kvs k)"
  by (induction kvs) auto

lemma same_keys_lookup:
  assumes "set (dict_keys d) = set (dict_keys e)" and "(k, a) \<in> set d"
  shows "\<exists>b. map_of e k = Some b"
proof -
  have "k \<in> set (dict_keys d)"
    using assms(2) by (simp add: rev_image_eqI)
  then show ?thesis
    unfolding assms(1) by (cases "map_of e k") (auto simp: map_of_eq_None_iff)
qed

lemma strict_equal_objects:
  assumes "distinct (dict_keys kvs)" and "set (dict_keys kvs) = set (dict_keys kvs')"
  shows "(denote (JObj kvs) = denote (JObj kvs'))
    \<longleftrightarrow> (\<forall>(k, a) \<in> set kvs. \<exists>b. map_of kvs' k = Some b \<and> denote a = denote b)"
    (is "?l = ?r")
proof
  assume ?l
  then have eq: "map_option denote (map_of kvs k) = map_option denote (map_of kvs' k)" for k
    by (simp add: map_of_denote fun_eq_iff)
  have "\<exists>b. map_of kvs' k = Some b \<and> denote a = denote b" if "(k, a) \<in> set kvs" for k a
    using eq [of k] map_of_is_SomeI [OF assms(1) that] by (cases "map_of kvs' k") auto
  then show ?r
    by auto
next
  assume r: ?r
  have "map_option denote (map_of kvs k) = map_option denote (map_of kvs' k)" for k
  proof (cases "map_of kvs k")
    case None
    then have "map_of kvs' k = None"
      using assms(2) by (simp add: map_of_eq_None_iff)
    with None show ?thesis
      by simp
  next
    case (Some a)
    then show ?thesis
      using r map_of_SomeD [OF Some] by fastforce
  qed
  then show ?l
    by (simp add: map_of_denote fun_eq_iff)
qed

lemma strict_equal_list:
  "json_strict_equal (JList xs) (JList ys) =
     (if length xs \<noteq> length ys then Inr False else allE (\<lambda>(a, b). json_strict_equal a b) (zip xs ys))"
  by (subst json_strict_equal.simps) simp

lemma strict_equal_obj:
  "json_strict_equal (JObj kvs) (JObj kvs') =
     (if set (dict_keys kvs) \<noteq> set (dict_keys kvs') then Inr False
      else allE (\<lambda>(k, a). and_then (dict_at kvs' k) (\<lambda>b. json_strict_equal a b)) kvs)"
  by (subst json_strict_equal.simps) simp

lemma strict_equal_denote:
  "wf_json l \<Longrightarrow> wf_json r \<Longrightarrow> finite_json l \<Longrightarrow> finite_json r
     \<Longrightarrow> json_strict_equal l r = Inr (denote l = denote r)"
proof (induction l r rule: json_strict_equal.induct)
  case (1 l r)
  note prems = "1.prems"
  consider (null) "l = JNull \<and> r = JNull" | (bool) "is_bool l \<or> is_bool r"
    | (num) "\<not> (is_bool l \<or> is_bool r)" "is_number l \<or> is_number r"
    | (str) s t where "l = JStr s" "r = JStr t"
    | (list) xs ys where "l = JList xs" "r = JList ys"
    | (obj) kvs kvs' where "l = JObj kvs" "r = JObj kvs'"
    | (rest) "\<not> (l = JNull \<and> r = JNull)" "\<not> (is_bool l \<or> is_bool r)" "\<not> (is_number l \<or> is_number r)"
        "json_strict_equal l r = Inr False" "denote l \<noteq> denote r"
    by (cases l; cases r) (auto simp: json_strict_equal.simps)
  then show ?case
  proof cases
    case list
    show ?thesis
    proof (cases "length xs = length ys")
      case True
      have IH: "json_strict_equal a b = Inr (denote a = denote b)" if ab: "(a, b) \<in> set (zip xs ys)" for a b
        using "1.IH"(1) [OF _ _ _ list _ ab refl] list True prems set_zip_leftD [OF ab] set_zip_rightD [OF ab]
        by (simp add: list_all_iff)
      have "json_strict_equal l r = allE (\<lambda>(a, b). json_strict_equal a b) (zip xs ys)"
        using list True by (simp add: strict_equal_list)
      also have "\<dots> = Inr (list_all (\<lambda>(a, b). denote a = denote b) (zip xs ys))"
        by (intro allE_decided) (auto intro: IH)
      also have "list_all (\<lambda>(a, b). denote a = denote b) (zip xs ys) \<longleftrightarrow> map denote xs = map denote ys"
        using True by (auto simp: list_all_iff list_eq_iff_nth_eq set_zip)
      finally show ?thesis
        using list by simp
    next
      case False
      then show ?thesis
        using list by (auto simp: strict_equal_list dest: map_eq_imp_length_eq)
    qed
  next
    case obj
    show ?thesis
    proof (cases "set (dict_keys kvs) = set (dict_keys kvs')")
      case True
      have "and_then (dict_at kvs' k) (json_strict_equal a)
          = Inr (\<exists>b. map_of kvs' k = Some b \<and> denote a = denote b)" if ka: "(k, a) \<in> set kvs" for k a
      proof -
        obtain b where b: "map_of kvs' k = Some b"
          using same_keys_lookup [OF True ka] by blast
        have "json_strict_equal a b = Inr (denote a = denote b)"
          using "1.IH"(2) [OF _ _ _ obj _ ka refl] obj True prems ka b map_of_SomeD [OF b]
          by (force simp: list_all_iff)
        with b show ?thesis
          by (simp add: dict_at_def)
      qed
      then have "allE (\<lambda>(k, a). and_then (dict_at kvs' k) (\<lambda>b. json_strict_equal a b)) kvs
          = Inr (list_all (\<lambda>(k, a). \<exists>b. map_of kvs' k = Some b \<and> denote a = denote b) kvs)"
        by (intro allE_decided) auto
      then show ?thesis
        using obj True prems strict_equal_objects [of kvs kvs']
        by (simp add: strict_equal_obj list_all_iff del: denote.simps set_map)
    next
      case False
      moreover have "set (dict_keys kvs) = set (dict_keys kvs')" if "denote l = denote r"
      proof -
        have "map_option denote (map_of kvs k) = map_option denote (map_of kvs' k)" for k
          using that obj by (simp add: map_of_denote fun_eq_iff)
        then have "(map_of kvs k = None) = (map_of kvs' k = None)" for k
          by (metis option.map_disc_iff)
        then show ?thesis
          by (auto simp: map_of_eq_None_iff)
      qed
      ultimately show ?thesis
        using obj by (auto simp: strict_equal_obj simp del: denote.simps set_map)
    qed
  qed (use prems in \<open>cases l; cases r; auto simp: json_strict_equal.simps reject_finite\<close>)+
qed

subsection \<open>The interface to the resolver\<close>

text \<open>
  All the evaluator relies on: an operand that cannot be resolved raises one of the three predicate
  codes, or \<open>ValueError\<close> from a pointer (\<open>JsonPointer\<close> shows when).
\<close>

definition predicate_error :: "py_error \<Rightarrow> bool" where
  "predicate_error e \<longleftrightarrow> e \<in> {OPERAND_MISSING, TYPE_MISMATCH, EVALUATION_FAILED, ValueError}"

lemma predicate_error_intros [raises_intros]:
  "predicate_error OPERAND_MISSING" "predicate_error TYPE_MISMATCH" "predicate_error EVALUATION_FAILED"
  by (simp_all add: predicate_error_def)

lemma reject_raises [raises_intros]: "only_raises predicate_error (reject_non_finite_number v)"
  unfolding reject_non_finite_number_def by (intro raises_intros)

lemma json_strict_equal_raises: "only_raises (\<lambda>e. e = TYPE_MISMATCH) (json_strict_equal l r)"
proof (induction l r rule: json_strict_equal.induct)
  case (1 l r)
  have reject: "only_raises (\<lambda>e. e = TYPE_MISMATCH) (reject_non_finite_number v)" for v
    by (simp add: reject_non_finite_number_def raise_if_def)
  show ?case
  proof (cases "is_bool l \<or> is_bool r \<or> is_number l \<or> is_number r")
    case True
    then show ?thesis
      by (subst json_strict_equal.simps) (auto intro!: raises_intros reject)
  next
    case False
    then show ?thesis
    proof (cases l)
      case (JList xs)
      show ?thesis
      proof (cases r)
        case (JList ys)
        then show ?thesis
          using False \<open>l = JList xs\<close> "1.IH"(1) [OF _ _ _ \<open>l = JList xs\<close> JList]
          by (auto simp: strict_equal_list intro!: raises_intros)
      qed (use False JList in \<open>auto simp: json_strict_equal.simps\<close>)
    next
      case (JObj kvs)
      show ?thesis
      proof (cases r)
        case (JObj kvs')
        have "only_raises (\<lambda>e. e = TYPE_MISMATCH) (json_strict_equal a b)"
          if "set (dict_keys kvs) = set (dict_keys kvs')" "(k, a) \<in> set kvs" "dict_at kvs' k = Inr b" for k a b
          using "1.IH"(2) [OF _ _ _ \<open>l = JObj kvs\<close> JObj _ that(2) refl that(3)] False \<open>l = JObj kvs\<close> that(1) by simp
        moreover have "only_raises (\<lambda>e. e = TYPE_MISMATCH) (dict_at kvs' k)"
          if "set (dict_keys kvs) = set (dict_keys kvs')" "(k, a) \<in> set kvs" for k a
          using same_keys_lookup [OF that] by (auto simp: dict_at_def)
        ultimately show ?thesis
          unfolding \<open>l = JObj kvs\<close> JObj strict_equal_obj by (intro raises_intros) auto
      qed (use False JObj in \<open>auto simp: json_strict_equal.simps\<close>)
    qed (cases r; auto simp: json_strict_equal.simps)+
  qed
qed

lemma strict_equal_raises [raises_intros]: "only_raises predicate_error (json_strict_equal l r)"
  using json_strict_equal_raises by (rule only_raises_mono) (simp add: predicate_error_def)

lemma ordered_compare_raises [raises_intros]: "only_raises predicate_error (ordered_compare op l r)"
  by (cases l; cases r) (auto simp: ordered_compare_def intro!: raises_intros)

lemma compare_values_raises [raises_intros]: "only_raises predicate_error (compare_values op l r)"
proof -
  have "only_raises predicate_error (dispatch_comparison op l r)"
    by (cases op; cases "as_str l"; cases "as_str r") (auto simp: dispatch_comparison_def intro!: raises_intros)
  then show ?thesis
    unfolding compare_values_def by (intro raises_intros)
qed

lemma present_raises [raises_intros]: "only_raises predicate_error (present p)"
  by (cases p) (auto simp: present_def intro: raises_intros)

locale operand_source =
  fixes operand :: "plan_binding \<Rightarrow> pointed result"
  assumes operand_raises: "only_raises predicate_error (operand b)"
begin

lemma eval_raises: "only_raises predicate_error (eval_predicate operand p)"
proof (induction p)
  case (ComparisonPredicate op l r)
  show ?case
    unfolding eval_predicate.simps eval_comparison_def by (intro raises_intros operand_raises)
next
  case (UnaryPredicate op b)
  show ?case
    by (cases op) (auto simp: eval_unary_def intro!: raises_intros operand_raises)
next
  case (LogicalPredicate op ps)
  then show ?case
    by (cases op) (auto intro!: raises_intros)
qed (auto intro!: raises_intros)

text \<open>A decided comparison has looked at two present values, neither of them a secret reference.\<close>

lemma comparison_decided:
  assumes "eval_predicate operand (ComparisonPredicate op l r) = Inr b"
  shows "\<exists>x y. operand l = Inr (Found x) \<and> operand r = Inr (Found y)
    \<and> \<not> is_secret_ref_value x \<and> \<not> is_secret_ref_value y \<and> compare_values op x y = Inr b"
proof -
  have present: "present p = Inr x \<longleftrightarrow> p = Found x" for p x
    by (cases p) (auto simp: present_def)
  obtain x y where xy: "operand l = Inr (Found x)" "operand r = Inr (Found y)" "compare_values op x y = Inr b"
    using assms by (auto simp: eval_comparison_def present split: if_splits)
  then have "\<not> is_secret_ref_value x \<and> \<not> is_secret_ref_value y"
    by (auto simp: compare_values_def split: if_splits)
  with xy show ?thesis
    by blast
qed

end

lemma as_predicate_error: "binding_error e \<Longrightarrow> predicate_error (as_predicate_error e)"
  by (auto simp: binding_error_def predicate_error_def)

interpretation resolved: operand_source "resolve_operand R owning override" for R owning override
proof
  fix b
  show "only_raises predicate_error (resolve_operand R owning override b)"
    using only_raisesD [OF resolve_binding_raises] as_predicate_error
    by (auto simp: resolve_operand_def only_raises_def split: sum.splits)
qed

subsection \<open>Properties\<close>

definition sample_evaluate :: "predicate \<Rightarrow> bool result" where
  "sample_evaluate p = evaluate binding_sample_codec (\<lambda>_. []) (Inr p) (binding_sample_execution (JObj []))
     (binding_sample_rows ! 1) binding_sample_rows binding_sample_plan None"

text \<open>C38: On finite JSON the strict equality of the evaluator never raises and is equality of what the
  values denote: numbers by exact value whether int or float, booleans apart from numbers, objects
  without regard to the order of their keys.\<close>

theorem strict_equality_denotation:
  assumes "wf_json l" and "wf_json r" and "finite_json l" and "finite_json r"
  shows "json_strict_equal l r = Inr (denote l = denote r)"
  using assms by (rule strict_equal_denote)

theorem strict_equality_denotation_witness:
  "json_strict_equal (JObj [(''a'', JInt 1), (''b'', JNull)]) (JObj [(''b'', JNull), (''a'', JFloat (Finite 1))]) = Inr True
   \<and> json_strict_equal (JBool True) (JInt 1) = Inr False"
proof -
  have "denote (JObj [(''a'', JInt 1), (''b'', JNull)]) = denote (JObj [(''b'', JNull), (''a'', JFloat (Finite 1))])"
    by (auto simp: fun_eq_iff)
  moreover have "denote (JBool True) \<noteq> denote (JInt 1)"
    by simp
  ultimately show ?thesis
    using strict_equality_denotation [of "JObj [(''a'', JInt 1), (''b'', JNull)]"
        "JObj [(''b'', JNull), (''a'', JFloat (Finite 1))]"]
      strict_equality_denotation [of "JBool True" "JInt 1"] by simp
qed

text \<open>A predicate evaluation that raises raises one of the three predicate codes with status 409,
  \<open>ValueError\<close> from a pointer, or \<open>RecursionError\<close>, and the last only on a plan with a
  dependency cycle.\<close>

theorem evaluate_error_codes:
  assumes "evaluate C fr p ex owning steps plan override = Inl e"
  shows "e \<in> {OPERAND_MISSING, TYPE_MISMATCH, EVALUATION_FAILED, ValueError}
    \<or> e = RecursionError \<and> \<not> acyclic (dep_edges (plan_deps plan))"
proof (cases "transitive_ancestors plan")
  case (Inl e')
  then have "e' = RecursionError" "\<not> acyclic (dep_edges (plan_deps plan))"
    using transitive_ancestors_error transitive_ancestors_total by fastforce+
  with assms Inl show ?thesis
    by (auto simp: evaluate_def Let_def and_then_Inl_iff split: if_splits sum.splits)
next
  case (Inr anc)
  have "only_raises predicate_error (evaluate C fr p ex owning steps plan override)"
    unfolding evaluate_def Let_def Inr and_then.simps
    by (cases p) (auto intro!: raises_intros resolved.eval_raises)
  from only_raisesD [OF this assms] show ?thesis
    by (simp add: predicate_error_def)
qed

theorem evaluate_error_codes_witness:
  "\<exists>e. sample_evaluate (ComparisonPredicate OP_EQ (PlanStepOutputBinding ''a'' ''/y'') (PlanLiteralBinding JNull)) = Inl e
     \<and> (e \<in> {OPERAND_MISSING, TYPE_MISMATCH, EVALUATION_FAILED, ValueError}
        \<or> e = RecursionError \<and> \<not> acyclic (dep_edges (plan_deps binding_sample_plan)))"
proof -
  have "sample_evaluate (ComparisonPredicate OP_EQ (PlanStepOutputBinding ''a'' ''/y'') (PlanLiteralBinding JNull))
      = Inl OPERAND_MISSING"
    by code_simp
  then show ?thesis
    using evaluate_error_codes unfolding sample_evaluate_def by blast
qed

text \<open>A comparison is decided only by two operands that both resolved to present values, and never on a
  secret reference, whether it was written in the plan or reached through another binding.\<close>

theorem comparison_never_sees_secrets:
  assumes "evaluate C fr (Inr (ComparisonPredicate op l r)) ex owning steps plan override = Inr b"
  shows "\<exists>anc x y. transitive_ancestors plan = Inr anc
    \<and> resolve_binding (resolve_env C fr ex steps plan anc) owning True override l = Inr (Found x)
    \<and> resolve_binding (resolve_env C fr ex steps plan anc) owning True override r = Inr (Found y)
    \<and> \<not> is_secret_ref_value x \<and> \<not> is_secret_ref_value y \<and> compare_values op x y = Inr b"
proof -
  have res: "resolve_operand R owning override c = Inr v \<longleftrightarrow> resolve_binding R owning True override c = Inr v" for R c v
    by (simp add: resolve_operand_def split: sum.split)
  obtain anc where anc: "transitive_ancestors plan = Inr anc"
    and ev: "eval_predicate (resolve_operand (resolve_env C fr ex steps plan anc) owning override)
        (ComparisonPredicate op l r) = Inr b"
    using assms unfolding evaluate_def Let_def resolve_env_def [symmetric] by (auto simp del: eval_predicate.simps)
  show ?thesis
    using anc resolved.comparison_decided [OF ev] unfolding res by blast
qed

theorem comparison_never_sees_secrets_witness:
  "\<exists>x y. \<not> is_secret_ref_value x \<and> \<not> is_secret_ref_value y \<and> compare_values OP_GT x y = Inr True"
proof -
  have "sample_evaluate (ComparisonPredicate OP_GT (PlanStepOutputBinding ''a'' ''/x'') (PlanLiteralBinding (JInt 3)))
      = Inr True"
    by code_simp
  then show ?thesis
    using comparison_never_sees_secrets unfolding sample_evaluate_def by blast
qed

text \<open>Negation obeys the laws authors rely on, raises included: NOT over AND is OR over NOTs and the
  other way round, \<open>ne\<close> is the negation of \<open>eq\<close>, and \<open>gte\<close> and \<open>lte\<close> are the
  negations of \<open>lt\<close> and \<open>gt\<close>, in the value or the exception they give.\<close>

theorem predicate_negation_laws:
  "eval_predicate operand (NotPredicate (LogicalPredicate OP_AND ps))
     = eval_predicate operand (LogicalPredicate OP_OR (map NotPredicate ps))
   \<and> eval_predicate operand (NotPredicate (LogicalPredicate OP_OR ps))
     = eval_predicate operand (LogicalPredicate OP_AND (map NotPredicate ps))
   \<and> eval_predicate operand (NotPredicate (ComparisonPredicate OP_EQ l r))
     = eval_predicate operand (ComparisonPredicate OP_NE l r)
   \<and> eval_predicate operand (NotPredicate (ComparisonPredicate OP_LT l r))
     = eval_predicate operand (ComparisonPredicate OP_GTE l r)
   \<and> eval_predicate operand (NotPredicate (ComparisonPredicate OP_GT l r))
     = eval_predicate operand (ComparisonPredicate OP_LTE l r)"
proof -
  let ?neg = "\<lambda>r. and_then r (\<lambda>b. Inr (\<not> b))"
  have "?neg (allE f xs) = anyE (\<lambda>x. ?neg (f x)) xs" for f and xs :: "predicate list"
  proof (induction xs)
    case (Cons x xs)
    then show ?case
      by (cases "f x") auto
  qed simp
  moreover have "?neg (anyE f xs) = allE (\<lambda>x. ?neg (f x)) xs" for f and xs :: "predicate list"
  proof (induction xs)
    case (Cons x xs)
    then show ?case
      by (cases "f x") auto
  qed simp
  moreover have "allE f (map g xs) = allE (f \<circ> g) xs" "anyE f (map g xs) = anyE (f \<circ> g) xs"
    for f :: "predicate \<Rightarrow> bool result" and g and xs :: "predicate list"
    by (induction xs) (auto intro: and_then_cong)
  moreover have lift: "?neg (eval_comparison operand op l r) = eval_comparison operand op' l r"
    if "\<And>x y. ?neg (dispatch_comparison op x y) = dispatch_comparison op' x y" for op op'
  proof -
    have "?neg (compare_values op x y) = compare_values op' x y" for x y
      by (simp add: compare_values_def that)
    then show ?thesis
      by (simp add: eval_comparison_def)
  qed
  moreover have "?neg (dispatch_comparison OP_EQ x y) = dispatch_comparison OP_NE x y" for x y
    by (simp add: dispatch_comparison_def)
  moreover have "?neg (dispatch_comparison OP_LT x y) = dispatch_comparison OP_GTE x y"
    "?neg (dispatch_comparison OP_GT x y) = dispatch_comparison OP_LTE x y" for x y
    by (auto simp: dispatch_comparison_def ordered_compare_def not_less split: json.split)
  ultimately show ?thesis
    by (simp add: comp_def)
qed

end
