(* ===== verification/ToolPolicy.thy ===== *)
theory ToolPolicy
  imports PlanSchema
begin

section \<open>Tool and approval policies\<close>

text \<open>
  The policy rows of \<^verbatim>\<open>src/backend/app/models/mcp.py\<close> and \<^verbatim>\<open>models/approval.py\<close>, and their
  snapshot, \<^verbatim>\<open>src/backend/app/services/policy_snapshot.py\<close>, which the plan validator stores and an
  execution pins.  Status columns are strings, as the code compares them with the values of the enumerations.
\<close>

record tool_policy =
  tp_id :: uuid
  tp_mcp_tool_id :: uuid
  tp_risk_class :: string
  tp_requires_confirmation :: bool
  tp_requires_approval :: bool
  tp_approval_policy_id :: "uuid option"
  tp_timeout_ms :: int
  tp_max_attempts :: int
  tp_backoff_policy :: json
  tp_max_result_bytes :: int
  tp_allow_auto_select :: bool
  tp_data_classification :: "string option"

record approval_policy =
  ay_id :: uuid
  ay_status :: string
  ay_decision_mode :: string
  ay_required_approvals :: int
  ay_approver_scope :: json
  ay_default_expiry_seconds :: int
  ay_allow_self_approval :: bool
  ay_reject_comment_required :: bool

definition opt_json :: "('a \<Rightarrow> json) \<Rightarrow> 'a option \<Rightarrow> json" where
  "opt_json f x = (case x of None \<Rightarrow> JNull | Some y \<Rightarrow> f y)"

definition approval_snapshot :: "approval_policy \<Rightarrow> json" where
  "approval_snapshot p =
     JObj [(''id'', JStr (uuid_str (ay_id p))), (''status'', JStr (ay_status p)),
           (''decision_mode'', JStr (ay_decision_mode p)),
           (''required_approvals'', JInt (ay_required_approvals p)),
           (''approver_scope'', ay_approver_scope p),
           (''default_expiry_seconds'', JInt (ay_default_expiry_seconds p)),
           (''allow_self_approval'', JBool (ay_allow_self_approval p)),
           (''reject_comment_required'', JBool (ay_reject_comment_required p))]"

definition build_safe_tool_policy_snapshot :: "tool_policy \<Rightarrow> approval_policy option \<Rightarrow> json" where
  "build_safe_tool_policy_snapshot p ap =
     JObj [(''tool_policy'',
        JObj [(''id'', JStr (uuid_str (tp_id p))), (''mcp_tool_id'', JStr (uuid_str (tp_mcp_tool_id p))),
              (''risk_class'', JStr (tp_risk_class p)),
              (''requires_confirmation'', JBool (tp_requires_confirmation p)),
              (''requires_approval'', JBool (tp_requires_approval p)),
              (''approval_policy_id'', opt_json (\<lambda>u. JStr (uuid_str u)) (tp_approval_policy_id p)),
              (''timeout_ms'', JInt (tp_timeout_ms p)), (''max_attempts'', JInt (tp_max_attempts p)),
              (''backoff_policy'', tp_backoff_policy p), (''max_result_bytes'', JInt (tp_max_result_bytes p)),
              (''allow_auto_select'', JBool (tp_allow_auto_select p)),
              (''data_classification'', opt_json JStr (tp_data_classification p))]),
       (''approval_policy'', opt_json approval_snapshot ap)]"

definition is_safe_readonly_policy :: "tool_policy \<Rightarrow> bool" where
  "is_safe_readonly_policy p \<longleftrightarrow>
     tp_risk_class p = ''READ_ONLY'' \<and> \<not> tp_requires_confirmation p \<and> \<not> tp_requires_approval p"

end
