(* ===== verification/SequentialPair.thy ===== *)
theory SequentialPair
  imports ToolPolicy "HOL-Library.Sublist"
begin

section \<open>The sequential pair of read-only tools\<close>

text \<open>
  \<^verbatim>\<open>src/backend/app/agent/sequential_readonly_pair.py\<close>: when a chat request asks for the details of an item
  of a list, the plan has a second TOOL step whose id comes from the first step's output or from the user.
  The structured request is \<^verbatim>\<open>src/backend/app/schemas/structured_request.py\<close>.

  Strings have code points below 256, so the Korean signal tokens of the code can not occur in them and are
  left out of the token lists.  \<open>float()\<close> of a string and \<open>str()\<close> of a float are the parameter \<open>py_floats\<close>.
\<close>

datatype provenance =
    USER_EXPLICIT | WORKFLOW_INPUT | CONVERSATION_CONFIRMED | FROM_STEP_OUTPUT | POLICY_DEFAULT | MODEL_DERIVED
  | SECRET_REFERENCE

record structured_entity =
  en_name :: string
  en_value :: json
  en_source :: provenance

record structured_request =
  sr_request_text :: string
  sr_intent :: string
  sr_entities :: "structured_entity list"
  sr_constraints :: "string list"
  sr_expected_outputs :: "string list"
  sr_required_capabilities :: "string list"
  sr_missing_inputs :: "string list"
  sr_ambiguities :: "string list"
  sr_needs_clarification :: bool

record py_floats =
  float_of_str :: "string \<Rightarrow> pyfloat option"
  str_of_float :: "pyfloat \<Rightarrow> string"

record handoff =
  target_param :: string
  from_path :: string
  source_json_type :: string
  target_json_type :: string

definition char_lower :: "char \<Rightarrow> char" where
  "char_lower c = (let n = (of_char c :: nat) in
     if 65 \<le> n \<and> n \<le> 90 \<or> 192 \<le> n \<and> n \<le> 222 \<and> n \<noteq> 215 then char_of (n + 32) else c)"

definition str_lower :: "string \<Rightarrow> string" where
  "str_lower s = map char_lower s"

definition DETERMINISTIC_TOOL_STEP_ID :: string where "DETERMINISTIC_TOOL_STEP_ID = ''tool_1''"
definition DETERMINISTIC_TOOL_STEP_ID_2 :: string where "DETERMINISTIC_TOOL_STEP_ID_2 = ''tool_2''"

definition ID_PARAM_NAMES :: "string list" where
  "ID_PARAM_NAMES = [''id'', ''petid'', ''pet_id'', ''itemid'', ''item_id'', ''entityid'', ''entity_id'',
     ''objectid'', ''object_id'']"

definition DETAIL_SIGNAL_TOKENS :: "string list" where
  "DETAIL_SIGNAL_TOKENS = [''detail'', ''details'', ''by_id'', ''by-id'', ''byid'', ''get_by_id'', ''getbyid'',
     ''lookup_one'', ''lookupone'', ''first_item'', ''first-item'', ''pet.detail'', ''pets.detail'',
     ''item.detail'', ''get_pet'', ''getpet'']"

definition FIRST_ITEM_HANDOFF_TOKENS :: "string list" where
  "FIRST_ITEM_HANDOFF_TOKENS = [''first_item'', ''first-item'', ''firstitem'']"

definition LIST_ONLY_TOKENS :: "string list" where
  "LIST_ONLY_TOKENS = [''list'', ''lists'', ''find_all'', ''findall'', ''search_all'']"

subsection \<open>Names and schemas\<close>

definition normalize_param :: "string \<Rightarrow> string" where
  "normalize_param name = filter (\<lambda>c. c \<notin> set ''_- '') (str_lower name)"

definition is_id_like_param :: "string \<Rightarrow> bool" where
  "is_id_like_param name \<longleftrightarrow>
     normalize_param name \<in> set ID_PARAM_NAMES \<or>
     (suffix ''_id'' name \<or> suffix ''-id'' name \<or> suffix ''Id'' name) \<and> 2 < length name"

text \<open>\<open>d.get(k)\<close>, with Python's \<open>None\<close> for a missing key.\<close>

definition get_or_none :: "(string, json) dict \<Rightarrow> string \<Rightarrow> json" where
  "get_or_none kvs k = (case map_of kvs k of None \<Rightarrow> JNull | Some v \<Rightarrow> v)"

definition schema_properties :: "json \<Rightarrow> (string, json) dict" where
  "schema_properties schema =
     (case schema of
        JObj kvs \<Rightarrow>
          if get_or_none kvs ''type'' \<noteq> JStr ''object'' then []
          else (case get_or_none kvs ''properties'' of JObj props \<Rightarrow> props | _ \<Rightarrow> [])
      | _ \<Rightarrow> [])"

definition schema_required :: "json \<Rightarrow> string list" where
  "schema_required schema =
     (case schema of
        JObj kvs \<Rightarrow> (case get_or_none kvs ''required'' of JList xs \<Rightarrow> List.map_filter as_str xs | _ \<Rightarrow> [])
      | _ \<Rightarrow> [])"

definition json_type :: "json \<Rightarrow> string option" where
  "json_type schema =
     (case schema of
        JObj kvs \<Rightarrow> (case get_or_none kvs ''type'' of
                       JStr raw \<Rightarrow> if non_blank raw then Some (str_strip raw) else None
                     | _ \<Rightarrow> None)
      | _ \<Rightarrow> None)"

definition types_compatible :: "string \<Rightarrow> string \<Rightarrow> bool" where
  "types_compatible src tgt \<longleftrightarrow> src = tgt \<or> src = ''integer'' \<and> tgt = ''number''"

subsection \<open>Signals of the request\<close>

definition structured_signal_blob :: "structured_request \<Rightarrow> string" where
  "structured_signal_blob sr =
     str_lower (str_join (CHR '' '') [sr_intent sr, str_join (CHR '' '') (sr_expected_outputs sr),
       str_join (CHR '' '') (sr_required_capabilities sr), str_join (CHR '' '') (sr_constraints sr)])"

definition some_token :: "string list \<Rightarrow> string \<Rightarrow> bool" where
  "some_token tokens text = list_ex (\<lambda>t. sublist t text) tokens"

definition has_detail_signal :: "structured_request \<Rightarrow> bool" where
  "has_detail_signal sr =
     (if some_token DETAIL_SIGNAL_TOKENS (structured_signal_blob sr) then True
      else if some_token LIST_ONLY_TOKENS (structured_signal_blob sr) then False
      else some_token DETAIL_SIGNAL_TOKENS (str_lower (sr_request_text sr)))"

definition has_list_signal :: "structured_request \<Rightarrow> bool" where
  "has_list_signal sr =
     (if some_token LIST_ONLY_TOKENS (structured_signal_blob sr) then True
      else some_token LIST_ONLY_TOKENS (str_lower (sr_request_text sr)))"

definition unclear :: "structured_request \<Rightarrow> bool" where
  "unclear sr \<longleftrightarrow> sr_needs_clarification sr \<or> sr_ambiguities sr \<noteq> []"

definition requests_sequential_detail_lookup :: "structured_request \<Rightarrow> bool" where
  "requests_sequential_detail_lookup sr = (if unclear sr then False else has_detail_signal sr)"

definition requests_first_item_id_handoff :: "structured_request \<Rightarrow> bool" where
  "requests_first_item_id_handoff sr =
     (if unclear sr then False
      else some_token FIRST_ITEM_HANDOFF_TOKENS
             (structured_signal_blob sr @ CHR '' '' # str_lower (sr_request_text sr)))"

definition requests_sequential_list_detail_pair :: "structured_request \<Rightarrow> bool" where
  "requests_sequential_list_detail_pair sr =
     (if unclear sr then False
      else if requests_first_item_id_handoff sr then True
      else has_detail_signal sr \<and> has_list_signal sr)"

subsection \<open>The id the user named\<close>

definition explicit_ids :: "structured_request \<Rightarrow> structured_entity list" where
  "explicit_ids sr = filter (\<lambda>e. en_source e \<in> {USER_EXPLICIT, CONVERSATION_CONFIRMED} \<and>
     is_id_like_param (en_name e)) (sr_entities sr)"

text \<open>\<open>None\<close> is \<open>JNull\<close>: an entity may itself have the value null.\<close>

definition extract_explicit_id_entity_value :: "structured_request \<Rightarrow> json" where
  "extract_explicit_id_entity_value sr = (case explicit_ids sr of [e] \<Rightarrow> en_value e | _ \<Rightarrow> JNull)"

text \<open>
  \<open>int()\<close> on a string whose characters after any leading minus signs satisfy \<open>isdigit\<close>: two minus signs
  raise, like a superscript digit.
\<close>

definition py_int_signed :: "string \<Rightarrow> int result" where
  "py_int_signed s =
     (case s of
        c # ds \<Rightarrow> if c = CHR ''-'' then and_then (py_int_digits ds) (\<lambda>n. Inr (- int n))
                  else and_then (py_int_digits s) (\<lambda>n. Inr (int n))
      | [] \<Rightarrow> Inl ValueError)"

definition int_dec :: "int \<Rightarrow> string" where
  "int_dec i = (if i < 0 then CHR ''-'' # nat_dec (nat (- i)) else nat_dec (nat i))"

definition coerce_integer :: "json \<Rightarrow> json option result" where
  "coerce_integer v =
     (case v of
        JInt i \<Rightarrow> Inr (Some (JInt i))
      | JFloat (Finite r) \<Rightarrow> Inr (if snd (quotient_of r) = 1 then Some (JInt \<lfloor>r\<rfloor>) else None)
      | JStr s \<Rightarrow>
          if str_isdigit (dropWhile (\<lambda>c. c = CHR ''-'') (str_strip s))
          then and_then (py_int_signed (str_strip s)) (\<lambda>i. Inr (Some (JInt i)))
          else Inr None
      | _ \<Rightarrow> Inr None)"

definition coerce_number :: "py_floats \<Rightarrow> json \<Rightarrow> json option" where
  "coerce_number F v =
     (case v of
        JInt i \<Rightarrow> Some (JInt i)
      | JFloat f \<Rightarrow> Some (JFloat f)
      | JStr s \<Rightarrow> map_option JFloat (float_of_str F (str_strip s))
      | _ \<Rightarrow> None)"

definition coerce_string :: "py_floats \<Rightarrow> json \<Rightarrow> json option" where
  "coerce_string F v =
     (case v of
        JStr s \<Rightarrow> if non_blank s then Some (JStr s) else None
      | JInt i \<Rightarrow> Some (JStr (int_dec i))
      | JFloat f \<Rightarrow> Some (JStr (str_of_float F f))
      | _ \<Rightarrow> None)"

definition coerce_id_literal :: "py_floats \<Rightarrow> json \<Rightarrow> string \<Rightarrow> json option result" where
  "coerce_id_literal F v target =
     (if v = JNull \<or> is_bool v then Inr None
      else if target = ''integer'' then coerce_integer v
      else if target = ''number'' then Inr (coerce_number F v)
      else if target = ''string'' then Inr (coerce_string F v)
      else Inr None)"

definition companion_literal_matches_explicit_id ::
    "py_floats \<Rightarrow> structured_request \<Rightarrow> string \<Rightarrow> json \<Rightarrow> string \<Rightarrow> bool result" where
  "companion_literal_matches_explicit_id F sr param literal target =
     (if \<not> is_id_like_param param then Inr False
      else let explicit = extract_explicit_id_entity_value sr in
        if explicit = JNull then Inr False
        else and_then (coerce_id_literal F explicit target) (\<lambda>expected.
             and_then (coerce_id_literal F literal target) (\<lambda>actual.
               case (expected, actual) of
                 (Some e, Some a) \<Rightarrow> Inr (py_eq e a)
               | _ \<Rightarrow> Inr False)))"

definition companion_param_json_type :: "json \<Rightarrow> string \<Rightarrow> string option" where
  "companion_param_json_type schema param = json_type (get_or_none (schema_properties schema) param)"

subsection \<open>The id of the first item\<close>

definition json_pointer_token :: "string \<Rightarrow> string" where
  "json_pointer_token name = str_replace ''/'' ''~1'' (str_replace ''~'' ''~0'' name)"

definition source_candidates :: "json \<Rightarrow> string \<Rightarrow> (string \<times> string \<times> string option) list" where
  "source_candidates schema target =
     concat (map (\<lambda>(cname, cschema).
       case cschema of
         JObj kvs \<Rightarrow>
           if get_or_none kvs ''type'' \<noteq> JStr ''array'' then []
           else map (\<lambda>(iname, ischema). (cname, iname, json_type ischema))
                  (filter (\<lambda>(iname, _). normalize_param iname \<in> {''id'', normalize_param target})
                     (schema_properties (get_or_none kvs ''items'')))
       | _ \<Rightarrow> []) (schema_properties schema))"

definition handoff_path :: "bool \<Rightarrow> string \<Rightarrow> string \<Rightarrow> string" where
  "handoff_path envelope cname iname =
     (if envelope then ''/structured_content/body'' else ''/structured_content'') @
     ''/'' @ json_pointer_token cname @ ''/0/'' @ json_pointer_token iname"

definition discover_id_handoffs :: "json \<Rightarrow> json \<Rightarrow> bool \<Rightarrow> handoff list option" where
  "discover_id_handoffs output_schema input_schema envelope =
     (case schema_required input_schema of
        [target] \<Rightarrow>
          if \<not> is_id_like_param target then None
          else (case json_type (get_or_none (schema_properties input_schema) target) of
            Some ttype \<Rightarrow>
              if ttype \<notin> {''string'', ''integer'', ''number''} then None
              else (case source_candidates output_schema target of
                [(cname, iname, Some stype)] \<Rightarrow>
                  if \<not> types_compatible stype ttype then None
                  else Some [\<lparr>target_param = target, from_path = handoff_path envelope cname iname,
                              source_json_type = stype, target_json_type = ttype\<rparr>]
              | _ \<Rightarrow> None)
          | None \<Rightarrow> None)
      | _ \<Rightarrow> None)"

subsection \<open>Building the pair\<close>

definition companion_step_bindings :: "handoff list \<Rightarrow> (string, json) dict" where
  "companion_step_bindings hs =
     dict_of (map (\<lambda>h. (target_param h,
       JObj [(''kind'', JStr ''STEP_OUTPUT''), (''step_id'', JStr DETERMINISTIC_TOOL_STEP_ID),
             (''path'', JStr (from_path h))])) hs)"

definition resolve_companion_id_bindings ::
    "py_floats \<Rightarrow> structured_request \<Rightarrow> handoff list \<Rightarrow> (string, json) dict option result" where
  "resolve_companion_id_bindings F sr hs =
     (case hs of
        [h] \<Rightarrow>
          let explicit = extract_explicit_id_entity_value sr in
          if explicit \<noteq> JNull then
            and_then (coerce_id_literal F explicit (target_json_type h)) (\<lambda>coerced.
              case coerced of
                None \<Rightarrow> Inr None
              | Some v \<Rightarrow> Inr (Some [(target_param h, JObj [(''kind'', JStr ''LITERAL''), (''value'', v)])]))
          else if requests_first_item_id_handoff sr then Inr (Some (companion_step_bindings hs))
          else Inr None
      | _ \<Rightarrow> Inr None)"

definition tool_step_json :: "string \<Rightarrow> string \<Rightarrow> string list \<Rightarrow> int \<Rightarrow> uuid \<Rightarrow> (string, json) dict \<Rightarrow> json" where
  "tool_step_json sid name deps timeout version bindings =
     JObj [(''id'', JStr sid), (''name'', JStr name), (''type'', JStr ''TOOL''), (''required'', JBool True),
           (''depends_on'', JList (map JStr deps)), (''when'', JNull), (''timeout_seconds'', JInt timeout),
           (''on_error'', JStr ''FAIL_EXECUTION''),
           (''config'', JObj [(''tool_version_id'', JStr (uuid_str version)), (''bindings'', JObj bindings)])]"

definition build_sequential_pair_steps ::
    "uuid \<Rightarrow> (string, json) dict \<Rightarrow> int \<Rightarrow> uuid \<Rightarrow> int \<Rightarrow> handoff list \<Rightarrow> (string, json) dict option \<Rightarrow> json list" where
  "build_sequential_pair_steps v1 b1 t1 v2 t2 hs companion =
     [tool_step_json DETERMINISTIC_TOOL_STEP_ID ''Tool Step 1'' [] t1 v1 b1,
      tool_step_json DETERMINISTIC_TOOL_STEP_ID_2 ''Tool Step 2'' [DETERMINISTIC_TOOL_STEP_ID] t2 v2
        (case companion of Some b \<Rightarrow> b | None \<Rightarrow> companion_step_bindings hs)]"

definition build_agent_request_sequential_policy_snapshot :: "uuid \<Rightarrow> (string, json) dict \<Rightarrow> json" where
  "build_agent_request_sequential_policy_snapshot version tool_steps =
     JObj [(''schema_version'', JStr ''agent_request_sequential_policy.v1''),
           (''agent_version_id'', JStr (uuid_str version)), (''tool_steps'', JObj tool_steps)]"

text \<open>The set of parameters is given in the order it is walked; the order only decides the message.\<close>

definition unusable :: "json \<Rightarrow> bool" where
  "unusable v =
     (case v of JNull \<Rightarrow> True | JStr s \<Rightarrow> \<not> non_blank s | JList xs \<Rightarrow> xs = [] | JObj kvs \<Rightarrow> kvs = [] | _ \<Rightarrow> False)"

definition assert_usable_sequential_handoff_values :: "(string, json) dict \<Rightarrow> string list \<Rightarrow> unit result" where
  "assert_usable_sequential_handoff_values resolved params =
     eachE (\<lambda>name. case map_of resolved name of
        None \<Rightarrow> Inl (AppError ''EXECUTION_PRECONDITION_FAILED'' 409)
      | Some v \<Rightarrow> raise_if (unusable v) (AppError ''EXECUTION_PRECONDITION_FAILED'' 409)) params"

section \<open>What the pair relies on\<close>

lemma json_pointer_token_encode: "json_pointer_token name = encode_pointer_token name"
  by (induction name) (auto simp: json_pointer_token_def)

text \<open>An emitted path is the escaped address of the field in the step result.\<close>

definition handoff_address :: "bool \<Rightarrow> string \<Rightarrow> string \<Rightarrow> string list" where
  "handoff_address envelope cname iname =
     ''structured_content'' # (if envelope then [''body''] else []) @ [cname, ''0'', iname]"

lemma handoff_path_address:
  "handoff_path envelope cname iname = path_of_tokens (map encode_pointer_token (handoff_address envelope cname iname))"
  by (simp add: handoff_path_def handoff_address_def json_pointer_token_encode)

lemma handoff_pointer_tokens:
  assumes "cname \<noteq> []" and "iname \<noteq> []" and "CHR ''#'' \<notin> set cname" and "CHR ''#'' \<notin> set iname"
  shows "pointer_tokens (handoff_path envelope cname iname) = Inr (handoff_address envelope cname iname)"
  unfolding handoff_path_address using assms
  by (subst pointer_tokens_path) (auto simp: handoff_address_def raw_encode comp_def raw_token_def)

lemma pointer_step_key: "obj_get doc k = Some v \<Longrightarrow> pointer_step doc k = Inr (Found v)"
  by (cases doc) (auto simp: pointer_step_def)

lemma pointer_step_first: "pointer_step (JList (x # xs)) ''0'' = Inr (Found x)"
  by (simp add: pointer_step_def str_isdigit_def py_digit_def py_int_digits_def ascii_digit_def nat_of_digits_def
      digit_val_def)

lemma discover_id_handoffs_Some:
  assumes "discover_id_handoffs out inp envelope = Some hs"
  shows "\<exists>h cname iname. hs = [h] \<and> schema_required inp = [target_param h] \<and> is_id_like_param (target_param h) \<and>
    source_candidates out (target_param h) = [(cname, iname, Some (source_json_type h))] \<and>
    types_compatible (source_json_type h) (target_json_type h) \<and> from_path h = handoff_path envelope cname iname"
  using assms by (auto simp: discover_id_handoffs_def split: list.splits if_splits option.splits)

text \<open>The id handoff is never a guess.  When one is found, the companion tool requires exactly one parameter, which
  is an id, the first tool's output schema has exactly one matching id field in an array of objects, and the types
  agree; and the emitted pointer reads, from every step result with such a list, the id of its first item.\<close>

theorem handoff_reads_first_id:
  assumes "discover_id_handoffs out inp envelope = Some hs"
  shows "\<exists>h cname iname. hs = [h] \<and> schema_required inp = [target_param h] \<and> is_id_like_param (target_param h) \<and>
    source_candidates out (target_param h) = [(cname, iname, Some (source_json_type h))] \<and>
    types_compatible (source_json_type h) (target_json_type h) \<and>
    (cname \<noteq> [] \<and> iname \<noteq> [] \<and> CHR ''#'' \<notin> set cname \<and> CHR ''#'' \<notin> set iname \<longrightarrow>
      (\<forall>doc sc body item items v.
         obj_get doc ''structured_content'' = Some sc \<and> (if envelope then obj_get sc ''body'' else Some sc) = Some body \<and>
         obj_get body cname = Some (JList (item # items)) \<and> obj_get item iname = Some v \<longrightarrow>
         resolve_json_pointer doc (from_path h) = Inr (Found v)))"
proof -
  from discover_id_handoffs_Some [OF assms] obtain h cname iname where
    h: "hs = [h]" "schema_required inp = [target_param h]" "is_id_like_param (target_param h)"
      "source_candidates out (target_param h) = [(cname, iname, Some (source_json_type h))]"
      "types_compatible (source_json_type h) (target_json_type h)" "from_path h = handoff_path envelope cname iname"
    by blast
  have "resolve_json_pointer doc (from_path h) = Inr (Found v)"
    if "cname \<noteq> []" "iname \<noteq> []" "CHR ''#'' \<notin> set cname" "CHR ''#'' \<notin> set iname"
      and doc: "obj_get doc ''structured_content'' = Some sc" "(if envelope then obj_get sc ''body'' else Some sc) = Some body"
        "obj_get body cname = Some (JList (item # items))" "obj_get item iname = Some v" for doc sc body item items v
    unfolding h(6) resolve_json_pointer_def handoff_pointer_tokens [OF that(1-4)]
    using doc by (auto simp: handoff_address_def pointer_step_key pointer_step_first split: if_splits)
  with h(1-5) show ?thesis
    by blast
qed

definition pets_output_schema :: json where
  "pets_output_schema = JObj [(''type'', JStr ''object''), (''properties'', JObj [(''pets'',
     JObj [(''type'', JStr ''array''), (''items'', JObj [(''type'', JStr ''object''),
       (''properties'', JObj [(''id'', JObj [(''type'', JStr ''integer'')]),
                              (''name'', JObj [(''type'', JStr ''string'')])])])])])]"

definition pet_input_schema :: json where
  "pet_input_schema = JObj [(''type'', JStr ''object''), (''required'', JList [JStr ''petId'']),
     (''properties'', JObj [(''petId'', JObj [(''type'', JStr ''integer'')])])]"

lemma pets_handoff:
  "discover_id_handoffs pets_output_schema pet_input_schema False =
     Some [\<lparr>target_param = ''petId'', from_path = ''/structured_content/pets/0/id'', source_json_type = ''integer'',
            target_json_type = ''integer''\<rparr>]"
  by code_simp

theorem handoff_reads_first_id_witness:
  "\<exists>h cname iname. [\<lparr>target_param = ''petId'', from_path = ''/structured_content/pets/0/id'',
       source_json_type = ''integer'', target_json_type = ''integer''\<rparr>] = [h] \<and>
     source_candidates pets_output_schema (target_param h) = [(cname, iname, Some (source_json_type h))]"
  using handoff_reads_first_id [OF pets_handoff] by blast

subsection \<open>Literals the user named\<close>

lemma nat_dec_not_blank: "non_blank (nat_dec n)"
proof -
  have "list_all ascii_digit (nat_dec n)" "nat_dec n \<noteq> []"
    by (simp_all add: nat_dec_digits)
  moreover have "ascii_digit c \<Longrightarrow> \<not> py_space c" for c
    by (auto simp: ascii_digit_iff py_space_def Let_def)
  ultimately have "dropWhile py_space (nat_dec n) = nat_dec n" "dropWhile py_space (rev (nat_dec n)) = rev (nat_dec n)"
    by (auto simp: list_all_iff intro!: dropWhile_none)
  then show ?thesis
    using \<open>nat_dec n \<noteq> []\<close> by (simp add: non_blank_def str_strip_def)
qed

text \<open>Coercing a coerced value changes nothing, and it equals itself unless it is nan.\<close>

lemma coerce_again:
  assumes "coerce_id_literal F x t = Inr (Some v)" and "\<forall>f. non_blank (str_of_float F f)"
  shows "coerce_id_literal F v t = Inr (Some v) \<and> (v \<noteq> JFloat NaN \<longrightarrow> py_eq v v)"
proof -
  have int: "coerce_id_literal F v t = Inr (Some v) \<and> py_eq v v" if "coerce_integer y = Inr (Some v)" "t = ''integer''" for y
    using that by (auto simp: coerce_id_literal_def coerce_integer_def split: json.splits pyfloat.splits if_splits
        elim!: and_then.elims)
  have number: "coerce_id_literal F v t = Inr (Some v) \<and> (v \<noteq> JFloat NaN \<longrightarrow> py_eq v v)"
    if "coerce_number F y = Some v" "t = ''number''" for y
  proof -
    from that(1) have "(\<exists>i. v = JInt i) \<or> (\<exists>f. v = JFloat f)"
      by (auto simp: coerce_number_def split: json.splits)
    moreover have "f \<noteq> NaN \<longrightarrow> py_eq (JFloat f) (JFloat f)" for f
      by (cases f) (simp_all add: py_eq.simps)
    ultimately show ?thesis
      using that(2) by (auto simp: coerce_id_literal_def coerce_number_def)
  qed
  have string: "coerce_id_literal F v t = Inr (Some v) \<and> py_eq v v" if "coerce_string F y = Some v" "t = ''string''" for y
  proof -
    have "non_blank (int_dec i)" for i
    proof (cases "i < 0")
      case True
      have "dropWhile py_space (CHR ''-'' # nat_dec (nat (- i))) = CHR ''-'' # nat_dec (nat (- i))"
        by (simp add: py_space_def)
      then show ?thesis
        using True by (auto simp: int_dec_def non_blank_def str_strip_def py_space_def dropWhile_eq_Nil_conv)
    qed (simp add: int_dec_def nat_dec_not_blank)
    with that assms(2) have "\<exists>s. v = JStr s \<and> non_blank s"
      by (auto simp: coerce_string_def split: json.splits if_splits)
    with that(2) show ?thesis
      by (auto simp: coerce_id_literal_def coerce_string_def)
  qed
  show ?thesis
    using assms(1) int number string
    by (auto simp: coerce_id_literal_def split: if_splits)
qed

text \<open>The generator and the validator of the pair agree on ids the user named.  A literal the generator binds is
  the coerced value of the only entity that is an id from the user, and the validator accepts it for the same
  parameter and type, unless it is nan.\<close>

theorem companion_literal_grounded:
  assumes "resolve_companion_id_bindings F sr hs = Inr (Some b)"
    and "map_of b param = Some (JObj [(''kind'', JStr ''LITERAL''), (''value'', v)])"
    and "\<forall>f. non_blank (str_of_float F f)"
  shows "\<exists>h e. hs = [h] \<and> param = target_param h \<and> explicit_ids sr = [e] \<and>
    coerce_id_literal F (en_value e) (target_json_type h) = Inr (Some v) \<and>
    (is_id_like_param param \<and> v \<noteq> JFloat NaN \<longrightarrow>
       companion_literal_matches_explicit_id F sr param v (target_json_type h) = Inr True)"
proof -
  from assms(1) obtain h where h: "hs = [h]"
    by (auto simp: resolve_companion_id_bindings_def split: list.splits)
  have "map_of (companion_step_bindings [h]) param \<noteq> Some (JObj [(''kind'', JStr ''LITERAL''), (''value'', v)])"
    by (simp add: companion_step_bindings_def map_of_dict_of)
  with assms(1,2) h have some: "extract_explicit_id_entity_value sr \<noteq> JNull"
    by (auto simp: resolve_companion_id_bindings_def Let_def split: if_splits)
  then obtain e where e: "explicit_ids sr = [e]" "extract_explicit_id_entity_value sr = en_value e"
    by (auto simp: extract_explicit_id_entity_value_def split: list.splits)
  obtain w where w: "coerce_id_literal F (en_value e) (target_json_type h) = Inr (Some w)"
      "b = [(target_param h, JObj [(''kind'', JStr ''LITERAL''), (''value'', w)])]"
    using assms(1) h some e(2)
    by (cases "coerce_id_literal F (en_value e) (target_json_type h)")
      (auto simp: resolve_companion_id_bindings_def Let_def split: option.splits if_splits)
  then have "param = target_param h" "w = v"
    using assms(2) by (auto split: if_splits)
  with h e w some coerce_again [OF w(1) assms(3)] show ?thesis
    by (auto simp: companion_literal_matches_explicit_id_def Let_def)
qed

definition pet_request :: structured_request where
  "pet_request = \<lparr>sr_request_text = ''show pet 7'', sr_intent = ''pet.detail'',
     sr_entities = [\<lparr>en_name = ''petId'', en_value = JStr ''7'', en_source = USER_EXPLICIT\<rparr>], sr_constraints = [],
     sr_expected_outputs = [], sr_required_capabilities = [], sr_missing_inputs = [], sr_ambiguities = [],
     sr_needs_clarification = False\<rparr>"

definition plain_floats :: py_floats where
  "plain_floats = \<lparr>float_of_str = (\<lambda>_. None), str_of_float = (\<lambda>_. ''nan'')\<rparr>"

lemma pet_request_binding:
  "resolve_companion_id_bindings plain_floats pet_request
     [\<lparr>target_param = ''petId'', from_path = ''/structured_content/pets/0/id'', source_json_type = ''integer'',
       target_json_type = ''integer''\<rparr>] = Inr (Some [(''petId'', JObj [(''kind'', JStr ''LITERAL''), (''value'', JInt 7)])])"
  by code_simp

theorem companion_literal_grounded_witness:
  "companion_literal_matches_explicit_id plain_floats pet_request ''petId'' (JInt 7) ''integer'' = Inr True"
proof -
  have "non_blank (str_of_float plain_floats f)" for f
    by (simp add: plain_floats_def) code_simp
  moreover have "is_id_like_param ''petId''"
    by code_simp
  ultimately show ?thesis
    using companion_literal_grounded [OF pet_request_binding, of "''petId''" "JInt 7"] by auto
qed

text \<open>An id with two minus signs passes the digit test and makes \<open>int()\<close> raise.\<close>

lemma double_minus_raises: "coerce_id_literal F (JStr ''--5'') ''integer'' = Inl ValueError"
  by (simp add: coerce_id_literal_def coerce_integer_def str_strip_def py_space_def str_isdigit_def py_digit_def
      ascii_digit_def py_int_signed_def py_int_digits_def)

end
