(* ===== verification/PlanCycle.thy ===== *)
theory PlanCycle
  imports PlanSchema
begin

section \<open>The cycle check of the plan validator\<close>

text \<open>
  \<open>_has_dependency_cycle\<close> of \<^verbatim>\<open>src/backend/app/agent/plan_validator.py\<close>: a depth first search with a set of
  visited nodes and the set of nodes on the current path.  Python walks the set of step ids in an unspecified
  order; here it is the list \<open>order\<close>, any enumeration of the ids.  The recursion has fuel: a call
  inside another adds its node to the visited nodes, so one more than the number of ids is enough.
\<close>

type_synonym visit_state = "string set \<times> string set"

definition adjacency :: "plan_step list \<Rightarrow> (string, string list) dict" where
  "adjacency steps =
     fold (\<lambda>s adj. fold (\<lambda>dep adj. if dep \<in> set (map ps_id steps) then dict_append dep (ps_id s) adj else adj)
       (ps_depends_on s) adj) steps []"

fun visit :: "nat \<Rightarrow> (string, string list) dict \<Rightarrow> string \<Rightarrow> visit_state \<Rightarrow> (bool \<times> visit_state) option"
  and visit_all :: "nat \<Rightarrow> (string, string list) dict \<Rightarrow> string list \<Rightarrow> visit_state \<Rightarrow> (bool \<times> visit_state) option" where
  "visit 0 adj node z = None"
| "visit (Suc n) adj node (visited, stack) =
     (if node \<in> stack then Some (True, visited, stack)
      else if node \<in> visited then Some (False, visited, stack)
      else (case visit_all n adj (dict_get adj node []) (insert node visited, insert node stack) of
              None \<Rightarrow> None
            | Some (True, z) \<Rightarrow> Some (True, z)
            | Some (False, visited', stack') \<Rightarrow> Some (False, visited', stack' - {node})))"
| "visit_all n adj [] z = Some (False, z)"
| "visit_all n adj (x # xs) z =
     (case visit n adj x z of
        None \<Rightarrow> None
      | Some (True, z') \<Rightarrow> Some (True, z')
      | Some (False, z') \<Rightarrow> visit_all n adj xs z')"

definition has_dependency_cycle :: "string list \<Rightarrow> plan_step list \<Rightarrow> bool option" where
  "has_dependency_cycle order steps =
     map_option fst (visit_all (Suc (length order)) (adjacency steps) order ({}, {}))"

subsection \<open>The search\<close>

text \<open>
  The edges of the table; \<open>black\<close> nodes are visited and off the path.  The invariant: black nodes are closed
  under edges and on no cycle.
\<close>

definition edges :: "('a, 'a list) dict \<Rightarrow> ('a \<times> 'a) set" where
  "edges adj = {(x, y). y \<in> set (dict_get adj x [])}"

definition search_inv :: "(string \<times> string) set \<Rightarrow> visit_state \<Rightarrow> bool" where
  "search_inv E z \<longleftrightarrow> snd z \<subseteq> fst z \<and> E `` (fst z - snd z) \<subseteq> fst z - snd z \<and>
     (\<forall>x \<in> fst z - snd z. (x, x) \<notin> E\<^sup>+)"

lemma closed_trancl: "E `` B \<subseteq> B \<Longrightarrow> x \<in> B \<Longrightarrow> (x, y) \<in> E\<^sup>+ \<Longrightarrow> y \<in> B"
  by (rotate_tac 2) (induction rule: trancl_induct, auto)

text \<open>What a call returns, when the nodes on the path reach its node.\<close>

definition found_cycle :: "(string \<times> string) set \<Rightarrow> bool" where
  "found_cycle E \<longleftrightarrow> (\<exists>x. (x, x) \<in> E\<^sup>+)"

lemma visit_spec:
  "visit n adj node z = Some (r, z') \<Longrightarrow> search_inv (edges adj) z \<Longrightarrow> \<forall>t \<in> snd z. (t, node) \<in> (edges adj)\<^sup>+ \<Longrightarrow>
     (if r then found_cycle (edges adj)
      else search_inv (edges adj) z' \<and> snd z' = snd z \<and> insert node (fst z) \<subseteq> fst z' \<and> node \<notin> snd z)"
  "visit_all n adj xs z = Some (r, z') \<Longrightarrow> search_inv (edges adj) z \<Longrightarrow>
     \<forall>x \<in> set xs. \<forall>t \<in> snd z. (t, x) \<in> (edges adj)\<^sup>+ \<Longrightarrow>
     (if r then found_cycle (edges adj)
      else search_inv (edges adj) z' \<and> snd z' = snd z \<and> set xs \<union> fst z \<subseteq> fst z' \<and> set xs \<inter> snd z = {})"
proof (induction n adj node z and n adj xs z arbitrary: r z' and r z' rule: visit_visit_all.induct)
  case (2 n adj node visited stack)
  let ?E = "edges adj"
  show ?case
  proof (cases "node \<in> stack \<or> node \<in> visited")
    case True
    with 2 show ?thesis
      by (auto simp: found_cycle_def split: if_splits)
  next
    case False
    let ?z1 = "(insert node visited, insert node stack)"
    obtain r1 visited1 stack1 where run: "visit_all n adj (dict_get adj node []) ?z1 = Some (r1, visited1, stack1)"
        "r = r1" "z' = (if r1 then (visited1, stack1) else (visited1, stack1 - {node}))"
      using 2(2) False by (auto split: option.splits bool.splits)
    have "insert node visited - insert node stack = visited - stack"
      using False by auto
    then have inv1: "search_inv ?E ?z1"
      using 2(3) by (auto simp: search_inv_def)
    have kid: "(node, x) \<in> ?E" if "x \<in> set (dict_get adj node [])" for x
      using that by (simp add: edges_def)
    have "\<forall>x \<in> set (dict_get adj node []). \<forall>t \<in> snd ?z1. (t, x) \<in> ?E\<^sup>+"
      using 2(4) kid by (auto intro: trancl_into_trancl)
    note IH = 2(1) [of r1 "(visited1, stack1)", OF _ _ run(1) inv1 this]
    show ?thesis
    proof (cases r1)
      case True
      with IH False run(2) show ?thesis
        by auto
    next
      case False': False
      let ?B = "visited1 - insert node stack"
      from IH False False' have sub: "search_inv ?E (visited1, stack1)" "stack1 = insert node stack"
          "set (dict_get adj node []) \<union> insert node visited \<subseteq> visited1"
          "set (dict_get adj node []) \<inter> insert node stack = {}"
        by auto
      have B: "?E `` ?B \<subseteq> ?B" "\<forall>x \<in> ?B. (x, x) \<notin> ?E\<^sup>+" and kids: "set (dict_get adj node []) \<subseteq> ?B"
        using sub by (auto simp: search_inv_def)
      have out: "y \<in> ?B" if "(node, y) \<in> ?E\<^sup>+" for y
      proof -
        from that consider (base) "(node, y) \<in> ?E" | (step) x where "(node, x) \<in> ?E" "(x, y) \<in> ?E\<^sup>+"
          by (meson converse_tranclE)
        then show ?thesis
        proof cases
        case base
        then show ?thesis
          using kids by (auto simp: edges_def)
      next
        case (step x)
        then have "x \<in> ?B"
          using kids by (auto simp: edges_def)
        with step show ?thesis
          using closed_trancl [OF B(1)] by blast
        qed
      qed
      have "visited1 - stack = insert node ?B"
        using sub(3) False by auto
      moreover have "?E `` insert node ?B \<subseteq> insert node ?B"
        using B(1) out by blast
      moreover have "\<forall>x \<in> insert node ?B. (x, x) \<notin> ?E\<^sup>+"
        using B(2) out [of node] by blast
      moreover have "stack \<subseteq> visited1"
        using 2(3) sub(3) by (auto simp: search_inv_def)
      ultimately have "search_inv ?E (visited1, stack)"
        unfolding search_inv_def by simp
      moreover have "stack1 - {node} = stack"
        using sub(2) False by auto
      ultimately show ?thesis
        using run(2,3) False False' sub(3) by auto
    qed
  qed
next
  case (4 n adj x xs z)
  obtain r1 z1 where first: "visit n adj x z = Some (r1, z1)"
    using 4(3) by (auto split: option.splits)
  note IH1 = 4(1) [OF first 4(4)]
  show ?case
  proof (cases r1)
    case True
    with 4(3,5) first IH1 show ?thesis
      by auto
  next
    case False
    with IH1 4(5) have one: "search_inv (edges adj) z1" "snd z1 = snd z" "insert x (fst z) \<subseteq> fst z1" "x \<notin> snd z"
      by auto
    have run: "visit_all n adj xs z1 = Some (r, z')"
      using 4(3) first False by simp
    have "r1 = False"
      using False by simp
    from 4(2) [OF first refl this run one(1)] 4(5) one(2)
    have "if r then found_cycle (edges adj) else search_inv (edges adj) z' \<and> snd z' = snd z1 \<and>
        set xs \<union> fst z1 \<subseteq> fst z' \<and> set xs \<inter> snd z1 = {}"
      by auto
    with one show ?thesis
      by (cases r) (simp_all, blast)
  qed
qed auto

text \<open>The fuel: more than the number of ids not yet visited is enough.\<close>

lemma visit_fuel:
  assumes "finite N" and closed: "\<forall>x. set (dict_get adj x []) \<subseteq> N"
  shows "node \<in> N \<Longrightarrow> card (N - fst z) < n \<Longrightarrow> \<exists>r z'. visit n adj node z = Some (r, z') \<and> fst z \<subseteq> fst z'"
    and "set xs \<subseteq> N \<Longrightarrow> card (N - fst z) < n \<Longrightarrow> \<exists>r z'. visit_all n adj xs z = Some (r, z') \<and> fst z \<subseteq> fst z'"
  using closed
proof (induction n adj node z and n adj xs z rule: visit_visit_all.induct)
  case (2 n adj node visited stack)
  show ?case
  proof (cases "node \<in> stack \<or> node \<in> visited")
    case False
    have "N - insert node visited \<subset> N - visited"
      using False 2(2) by auto
    then have "card (N - insert node visited) < card (N - visited)"
      by (rule psubset_card_mono [rotated]) (simp add: assms(1))
    with 2(3) have less: "card (N - fst (insert node visited, insert node stack)) < n"
      by simp
    have kids: "set (dict_get adj node []) \<subseteq> N"
      using 2(4) by blast
    obtain r z' where "visit_all n adj (dict_get adj node []) (insert node visited, insert node stack) = Some (r, z')"
        "insert node visited \<subseteq> fst z'"
      using 2(1) [OF _ _ kids less 2(4)] False by auto
    with False show ?thesis
      by (cases z'; cases r) auto
  qed auto
next
  case (4 n adj x xs z)
  obtain r z1 where first: "visit n adj x z = Some (r, z1)" "fst z \<subseteq> fst z1"
    using 4(1) [OF _ 4(4,5)] 4(3) by auto
  show ?case
  proof (cases r)
    case False
    have "card (N - fst z1) \<le> card (N - fst z)"
      using first(2) assms(1) by (intro card_mono) auto
    with 4(4) have "card (N - fst z1) < n"
      by simp
    have "r = False"
      using False by simp
    from 4(2) [OF first(1) refl this _ \<open>card (N - fst z1) < n\<close>] 4(3,5)
    obtain r' z' where "visit_all n adj xs z1 = Some (r', z')" "fst z1 \<subseteq> fst z'"
      by auto
    with first False show ?thesis
      by auto
  qed (use first in auto)
qed auto

subsection \<open>The table of the dependencies\<close>

definition dependency_edges :: "plan_step list \<Rightarrow> (string \<times> string) set" where
  "dependency_edges steps =
     {(d, ps_id s) |d s. s \<in> set steps \<and> d \<in> set (ps_depends_on s) \<and> d \<in> ps_id ` set steps}"

lemma dict_get_append_iff:
  "y \<in> set (dict_get (dict_append k v adj) x []) \<longleftrightarrow> y \<in> set (dict_get adj x []) \<or> x = k \<and> y = v"
  by (auto simp: dict_get_append)

lemma adjacency_edges: "edges (adjacency steps) = dependency_edges steps"
proof -
  have inner: "y \<in> set (dict_get (fold (\<lambda>dep adj. if dep \<in> K then dict_append dep k adj else adj) deps adj) x []) \<longleftrightarrow>
      y \<in> set (dict_get adj x []) \<or> x \<in> set deps \<and> x \<in> K \<and> y = k" for deps adj x y k and K :: "string set"
    by (induction deps arbitrary: adj) (auto simp: dict_get_append_iff)
  have "y \<in> set (dict_get (fold (\<lambda>s adj. fold (\<lambda>dep adj. if dep \<in> K then dict_append dep (ps_id s) adj else adj)
      (ps_depends_on s) adj) ss adj) x []) \<longleftrightarrow>
      y \<in> set (dict_get adj x []) \<or> (\<exists>s \<in> set ss. x \<in> set (ps_depends_on s) \<and> x \<in> K \<and> y = ps_id s)"
    for ss adj x y and K :: "string set"
    by (induction ss arbitrary: adj) (auto simp: inner)
  note outer = this
  have none: "dict_get ([] :: (string, string list) dict) x [] = []" for x
    by (simp add: dict_get_def)
  show ?thesis
    unfolding edges_def adjacency_def dependency_edges_def outer none by auto
qed

lemma dependency_edgeI:
  "i < length steps \<Longrightarrow> d \<in> set (ps_depends_on (steps ! i)) \<Longrightarrow> d \<in> ps_id ` set steps \<Longrightarrow> k = ps_id (steps ! i) \<Longrightarrow>
     (d, k) \<in> dependency_edges steps"
  by (auto simp: dependency_edges_def)

lemma cycle_check_spec:
  assumes "set order = ps_id ` set steps" and "distinct order"
  shows "has_dependency_cycle order steps = Some (\<not> acyclic (dependency_edges steps))"
proof -
  let ?E = "dependency_edges steps" and ?adj = "adjacency steps"
  have kids: "\<forall>x. set (dict_get ?adj x []) \<subseteq> set order"
  proof (intro allI subsetI)
    fix x y assume "y \<in> set (dict_get ?adj x [])"
    then have "(x, y) \<in> ?E"
      unfolding adjacency_edges [symmetric] by (simp add: edges_def)
    then show "y \<in> set order"
      unfolding assms(1) by (auto simp: dependency_edges_def)
  qed
  have "card (set order - fst ({}, {})) < Suc (length order)"
    using assms(2) by (simp add: distinct_card)
  then obtain r z where run: "visit_all (Suc (length order)) ?adj order ({}, {}) = Some (r, z)"
    using visit_fuel(2) [of "set order" ?adj order "({}, {})" "Suc (length order)"] kids by auto
  have "search_inv (edges ?adj) ({}, {})"
    by (simp add: search_inv_def)
  from visit_spec(2) [OF run this]
  have spec: "if r then found_cycle ?E else search_inv ?E z \<and> snd z = {} \<and> set order \<subseteq> fst z"
    unfolding adjacency_edges by (cases r) auto
  have "r \<longleftrightarrow> \<not> acyclic ?E"
  proof (cases r)
    case True
    with spec show ?thesis
      by (auto simp: found_cycle_def acyclic_def)
  next
    case False
    have "x \<in> set order" if "(x, x) \<in> ?E\<^sup>+" for x
      using that assms(1) by (cases rule: converse_tranclE) (auto simp: dependency_edges_def)
    moreover have "(x, x) \<notin> ?E\<^sup>+" if "x \<in> set order" for x
      using spec False that by (auto simp: search_inv_def)
    ultimately have "acyclic ?E"
      unfolding acyclic_def by blast
    with False show ?thesis
      by simp
  qed
  then show ?thesis
    using run by (simp add: has_dependency_cycle_def)
qed

text \<open>C26: The cycle check of the plan validator always returns, whatever order it walks the ids in, and reports a cycle
  exactly when the dependencies between the steps of the plan have one.\<close>

theorem dependency_cycle_iff:
  assumes "set order = ps_id ` set steps" and "distinct order"
  shows "has_dependency_cycle order steps = Some (\<not> acyclic (dependency_edges steps))"
  using assms by (rule cycle_check_spec)

definition looping_steps :: "plan_step list" where
  "looping_steps = map (\<lambda>(i, deps). \<lparr>ps_id = i, ps_name = i, ps_type = TOOL, ps_required = True, ps_depends_on = deps,
     ps_when = None, ps_timeout_seconds = 60, ps_on_error = FAIL_EXECUTION, ps_config = JNull\<rparr>)
     [(''a'', []), (''b'', [''a'', ''c'']), (''c'', [''b''])]"

theorem dependency_cycle_iff_witness:
  "has_dependency_cycle [''c'', ''a'', ''b''] looping_steps = Some True"
proof -
  have "(''b'', ''c'') \<in> dependency_edges looping_steps" "(''c'', ''b'') \<in> dependency_edges looping_steps"
    by (rule dependency_edgeI [of 2], simp_all add: looping_steps_def)
      (rule dependency_edgeI [of 1], simp_all add: looping_steps_def)
  then have "\<not> acyclic (dependency_edges looping_steps)"
    unfolding acyclic_def by (meson trancl.r_into_trancl trancl_into_trancl)
  moreover have "set [''c'', ''a'', ''b''] = ps_id ` set looping_steps"
    by (auto simp: looping_steps_def)
  ultimately show ?thesis
    using dependency_cycle_iff [of "[''c'', ''a'', ''b'']" looping_steps] by simp
qed

end
