(* ===== verification/PlanValidator.thy ===== *)
theory PlanValidator
  imports SequentialPair PlanCycle CanonicalHash ExecutionModel
begin

section \<open>The plan validator\<close>

text \<open>
  \<^verbatim>\<open>src/backend/app/agent/plan_validator.py\<close>: the last check of a generated plan before an agent request
  becomes READY.  Checks append issues to an accumulator; the code raises only where a computation outside
  the accumulator does.  Messages of issues are dropped.  Rows of catalogue tables the validator only reads
  are the record \<open>catalog\<close>, one lookup per repository query; \<open>vdb\<close> holds the tables it also writes.
\<close>

subsection \<open>Issues and the accumulator\<close>

record issue =
  iss_code :: string
  iss_step :: "string option"

record validation =
  va_failed :: "issue list"
  va_rejected :: "issue list"
  va_checks :: "(string, bool) dict"
  va_policy_snapshot :: json
  va_confirmation_required :: bool

datatype validation_decision = V_FAILED | V_REJECTED | V_WAITING_CONFIRMATION | V_READY

definition empty_validation :: validation where
  "empty_validation = \<lparr>va_failed = [], va_rejected = [], va_checks = [], va_policy_snapshot = JObj [],
     va_confirmation_required = False\<rparr>"

definition has_blocking_errors :: "validation \<Rightarrow> bool" where
  "has_blocking_errors acc \<longleftrightarrow> va_failed acc \<noteq> [] \<or> va_rejected acc \<noteq> []"

definition decision :: "validation \<Rightarrow> validation_decision" where
  "decision acc =
     (if va_failed acc \<noteq> [] then V_FAILED
      else if va_rejected acc \<noteq> [] then V_REJECTED
      else if va_confirmation_required acc then V_WAITING_CONFIRMATION
      else V_READY)"

definition all_errors :: "validation \<Rightarrow> issue list" where
  "all_errors acc = va_failed acc @ va_rejected acc"

definition fail :: "string \<Rightarrow> string option \<Rightarrow> validation \<Rightarrow> validation" where
  "fail code step acc = acc\<lparr>va_failed := va_failed acc @ [\<lparr>iss_code = code, iss_step = step\<rparr>]\<rparr>"

definition reject :: "string \<Rightarrow> string option \<Rightarrow> validation \<Rightarrow> validation" where
  "reject code step acc = acc\<lparr>va_rejected := va_rejected acc @ [\<lparr>iss_code = code, iss_step = step\<rparr>]\<rparr>"

definition fail_if :: "bool \<Rightarrow> string \<Rightarrow> string option \<Rightarrow> validation \<Rightarrow> validation" where
  "fail_if b code step acc = (if b then fail code step acc else acc)"

definition reject_if :: "bool \<Rightarrow> string \<Rightarrow> string option \<Rightarrow> validation \<Rightarrow> validation" where
  "reject_if b code step acc = (if b then reject code step acc else acc)"

definition note_check :: "string \<Rightarrow> bool \<Rightarrow> validation \<Rightarrow> validation" where
  "note_check k b acc = acc\<lparr>va_checks := dict_set k b (va_checks acc)\<rparr>"

text \<open>Statements one after the other.\<close>

definition checks :: "(validation \<Rightarrow> validation) list \<Rightarrow> validation \<Rightarrow> validation" where
  "checks fs acc = fold (\<lambda>f a. f a) fs acc"

subsection \<open>Rows\<close>

datatype agent_request_status =
    RQ_RECEIVED | RQ_ANALYZING | RQ_RETRIEVING | RQ_SELECTING | RQ_BUILDING_PARAMETERS | RQ_PLANNING
  | RQ_VALIDATING | RQ_WAITING_INPUT | RQ_WAITING_CONFIRMATION | RQ_READY | RQ_REJECTED | RQ_FAILED | RQ_CANCELLED

record agent_request =
  rq_id :: uuid
  rq_agent_version_id :: uuid
  rq_requester_id :: uuid
  rq_status :: agent_request_status
  rq_structured_version :: "string option"
  rq_structured :: json
  rq_completed_at :: "time option"

record plan_run =
  pr_id :: uuid
  pr_agent_request_id :: uuid
  pr_parameter_build_run_id :: uuid
  pr_agent_version_id :: uuid
  pr_plan_schema_version :: string
  pr_plan_snapshot :: json
  pr_plan_hash :: string

record tool_ref =
  rf_run_id :: uuid
  rf_step_key :: string
  rf_tool_version_id :: uuid

record build_run =
  bd_id :: uuid
  bd_agent_request_id :: uuid
  bd_tool_version_id :: uuid
  bd_input_schema_snapshot :: json
  bd_constraints_snapshot :: json
  bd_bindings_snapshot :: json
  bd_missing_fields :: "json list"
  bd_is_complete :: bool

record tool_version =
  tv_id :: uuid
  tv_mcp_tool_id :: uuid
  tv_input_schema :: json
  tv_validation_status :: string

record mcp_tool =
  mt_id :: uuid
  mt_mcp_server_id :: uuid
  mt_status :: string
  mt_current_version_id :: "uuid option"
  mt_deleted_at :: "time option"

record mcp_server =
  ms_status :: string
  ms_transport_type :: string
  ms_protocol_era :: string
  ms_deleted_at :: "time option"

record tool_grant =
  gr_mcp_tool_id :: uuid
  gr_effect :: string
  gr_parameter_constraints :: json
  gr_requires_confirmation :: bool

record authorization_snapshot =
  au_user_exists :: bool
  au_user_active :: bool
  au_permission_present :: bool
  au_resource_grant_present :: bool

record clarification =
  cl_id :: uuid
  cl_agent_request_id :: uuid
  cl_request_type :: string
  cl_status :: string
  cl_response_payload :: json
  cl_answered_by :: "uuid option"

record validation_run =
  vr_id :: uuid
  vr_agent_request_id :: uuid
  vr_plan_generation_run_id :: uuid
  vr_plan_hash :: string
  vr_decision :: validation_decision
  vr_errors :: "issue list"
  vr_checks :: "(string, bool) dict"
  vr_policy_snapshot :: json
  vr_confirmation_required :: bool
  vr_clarification_request_id :: "uuid option"

record catalog =
  ct_agent_version :: "uuid \<Rightarrow> string option"
  ct_tool_version :: "uuid \<Rightarrow> tool_version option"
  ct_tool :: "uuid \<Rightarrow> mcp_tool option"
  ct_server :: "uuid \<Rightarrow> mcp_server option"
  ct_grants :: "uuid \<Rightarrow> tool_grant list"
  ct_policy :: "uuid \<Rightarrow> tool_policy option"
  ct_approval_policy :: "uuid \<Rightarrow> approval_policy option"
  ct_authorization :: "uuid \<Rightarrow> string \<Rightarrow> string \<Rightarrow> uuid \<Rightarrow> authorization_snapshot"

text \<open>Runs and validations are kept newest first, the order \<open>get_latest_for_agent_request\<close> asks for.\<close>

record vdb =
  vd_requests :: "agent_request list"
  vd_plan_runs :: "plan_run list"
  vd_tool_refs :: "tool_ref list"
  vd_build_runs :: "build_run list"
  vd_validations :: "validation_run list"
  vd_clarifications :: "clarification list"

subsection \<open>pydantic\<close>

text \<open>
  \<open>BindingValue\<close> of \<^verbatim>\<open>src/backend/app/schemas/parameter_binding.py\<close> has two kinds, so the test of the
  code for other kinds never holds, and a SECRET\_REF always has its id.  \<open>va_params\<close> drops the provenance.
\<close>

datatype binding_value = LiteralBindingValue json | SecretRefBindingValue uuid

record tool_step_config =
  ts_tool_version_id :: uuid
  ts_bindings :: "(string, binding_value) dict"

record validator_codec =
  va_plan :: "json \<Rightarrow> execution_plan option"
  va_tool :: "json \<Rightarrow> tool_step_config option"
  va_complex :: "json \<Rightarrow> tool_config option"
  va_params :: "json \<Rightarrow> (string, binding_value) dict option"
  va_structured :: "json \<Rightarrow> structured_request option"
  va_dump :: "binding_value \<Rightarrow> json"
  va_repr :: "rat \<Rightarrow> string"
  va_floats :: py_floats

subsection \<open>The structure of the plan\<close>

definition SCHEMA_INVALID :: string where "SCHEMA_INVALID = ''PLAN_SCHEMA_INVALID''"
definition LIMIT_EXCEEDED :: string where "LIMIT_EXCEEDED = ''PLAN_LIMIT_EXCEEDED''"
definition DEPENDENCY_MISSING :: string where "DEPENDENCY_MISSING = ''PLAN_DEPENDENCY_MISSING''"
definition BINDING_INVALID :: string where "BINDING_INVALID = ''PLAN_BINDING_INVALID''"
definition TOOL_UNAVAILABLE :: string where "TOOL_UNAVAILABLE = ''PLAN_TOOL_UNAVAILABLE''"
definition PERMISSION_DENIED :: string where "PERMISSION_DENIED = ''PLAN_PERMISSION_DENIED''"
definition POLICY_INVALID :: string where "POLICY_INVALID = ''PLAN_POLICY_INVALID''"
definition APPROVAL_REQUIRED :: string where "APPROVAL_REQUIRED = ''PLAN_APPROVAL_REQUIRED''"

definition ref_by_step :: "tool_ref list \<Rightarrow> (string, tool_ref) dict" where
  "ref_by_step refs = dict_of (map (\<lambda>r. (rf_step_key r, r)) refs)"

definition validate_sequential_pair_shape ::
    "validator_codec \<Rightarrow> execution_plan \<Rightarrow> tool_ref list \<Rightarrow> validation \<Rightarrow> validation" where
  "validate_sequential_pair_shape V plan refs acc =
     (let first = plan_steps plan ! 0; second = plan_steps plan ! 1 in
      checks
        [fail_if (ps_id first \<noteq> DETERMINISTIC_TOOL_STEP_ID \<or> ps_id second \<noteq> DETERMINISTIC_TOOL_STEP_ID_2)
           SCHEMA_INVALID None,
         fail_if (ps_type first \<noteq> TOOL \<or> ps_type second \<noteq> TOOL) SCHEMA_INVALID None,
         fail_if (ps_depends_on first \<noteq> []) SCHEMA_INVALID (Some (ps_id first)),
         fail_if (ps_depends_on second \<noteq> [DETERMINISTIC_TOOL_STEP_ID]) SCHEMA_INVALID (Some (ps_id second)),
         fail_if (response_step_ids plan \<noteq> [DETERMINISTIC_TOOL_STEP_ID_2]) SCHEMA_INVALID None,
         fail_if (set (map rf_step_key refs) \<noteq> {DETERMINISTIC_TOOL_STEP_ID, DETERMINISTIC_TOOL_STEP_ID_2})
           SCHEMA_INVALID None,
         fail_if (va_complex V (ps_config second) = None) SCHEMA_INVALID (Some (ps_id second))] acc)"

definition check_step_dependencies :: "string list \<Rightarrow> plan_step \<Rightarrow> validation \<Rightarrow> validation" where
  "check_step_dependencies ids s acc =
     fst (fold (\<lambda>dep (acc, seen).
        (checks [fail_if (dep \<notin> set ids) DEPENDENCY_MISSING (Some (ps_id s)),
                 fail_if (dep = ps_id s) DEPENDENCY_MISSING (Some (ps_id s)),
                 fail_if (dep \<in> set seen) DEPENDENCY_MISSING (Some (ps_id s))] acc, dep # seen))
      (ps_depends_on s) (fail_if (\<not> non_blank (ps_id s)) SCHEMA_INVALID None acc, []))"

definition check_response_ids :: "string list \<Rightarrow> string list \<Rightarrow> validation \<Rightarrow> validation" where
  "check_response_ids ids rids acc =
     (if rids = [] then fail SCHEMA_INVALID None acc
      else if \<not> distinct rids then fail SCHEMA_INVALID None acc
      else fold (\<lambda>rid. fail_if (rid \<notin> set ids) SCHEMA_INVALID None) rids acc)"

text \<open>The set of ids of TOOL steps is walked in an unspecified order; here in the order of the plan.\<close>

definition tool_step_ids :: "execution_plan \<Rightarrow> string list" where
  "tool_step_ids plan = remdups (map ps_id (filter (\<lambda>s. ps_type s = TOOL) (plan_steps plan)))"

definition check_tool_refs :: "execution_plan \<Rightarrow> tool_ref list \<Rightarrow> validation \<Rightarrow> validation" where
  "check_tool_refs plan refs acc =
     (let expected = (if length (plan_steps plan) = 2 then 2 else 1) in
      checks
        [fold (\<lambda>sid. fail_if (map_of (ref_by_step refs) sid = None) SCHEMA_INVALID (Some sid)) (tool_step_ids plan),
         fold (\<lambda>r. fail_if (rf_step_key r \<notin> set (tool_step_ids plan)) SCHEMA_INVALID (Some (rf_step_key r))) refs,
         fail_if (length refs \<noteq> expected \<or> length (tool_step_ids plan) \<noteq> expected) SCHEMA_INVALID None] acc)"

definition check_timeout :: "execution_plan \<Rightarrow> plan_step \<Rightarrow> validation \<Rightarrow> validation" where
  "check_timeout plan s =
     reject_if (ps_timeout_seconds s > max_duration_seconds (plan_limits plan)) LIMIT_EXCEEDED (Some (ps_id s))"

definition check_step_count :: "execution_plan \<Rightarrow> validation \<Rightarrow> validation" where
  "check_step_count plan =
     reject_if (int (length (plan_steps plan)) > max_steps (plan_limits plan)) LIMIT_EXCEEDED None"

definition ref_mismatch :: "tool_ref option \<Rightarrow> uuid \<Rightarrow> bool" where
  "ref_mismatch ref version \<longleftrightarrow> (case ref of None \<Rightarrow> False | Some r \<Rightarrow> rf_tool_version_id r \<noteq> version)"

text \<open>The order in which the cycle check walks the ids does not matter, see \<open>PlanCycle\<close>.\<close>

definition validate_plan_structure ::
    "validator_codec \<Rightarrow> execution_plan \<Rightarrow> tool_ref list \<Rightarrow> validation \<Rightarrow> validation" where
  "validate_plan_structure V plan refs acc =
     (let steps = plan_steps plan; ids = map ps_id steps;
          a1 = checks [fail_if (plan_limits plan \<noteq> default_plan_limits) LIMIT_EXCEEDED None,
                       fail_if (plan_inputs plan \<noteq> []) SCHEMA_INVALID None] acc
      in if length steps \<noteq> 1 \<and> length steps \<noteq> 2 then fail SCHEMA_INVALID None a1
         else
           let a2 = (if length steps = 2 then validate_sequential_pair_shape V plan refs a1
                     else checks [fail_if (ps_type (hd steps) \<noteq> TOOL) SCHEMA_INVALID None,
                                  fail_if (ps_id (hd steps) \<noteq> DETERMINISTIC_TOOL_STEP_ID) SCHEMA_INVALID None] a1);
               a3 = checks
                 [fail_if (\<not> distinct ids) ''PLAN_STEP_DUPLICATE'' None,
                  fold (check_step_dependencies ids) steps,
                  fail_if (has_dependency_cycle (remdups ids) steps = Some True) ''PLAN_CYCLE_DETECTED'' None,
                  check_response_ids ids (response_step_ids plan),
                  check_tool_refs plan refs] a2
           in if length steps = 1 then
                if ps_type (hd steps) = TOOL then
                  (case va_tool V (ps_config (hd steps)) of
                     None \<Rightarrow> fail SCHEMA_INVALID (Some (ps_id (hd steps))) a3
                   | Some cfg \<Rightarrow>
                       checks
                         [fail_if (ref_mismatch (map_of (ref_by_step refs) (ps_id (hd steps))) (ts_tool_version_id cfg))
                            SCHEMA_INVALID (Some (ps_id (hd steps))),
                          check_timeout plan (hd steps), check_step_count plan] a3)
                else check_step_count plan a3
              else checks [fold (check_timeout plan) steps, check_step_count plan] a3)"

subsection \<open>Bindings\<close>

definition literal_matches_type :: "json \<Rightarrow> string \<Rightarrow> bool" where
  "literal_matches_type v t =
     (if t = ''string'' then is_str v
      else if t = ''integer'' then (case v of JInt _ \<Rightarrow> True | _ \<Rightarrow> False)
      else if t = ''number'' then (case v of JInt _ \<Rightarrow> True | JFloat _ \<Rightarrow> True | _ \<Rightarrow> False)
      else if t = ''boolean'' then is_bool v
      else if t = ''object'' then is_dict v
      else if t = ''array'' then is_list v
      else if t = ''null'' then v = JNull
      else True)"

definition check_binding_type :: "(string, json) dict \<Rightarrow> string \<Rightarrow> string \<times> binding_value \<Rightarrow> validation \<Rightarrow> validation" where
  "check_binding_type props sid kb =
     (case kb of (k, b) \<Rightarrow>
       (case b of
          SecretRefBindingValue _ \<Rightarrow> (\<lambda>acc. acc)
        | LiteralBindingValue v \<Rightarrow>
            (case get_or_none props k of
               JObj prop \<Rightarrow> (case get_or_none prop ''type'' of
                               JStr t \<Rightarrow> fail_if (\<not> literal_matches_type v t) BINDING_INVALID (Some sid)
                             | _ \<Rightarrow> (\<lambda>acc. acc))
             | _ \<Rightarrow> (\<lambda>acc. acc))))"

text \<open>\<open>schema.get("required", [])\<close> as a list of strings.\<close>

definition required_names :: "(string, json) dict \<Rightarrow> string list option" where
  "required_names kvs =
     (case map_of kvs ''required'' of
        None \<Rightarrow> Some []
      | Some (JList xs) \<Rightarrow> if list_all is_str xs then Some (List.map_filter as_str xs) else None
      | Some _ \<Rightarrow> None)"

definition validate_binding_projection ::
    "validator_codec \<Rightarrow> execution_plan \<Rightarrow> (string, binding_value) dict \<Rightarrow> json \<Rightarrow> validation \<Rightarrow> validation" where
  "validate_binding_projection V plan params input_schema acc =
     (let step = hd (plan_steps plan); sid = ps_id step in
      case va_tool V (ps_config step) of
        None \<Rightarrow> acc
      | Some cfg \<Rightarrow>
          let dump = map (\<lambda>(k, b). (k, va_dump V b));
              a1 = fail_if (\<not> py_eq (JObj (dump (ts_bindings cfg))) (JObj (dump params))) BINDING_INVALID (Some sid) acc
          in (case input_schema of
                JObj kvs \<Rightarrow>
                  if get_or_none kvs ''type'' \<noteq> JStr ''object'' then fail BINDING_INVALID None a1
                  else (case get_or_none kvs ''properties'' of
                    JObj props \<Rightarrow>
                      (case required_names kvs of
                         None \<Rightarrow> fail BINDING_INVALID None a1
                       | Some required \<Rightarrow>
                           checks
                             [fold (\<lambda>r. fail_if (r \<notin> set (dict_keys props)) BINDING_INVALID (Some sid)) required,
                              fold (\<lambda>(k, _). fail_if (k \<notin> set (dict_keys props)) BINDING_INVALID (Some sid)) (ts_bindings cfg),
                              fold (\<lambda>r. fail_if (r \<notin> set (dict_keys (ts_bindings cfg))) BINDING_INVALID (Some sid)) required,
                              fold (check_binding_type props sid) (ts_bindings cfg)] a1)
                  | _ \<Rightarrow> fail BINDING_INVALID None a1)
              | _ \<Rightarrow> fail BINDING_INVALID None a1))"

subsection \<open>Tools, grants, authorization, policies\<close>

definition validate_tool_availability ::
    "tool_version \<Rightarrow> mcp_tool option \<Rightarrow> mcp_server option \<Rightarrow> validation \<Rightarrow> validation" where
  "validate_tool_availability tv tool server acc =
     (let a1 = reject_if (tv_validation_status tv \<noteq> ''VALID'') TOOL_UNAVAILABLE None acc in
      case tool of
        None \<Rightarrow> a1
      | Some t \<Rightarrow>
          let a2 = checks
            [reject_if (mt_deleted_at t \<noteq> None) TOOL_UNAVAILABLE None,
             reject_if (mt_status t \<noteq> ''ACTIVE'') TOOL_UNAVAILABLE None,
             reject_if (mt_current_version_id t \<noteq> Some (tv_id tv)) TOOL_UNAVAILABLE None,
             note_check ''tool_version_valid'' (tv_validation_status tv = ''VALID''),
             note_check ''tool_active'' (mt_status t = ''ACTIVE''),
             note_check ''tool_version_current'' (mt_current_version_id t = Some (tv_id tv))] a1
          in (case server of
                None \<Rightarrow> reject TOOL_UNAVAILABLE None a2
              | Some s \<Rightarrow>
                  checks
                    [reject_if (ms_deleted_at s \<noteq> None) TOOL_UNAVAILABLE None,
                     reject_if (ms_status s \<noteq> ''ACTIVE'') TOOL_UNAVAILABLE None,
                     reject_if (ms_transport_type s \<notin> {''STDIO'', ''STREAMABLE_HTTP'', ''LEGACY_HTTP_SSE''})
                       TOOL_UNAVAILABLE None,
                     reject_if (ms_protocol_era s \<notin> {''CURRENT'', ''LEGACY''}) TOOL_UNAVAILABLE None,
                     note_check ''server_active'' (ms_status s = ''ACTIVE'')] a2))"

definition validate_agent_tool_grant :: "tool_grant option \<Rightarrow> validation \<Rightarrow> validation" where
  "validate_agent_tool_grant grant acc =
     (case grant of
        None \<Rightarrow> note_check ''agent_tool_grant_allow'' False (reject PERMISSION_DENIED None acc)
      | Some g \<Rightarrow>
          if gr_effect g \<noteq> ''ALLOW'' then note_check ''agent_tool_grant_allow'' False (reject PERMISSION_DENIED None acc)
          else reject_if (gr_parameter_constraints g \<noteq> JNull) POLICY_INVALID None
                 (note_check ''agent_tool_grant_allow'' True acc))"

definition validate_authorization :: "catalog \<Rightarrow> agent_request \<Rightarrow> mcp_tool \<Rightarrow> validation \<Rightarrow> validation" where
  "validate_authorization ct request tool acc =
     (let s = ct_authorization ct (rq_requester_id request) ''mcp.tool.execute'' ''MCP_TOOL'' (mt_id tool) in
      checks
        [note_check ''user_active'' (au_user_active s),
         note_check ''mcp_tool_execute_permission'' (au_permission_present s),
         note_check ''mcp_tool_resource_grant'' (au_resource_grant_present s),
         reject_if (\<not> (au_user_exists s \<and> au_user_active s \<and> au_permission_present s \<and> au_resource_grant_present s))
           PERMISSION_DENIED None] acc)"

text \<open>\<open>math.ceil(timeout_ms / 1000)\<close>; the column has 32 bits, so the float division is exact enough.\<close>

definition expected_timeout :: "int \<Rightarrow> int" where
  "expected_timeout ms = max 1 (- (- ms div 1000))"

definition risk_class_known :: "string \<Rightarrow> bool" where
  "risk_class_known r \<longleftrightarrow>
     r \<in> {''READ_ONLY'', ''IDEMPOTENT_WRITE'', ''NON_IDEMPOTENT_WRITE'', ''DESTRUCTIVE'', ''UNKNOWN''}"

definition validate_tool_policy ::
    "execution_plan \<Rightarrow> tool_policy option \<Rightarrow> string option \<Rightarrow> validation \<Rightarrow> validation" where
  "validate_tool_policy plan policy step_id acc =
     (case policy of
        None \<Rightarrow> reject POLICY_INVALID None acc
      | Some p \<Rightarrow>
          let step = (case step_id of
                        Some sid \<Rightarrow> find (\<lambda>s. ps_id s = sid) (plan_steps plan)
                      | None \<Rightarrow> (case plan_steps plan of [] \<Rightarrow> None | s # _ \<Rightarrow> Some s))
          in checks
            [reject_if (\<not> risk_class_known (tp_risk_class p)) POLICY_INVALID None,
             reject_if (tp_timeout_ms p \<le> 0) POLICY_INVALID None,
             reject_if (tp_max_attempts p < 1) POLICY_INVALID None,
             reject_if (tp_max_result_bytes p \<le> 0) POLICY_INVALID None,
             (case step of
                None \<Rightarrow> (\<lambda>acc. acc)
              | Some s \<Rightarrow> reject_if (tp_timeout_ms p > 0 \<and> ps_timeout_seconds s \<noteq> expected_timeout (tp_timeout_ms p))
                            POLICY_INVALID (Some (ps_id s)))] acc)"

definition validate_approval_policy :: "approval_policy option \<Rightarrow> validation \<Rightarrow> validation" where
  "validate_approval_policy policy acc =
     (case policy of
        None \<Rightarrow> reject APPROVAL_REQUIRED None acc
      | Some p \<Rightarrow>
          checks
            [reject_if (ay_status p \<noteq> ''ACTIVE'') APPROVAL_REQUIRED None,
             reject_if (ay_decision_mode p \<notin> {''ANY'', ''ALL'', ''QUORUM''}) APPROVAL_REQUIRED None,
             reject_if (ay_required_approvals p < 1) APPROVAL_REQUIRED None,
             reject_if (ay_default_expiry_seconds p \<le> 0) APPROVAL_REQUIRED None] acc)"

subsection \<open>Confirmation\<close>

definition has_satisfied_plan_confirmation ::
    "vdb \<Rightarrow> agent_request \<Rightarrow> plan_run \<Rightarrow> json \<Rightarrow> bool" where
  "has_satisfied_plan_confirmation d request run snapshot =
     (case find (\<lambda>v. vr_agent_request_id v = rq_id request) (vd_validations d) of
        None \<Rightarrow> False
      | Some previous \<Rightarrow>
          if vr_decision previous \<noteq> V_WAITING_CONFIRMATION then False
          else if vr_plan_generation_run_id previous \<noteq> pr_id run then False
          else if vr_plan_hash previous \<noteq> pr_plan_hash run then False
          else if \<not> vr_confirmation_required previous then False
          else (case vr_clarification_request_id previous of
            None \<Rightarrow> False
          | Some cid \<Rightarrow>
              if \<not> py_eq (vr_policy_snapshot previous) snapshot then False
              else (case find (\<lambda>c. cl_id c = cid) (vd_clarifications d) of
                None \<Rightarrow> False
              | Some c \<Rightarrow>
                  cl_request_type c = ''PLAN_CONFIRMATION'' \<and> cl_status c = ''ANSWERED'' \<and>
                  py_eq (cl_response_payload c) (JObj [(''confirmed'', JBool True)]) \<and>
                  cl_answered_by c = Some (rq_requester_id request))))"

definition require_confirmation :: "vdb \<Rightarrow> agent_request \<Rightarrow> plan_run \<Rightarrow> validation \<Rightarrow> validation" where
  "require_confirmation d request run acc =
     acc\<lparr>va_confirmation_required := \<not> has_satisfied_plan_confirmation d request run (va_policy_snapshot acc)\<rparr>"

subsection \<open>The companion tool\<close>

definition load_structured_request ::
    "validator_codec \<Rightarrow> agent_request \<Rightarrow> validation \<Rightarrow> structured_request option \<times> validation" where
  "load_structured_request V request acc =
     (if rq_structured_version request \<noteq> Some ''1.0'' then (None, fail SCHEMA_INVALID None acc)
      else if \<not> is_dict (rq_structured request) then (None, fail SCHEMA_INVALID None acc)
      else (case va_structured V (rq_structured request) of
              None \<Rightarrow> (None, fail SCHEMA_INVALID None acc)
            | Some sr \<Rightarrow> (Some sr, acc)))"

definition check_companion_binding ::
    "validator_codec \<Rightarrow> structured_request \<Rightarrow> json \<Rightarrow> string \<Rightarrow> string \<Rightarrow> string \<times> plan_binding \<Rightarrow> validation
     \<Rightarrow> validation result" where
  "check_companion_binding V sr schema src sid kb acc =
     (case kb of (k, b) \<Rightarrow>
       (case b of
          PlanStepOutputBinding step path \<Rightarrow>
            Inr (checks [fail_if (step \<noteq> src) BINDING_INVALID (Some sid),
                         fail_if (\<not> prefix ''/'' path) BINDING_INVALID (Some sid)] acc)
        | PlanLiteralBinding v \<Rightarrow>
            (case companion_param_json_type schema k of
               None \<Rightarrow> Inr (fail BINDING_INVALID (Some sid) acc)
             | Some t \<Rightarrow>
                 and_then (companion_literal_matches_explicit_id (va_floats V) sr k v t) (\<lambda>ok.
                   Inr (fail_if (\<not> ok) BINDING_INVALID (Some sid) acc)))
        | _ \<Rightarrow> Inr (fail BINDING_INVALID (Some sid) acc)))"

definition validate_companion_bindings ::
    "validator_codec \<Rightarrow> string \<Rightarrow> tool_config \<Rightarrow> json \<Rightarrow> string \<Rightarrow> structured_request option \<Rightarrow> validation
     \<Rightarrow> validation result" where
  "validate_companion_bindings V sid cfg input_schema src structured acc =
     (case input_schema of
        JObj kvs \<Rightarrow>
          if get_or_none kvs ''type'' \<noteq> JStr ''object'' then Inr (fail BINDING_INVALID (Some sid) acc)
          else (case get_or_none kvs ''properties'' of
            JObj props \<Rightarrow>
              let required = (case get_or_none kvs ''required'' of JList xs \<Rightarrow> List.map_filter as_str xs | _ \<Rightarrow> []);
                  a1 = checks
                    [fold (\<lambda>(k, _). fail_if (k \<notin> set (dict_keys props)) BINDING_INVALID (Some sid)) (tc_bindings cfg),
                     fold (\<lambda>r. fail_if (r \<notin> set (dict_keys (tc_bindings cfg))) BINDING_INVALID (Some sid)) required] acc
              in (case structured of
                    None \<Rightarrow> Inr a1
                  | Some sr \<Rightarrow> foldE (check_companion_binding V sr input_schema src sid) (tc_bindings cfg) a1)
          | _ \<Rightarrow> Inr (fail BINDING_INVALID (Some sid) acc))
      | _ \<Rightarrow> Inr (fail BINDING_INVALID (Some sid) acc))"

subsection \<open>The pair of tools\<close>

definition find_grant :: "catalog \<Rightarrow> agent_request \<Rightarrow> mcp_tool \<Rightarrow> tool_grant option" where
  "find_grant ct request tool =
     find (\<lambda>g. gr_mcp_tool_id g = mt_id tool) (ct_grants ct (rq_agent_version_id request))"

text \<open>
  The approval policy of a tool policy; the code looks it up in both paths, with the step id in one issue of
  the pair only.
\<close>

definition check_approval ::
    "catalog \<Rightarrow> tool_policy \<Rightarrow> string option \<Rightarrow> validation \<Rightarrow> approval_policy option \<times> validation" where
  "check_approval ct p sid acc =
     (if \<not> tp_requires_approval p then (None, acc)
      else (case tp_approval_policy_id p of
              None \<Rightarrow> (None, reject APPROVAL_REQUIRED sid acc)
            | Some aid \<Rightarrow> (ct_approval_policy ct aid, validate_approval_policy (ct_approval_policy ct aid) acc)))"

type_synonym pair_state = "(string, json) dict \<times> bool \<times> validation"

definition check_pair_step ::
    "catalog \<Rightarrow> agent_request \<Rightarrow> execution_plan \<Rightarrow> string \<times> tool_version \<Rightarrow> pair_state \<Rightarrow> pair_state" where
  "check_pair_step ct request plan step z =
     (case (step, z) of ((sid, tv), (snapshots, confirm, acc)) \<Rightarrow>
       (case ct_tool ct (tv_mcp_tool_id tv) of
          None \<Rightarrow> (snapshots, confirm, reject TOOL_UNAVAILABLE (Some sid) acc)
        | Some tool \<Rightarrow>
            let grant = find_grant ct request tool; policy = ct_policy ct (mt_id tool);
                a1 = checks
                  [validate_tool_availability tv (Some tool) (ct_server ct (mt_mcp_server_id tool)),
                   validate_agent_tool_grant grant,
                   validate_authorization ct request tool,
                   validate_tool_policy plan policy (Some sid)] acc
            in (case policy of
                  None \<Rightarrow> (snapshots, confirm, a1)
                | Some p \<Rightarrow>
                    let a2 = (if is_safe_readonly_policy p then a1
                              else checks
                                [reject_if (tp_risk_class p \<noteq> ''READ_ONLY'') POLICY_INVALID (Some sid),
                                 reject_if (tp_requires_confirmation p \<or> tp_requires_approval p) POLICY_INVALID (Some sid)]
                                a1);
                        (approval, a3) = check_approval ct p (Some sid) a2;
                        confirm' = (confirm \<or> (case grant of None \<Rightarrow> False
                                       | Some g \<Rightarrow> gr_requires_confirmation g \<or> tp_requires_confirmation p))
                    in (dict_set sid (JObj [(''tool_version_id'', JStr (uuid_str (tv_id tv))),
                                            (''policy'', build_safe_tool_policy_snapshot p approval)]) snapshots,
                        confirm', a3))))"

definition validate_pair_access ::
    "vdb \<Rightarrow> catalog \<Rightarrow> agent_request \<Rightarrow> execution_plan \<Rightarrow> plan_run \<Rightarrow> tool_version \<Rightarrow> tool_version \<Rightarrow> validation
     \<Rightarrow> validation" where
  "validate_pair_access d ct request plan run tv1 tv2 acc =
     (case fold (check_pair_step ct request plan)
             [(DETERMINISTIC_TOOL_STEP_ID, tv1), (DETERMINISTIC_TOOL_STEP_ID_2, tv2)] ([], False, acc) of
        (snapshots, confirm, a1) \<Rightarrow>
          if has_blocking_errors a1 \<or> length snapshots \<noteq> 2 then a1
          else let a2 = a1\<lparr>va_policy_snapshot :=
                       build_agent_request_sequential_policy_snapshot (rq_agent_version_id request) snapshots\<rparr>
               in if confirm then require_confirmation d request run a2 else a2)"

definition validate_sequential_pair_tools ::
    "validator_codec \<Rightarrow> vdb \<Rightarrow> catalog \<Rightarrow> agent_request \<Rightarrow> execution_plan \<Rightarrow> plan_run \<Rightarrow> build_run
     \<Rightarrow> (string, binding_value) dict \<Rightarrow> tool_ref list \<Rightarrow> validation \<Rightarrow> validation result" where
  "validate_sequential_pair_tools V d ct request plan run build params refs acc =
     (case (va_tool V (ps_config (plan_steps plan ! 0)), va_complex V (ps_config (plan_steps plan ! 1))) of
        (Some cfg1, Some cfg2) \<Rightarrow>
          let ref = map_of (ref_by_step refs);
              a1 = checks
                [fail_if (bd_tool_version_id build \<noteq> ts_tool_version_id cfg1) SCHEMA_INVALID None,
                 fail_if (ref DETERMINISTIC_TOOL_STEP_ID = None \<or>
                          ref_mismatch (ref DETERMINISTIC_TOOL_STEP_ID) (ts_tool_version_id cfg1)) SCHEMA_INVALID None,
                 fail_if (ref DETERMINISTIC_TOOL_STEP_ID_2 = None \<or>
                          ref_mismatch (ref DETERMINISTIC_TOOL_STEP_ID_2) (tc_tool_version_id cfg2)) SCHEMA_INVALID None]
                acc
          in if va_failed a1 \<noteq> [] then Inr a1
             else (case (ct_tool_version ct (ts_tool_version_id cfg1), ct_tool_version ct (tc_tool_version_id cfg2)) of
                     (Some tv1, Some tv2) \<Rightarrow>
                       let a2 = checks
                             [validate_binding_projection V plan params (tv_input_schema tv1),
                              fail_if (\<not> py_eq (bd_input_schema_snapshot build) (tv_input_schema tv1)) SCHEMA_INVALID None] a1;
                           (structured, a3) = load_structured_request V request a2
                       in and_then (validate_companion_bindings V DETERMINISTIC_TOOL_STEP_ID_2 cfg2 (tv_input_schema tv2)
                                      DETERMINISTIC_TOOL_STEP_ID structured a3) (\<lambda>a4.
                            Inr (validate_pair_access d ct request plan run tv1 tv2 a4))
                   | _ \<Rightarrow> Inr (reject TOOL_UNAVAILABLE None a1))
      | _ \<Rightarrow> Inr (fail SCHEMA_INVALID None acc))"

subsection \<open>The single tool\<close>

definition check_single_tool ::
    "validator_codec \<Rightarrow> catalog \<Rightarrow> execution_plan \<Rightarrow> build_run \<Rightarrow> (string, binding_value) dict option \<Rightarrow> tool_ref list
     \<Rightarrow> validation \<Rightarrow> mcp_tool option \<times> validation" where
  "check_single_tool V ct plan build params refs acc =
     (let step = hd (plan_steps plan) in
      case va_tool V (ps_config step) of
        None \<Rightarrow> (None, fail SCHEMA_INVALID (Some (ps_id step)) acc)
      | Some cfg \<Rightarrow>
          let ref = map_of (ref_by_step refs) (ps_id step);
              a1 = checks
                [fail_if (ref_mismatch ref (ts_tool_version_id cfg)) SCHEMA_INVALID (Some (ps_id step)),
                 fail_if (bd_tool_version_id build \<noteq> ts_tool_version_id cfg) SCHEMA_INVALID None,
                 fail_if (ref_mismatch ref (bd_tool_version_id build)) SCHEMA_INVALID None] acc
          in if va_failed a1 \<noteq> [] then (None, a1)
             else (case ct_tool_version ct (ts_tool_version_id cfg) of
                     None \<Rightarrow> (None, reject TOOL_UNAVAILABLE None a1)
                   | Some tv \<Rightarrow>
                       let a2 = fail_if (\<not> py_eq (bd_input_schema_snapshot build) (tv_input_schema tv)) SCHEMA_INVALID None a1;
                           a3 = (case params of
                                   None \<Rightarrow> a2
                                 | Some ps \<Rightarrow> if va_failed a2 \<noteq> [] then a2
                                     else validate_binding_projection V plan ps (tv_input_schema tv) a2)
                       in if va_failed a3 \<noteq> [] then (None, a3)
                          else let tool = ct_tool ct (tv_mcp_tool_id tv);
                                   server = Option.bind tool (\<lambda>t. ct_server ct (mt_mcp_server_id t))
                               in (tool, validate_tool_availability tv tool server
                                           (reject_if (tool = None) TOOL_UNAVAILABLE None a3))))"

definition check_single_policy ::
    "catalog \<Rightarrow> execution_plan \<Rightarrow> tool_policy option \<Rightarrow> validation \<Rightarrow> validation" where
  "check_single_policy ct plan policy acc =
     (let a1 = validate_tool_policy plan policy None acc in
      case policy of
        None \<Rightarrow> a1
      | Some p \<Rightarrow>
          if va_rejected a1 \<noteq> [] then a1
          else (case check_approval ct p None a1 of
                  (approval, a2) \<Rightarrow> a2\<lparr>va_policy_snapshot := build_safe_tool_policy_snapshot p approval\<rparr>))"

definition validate_single_tool ::
    "validator_codec \<Rightarrow> vdb \<Rightarrow> catalog \<Rightarrow> agent_request \<Rightarrow> execution_plan \<Rightarrow> plan_run \<Rightarrow> build_run option
     \<Rightarrow> (string, binding_value) dict option \<Rightarrow> tool_ref list \<Rightarrow> validation \<Rightarrow> validation" where
  "validate_single_tool V d ct request plan run build params refs acc =
     (let (tool, a1) = (case build of
            None \<Rightarrow> (None, acc)
          | Some b \<Rightarrow> if va_failed acc \<noteq> [] \<or> plan_steps plan = [] then (None, acc)
                      else check_single_tool V ct plan b params refs acc)
      in case tool of
           None \<Rightarrow> a1
         | Some t \<Rightarrow>
             if va_failed a1 \<noteq> [] then a1
             else let grant = find_grant ct request t;
                      a2 = validate_authorization ct request t (validate_agent_tool_grant grant a1)
                  in if va_failed a2 \<noteq> [] then a2
                     else let policy = ct_policy ct (mt_id t);
                              a3 = check_single_policy ct plan policy a2
                          in (case (grant, policy) of
                                (Some g, Some p) \<Rightarrow>
                                  if \<not> has_blocking_errors a3 \<and> (gr_requires_confirmation g \<or> tp_requires_confirmation p)
                                  then require_confirmation d request run a3 else a3
                              | _ \<Rightarrow> a3))"

subsection \<open>All checks\<close>

definition check_source :: "agent_request \<Rightarrow> execution_plan \<Rightarrow> validation \<Rightarrow> validation" where
  "check_source request plan =
     (case plan_src plan of
        PlanSourceAgent v \<Rightarrow> fail_if (v \<noteq> rq_agent_version_id request) SCHEMA_INVALID None
      | _ \<Rightarrow> fail SCHEMA_INVALID None)"

definition check_build_run :: "agent_request \<Rightarrow> build_run option \<Rightarrow> validation \<Rightarrow> validation" where
  "check_build_run request build acc =
     (case build of
        None \<Rightarrow> fail SCHEMA_INVALID None acc
      | Some b \<Rightarrow>
          fail_if (bd_agent_request_id b \<noteq> rq_id request \<or> \<not> bd_is_complete b \<or> bd_missing_fields b \<noteq> [] \<or>
                   bd_constraints_snapshot b \<noteq> JNull) SCHEMA_INVALID None acc)"

definition load_params ::
    "validator_codec \<Rightarrow> build_run option \<Rightarrow> validation \<Rightarrow> (string, binding_value) dict option \<times> validation" where
  "load_params V build acc =
     (case build of
        None \<Rightarrow> (None, acc)
      | Some b \<Rightarrow>
          if va_failed acc \<noteq> [] then (None, acc)
          else (case va_params V (bd_bindings_snapshot b) of
                  None \<Rightarrow> (None, fail BINDING_INVALID None acc)
                | Some ps \<Rightarrow> (Some ps, acc)))"

text \<open>
  \<open>_validate_locked\<close> up to \<open>_finalize\<close>.  The schema version of a validated plan is the literal 1.0, so its test never
  fails.
\<close>

definition run_checks ::
    "validator_codec \<Rightarrow> vdb \<Rightarrow> catalog \<Rightarrow> agent_request \<Rightarrow> plan_run \<Rightarrow> validation result" where
  "run_checks V d ct request run =
     (case ct_agent_version ct (rq_agent_version_id request) of
        None \<Rightarrow> Inr (fail SCHEMA_INVALID None empty_validation)
      | Some agent_schema \<Rightarrow>
          let a1 = checks
            [fail_if (pr_agent_request_id run \<noteq> rq_id request) SCHEMA_INVALID None,
             fail_if (pr_agent_version_id run \<noteq> rq_agent_version_id request) SCHEMA_INVALID None,
             fail_if (pr_plan_schema_version run \<noteq> ''1.0'') SCHEMA_INVALID None,
             fail_if (agent_schema \<noteq> ''1.0'') SCHEMA_INVALID None] empty_validation
          in (case va_plan V (pr_plan_snapshot run) of
                None \<Rightarrow> Inr (fail SCHEMA_INVALID None a1)
              | Some plan \<Rightarrow>
                  let build = find (\<lambda>b. bd_id b = pr_parameter_build_run_id run) (vd_build_runs d);
                      refs = filter (\<lambda>r. rf_run_id r = pr_id run) (vd_tool_refs d);
                      a2 = checks
                        [fail_if (compute_canonical_json_hash (va_repr V) (pr_plan_snapshot run) \<noteq> pr_plan_hash run)
                           SCHEMA_INVALID None,
                         check_source request plan,
                         check_build_run request build] a1;
                      (params, a3) = load_params V build a2;
                      a4 = validate_plan_structure V plan refs a3
                  in (case (build, params) of
                        (Some b, Some ps) \<Rightarrow>
                          if va_failed a4 = [] \<and> length (plan_steps plan) = 2
                          then validate_sequential_pair_tools V d ct request plan run b ps refs a4
                          else Inr (validate_single_tool V d ct request plan run build params refs a4)
                      | _ \<Rightarrow> Inr (validate_single_tool V d ct request plan run build params refs a4))))"

subsection \<open>Writing the result\<close>

record validation_outcome =
  vo_validation_run_id :: "uuid option"
  vo_plan_generation_run_id :: "uuid option"
  vo_plan_hash :: "string option"
  vo_decision :: validation_decision
  vo_request_status :: agent_request_status
  vo_clarification_request_id :: "uuid option"

fun request_status_of :: "validation_decision \<Rightarrow> agent_request_status" where
  "request_status_of V_READY = RQ_READY"
| "request_status_of V_WAITING_CONFIRMATION = RQ_WAITING_CONFIRMATION"
| "request_status_of V_REJECTED = RQ_REJECTED"
| "request_status_of V_FAILED = RQ_FAILED"

text \<open>
  \<open>AgentRequestService.compare_and_set_status\<close> with the one expected status VALIDATING; \<open>None\<close> is a miss.
\<close>

definition compare_and_set_status ::
    "uuid \<Rightarrow> agent_request_status \<Rightarrow> time option \<Rightarrow> agent_request list \<Rightarrow> agent_request list option" where
  "compare_and_set_status rid new completed rows =
     (if list_ex (\<lambda>r. rq_id r = rid \<and> rq_status r = RQ_VALIDATING) rows
      then Some (map (\<lambda>r. if rq_id r = rid \<and> rq_status r = RQ_VALIDATING
                          then r\<lparr>rq_status := new,
                                 rq_completed_at := (case completed of None \<Rightarrow> rq_completed_at r | Some t \<Rightarrow> Some t)\<rparr>
                          else r) rows)
      else None)"

text \<open>
  \<open>_finalize\<close> on the tables \<open>d\<close> at the time of the commit.  A raise rolls back.  \<open>create\<close> raises \<open>ValueError\<close>
  on a plan hash that is not 64 hexadecimal digits.  \<open>cid\<close> and \<open>vid\<close> are the fresh ids.
\<close>

definition finalize ::
    "agent_request \<Rightarrow> plan_run \<Rightarrow> validation \<Rightarrow> time \<Rightarrow> uuid \<Rightarrow> uuid \<Rightarrow> vdb \<Rightarrow> validation_outcome result \<times> vdb" where
  "finalize request run acc now cid vid d =
     (let dec = decision acc; waiting = (dec = V_WAITING_CONFIRMATION);
          clarification = (if waiting then Some cid else None);
          row = \<lparr>vr_id = vid, vr_agent_request_id = rq_id request, vr_plan_generation_run_id = pr_id run,
                 vr_plan_hash = pr_plan_hash run, vr_decision = dec, vr_errors = all_errors acc,
                 vr_checks = va_checks acc, vr_policy_snapshot = va_policy_snapshot acc,
                 vr_confirmation_required = waiting, vr_clarification_request_id = clarification\<rparr>
      in if \<not> is_sha256_hex (pr_plan_hash run) then (Inl ValueError, d)
         else (case compare_and_set_status (rq_id request) (request_status_of dec)
                      (if waiting then None else Some now) (vd_requests d) of
                 None \<Rightarrow> (Inl RESOURCE_CONFLICT, d)
               | Some rows \<Rightarrow>
                   (Inr \<lparr>vo_validation_run_id = Some vid, vo_plan_generation_run_id = Some (pr_id run),
                         vo_plan_hash = Some (pr_plan_hash run), vo_decision = dec,
                         vo_request_status = request_status_of dec, vo_clarification_request_id = clarification\<rparr>,
                    d\<lparr>vd_requests := rows, vd_validations := row # vd_validations d,
                      vd_clarifications := (if waiting
                        then vd_clarifications d @ [\<lparr>cl_id = cid, cl_agent_request_id = rq_id request,
                               cl_request_type = ''PLAN_CONFIRMATION'', cl_status = ''OPEN'', cl_response_payload = JNull,
                               cl_answered_by = None\<rparr>]
                        else vd_clarifications d)\<rparr>)))"

text \<open>\<open>_fail_from\<close>: a miss leaves everything as it is.\<close>

definition fail_from :: "uuid \<Rightarrow> time \<Rightarrow> vdb \<Rightarrow> vdb" where
  "fail_from rid now d =
     (case compare_and_set_status rid RQ_FAILED (Some now) (vd_requests d) of
        None \<Rightarrow> d
      | Some rows \<Rightarrow> d\<lparr>vd_requests := rows\<rparr>)"

text \<open>
  \<open>validate\<close>.  The checks read the tables \<open>d\<close>; \<open>others\<close> is what other transactions commit between these
  reads and the write.
\<close>

definition validate_locked ::
    "validator_codec \<Rightarrow> catalog \<Rightarrow> agent_request \<Rightarrow> time \<Rightarrow> uuid \<Rightarrow> uuid \<Rightarrow> (vdb \<Rightarrow> vdb) \<Rightarrow> vdb
     \<Rightarrow> validation_outcome result \<times> vdb" where
  "validate_locked V ct request now cid vid others d =
     (if list_ex (\<lambda>c. cl_agent_request_id c = rq_id request \<and> cl_status c = ''OPEN'') (vd_clarifications d)
      then (Inl (AppError ''INTERNAL_ERROR'' 500), fail_from (rq_id request) now (others d))
      else (case find (\<lambda>r. pr_agent_request_id r = rq_id request) (vd_plan_runs d) of
              None \<Rightarrow> (Inl (AppError ''INTERNAL_ERROR'' 500), fail_from (rq_id request) now (others d))
            | Some run \<Rightarrow>
                (case run_checks V d ct request run of
                   Inl e \<Rightarrow> (Inl e, others d)
                 | Inr acc \<Rightarrow> finalize request run acc now cid vid (others d))))"

definition validate ::
    "validator_codec \<Rightarrow> catalog \<Rightarrow> uuid \<Rightarrow> time \<Rightarrow> uuid \<Rightarrow> uuid \<Rightarrow> (vdb \<Rightarrow> vdb) \<Rightarrow> vdb
     \<Rightarrow> validation_outcome result \<times> vdb" where
  "validate V ct rid now cid vid others d =
     (case find (\<lambda>r. rq_id r = rid) (vd_requests d) of
        None \<Rightarrow> (Inl (AppError ''NOT_FOUND'' 404), d)
      | Some request \<Rightarrow>
          if rq_status request \<noteq> RQ_VALIDATING then (Inl RESOURCE_CONFLICT, d)
          else (case validate_locked V ct request now cid vid others d of
                  (Inr outcome, d') \<Rightarrow> (Inr outcome, d')
                | (Inl (AppError code st), d') \<Rightarrow> (Inl (AppError code st), d')
                | (Inl e, d') \<Rightarrow> (Inl e, fail_from rid now d')))"

end
