(* ===== verification/PlanValidatorSafety.thy ===== *)
theory PlanValidatorSafety
  imports PlanValidator
begin

section \<open>What the checks of the plan validator establish\<close>

text \<open>
  An issue is never taken back, so a result without issues passed every check.  \<open>blocking_simps\<close> turn
  "this check left no issue" into the condition it tests, check by check; the properties read the conditions off the
  two paths of the validator.
\<close>

named_theorems blocking_simps \<open>when a check of the plan validator leaves no issue\<close>

abbreviation ok :: "validation \<Rightarrow> bool" where
  "ok acc \<equiv> \<not> has_blocking_errors acc"

lemma ok_basic [simp]:
  "has_blocking_errors (fail c s acc)" "has_blocking_errors (reject c s acc)"
  "has_blocking_errors (fail_if b c s acc) \<longleftrightarrow> b \<or> has_blocking_errors acc"
  "has_blocking_errors (reject_if b c s acc) \<longleftrightarrow> b \<or> has_blocking_errors acc"
  "has_blocking_errors (note_check k b acc) \<longleftrightarrow> has_blocking_errors acc"
  "has_blocking_errors (acc\<lparr>va_policy_snapshot := j\<rparr>) \<longleftrightarrow> has_blocking_errors acc"
  "has_blocking_errors (require_confirmation d rq run acc) \<longleftrightarrow> has_blocking_errors acc"
  "ok empty_validation"
  by (auto simp: has_blocking_errors_def fail_def reject_def fail_if_def reject_if_def note_check_def
      require_confirmation_def empty_validation_def)

lemma failed_blocks: "va_failed acc \<noteq> [] \<Longrightarrow> has_blocking_errors acc"
  "va_rejected acc \<noteq> [] \<Longrightarrow> has_blocking_errors acc"
  by (simp_all add: has_blocking_errors_def)

lemma ok_lists: "ok acc \<longleftrightarrow> va_failed acc = [] \<and> va_rejected acc = []"
  by (simp add: has_blocking_errors_def)

lemma checks_simps [simp]: "checks [] acc = acc" "checks (f # fs) acc = checks fs (f acc)"
  by (simp_all add: checks_def)

lemma ok_fold:
  "(\<And>x a. ok (f x a) \<longleftrightarrow> P x \<and> ok a) \<Longrightarrow> ok (fold f xs acc) \<longleftrightarrow> (\<forall>x \<in> set xs. P x) \<and> ok acc"
  by (induction xs arbitrary: acc) auto

lemma ok_fold_fail_if [simp]:
  "ok (fold (\<lambda>x. fail_if (b x) (c x) (s x)) xs acc) \<longleftrightarrow> (\<forall>x \<in> set xs. \<not> b x) \<and> ok acc"
  by (rule ok_fold) auto

subsection \<open>Structure\<close>

lemma ok_pair_shape [blocking_simps]:
  "ok (validate_sequential_pair_shape V plan refs acc) \<longleftrightarrow>
     (let first = plan_steps plan ! 0; second = plan_steps plan ! 1 in
      ps_id first = DETERMINISTIC_TOOL_STEP_ID \<and> ps_id second = DETERMINISTIC_TOOL_STEP_ID_2 \<and>
      ps_type first = TOOL \<and> ps_type second = TOOL \<and> ps_depends_on first = [] \<and>
      ps_depends_on second = [DETERMINISTIC_TOOL_STEP_ID] \<and>
      response_step_ids plan = [DETERMINISTIC_TOOL_STEP_ID_2] \<and>
      set (map rf_step_key refs) = {DETERMINISTIC_TOOL_STEP_ID, DETERMINISTIC_TOOL_STEP_ID_2} \<and>
      va_complex V (ps_config second) \<noteq> None \<and> ok acc)"
  by (auto simp: validate_sequential_pair_shape_def Let_def)

lemma ok_step_dependencies [blocking_simps]:
  "ok (check_step_dependencies ids s acc) \<longleftrightarrow>
     non_blank (ps_id s) \<and> set (ps_depends_on s) \<subseteq> set ids \<and> ps_id s \<notin> set (ps_depends_on s) \<and>
     distinct (ps_depends_on s) \<and> ok acc"
proof -
  have "ok (fst (fold (\<lambda>dep (acc, seen).
        (checks [fail_if (dep \<notin> set ids) DEPENDENCY_MISSING (Some (ps_id s)),
                 fail_if (dep = ps_id s) DEPENDENCY_MISSING (Some (ps_id s)),
                 fail_if (dep \<in> set seen) DEPENDENCY_MISSING (Some (ps_id s))] acc, dep # seen)) deps (acc, seen))) \<longleftrightarrow>
      set deps \<subseteq> set ids \<and> ps_id s \<notin> set deps \<and> distinct deps \<and> set deps \<inter> set seen = {} \<and> ok acc" for deps acc seen
    by (induction deps arbitrary: acc seen) auto
  then show ?thesis
    unfolding check_step_dependencies_def by auto
qed

lemma ok_fold_dependencies [blocking_simps]:
  "ok (fold (check_step_dependencies ids) ss acc) \<longleftrightarrow>
     (\<forall>s \<in> set ss. non_blank (ps_id s) \<and> set (ps_depends_on s) \<subseteq> set ids \<and> ps_id s \<notin> set (ps_depends_on s) \<and>
        distinct (ps_depends_on s)) \<and> ok acc"
  by (rule ok_fold) (auto simp: ok_step_dependencies)

lemma ok_response_ids [blocking_simps]:
  "ok (check_response_ids ids rids acc) \<longleftrightarrow> rids \<noteq> [] \<and> distinct rids \<and> set rids \<subseteq> set ids \<and> ok acc"
  by (auto simp: check_response_ids_def)

lemma ok_tool_refs [blocking_simps]:
  "ok (check_tool_refs plan refs acc) \<longleftrightarrow>
     set (tool_step_ids plan) = rf_step_key ` set refs \<and>
     length refs = (if length (plan_steps plan) = 2 then 2 else 1) \<and> length (tool_step_ids plan) = length refs \<and> ok acc"
proof -
  have "map_of (ref_by_step refs) sid = None \<longleftrightarrow> sid \<notin> rf_step_key ` set refs" for sid
    by (auto simp: ref_by_step_def map_of_dict_of map_of_eq_None_iff image_iff)
  then show ?thesis
    unfolding check_tool_refs_def Let_def by auto
qed

lemma ok_timeouts [blocking_simps]:
  "ok (check_timeout plan s acc) \<longleftrightarrow> ps_timeout_seconds s \<le> max_duration_seconds (plan_limits plan) \<and> ok acc"
  "ok (fold (check_timeout plan) ss acc) \<longleftrightarrow>
     (\<forall>s \<in> set ss. ps_timeout_seconds s \<le> max_duration_seconds (plan_limits plan)) \<and> ok acc"
  "ok (check_step_count plan acc) \<longleftrightarrow> int (length (plan_steps plan)) \<le> max_steps (plan_limits plan) \<and> ok acc"
proof -
  show one: "ok (check_timeout plan s acc) \<longleftrightarrow> ps_timeout_seconds s \<le> max_duration_seconds (plan_limits plan) \<and> ok acc"
    for s acc
    by (auto simp: check_timeout_def)
  show "ok (fold (check_timeout plan) ss acc) \<longleftrightarrow>
     (\<forall>s \<in> set ss. ps_timeout_seconds s \<le> max_duration_seconds (plan_limits plan)) \<and> ok acc"
    by (rule ok_fold) (rule one)
  show "ok (check_step_count plan acc) \<longleftrightarrow> int (length (plan_steps plan)) \<le> max_steps (plan_limits plan) \<and> ok acc"
    by (auto simp: check_step_count_def)
qed

text \<open>The structure a plan needs, both shapes together.\<close>

definition plan_structure_ok :: "validator_codec \<Rightarrow> execution_plan \<Rightarrow> tool_ref list \<Rightarrow> bool" where
  "plan_structure_ok V plan refs \<longleftrightarrow>
     (let steps = plan_steps plan in
      plan_limits plan = default_plan_limits \<and> plan_inputs plan = [] \<and>
      map ps_id steps \<in> {[DETERMINISTIC_TOOL_STEP_ID], [DETERMINISTIC_TOOL_STEP_ID, DETERMINISTIC_TOOL_STEP_ID_2]} \<and>
      (\<forall>s \<in> set steps. ps_type s = TOOL) \<and>
      map ps_depends_on steps \<in> {[[]], [[], [DETERMINISTIC_TOOL_STEP_ID]]} \<and>
      response_step_ids plan = [ps_id (last steps)] \<and>
      length refs = length steps \<and> set (map rf_step_key refs) = set (map ps_id steps) \<and>
      (\<forall>s \<in> set steps. ps_timeout_seconds s \<le> max_duration_seconds (plan_limits plan)))"

lemma tool_step_ids_all: "\<forall>s \<in> set (plan_steps plan). ps_type s = TOOL \<Longrightarrow> distinct (map ps_id (plan_steps plan)) \<Longrightarrow>
    tool_step_ids plan = map ps_id (plan_steps plan)"
  by (simp add: tool_step_ids_def distinct_remdups_id)

lemma singleton_list: "xs \<noteq> [] \<Longrightarrow> distinct xs \<Longrightarrow> set xs \<subseteq> {x} \<Longrightarrow> xs = [x]"
  by (cases xs; cases "tl xs") auto

lemma ok_single_structure:
  assumes "ok (validate_plan_structure V plan refs acc)" and "plan_steps plan = [s]"
  shows "ok acc \<and> plan_structure_ok V plan refs \<and>
    (\<exists>cfg. va_tool V (ps_config s) = Some cfg \<and> \<not> ref_mismatch (map_of (ref_by_step refs) (ps_id s)) (ts_tool_version_id cfg))"
proof -
  from assms obtain cfg where facts: "ok acc" "plan_limits plan = default_plan_limits" "plan_inputs plan = []"
      "ps_type s = TOOL" "ps_id s = DETERMINISTIC_TOOL_STEP_ID" "set (ps_depends_on s) \<subseteq> {ps_id s}"
      "ps_id s \<notin> set (ps_depends_on s)" "response_step_ids plan \<noteq> []" "distinct (response_step_ids plan)"
      "set (response_step_ids plan) \<subseteq> {ps_id s}" "set (tool_step_ids plan) = rf_step_key ` set refs" "length refs = 1"
      "va_tool V (ps_config s) = Some cfg" "\<not> ref_mismatch (map_of (ref_by_step refs) (ps_id s)) (ts_tool_version_id cfg)"
      "ps_timeout_seconds s \<le> max_duration_seconds (plan_limits plan)"
    by (auto simp: validate_plan_structure_def Let_def blocking_simps split: option.splits if_splits)
  have "response_step_ids plan = [ps_id s]"
    using facts(8-10) by (rule singleton_list)
  moreover have "ps_depends_on s = []"
    using facts(6,7) by (cases "ps_depends_on s") auto
  moreover have "rf_step_key ` set refs = {ps_id s}"
    using facts(4,11) assms(2) by (simp add: tool_step_ids_def)
  ultimately show ?thesis
    using facts assms(2) by (simp add: plan_structure_ok_def Let_def)
qed

lemma ok_pair_structure:
  assumes "ok (validate_plan_structure V plan refs acc)" and "plan_steps plan = [s, t]"
  shows "ok acc \<and> plan_structure_ok V plan refs"
proof -
  from assms have facts: "ok acc" "plan_limits plan = default_plan_limits" "plan_inputs plan = []"
      "ps_type s = TOOL" "ps_type t = TOOL" "ps_id s = DETERMINISTIC_TOOL_STEP_ID" "ps_id t = DETERMINISTIC_TOOL_STEP_ID_2"
      "ps_depends_on s = []" "ps_depends_on t = [DETERMINISTIC_TOOL_STEP_ID]"
      "response_step_ids plan = [DETERMINISTIC_TOOL_STEP_ID_2]"
      "set (map rf_step_key refs) = {DETERMINISTIC_TOOL_STEP_ID, DETERMINISTIC_TOOL_STEP_ID_2}"
      "length refs = 2"
      "\<forall>s \<in> set (plan_steps plan). ps_timeout_seconds s \<le> max_duration_seconds (plan_limits plan)"
    by (auto simp: validate_plan_structure_def Let_def blocking_simps)
  then show ?thesis
    using assms(2) by (simp add: plan_structure_ok_def Let_def)
qed

lemma ok_structure_length: "ok (validate_plan_structure V plan refs acc) \<Longrightarrow> length (plan_steps plan) \<in> {1, 2}"
  by (auto simp: validate_plan_structure_def Let_def split: if_splits)

subsection \<open>Access to the tool\<close>

definition tool_available :: "catalog \<Rightarrow> tool_version \<Rightarrow> mcp_tool \<Rightarrow> bool" where
  "tool_available ct tv tool \<longleftrightarrow>
     tv_validation_status tv = ''VALID'' \<and> mt_deleted_at tool = None \<and> mt_status tool = ''ACTIVE'' \<and>
     mt_current_version_id tool = Some (tv_id tv) \<and>
     (\<exists>s. ct_server ct (mt_mcp_server_id tool) = Some s \<and> ms_deleted_at s = None \<and> ms_status s = ''ACTIVE'' \<and>
        ms_transport_type s \<in> {''STDIO'', ''STREAMABLE_HTTP'', ''LEGACY_HTTP_SSE''} \<and>
        ms_protocol_era s \<in> {''CURRENT'', ''LEGACY''})"

definition access_granted :: "catalog \<Rightarrow> agent_request \<Rightarrow> mcp_tool \<Rightarrow> bool" where
  "access_granted ct request tool \<longleftrightarrow>
     (\<exists>g. find_grant ct request tool = Some g \<and> gr_effect g = ''ALLOW'' \<and> gr_parameter_constraints g = JNull) \<and>
     (let s = ct_authorization ct (rq_requester_id request) ''mcp.tool.execute'' ''MCP_TOOL'' (mt_id tool) in
      au_user_exists s \<and> au_user_active s \<and> au_permission_present s \<and> au_resource_grant_present s)"

definition policy_valid :: "plan_step \<Rightarrow> tool_policy \<Rightarrow> bool" where
  "policy_valid s p \<longleftrightarrow>
     risk_class_known (tp_risk_class p) \<and> 0 < tp_timeout_ms p \<and> 1 \<le> tp_max_attempts p \<and> 0 < tp_max_result_bytes p \<and>
     ps_timeout_seconds s = expected_timeout (tp_timeout_ms p)"

definition approval_valid :: "catalog \<Rightarrow> tool_policy \<Rightarrow> bool" where
  "approval_valid ct p \<longleftrightarrow>
     (tp_requires_approval p \<longrightarrow> (\<exists>aid a. tp_approval_policy_id p = Some aid \<and> ct_approval_policy ct aid = Some a \<and>
        ay_status a = ''ACTIVE'' \<and> ay_decision_mode a \<in> {''ANY'', ''ALL'', ''QUORUM''} \<and> 1 \<le> ay_required_approvals a \<and>
        0 < ay_default_expiry_seconds a))"

lemma ok_availability [blocking_simps]:
  "ok (validate_tool_availability tv (Some tool) (ct_server ct (mt_mcp_server_id tool)) acc) \<longleftrightarrow>
     tool_available ct tv tool \<and> ok acc"
  by (auto simp: validate_tool_availability_def Let_def tool_available_def split: option.splits)

lemma ok_grant_authorization [blocking_simps]:
  "ok (validate_authorization ct request tool (validate_agent_tool_grant (find_grant ct request tool) acc)) \<longleftrightarrow>
     access_granted ct request tool \<and> ok acc"
  by (auto simp: validate_authorization_def validate_agent_tool_grant_def access_granted_def Let_def
      split: option.splits)

lemma ok_tool_policy [blocking_simps]:
  "plan_steps plan = s # ss \<Longrightarrow>
     ok (validate_tool_policy plan policy None acc) \<longleftrightarrow> (\<exists>p. policy = Some p \<and> policy_valid s p) \<and> ok acc"
  "find (\<lambda>s. ps_id s = sid) (plan_steps plan) = Some s \<Longrightarrow>
     ok (validate_tool_policy plan policy (Some sid) acc) \<longleftrightarrow> (\<exists>p. policy = Some p \<and> policy_valid s p) \<and> ok acc"
  by (cases policy; auto simp: validate_tool_policy_def Let_def policy_valid_def)+

lemma ok_approval [blocking_simps]:
  "ok (snd (check_approval ct p sid acc)) \<longleftrightarrow> approval_valid ct p \<and> ok acc"
  by (auto simp: check_approval_def validate_approval_policy_def approval_valid_def split: option.splits)

subsection \<open>Bindings\<close>

text \<open>The bindings are the built ones, and fit the input schema of the tool version.\<close>

definition literals_typed :: "(string, json) dict \<Rightarrow> (string, binding_value) dict \<Rightarrow> bool" where
  "literals_typed props bindings \<longleftrightarrow>
     (\<forall>k v prop t. (k, LiteralBindingValue v) \<in> set bindings \<and> get_or_none props k = JObj prop \<and>
        get_or_none prop ''type'' = JStr t \<longrightarrow> literal_matches_type v t)"

definition bindings_fit :: "validator_codec \<Rightarrow> tool_step_config \<Rightarrow> (string, binding_value) dict \<Rightarrow> json \<Rightarrow> bool" where
  "bindings_fit V cfg params schema \<longleftrightarrow>
     py_eq (JObj (map (\<lambda>(k, b). (k, va_dump V b)) (ts_bindings cfg))) (JObj (map (\<lambda>(k, b). (k, va_dump V b)) params)) \<and>
     (\<exists>kvs props required. schema = JObj kvs \<and> get_or_none kvs ''type'' = JStr ''object'' \<and>
        get_or_none kvs ''properties'' = JObj props \<and> required_names kvs = Some required \<and>
        set required \<subseteq> set (dict_keys (ts_bindings cfg)) \<and> set (dict_keys (ts_bindings cfg)) \<subseteq> set (dict_keys props) \<and>
        literals_typed props (ts_bindings cfg))"

lemma ok_binding_types [blocking_simps]:
  "ok (fold (check_binding_type props sid) bs acc) \<longleftrightarrow> literals_typed props bs \<and> ok acc"
proof -
  have "ok (check_binding_type props sid kb a) \<longleftrightarrow> literals_typed props [kb] \<and> ok a" for kb a
    by (cases kb) (auto simp: check_binding_type_def literals_typed_def split: binding_value.splits json.splits)
  from ok_fold [of "check_binding_type props sid" "\<lambda>kb. literals_typed props [kb]", OF this] show ?thesis
    by (auto simp: literals_typed_def)
qed

lemma ok_binding_projection:
  assumes "va_tool V (ps_config (hd (plan_steps plan))) = Some cfg"
    and "ok (validate_binding_projection V plan params schema acc)"
  shows "bindings_fit V cfg params schema \<and> ok acc"
proof (cases schema)
  case (JObj kvs)
  show ?thesis
  proof (cases "get_or_none kvs ''properties''")
    case props: (JObj props)
    have "ok (fold (\<lambda>(k, _). fail_if (k \<notin> K) BINDING_INVALID sid) bs a) \<longleftrightarrow> fst ` set bs \<subseteq> K \<and> ok a"
      for bs :: "(string, binding_value) dict" and K sid a
      by (induction bs arbitrary: a) auto
    with assms show ?thesis
      unfolding JObj
      by (auto simp: validate_binding_projection_def Let_def bindings_fit_def blocking_simps props
          split: if_splits option.splits)
  qed (use assms in \<open>auto simp: validate_binding_projection_def Let_def JObj split: if_splits\<close>)
qed (use assms in \<open>auto simp: validate_binding_projection_def Let_def\<close>)

subsection \<open>The path of a single tool\<close>

definition tool_gate :: "catalog \<Rightarrow> agent_request \<Rightarrow> plan_step \<Rightarrow> uuid \<Rightarrow> tool_policy \<Rightarrow> bool" where
  "tool_gate ct request s version p \<longleftrightarrow>
     (\<exists>tv tool. ct_tool_version ct version = Some tv \<and> ct_tool ct (tv_mcp_tool_id tv) = Some tool \<and>
        tool_available ct tv tool \<and> access_granted ct request tool \<and> ct_policy ct (mt_id tool) = Some p \<and>
        policy_valid s p \<and> approval_valid ct p)"

lemma ok_check_single_tool:
  assumes "plan_steps plan = s # ss" and "check_single_tool V ct plan b params refs acc = (tool, a')" and "ok a'"
  shows "ok acc \<and> (\<exists>cfg tv t. va_tool V (ps_config s) = Some cfg \<and> bd_tool_version_id b = ts_tool_version_id cfg \<and>
    ct_tool_version ct (ts_tool_version_id cfg) = Some tv \<and> tool = Some t \<and> ct_tool ct (tv_mcp_tool_id tv) = Some t \<and>
    tool_available ct tv t \<and> (\<forall>ps. params = Some ps \<longrightarrow> bindings_fit V cfg ps (tv_input_schema tv)))"
proof (cases "va_tool V (ps_config s)")
  case None
  with assms show ?thesis
    by (auto simp: check_single_tool_def Let_def)
next
  case (Some cfg)
  define ref where "ref = map_of (ref_by_step refs) (ps_id s)"
  define a1 where "a1 = checks
    [fail_if (ref_mismatch ref (ts_tool_version_id cfg)) SCHEMA_INVALID (Some (ps_id s)),
     fail_if (bd_tool_version_id b \<noteq> ts_tool_version_id cfg) SCHEMA_INVALID None,
     fail_if (ref_mismatch ref (bd_tool_version_id b)) SCHEMA_INVALID None] acc"
  define a2 where "a2 tv = fail_if (\<not> py_eq (bd_input_schema_snapshot b) (tv_input_schema tv)) SCHEMA_INVALID None a1" for tv :: tool_version
  define a3 where "a3 tv = (case params of
      None \<Rightarrow> a2 tv
    | Some ps \<Rightarrow> if va_failed (a2 tv) \<noteq> [] then a2 tv
                 else validate_binding_projection V plan ps (tv_input_schema tv) (a2 tv))" for tv :: tool_version
  define last where "last tv t = validate_tool_availability tv t (Option.bind t (\<lambda>t. ct_server ct (mt_mcp_server_id t)))
    (reject_if (t = None) TOOL_UNAVAILABLE None (a3 tv))" for tv :: tool_version and t
  have run: "check_single_tool V ct plan b params refs acc =
      (if va_failed a1 \<noteq> [] then (None, a1)
       else (case ct_tool_version ct (ts_tool_version_id cfg) of
               None \<Rightarrow> (None, reject TOOL_UNAVAILABLE None a1)
             | Some tv \<Rightarrow> if va_failed (a3 tv) \<noteq> [] then (None, a3 tv)
                          else (ct_tool ct (tv_mcp_tool_id tv), last tv (ct_tool ct (tv_mcp_tool_id tv)))))"
    unfolding check_single_tool_def by (simp add: assms(1) Some Let_def ref_def a1_def a2_def a3_def last_def
        cong: option.case_cong if_cong)
  from run assms(2,3) obtain tv where tv: "ct_tool_version ct (ts_tool_version_id cfg) = Some tv"
      "va_failed a1 = []" "va_failed (a3 tv) = []" "tool = ct_tool ct (tv_mcp_tool_id tv)" "a' = last tv tool"
    using failed_blocks by (auto split: if_splits option.splits)
  have none: "\<not> ok (validate_tool_availability tv None srv (reject c s' a))" for srv c s' a
    by (simp add: validate_tool_availability_def)
  from tv(5) assms(3) obtain t where t: "tool = Some t"
    using none by (cases tool) (auto simp: last_def reject_if_def)
  with tv(5) assms(3) have a3: "ok (a3 tv)" "tool_available ct tv t"
    by (auto simp: last_def blocking_simps)
  have a2: "ok (a2 tv) \<and> (\<forall>ps. params = Some ps \<longrightarrow> bindings_fit V cfg ps (tv_input_schema tv))"
  proof (cases params)
    case None
    with a3(1) show ?thesis
      by (simp add: a3_def)
  next
    case params: (Some ps)
    have "va_failed (a2 tv) = []"
      using tv(3) params by (auto simp: a3_def split: if_splits)
    with params have "a3 tv = validate_binding_projection V plan ps (tv_input_schema tv) (a2 tv)"
      by (simp add: a3_def)
    with a3(1) ok_binding_projection [of V plan cfg ps "tv_input_schema tv" "a2 tv"] Some assms(1) params show ?thesis
      by simp
  qed
  then have "ok acc" "bd_tool_version_id b = ts_tool_version_id cfg"
    by (auto simp: a2_def a1_def)
  moreover have "ct_tool ct (tv_mcp_tool_id tv) = Some t"
    using tv(4) t by simp
  ultimately show ?thesis
    using Some tv(1) t a3(2) a2 by blast
qed

lemma ok_single_policy:
  assumes "ok (check_single_policy ct plan policy acc)" and "plan_steps plan = s # ss"
  shows "ok acc \<and> (\<exists>p. policy = Some p \<and> policy_valid s p \<and> approval_valid ct p)"
proof -
  have valid: "\<exists>p. policy = Some p \<and> policy_valid s p" "ok acc" if "ok (validate_tool_policy plan policy None acc)"
    using that ok_tool_policy(1) [OF assms(2)] by auto
  show ?thesis
  proof (cases policy)
    case None
    with assms(1) valid show ?thesis
      by (simp add: check_single_policy_def)
  next
    case (Some p)
    obtain approval a2 where a2: "check_approval ct p None (validate_tool_policy plan policy None acc) = (approval, a2)"
      by (cases "check_approval ct p None (validate_tool_policy plan policy None acc)")
    with assms(1) Some have "ok a2"
      by (auto simp: check_single_policy_def Let_def dest: failed_blocks split: if_splits)
    with a2 ok_approval [of ct p None "validate_tool_policy plan policy None acc"]
    have "approval_valid ct p" "ok (validate_tool_policy plan policy None acc)"
      by simp_all
    with valid Some show ?thesis
      by auto
  qed
qed

definition needs_confirmation :: "catalog \<Rightarrow> agent_request \<Rightarrow> uuid \<Rightarrow> bool" where
  "needs_confirmation ct request version \<longleftrightarrow>
     (\<exists>tv tool g p. ct_tool_version ct version = Some tv \<and> ct_tool ct (tv_mcp_tool_id tv) = Some tool \<and>
        find_grant ct request tool = Some g \<and> ct_policy ct (mt_id tool) = Some p \<and>
        (gr_requires_confirmation g \<or> tp_requires_confirmation p))"

lemma ok_single_path:
  assumes "plan_steps plan = s # ss"
    and result: "r = validate_single_tool V d ct request plan run (Some b) params refs acc" and "ok r"
  shows "ok acc \<and> (\<exists>cfg tv p. va_tool V (ps_config s) = Some cfg \<and> bd_tool_version_id b = ts_tool_version_id cfg \<and>
    ct_tool_version ct (ts_tool_version_id cfg) = Some tv \<and> tool_gate ct request s (ts_tool_version_id cfg) p \<and>
    (\<forall>ps. params = Some ps \<longrightarrow> bindings_fit V cfg ps (tv_input_schema tv)) \<and>
    (needs_confirmation ct request (ts_tool_version_id cfg) \<and> \<not> va_confirmation_required r \<longrightarrow>
       has_satisfied_plan_confirmation d request run (va_policy_snapshot r)))"
proof -
  obtain tool a1 where one: "(if va_failed acc \<noteq> [] then (None, acc) else check_single_tool V ct plan b params refs acc) = (tool, a1)"
    by (cases "if va_failed acc \<noteq> [] then (None, acc) else check_single_tool V ct plan b params refs acc") 
  define a2 where "a2 t = validate_authorization ct request t (validate_agent_tool_grant (find_grant ct request t) a1)" for t
  define a3 where "a3 t = check_single_policy ct plan (ct_policy ct (mt_id t)) (a2 t)" for t
  have run: "r = (case tool of None \<Rightarrow> a1 | Some t \<Rightarrow>
      if va_failed a1 \<noteq> [] then a1
      else if va_failed (a2 t) \<noteq> [] then a2 t
      else (case (find_grant ct request t, ct_policy ct (mt_id t)) of
              (Some g, Some p) \<Rightarrow>
                if ok (a3 t) \<and> (gr_requires_confirmation g \<or> tp_requires_confirmation p)
                then require_confirmation d request run (a3 t) else a3 t
            | _ \<Rightarrow> a3 t))"
    using one unfolding result validate_single_tool_def
    by (simp add: assms(1) Let_def a2_def a3_def cong: option.case_cong if_cong)
  have not_failed: "ok a \<Longrightarrow> va_failed a = []" for a
    by (simp add: ok_lists)
  have step: "va_failed a1 = [] \<and> va_failed (a2 t) = [] \<and> ok (a3 t) \<and> ok (a2 t) \<and> access_granted ct request t \<and> ok a1"
    if "tool = Some t" for t
  proof -
    have "va_failed a1 = []" "va_failed (a2 t) = []"
      using run \<open>ok r\<close> that not_failed by (auto split: if_splits)
    moreover from this have "ok (a3 t)"
      using run \<open>ok r\<close> that by (auto split: option.splits if_splits)
    moreover from this have "ok (a2 t)"
      using ok_single_policy [OF _ assms(1)] by (simp add: a3_def)
    moreover from this have "access_granted ct request t \<and> ok a1"
      by (simp add: a2_def ok_grant_authorization)
    ultimately show ?thesis
      by simp
  qed
  have "ok a1"
    using run \<open>ok r\<close> step by (cases tool) auto
  moreover from this have failed: "va_failed acc = []"
    using one not_failed by (auto split: if_splits)
  ultimately obtain cfg tv t where t: "ok acc" "va_tool V (ps_config s) = Some cfg"
      "bd_tool_version_id b = ts_tool_version_id cfg"
      "ct_tool_version ct (ts_tool_version_id cfg) = Some tv" "tool = Some t" "ct_tool ct (tv_mcp_tool_id tv) = Some t"
      "tool_available ct tv t" "\<forall>ps. params = Some ps \<longrightarrow> bindings_fit V cfg ps (tv_input_schema tv)"
    using ok_check_single_tool [OF assms(1), of V ct b params refs acc tool a1] one by auto
  note t_ok = step [OF t(5)]
  obtain p where p: "ct_policy ct (mt_id t) = Some p" "policy_valid s p" "approval_valid ct p"
    using t_ok ok_single_policy [OF _ assms(1)] unfolding a3_def by blast
  obtain g where g: "find_grant ct request t = Some g"
    using t_ok by (auto simp: access_granted_def)
  have r: "r = (if gr_requires_confirmation g \<or> tp_requires_confirmation p
      then require_confirmation d request run (a3 t) else a3 t)"
    using run t(5) t_ok p(1) g by simp
  have "needs_confirmation ct request (ts_tool_version_id cfg) \<longleftrightarrow> gr_requires_confirmation g \<or> tp_requires_confirmation p"
    using t(4,6) g p(1) by (auto simp: needs_confirmation_def)
  then have "needs_confirmation ct request (ts_tool_version_id cfg) \<and> \<not> va_confirmation_required r \<longrightarrow>
      has_satisfied_plan_confirmation d request run (va_policy_snapshot r)"
    unfolding r by (simp add: require_confirmation_def)
  moreover have "tool_gate ct request s (ts_tool_version_id cfg) p"
    unfolding tool_gate_def using t(4,6,7) t_ok p by blast
  ultimately show ?thesis
    using t by blast
qed

subsection \<open>The path of the pair\<close>

lemma pair_step_eq:
  assumes "ct_tool ct (tv_mcp_tool_id tv) = Some tool"
    and a1: "a1 = validate_tool_policy plan (ct_policy ct (mt_id tool)) (Some sid)
    (validate_authorization ct request tool (validate_agent_tool_grant (find_grant ct request tool)
      (validate_tool_availability tv (Some tool) (ct_server ct (mt_mcp_server_id tool)) acc)))"
    and a2: "\<And>p. a2 p = (if is_safe_readonly_policy p then a1
     else checks [reject_if (tp_risk_class p \<noteq> ''READ_ONLY'') POLICY_INVALID (Some sid),
                  reject_if (tp_requires_confirmation p \<or> tp_requires_approval p) POLICY_INVALID (Some sid)] a1)"
  shows "check_pair_step ct request plan (sid, tv) (snapshots, confirm, acc) =
      (case ct_policy ct (mt_id tool) of
         None \<Rightarrow> (snapshots, confirm, a1)
       | Some p \<Rightarrow>
           (dict_set sid (JObj [(''tool_version_id'', JStr (uuid_str (tv_id tv))),
              (''policy'', build_safe_tool_policy_snapshot p (fst (check_approval ct p (Some sid) (a2 p))))]) snapshots,
            confirm \<or> (case find_grant ct request tool of None \<Rightarrow> False
                        | Some g \<Rightarrow> gr_requires_confirmation g \<or> tp_requires_confirmation p),
            snd (check_approval ct p (Some sid) (a2 p))))"
  by (cases "ct_policy ct (mt_id tool)")
    (simp_all add: check_pair_step_def assms(1) Let_def a1 a2 split: prod.split)

lemma ok_pair_step:
  assumes "check_pair_step ct request plan (sid, tv) (snapshots, confirm, acc) = (snapshots', confirm', acc')" and "ok acc'"
    and "find (\<lambda>s. ps_id s = sid) (plan_steps plan) = Some s" and "ct_tool_version ct version = Some tv"
  shows "ok acc \<and> (\<exists>p. tool_gate ct request s version p \<and> is_safe_readonly_policy p \<and>
    (\<exists>j. snapshots' = dict_set sid j snapshots) \<and> confirm' = (confirm \<or> needs_confirmation ct request version))"
proof (cases "ct_tool ct (tv_mcp_tool_id tv)")
  case None
  with assms(1,2) show ?thesis
    by (auto simp: check_pair_step_def)
next
  case (Some tool)
  define a1 where "a1 = validate_tool_policy plan (ct_policy ct (mt_id tool)) (Some sid)
    (validate_authorization ct request tool (validate_agent_tool_grant (find_grant ct request tool)
      (validate_tool_availability tv (Some tool) (ct_server ct (mt_mcp_server_id tool)) acc)))"
  define a2 where "a2 p = (if is_safe_readonly_policy p then a1
     else checks [reject_if (tp_risk_class p \<noteq> ''READ_ONLY'') POLICY_INVALID (Some sid),
                  reject_if (tp_requires_confirmation p \<or> tp_requires_approval p) POLICY_INVALID (Some sid)] a1)" for p
  have a1: "ok a1 \<longleftrightarrow> (\<exists>p. ct_policy ct (mt_id tool) = Some p \<and> policy_valid s p) \<and> access_granted ct request tool \<and>
      tool_available ct tv tool \<and> ok acc"
    unfolding a1_def ok_tool_policy(2) [OF assms(3)] ok_grant_authorization ok_availability by auto
  have a2: "ok (a2 p) \<longleftrightarrow> is_safe_readonly_policy p \<and> ok a1" for p
    by (auto simp: a2_def is_safe_readonly_policy_def)
  note run = pair_step_eq [OF Some a1_def a2_def]
  show ?thesis
  proof (cases "ct_policy ct (mt_id tool)")
    case None
    with run assms(1,2) a1 show ?thesis
      by auto
  next
    case policy: (Some p)
    from run assms(1,2) policy have ok: "approval_valid ct p" "ok (a2 p)"
      by (auto simp: ok_approval)
    with a1 a2 policy have facts: "is_safe_readonly_policy p" "policy_valid s p" "access_granted ct request tool"
        "tool_available ct tv tool" "ok acc"
      by auto
    obtain g where g: "find_grant ct request tool = Some g"
      using facts(3) by (auto simp: access_granted_def)
    have "needs_confirmation ct request version \<longleftrightarrow> gr_requires_confirmation g \<or> tp_requires_confirmation p"
      using assms(4) Some g policy by (auto simp: needs_confirmation_def)
    moreover have "tool_gate ct request s version p"
      unfolding tool_gate_def using assms(4) Some facts(2-4) policy ok(1) by blast
    ultimately show ?thesis
      using run assms(1) policy g facts(1,5) by auto
  qed
qed

lemma ok_pair_access:
  assumes "plan_steps plan = [s, t]" and "ps_id s = DETERMINISTIC_TOOL_STEP_ID" "ps_id t = DETERMINISTIC_TOOL_STEP_ID_2"
    and "ct_tool_version ct v1 = Some tv1" "ct_tool_version ct v2 = Some tv2"
    and result: "r = validate_pair_access d ct request plan run tv1 tv2 acc" and "ok r"
  shows "ok acc \<and> (\<exists>p q. tool_gate ct request s v1 p \<and> is_safe_readonly_policy p \<and>
    tool_gate ct request t v2 q \<and> is_safe_readonly_policy q) \<and>
    ((needs_confirmation ct request v1 \<or> needs_confirmation ct request v2) \<and> \<not> va_confirmation_required r \<longrightarrow>
       has_satisfied_plan_confirmation d request run (va_policy_snapshot r))"
proof -
  have ids: "DETERMINISTIC_TOOL_STEP_ID \<noteq> DETERMINISTIC_TOOL_STEP_ID_2"
    by (simp add: DETERMINISTIC_TOOL_STEP_ID_def DETERMINISTIC_TOOL_STEP_ID_2_def)
  have finds: "find (\<lambda>s. ps_id s = DETERMINISTIC_TOOL_STEP_ID) (plan_steps plan) = Some s"
    "find (\<lambda>s. ps_id s = DETERMINISTIC_TOOL_STEP_ID_2) (plan_steps plan) = Some t"
    using assms(1-3) ids by simp_all
  obtain n1 c1 a1 where one: "check_pair_step ct request plan (DETERMINISTIC_TOOL_STEP_ID, tv1) ([], False, acc) = (n1, c1, a1)"
    by (metis prod_cases3)
  obtain n2 c2 a2 where two: "check_pair_step ct request plan (DETERMINISTIC_TOOL_STEP_ID_2, tv2) (n1, c1, a1) = (n2, c2, a2)"
    by (metis prod_cases3)
  have r: "r = (if has_blocking_errors a2 \<or> length n2 \<noteq> 2 then a2
      else let a3 = a2\<lparr>va_policy_snapshot :=
             build_agent_request_sequential_policy_snapshot (rq_agent_version_id request) n2\<rparr>
           in if c2 then require_confirmation d request run a3 else a3)"
    unfolding result validate_pair_access_def by (simp add: one two)
  with \<open>ok r\<close> have "ok a2"
    by (auto simp: Let_def split: if_splits)
  from ok_pair_step [OF two this finds(2) assms(5)] obtain q j2 where
    q: "ok a1" "tool_gate ct request t v2 q" "is_safe_readonly_policy q" "n2 = dict_set DETERMINISTIC_TOOL_STEP_ID_2 j2 n1"
      "c2 = (c1 \<or> needs_confirmation ct request v2)"
    by blast
  from ok_pair_step [OF one q(1) finds(1) assms(4)] obtain p j1 where
    p: "ok acc" "tool_gate ct request s v1 p" "is_safe_readonly_policy p" "n1 = dict_set DETERMINISTIC_TOOL_STEP_ID j1 []"
      "c1 = needs_confirmation ct request v1"
    by auto
  have "length n2 = 2"
    using ids by (simp add: q(4) p(4) dict_set_def)
  with r \<open>ok a2\<close> have "c2 \<and> \<not> va_confirmation_required r \<longrightarrow>
      has_satisfied_plan_confirmation d request run (va_policy_snapshot r)"
    by (simp add: Let_def require_confirmation_def)
  with p q show ?thesis
    by blast
qed

subsection \<open>The companion's bindings\<close>

definition companion_binding_ok ::
    "validator_codec \<Rightarrow> structured_request \<Rightarrow> json \<Rightarrow> string \<Rightarrow> string \<Rightarrow> plan_binding \<Rightarrow> bool" where
  "companion_binding_ok V sr schema src k b \<longleftrightarrow>
     (\<exists>path. b = PlanStepOutputBinding src path \<and> prefix ''/'' path) \<or>
     (\<exists>v t. b = PlanLiteralBinding v \<and> companion_param_json_type schema k = Some t \<and>
        companion_literal_matches_explicit_id (va_floats V) sr k v t = Inr True)"

definition companion_fits ::
    "validator_codec \<Rightarrow> structured_request \<Rightarrow> tool_config \<Rightarrow> json \<Rightarrow> string \<Rightarrow> bool" where
  "companion_fits V sr cfg schema src \<longleftrightarrow>
     (\<exists>kvs props. schema = JObj kvs \<and> get_or_none kvs ''type'' = JStr ''object'' \<and>
        get_or_none kvs ''properties'' = JObj props \<and> set (dict_keys (tc_bindings cfg)) \<subseteq> set (dict_keys props) \<and>
        (\<forall>xs r. get_or_none kvs ''required'' = JList xs \<and> JStr r \<in> set xs \<longrightarrow> r \<in> set (dict_keys (tc_bindings cfg))) \<and>
        (\<forall>(k, b) \<in> set (tc_bindings cfg). companion_binding_ok V sr schema src k b))"

lemma ok_companion_binding:
  assumes "check_companion_binding V sr schema src sid (k, b) acc = Inr acc'" and "ok acc'"
  shows "companion_binding_ok V sr schema src k b \<and> ok acc"
  using assms by (cases b)
    (auto simp: check_companion_binding_def companion_binding_ok_def and_then_Inr_iff split: option.splits)

lemma ok_companion_loop:
  "foldE (check_companion_binding V sr schema src sid) bs acc = Inr acc' \<Longrightarrow> ok acc' \<Longrightarrow>
     (\<forall>(k, b) \<in> set bs. companion_binding_ok V sr schema src k b) \<and> ok acc"
proof (induction bs arbitrary: acc)
  case (Cons kb bs)
  obtain k b where kb: "kb = (k, b)"
    by (cases kb)
  from Cons.prems(1) obtain a1 where "check_companion_binding V sr schema src sid (k, b) acc = Inr a1"
      "foldE (check_companion_binding V sr schema src sid) bs a1 = Inr acc'"
    by (auto simp: kb and_then_Inr_iff)
  with Cons.IH Cons.prems(2) ok_companion_binding show ?case
    by (fastforce simp: kb)
qed simp

lemma ok_companion_bindings:
  assumes "validate_companion_bindings V sid cfg schema src (Some sr) acc = Inr acc'" and "ok acc'"
  shows "companion_fits V sr cfg schema src \<and> ok acc"
proof (cases schema)
  case (JObj kvs)
  show ?thesis
  proof (cases "get_or_none kvs ''properties''")
    case props: (JObj props)
    define required where
      "required = (case get_or_none kvs ''required'' of JList xs \<Rightarrow> List.map_filter as_str xs | _ \<Rightarrow> [])"
    define a1 where "a1 = checks
      [fold (\<lambda>(k, _). fail_if (k \<notin> set (dict_keys props)) BINDING_INVALID (Some sid)) (tc_bindings cfg),
       fold (\<lambda>r. fail_if (r \<notin> set (dict_keys (tc_bindings cfg))) BINDING_INVALID (Some sid)) required] acc"
    have type: "get_or_none kvs ''type'' = JStr ''object''"
      and loop: "foldE (check_companion_binding V sr schema src sid) (tc_bindings cfg) a1 = Inr acc'"
      using assms by (auto simp: validate_companion_bindings_def JObj props Let_def a1_def required_def split: if_splits)
    note all = ok_companion_loop [OF loop assms(2)]
    have "ok (fold (\<lambda>(k, _). fail_if (k \<notin> K) BINDING_INVALID (Some sid)) bs a) \<longleftrightarrow> fst ` set bs \<subseteq> K \<and> ok a"
      for bs :: "(string, plan_binding) dict" and K a
      by (induction bs arbitrary: a) auto
    with all have keys: "set (dict_keys (tc_bindings cfg)) \<subseteq> set (dict_keys props)"
        "set required \<subseteq> set (dict_keys (tc_bindings cfg))" "ok acc"
      by (auto simp: a1_def)
    have "r \<in> set required" if "get_or_none kvs ''required'' = JList xs" "JStr r \<in> set xs" for xs r
      using that by (force simp: required_def List.map_filter_def)
    with all keys type show ?thesis
      unfolding companion_fits_def using JObj props by blast
  qed (use assms in \<open>auto simp: validate_companion_bindings_def JObj split: if_splits\<close>)
qed (use assms in \<open>auto simp: validate_companion_bindings_def\<close>)

lemma load_structured_none: "load_structured_request V request acc = (None, acc') \<Longrightarrow> \<not> ok acc'"
  by (auto simp: load_structured_request_def split: if_splits option.splits)

lemma companion_keeps_issues:
  "validate_companion_bindings V sid cfg schema src None acc = Inr acc' \<Longrightarrow> ok acc' \<Longrightarrow> ok acc"
proof -
  have "ok (fold (\<lambda>(k, _). fail_if (k \<notin> K) BINDING_INVALID (Some sid)) bs a) \<longleftrightarrow> fst ` set bs \<subseteq> K \<and> ok a"
    for bs :: "(string, plan_binding) dict" and K a
    by (induction bs arbitrary: a) auto
  then show "validate_companion_bindings V sid cfg schema src None acc = Inr acc' \<Longrightarrow> ok acc' \<Longrightarrow> ok acc"
    by (auto simp: validate_companion_bindings_def Let_def split: json.splits if_splits)
qed

lemma pair_step_keeps_issues:
  assumes "check_pair_step ct request plan (sid, tv) (snapshots, confirm, acc) = (snapshots', confirm', acc')" and "ok acc'"
  shows "ok acc"
proof (cases "ct_tool ct (tv_mcp_tool_id tv)")
  case None
  with assms show ?thesis
    by (auto simp: check_pair_step_def)
next
  case (Some tool)
  define a1 where "a1 = validate_tool_policy plan (ct_policy ct (mt_id tool)) (Some sid)
    (validate_authorization ct request tool (validate_agent_tool_grant (find_grant ct request tool)
      (validate_tool_availability tv (Some tool) (ct_server ct (mt_mcp_server_id tool)) acc)))"
  have policy: "ok (validate_tool_policy plan policy sid' a) \<Longrightarrow> ok a" for policy sid' a
    by (auto simp: validate_tool_policy_def Let_def split: option.splits)
  have a1: "ok a1 \<Longrightarrow> ok acc"
    unfolding a1_def by (drule policy) (simp add: blocking_simps)
  define a2 where "a2 p = (if is_safe_readonly_policy p then a1
     else checks [reject_if (tp_risk_class p \<noteq> ''READ_ONLY'') POLICY_INVALID (Some sid),
                  reject_if (tp_requires_confirmation p \<or> tp_requires_approval p) POLICY_INVALID (Some sid)] a1)" for p
  have a2: "ok (a2 p) \<Longrightarrow> ok a1" for p
    by (auto simp: a2_def split: if_splits)
  have "ok a1"
    using pair_step_eq [OF Some a1_def a2_def] assms
    by (cases "ct_policy ct (mt_id tool)") (auto simp: ok_approval dest: a2)
  with a1 show ?thesis .
qed

lemma pair_access_keeps_issues:
  assumes "ok (validate_pair_access d ct request plan run tv1 tv2 acc)"
  shows "ok acc"
proof -
  obtain n1 c1 a1 where one: "check_pair_step ct request plan (DETERMINISTIC_TOOL_STEP_ID, tv1) ([], False, acc) = (n1, c1, a1)"
    by (metis prod_cases3)
  obtain n2 c2 a2 where two: "check_pair_step ct request plan (DETERMINISTIC_TOOL_STEP_ID_2, tv2) (n1, c1, a1) = (n2, c2, a2)"
    by (metis prod_cases3)
  have "ok a2"
    using assms by (auto simp: validate_pair_access_def one two Let_def split: if_splits)
  from pair_step_keeps_issues [OF one pair_step_keeps_issues [OF two this]] show ?thesis .
qed

lemma pair_tools_facts:
  assumes "plan_steps plan = [s, t]"
    and run: "validate_sequential_pair_tools V d ct request plan run b params refs acc = Inr r" and "ok r"
  shows "ok acc \<and> (\<exists>cfg1 cfg2 tv1 tv2 sr a4.
    va_tool V (ps_config s) = Some cfg1 \<and> va_complex V (ps_config t) = Some cfg2 \<and>
    bd_tool_version_id b = ts_tool_version_id cfg1 \<and>
    ct_tool_version ct (ts_tool_version_id cfg1) = Some tv1 \<and> ct_tool_version ct (tc_tool_version_id cfg2) = Some tv2 \<and>
    bindings_fit V cfg1 params (tv_input_schema tv1) \<and> va_structured V (rq_structured request) = Some sr \<and>
    companion_fits V sr cfg2 (tv_input_schema tv2) DETERMINISTIC_TOOL_STEP_ID \<and>
    r = validate_pair_access d ct request plan run tv1 tv2 a4)"
proof -
  have steps: "plan_steps plan ! 0 = s" "plan_steps plan ! 1 = t" "hd (plan_steps plan) = s"
    using assms(1) by simp_all
  from run \<open>ok r\<close> obtain cfg1 cfg2 where cfg: "va_tool V (ps_config s) = Some cfg1" "va_complex V (ps_config t) = Some cfg2"
    unfolding validate_sequential_pair_tools_def steps by (auto split: option.splits)
  define ref where "ref = map_of (ref_by_step refs)"
  define a1 where "a1 = checks
    [fail_if (bd_tool_version_id b \<noteq> ts_tool_version_id cfg1) SCHEMA_INVALID None,
     fail_if (ref DETERMINISTIC_TOOL_STEP_ID = None \<or>
              ref_mismatch (ref DETERMINISTIC_TOOL_STEP_ID) (ts_tool_version_id cfg1)) SCHEMA_INVALID None,
     fail_if (ref DETERMINISTIC_TOOL_STEP_ID_2 = None \<or>
              ref_mismatch (ref DETERMINISTIC_TOOL_STEP_ID_2) (tc_tool_version_id cfg2)) SCHEMA_INVALID None] acc"
  have not_failed: "va_failed a1 = []"
    using run \<open>ok r\<close> failed_blocks(1) [of r]
    unfolding validate_sequential_pair_tools_def steps by (auto simp: cfg a1_def ref_def Let_def split: if_splits)
  obtain tv1 tv2 where tv: "ct_tool_version ct (ts_tool_version_id cfg1) = Some tv1"
      "ct_tool_version ct (tc_tool_version_id cfg2) = Some tv2"
    using run \<open>ok r\<close> not_failed unfolding validate_sequential_pair_tools_def steps
    by (auto simp: cfg a1_def ref_def Let_def split: option.splits)
  define a2 where "a2 = fail_if (\<not> py_eq (bd_input_schema_snapshot b) (tv_input_schema tv1)) SCHEMA_INVALID None
     (validate_binding_projection V plan params (tv_input_schema tv1) a1)"
  obtain structured a3 where a3: "load_structured_request V request a2 = (structured, a3)"
    by (cases "load_structured_request V request a2")
  have "and_then (validate_companion_bindings V DETERMINISTIC_TOOL_STEP_ID_2 cfg2 (tv_input_schema tv2)
      DETERMINISTIC_TOOL_STEP_ID structured a3) (\<lambda>a4. Inr (validate_pair_access d ct request plan run tv1 tv2 a4)) = Inr r"
    using run not_failed a3 unfolding validate_sequential_pair_tools_def steps
    by (simp add: cfg tv a1_def ref_def a2_def Let_def)
  then obtain a4 where a4: "validate_companion_bindings V DETERMINISTIC_TOOL_STEP_ID_2 cfg2 (tv_input_schema tv2)
      DETERMINISTIC_TOOL_STEP_ID structured a3 = Inr a4" "r = validate_pair_access d ct request plan run tv1 tv2 a4"
    by (auto simp: and_then_Inr_iff)
  have access: "ok a4"
    using pair_access_keeps_issues \<open>ok r\<close> a4(2) by blast
  have "structured \<noteq> None"
    using load_structured_none a3 companion_keeps_issues a4(1) access by metis
  then obtain sr where sr: "structured = Some sr"
    by auto
  then have companion: "companion_fits V sr cfg2 (tv_input_schema tv2) DETERMINISTIC_TOOL_STEP_ID" "ok a3"
    using ok_companion_bindings a4(1) access by blast+
  have "a3 = a2" "va_structured V (rq_structured request) = Some sr"
    using a3 sr by (auto simp: load_structured_request_def split: if_splits option.splits)
  then have "bindings_fit V cfg1 params (tv_input_schema tv1)" "ok a1"
    using companion(2) ok_binding_projection [of V plan cfg1 params "tv_input_schema tv1" a1] cfg(1) steps(3)
    by (auto simp: a2_def)
  moreover from this have "ok acc" "bd_tool_version_id b = ts_tool_version_id cfg1"
    by (simp_all add: a1_def)
  ultimately show ?thesis
    using cfg tv companion(1) a4(2) \<open>va_structured V (rq_structured request) = Some sr\<close> by blast
qed

lemma ok_pair_path:
  assumes "plan_steps plan = [s, t]" and "ps_id s = DETERMINISTIC_TOOL_STEP_ID" "ps_id t = DETERMINISTIC_TOOL_STEP_ID_2"
    and run: "validate_sequential_pair_tools V d ct request plan run b params refs acc = Inr r" and "ok r"
  shows "ok acc \<and> (\<exists>cfg1 cfg2 tv1 tv2 sr p q.
    va_tool V (ps_config s) = Some cfg1 \<and> va_complex V (ps_config t) = Some cfg2 \<and>
    bd_tool_version_id b = ts_tool_version_id cfg1 \<and>
    ct_tool_version ct (ts_tool_version_id cfg1) = Some tv1 \<and> ct_tool_version ct (tc_tool_version_id cfg2) = Some tv2 \<and>
    bindings_fit V cfg1 params (tv_input_schema tv1) \<and> va_structured V (rq_structured request) = Some sr \<and>
    companion_fits V sr cfg2 (tv_input_schema tv2) DETERMINISTIC_TOOL_STEP_ID \<and>
    tool_gate ct request s (ts_tool_version_id cfg1) p \<and> is_safe_readonly_policy p \<and>
    tool_gate ct request t (tc_tool_version_id cfg2) q \<and> is_safe_readonly_policy q \<and>
    ((needs_confirmation ct request (ts_tool_version_id cfg1) \<or> needs_confirmation ct request (tc_tool_version_id cfg2)) \<and>
       \<not> va_confirmation_required r \<longrightarrow> has_satisfied_plan_confirmation d request run (va_policy_snapshot r)))"
proof -
  from pair_tools_facts [OF assms(1) run \<open>ok r\<close>] obtain cfg1 cfg2 tv1 tv2 sr a4 where facts: "ok acc"
      "va_tool V (ps_config s) = Some cfg1" "va_complex V (ps_config t) = Some cfg2"
      "bd_tool_version_id b = ts_tool_version_id cfg1"
      "ct_tool_version ct (ts_tool_version_id cfg1) = Some tv1" "ct_tool_version ct (tc_tool_version_id cfg2) = Some tv2"
      "bindings_fit V cfg1 params (tv_input_schema tv1)" "va_structured V (rq_structured request) = Some sr"
      "companion_fits V sr cfg2 (tv_input_schema tv2) DETERMINISTIC_TOOL_STEP_ID"
      "r = validate_pair_access d ct request plan run tv1 tv2 a4"
    by blast
  from ok_pair_access [OF assms(1-3) facts(5,6,10) \<open>ok r\<close>] facts show ?thesis
    by blast
qed

subsection \<open>All checks together\<close>

text \<open>The version a step's configuration names.\<close>

definition step_version :: "validator_codec \<Rightarrow> plan_step \<Rightarrow> uuid \<Rightarrow> bool" where
  "step_version V s v \<longleftrightarrow>
     (\<exists>cfg. va_tool V (ps_config s) = Some cfg \<and> v = ts_tool_version_id cfg) \<or>
     (\<exists>cfg. va_complex V (ps_config s) = Some cfg \<and> v = tc_tool_version_id cfg)"

lemma decision_ok: "decision acc \<in> {V_READY, V_WAITING_CONFIRMATION} \<longleftrightarrow> ok acc"
  "decision acc = V_READY \<Longrightarrow> \<not> va_confirmation_required acc"
  by (auto simp: decision_def ok_lists split: if_splits)

lemma ok_structure:
  assumes "ok (validate_plan_structure V plan refs acc)"
  shows "ok acc \<and> plan_structure_ok V plan refs"
proof -
  have "\<exists>s t. plan_steps plan = [s] \<or> plan_steps plan = [s, t]"
    using ok_structure_length [OF assms] by (cases "plan_steps plan"; cases "tl (plan_steps plan)") auto
  then show ?thesis
    using ok_single_structure [OF assms] ok_pair_structure [OF assms] by blast
qed

text \<open>The single-tool path is also taken by plans whose structure has an issue; then the result has one.\<close>

lemma single_tool_keeps_issues:
  assumes "ok (validate_single_tool V d ct request plan run build params refs acc)"
  shows "ok acc"
proof (cases "build = None \<or> plan_steps plan = []")
  case True
  with assms show ?thesis
    by (auto simp: validate_single_tool_def split: option.splits if_splits)
next
  case False
  then obtain b s ss where "build = Some b" "plan_steps plan = s # ss"
    by (cases "plan_steps plan") auto
  with ok_single_path [OF this(2) refl] assms show ?thesis
    by blast
qed

definition plan_accepted ::
    "validator_codec \<Rightarrow> vdb \<Rightarrow> agent_request \<Rightarrow> plan_run \<Rightarrow> execution_plan \<Rightarrow> build_run
     \<Rightarrow> (string, binding_value) dict \<Rightarrow> tool_ref list \<Rightarrow> bool" where
  "plan_accepted V d request run plan b params refs \<longleftrightarrow>
     va_plan V (pr_plan_snapshot run) = Some plan \<and>
     compute_canonical_json_hash (va_repr V) (pr_plan_snapshot run) = pr_plan_hash run \<and>
     pr_agent_request_id run = rq_id request \<and>
     plan_src plan = PlanSourceAgent (rq_agent_version_id request) \<and>
     find (\<lambda>b. bd_id b = pr_parameter_build_run_id run) (vd_build_runs d) = Some b \<and>
     bd_agent_request_id b = rq_id request \<and> bd_is_complete b \<and> bd_missing_fields b = [] \<and>
     va_params V (bd_bindings_snapshot b) = Some params \<and>
     refs = filter (\<lambda>r. rf_run_id r = pr_id run) (vd_tool_refs d) \<and>
     plan_structure_ok V plan refs"

lemma ok_source: "ok (check_source request plan acc) \<longleftrightarrow>
    plan_src plan = PlanSourceAgent (rq_agent_version_id request) \<and> ok acc"
  by (auto simp: check_source_def split: plan_source.splits)

lemma ok_build_run: "ok (check_build_run request build acc) \<longleftrightarrow>
    (\<exists>b. build = Some b \<and> bd_agent_request_id b = rq_id request \<and> bd_is_complete b \<and> bd_missing_fields b = [] \<and>
       bd_constraints_snapshot b = JNull) \<and> ok acc"
  by (auto simp: check_build_run_def split: option.splits)

lemma ok_load_params: "load_params V (Some b) acc = (params, acc') \<Longrightarrow> ok acc' \<Longrightarrow>
    acc' = acc \<and> (\<exists>ps. params = Some ps \<and> va_params V (bd_bindings_snapshot b) = Some ps)"
  by (cases "va_params V (bd_bindings_snapshot b)") (auto simp: load_params_def dest: failed_blocks split: if_splits)

lemma run_checks_facts:
  assumes run: "run_checks V d ct request run = Inr acc" and "ok acc"
  shows "\<exists>plan b params refs a4. plan_accepted V d request run plan b params refs \<and>
    (if length (plan_steps plan) = 2
     then validate_sequential_pair_tools V d ct request plan run b params refs a4 = Inr acc
     else acc = validate_single_tool V d ct request plan run (Some b) (Some params) refs a4)"
proof -
  from assms obtain agent_schema where version: "ct_agent_version ct (rq_agent_version_id request) = Some agent_schema"
    by (auto simp: run_checks_def split: option.splits)
  define a1 where "a1 = checks
    [fail_if (pr_agent_request_id run \<noteq> rq_id request) SCHEMA_INVALID None,
     fail_if (pr_agent_version_id run \<noteq> rq_agent_version_id request) SCHEMA_INVALID None,
     fail_if (pr_plan_schema_version run \<noteq> ''1.0'') SCHEMA_INVALID None,
     fail_if (agent_schema \<noteq> ''1.0'') SCHEMA_INVALID None] empty_validation"
  obtain plan where plan: "va_plan V (pr_plan_snapshot run) = Some plan"
  proof (cases "va_plan V (pr_plan_snapshot run)")
    case None
    with run have "acc = fail SCHEMA_INVALID None a1"
      by (simp add: run_checks_def version a1_def Let_def)
    with \<open>ok acc\<close> show ?thesis
      by simp
  qed blast
  define build where "build = find (\<lambda>b. bd_id b = pr_parameter_build_run_id run) (vd_build_runs d)"
  define refs where "refs = filter (\<lambda>r. rf_run_id r = pr_id run) (vd_tool_refs d)"
  define a2 where "a2 = check_build_run request build (check_source request plan
    (fail_if (compute_canonical_json_hash (va_repr V) (pr_plan_snapshot run) \<noteq> pr_plan_hash run) SCHEMA_INVALID None a1))"
  obtain params a3 where a3: "load_params V build a2 = (params, a3)"
    by (cases "load_params V build a2")
  define a4 where "a4 = validate_plan_structure V plan refs a3"
  have eq: "Inr acc = (case (build, params) of
      (Some b, Some ps) \<Rightarrow>
        if va_failed a4 = [] \<and> length (plan_steps plan) = 2
        then validate_sequential_pair_tools V d ct request plan run b ps refs a4
        else Inr (validate_single_tool V d ct request plan run build params refs a4)
    | _ \<Rightarrow> Inr (validate_single_tool V d ct request plan run build params refs a4))"
    unfolding run [symmetric] run_checks_def using a3
    by (simp add: version plan Let_def a4_def a2_def a1_def build_def refs_def cong: option.case_cong if_cong)
  have "ok a4"
  proof (rule ccontr)
    assume bad: "\<not> ok a4"
    with eq \<open>ok acc\<close> obtain b ps where "build = Some b" "params = Some ps" "length (plan_steps plan) = 2"
        "va_failed a4 = []" "Inr acc = validate_sequential_pair_tools V d ct request plan run b ps refs a4"
      using single_tool_keeps_issues by (auto split: option.splits if_splits)
    moreover from this(3) obtain s t where "plan_steps plan = [s, t]"
      by (cases "plan_steps plan"; cases "tl (plan_steps plan)") auto
    ultimately show False
      using bad pair_tools_facts [where acc = a4, OF _ sym \<open>ok acc\<close>] by blast
  qed
  then have a3_ok: "ok a3" "plan_structure_ok V plan refs"
    using ok_structure by (auto simp: a4_def)
  then obtain b where b: "build = Some b"
    using a3 by (cases build) (auto simp: load_params_def a2_def check_build_run_def)
  obtain ps where ps: "a3 = a2" "params = Some ps" "va_params V (bd_bindings_snapshot b) = Some ps"
    using ok_load_params [OF a3 [unfolded b] a3_ok(1)] by blast
  with a3_ok(1) have "ok a2"
    by simp
  then have "plan_accepted V d request run plan b ps refs"
    unfolding plan_accepted_def using plan a3_ok(2) ps(3) b
    by (simp add: a2_def ok_source ok_build_run build_def refs_def a1_def)
  moreover have "if length (plan_steps plan) = 2
     then validate_sequential_pair_tools V d ct request plan run b ps refs a4 = Inr acc
     else acc = validate_single_tool V d ct request plan run (Some b) (Some ps) refs a4"
    using eq \<open>ok a4\<close> by (auto simp: b ps(2) ok_lists)
  ultimately show ?thesis
    by blast
qed

end
