(* ===== verification/ToolPreflight.thy ===== *)
theory ToolPreflight
  imports PlanValidatorSafety ExecutionDb
begin

section \<open>The check before a tool is called\<close>

text \<open>
  \<^verbatim>\<open>src/backend/app/execution/runtime_preflight.py\<close>: what has to hold now, whatever was validated earlier,
  when an execution is created, when an attempt starts, and immediately before the remote call.  The catalogue rows
  are those of the plan validator; \<open>workflow_catalog\<close> adds the two tables of workflows.  Every function raises or
  returns the rows it has loaded.  Values of the status columns are constrained by the tables, so the test of the
  code for an unknown status of an agent version never fails.
\<close>

abbreviation FORBIDDEN :: py_error where
  "FORBIDDEN \<equiv> AppError ''FORBIDDEN'' 403"

abbreviation guard :: "bool \<Rightarrow> py_error \<Rightarrow> 'a result \<Rightarrow> 'a result" where
  "guard b e r \<equiv> and_then (raise_if (\<not> b) e) (\<lambda>_. r)"

subsection \<open>Tool, server, user and policy\<close>

record common_tool_auth =
  ta_tool_version :: tool_version
  ta_logical_tool :: mcp_tool
  ta_server :: mcp_server
  ta_tool_policy :: tool_policy
  ta_approval_policy :: "approval_policy option"
  ta_policy_snapshot :: json

record runtime_tool_authorization = common_tool_auth +
  ta_agent_grant :: "tool_grant option"
  ta_confirmation_required :: bool

definition current_tool :: "catalog \<Rightarrow> tool_version \<Rightarrow> mcp_tool result" where
  "current_tool ct tv =
     and_then (opt_or (ct_tool ct (tv_mcp_tool_id tv)) PRECONDITION_FAILED) (\<lambda>tool.
       guard (mt_deleted_at tool = None \<and> mt_status tool = ''ACTIVE'' \<and> mt_current_version_id tool = Some (tv_id tv))
         PRECONDITION_FAILED (Inr tool))"

definition active_server :: "catalog \<Rightarrow> mcp_tool \<Rightarrow> mcp_server result" where
  "active_server ct tool =
     and_then (opt_or (ct_server ct (mt_mcp_server_id tool)) PRECONDITION_FAILED) (\<lambda>server.
       guard (ms_deleted_at server = None \<and> ms_status server = ''ACTIVE'') PRECONDITION_FAILED
         (guard (ms_transport_type server \<in> {''STDIO'', ''STREAMABLE_HTTP'', ''LEGACY_HTTP_SSE''} \<and>
                 ms_protocol_era server \<in> {''CURRENT'', ''LEGACY''}) PRECONDITION_FAILED (Inr server)))"

definition authorized :: "authorization_snapshot \<Rightarrow> bool" where
  "authorized s \<longleftrightarrow> au_user_exists s \<and> au_user_active s \<and> au_permission_present s \<and> au_resource_grant_present s"

definition policy_integrity :: "tool_policy \<Rightarrow> int option \<Rightarrow> unit result" where
  "policy_integrity p timeout =
     guard (risk_class_known (tp_risk_class p)) PRECONDITION_FAILED
       (guard (0 < tp_timeout_ms p \<and> 1 \<le> tp_max_attempts p \<and> 0 < tp_max_result_bytes p) PRECONDITION_FAILED
         (case timeout of
            None \<Rightarrow> Inr ()
          | Some t \<Rightarrow> raise_if (t \<noteq> expected_timeout (tp_timeout_ms p)) PRECONDITION_FAILED))"

definition required_approval_policy :: "catalog \<Rightarrow> tool_policy \<Rightarrow> approval_policy option result" where
  "required_approval_policy ct p =
     (if \<not> tp_requires_approval p then Inr None
      else and_then (opt_or (tp_approval_policy_id p) PRECONDITION_FAILED) (\<lambda>aid.
        and_then (opt_or (ct_approval_policy ct aid) PRECONDITION_FAILED) (\<lambda>a.
          guard (ay_status a = ''ACTIVE'' \<and> 1 \<le> ay_required_approvals a \<and> 0 < ay_default_expiry_seconds a)
            PRECONDITION_FAILED
            (guard (ay_decision_mode a \<in> {''ANY'', ''ALL'', ''QUORUM''}) PRECONDITION_FAILED (Inr (Some a))))))"

definition assert_common_tool_executable ::
    "catalog \<Rightarrow> uuid \<Rightarrow> uuid \<Rightarrow> json \<Rightarrow> int option \<Rightarrow> common_tool_auth result" where
  "assert_common_tool_executable ct requester version expected timeout =
     and_then (opt_or (ct_tool_version ct version) PRECONDITION_FAILED) (\<lambda>tv.
     guard (tv_validation_status tv = ''VALID'') PRECONDITION_FAILED
     (and_then (current_tool ct tv) (\<lambda>tool.
     and_then (active_server ct tool) (\<lambda>server.
     guard (authorized (ct_authorization ct requester ''mcp.tool.execute'' ''MCP_TOOL'' (mt_id tool))) FORBIDDEN
     (and_then (opt_or (ct_policy ct (mt_id tool)) PRECONDITION_FAILED) (\<lambda>p.
     and_then (policy_integrity p timeout) (\<lambda>_.
     and_then (required_approval_policy ct p) (\<lambda>approval.
       let current = build_safe_tool_policy_snapshot p approval in
       guard (py_eq current expected) PRECONDITION_FAILED
         (Inr \<lparr>ta_tool_version = tv, ta_logical_tool = tool, ta_server = server, ta_tool_policy = p,
               ta_approval_policy = approval, ta_policy_snapshot = current\<rparr>)))))))))"

definition runtime_authorization ::
    "common_tool_auth \<Rightarrow> tool_grant option \<Rightarrow> bool \<Rightarrow> runtime_tool_authorization" where
  "runtime_authorization core grant confirm =
     common_tool_auth.extend core \<lparr>ta_agent_grant = grant, ta_confirmation_required = confirm\<rparr>"

subsection \<open>An agent's tool\<close>

definition assert_current_agent_tool_executable ::
    "catalog \<Rightarrow> uuid \<Rightarrow> uuid \<Rightarrow> uuid \<Rightarrow> json \<Rightarrow> int option \<Rightarrow> runtime_tool_authorization result" where
  "assert_current_agent_tool_executable ct requester agent version expected timeout =
     guard (ct_agent_version ct agent \<noteq> None) PRECONDITION_FAILED
     (and_then (assert_common_tool_executable ct requester version expected timeout) (\<lambda>core.
       case find (\<lambda>g. gr_mcp_tool_id g = mt_id (ta_logical_tool core)) (ct_grants ct agent) of
         None \<Rightarrow> Inl FORBIDDEN
       | Some g \<Rightarrow>
           guard (gr_effect g = ''ALLOW'') FORBIDDEN
           (guard (gr_parameter_constraints g = JNull) PRECONDITION_FAILED
             (Inr (runtime_authorization core (Some g)
               (gr_requires_confirmation g \<or> tp_requires_confirmation (ta_tool_policy core)))))))"

subsection \<open>A pinned workflow\<close>

record workflow_version =
  wv_id :: uuid
  wv_workflow_id :: uuid
  wv_status :: string
  wv_validation_status :: string
  wv_plan_schema_version :: string
  wv_plan_definition :: json
  wv_input_schema :: json
  wv_output_schema :: json
  wv_policy_defaults :: json
  wv_content_hash :: string

record workflow =
  wf_id :: uuid
  wf_status :: string
  wf_deleted_at :: "time option"

record workflow_catalog =
  wc_version :: "uuid \<Rightarrow> workflow_version option"
  wc_workflow :: "uuid \<Rightarrow> workflow option"

text \<open>\<open>ExecutionPlanV1.model_validate\<close>, \<open>model_dump(mode="json")\<close> of a plan, and the repr of floats.\<close>

record plan_codec =
  pc_validate :: "json \<Rightarrow> execution_plan option"
  pc_dump :: "execution_plan \<Rightarrow> json"
  pc_repr :: "rat \<Rightarrow> string"

text \<open>\<open>_semantic_equal\<close>: values that went through JSON, where the round trip and the sorting change nothing.\<close>

definition semantic_equal :: "json \<Rightarrow> json \<Rightarrow> bool" where
  "semantic_equal l r = py_eq l r"

definition workflow_version_content_hash :: "(rat \<Rightarrow> string) \<Rightarrow> workflow_version \<Rightarrow> string" where
  "workflow_version_content_hash fr v =
     compute_canonical_json_hash fr
       (JObj [(''plan_schema_version'', JStr (wv_plan_schema_version v)), (''plan_definition'', wv_plan_definition v),
              (''input_schema'', wv_input_schema v), (''output_schema'', wv_output_schema v),
              (''policy_defaults'', wv_policy_defaults v)])"

definition source_is_workflow :: "execution_plan \<Rightarrow> uuid \<Rightarrow> bool" where
  "source_is_workflow plan wid \<longleftrightarrow> (case plan_src plan of PlanSourceWorkflow w \<Rightarrow> w = wid | _ \<Rightarrow> False)"

definition assert_schedule_occurrence_lineage :: "db \<Rightarrow> execution_row \<Rightarrow> unit result" where
  "assert_schedule_occurrence_lineage d ex =
     guard (is_workflow_schedule_occurrence ex \<or> is_agent_schedule_occurrence ex) RESOURCE_CONFLICT
     (guard (trigger_type ex \<in> {''SCHEDULE'', ''USER''}) RESOURCE_CONFLICT
     (and_then (opt_or (find (\<lambda>oc. Some (oc_id oc) = schedule_occurrence_id ex) (db_occurrences d)) PRECONDITION_FAILED) (\<lambda>oc.
      and_then (opt_or (find (\<lambda>sc. sc_id sc = oc_schedule_id oc) (db_schedules d)) PRECONDITION_FAILED) (\<lambda>sc.
        raise_if (owner_id sc \<noteq> requester_id ex) RESOURCE_CONFLICT))))"

record workflow_authorization =
  wa_workflow :: workflow
  wa_version :: workflow_version
  wa_plan :: execution_plan

definition assert_pinned_workflow_core ::
    "plan_codec \<Rightarrow> catalog \<Rightarrow> workflow_catalog \<Rightarrow> execution_row \<Rightarrow> workflow_authorization result" where
  "assert_pinned_workflow_core P ct wc ex =
     and_then (opt_or (workflow_version_id ex) AssertionError) (\<lambda>vid.
     and_then (opt_or (wc_version wc vid) PRECONDITION_FAILED) (\<lambda>v.
     guard (wv_status v \<in> {''PUBLISHED'', ''DEPRECATED''}) PRECONDITION_FAILED
     (guard (wv_validation_status v = ''VALID'') RESOURCE_CONFLICT
     (guard (wv_plan_schema_version v = plan_schema_version ex) RESOURCE_CONFLICT
     (and_then (opt_or (wc_workflow wc (wv_workflow_id v)) PRECONDITION_FAILED) (\<lambda>w.
     guard (wf_deleted_at w = None) PRECONDITION_FAILED
     (guard (wf_status w = ''ACTIVE'') PRECONDITION_FAILED
     (guard (wv_workflow_id v = wf_id w) RESOURCE_CONFLICT
     (guard (is_dict (wv_plan_definition v)) RESOURCE_CONFLICT
     (and_then (opt_or (pc_validate P (wv_plan_definition v)) RESOURCE_CONFLICT) (\<lambda>version_plan.
     guard (source_is_workflow version_plan (wf_id w)) RESOURCE_CONFLICT
     (guard (workflow_version_content_hash (pc_repr P) v = wv_content_hash v) RESOURCE_CONFLICT
     (and_then (opt_or (pc_validate P (plan_snapshot ex)) RESOURCE_CONFLICT) (\<lambda>plan.
     guard (source_is_workflow plan (wf_id w)) RESOURCE_CONFLICT
     (guard (semantic_equal (pc_dump P plan) (pc_dump P version_plan)) RESOURCE_CONFLICT
     (guard (compute_plan_hash (pc_repr P) (plan_snapshot ex) = plan_hash ex) RESOURCE_CONFLICT
     (guard (authorized (ct_authorization ct (requester_id ex) ''workflow.execute'' ''WORKFLOW'' (wf_id w))) FORBIDDEN
       (Inr \<lparr>wa_workflow = w, wa_version = v, wa_plan = plan\<rparr>))))))))))))))))))"

definition assert_pinned_workflow_execution_authorized ::
    "plan_codec \<Rightarrow> catalog \<Rightarrow> workflow_catalog \<Rightarrow> db \<Rightarrow> execution_row \<Rightarrow> workflow_authorization result" where
  "assert_pinned_workflow_execution_authorized P ct wc d ex =
     guard (source_type ex \<in> {''WORKFLOW_VERSION'', ''SCHEDULE_OCCURRENCE''}) RESOURCE_CONFLICT
     (and_then
       (if source_type ex = ''SCHEDULE_OCCURRENCE'' then assert_schedule_occurrence_lineage d ex
        else raise_if (workflow_version_id ex = None \<or> agent_request_id ex \<noteq> None \<or> agent_version_id ex \<noteq> None \<or>
               schedule_occurrence_id ex \<noteq> None \<or> plan_validation_run_id ex \<noteq> None) RESOURCE_CONFLICT)
       (\<lambda>_. assert_pinned_workflow_core P ct wc ex))"

text \<open>The check when a workflow execution is created, which wants the published version.\<close>

definition assert_current_workflow_tool_executable ::
    "plan_codec \<Rightarrow> catalog \<Rightarrow> workflow_catalog \<Rightarrow> uuid \<Rightarrow> uuid \<Rightarrow> uuid \<Rightarrow> json \<Rightarrow> int option
     \<Rightarrow> runtime_tool_authorization result" where
  "assert_current_workflow_tool_executable P ct wc requester vid version expected timeout =
     and_then (opt_or (wc_version wc vid) PRECONDITION_FAILED) (\<lambda>v.
     guard (wv_status v = ''PUBLISHED'') PRECONDITION_FAILED
     (and_then (opt_or (wc_workflow wc (wv_workflow_id v)) PRECONDITION_FAILED) (\<lambda>w.
     guard (wf_deleted_at w = None) PRECONDITION_FAILED
     (guard (wf_status w = ''ACTIVE'') PRECONDITION_FAILED
     (and_then (opt_or (pc_validate P (wv_plan_definition v)) PRECONDITION_FAILED) (\<lambda>plan.
     guard (source_is_workflow plan (wf_id w)) PRECONDITION_FAILED
     (guard (authorized (ct_authorization ct requester ''workflow.execute'' ''WORKFLOW'' (wf_id w))) FORBIDDEN
     (and_then (assert_common_tool_executable ct requester version expected timeout) (\<lambda>core.
       Inr (runtime_authorization core None (tp_requires_confirmation (ta_tool_policy core))))))))))))"

subsection \<open>Any execution\<close>

definition assert_source_tool_executable ::
    "plan_codec \<Rightarrow> catalog \<Rightarrow> workflow_catalog \<Rightarrow> db \<Rightarrow> execution_row \<Rightarrow> uuid \<Rightarrow> json \<Rightarrow> int option
     \<Rightarrow> runtime_tool_authorization result" where
  "assert_source_tool_executable P ct wc d ex version expected timeout =
     (let common = and_then (assert_common_tool_executable ct (requester_id ex) version expected timeout) (\<lambda>core.
            Inr (runtime_authorization core None (tp_requires_confirmation (ta_tool_policy core)))) in
      if source_type ex = ''AGENT_REQUEST'' \<or> source_type ex = ''SCHEDULE_OCCURRENCE'' \<and> is_agent_schedule_occurrence ex then
        and_then (opt_or (agent_version_id ex) PRECONDITION_FAILED) (\<lambda>agent.
        and_then (if source_type ex = ''SCHEDULE_OCCURRENCE'' then assert_schedule_occurrence_lineage d ex else Inr ()) (\<lambda>_.
          assert_current_agent_tool_executable ct (requester_id ex) agent version expected timeout))
      else if source_type ex = ''WORKFLOW_VERSION'' \<or>
              source_type ex = ''SCHEDULE_OCCURRENCE'' \<and> is_workflow_schedule_occurrence ex then
        and_then (assert_pinned_workflow_execution_authorized P ct wc d ex) (\<lambda>_. common)
      else if source_type ex = ''SCHEDULE_OCCURRENCE'' then Inl RESOURCE_CONFLICT
      else if source_type ex = ''MANUAL_TOOL_TEST'' then common
      else Inl RESOURCE_CONFLICT)"

subsection \<open>Confirmed plans\<close>

definition get_latest_waiting_confirmation_for_plan ::
    "vdb \<Rightarrow> uuid \<Rightarrow> uuid \<Rightarrow> string \<Rightarrow> json \<Rightarrow> validation_run option" where
  "get_latest_waiting_confirmation_for_plan d rid run_id h snapshot =
     (case find (\<lambda>v. vr_agent_request_id v = rid \<and> vr_decision v = V_WAITING_CONFIRMATION \<and> vr_confirmation_required v \<and>
             vr_plan_generation_run_id v = run_id \<and> vr_plan_hash v = h \<and> vr_clarification_request_id v \<noteq> None)
           (vd_validations d) of
        None \<Rightarrow> None
      | Some v \<Rightarrow> if py_eq (vr_policy_snapshot v) snapshot then Some v else None)"

definition assert_answered_plan_confirmation ::
    "vdb \<Rightarrow> uuid \<Rightarrow> uuid \<Rightarrow> uuid \<Rightarrow> string \<Rightarrow> json \<Rightarrow> unit result" where
  "assert_answered_plan_confirmation d rid requester run_id h snapshot =
     (case Option.bind (get_latest_waiting_confirmation_for_plan d rid run_id h snapshot) vr_clarification_request_id of
        None \<Rightarrow> Inl PRECONDITION_FAILED
      | Some cid \<Rightarrow>
          (case find (\<lambda>c. cl_id c = cid) (vd_clarifications d) of
             None \<Rightarrow> Inl PRECONDITION_FAILED
           | Some c \<Rightarrow>
               raise_if (\<not> (cl_request_type c = ''PLAN_CONFIRMATION'' \<and> cl_status c = ''ANSWERED'' \<and>
                 py_eq (cl_response_payload c) (JObj [(''confirmed'', JBool True)]) \<and> cl_answered_by c = Some requester))
                 PRECONDITION_FAILED))"

end
