(* ===== verification/StaticPlan.thy ===== *)
theory StaticPlan
  imports PlanCycle BindingResolver LoopRuntime
begin

section \<open>The static validator of complex plans\<close>

text \<open>
  \<^verbatim>\<open>src/backend/app/agent/complex_plan_validator.py\<close>: the graph contract of a plan, checked when a
  workflow is published and again before the rows of an execution are created.  \<open>errors\<close> is a list of
  issues, without their messages and details; a check returns the issues it appends.  The last argument of
  \<open>config_issues\<close> says whether the text of pydantic's error on a configuration mentions a predicate, which
  only chooses the code of the issue.
\<close>

record complex_issue =
  ci_code :: string
  ci_step :: "string option"

definition issue_if :: "bool \<Rightarrow> string \<Rightarrow> string option \<Rightarrow> complex_issue list" where
  "issue_if b code step = (if b then [\<lparr>ci_code = code, ci_step = step\<rparr>] else [])"

definition SYSTEM_HARD_MAX_STEPS :: int where "SYSTEM_HARD_MAX_STEPS = 100"
definition SYSTEM_HARD_MAX_DURATION_SECONDS :: int where "SYSTEM_HARD_MAX_DURATION_SECONDS = 3600"
definition SYSTEM_HARD_MAX_PARALLELISM :: int where "SYSTEM_HARD_MAX_PARALLELISM = 32"
definition SYSTEM_HARD_MAX_LOOP_ITERATIONS :: int where "SYSTEM_HARD_MAX_LOOP_ITERATIONS = 500"
definition MAX_LOOP_NESTING_DEPTH :: nat where "MAX_LOOP_NESTING_DEPTH = 3"

subsection \<open>Identifiers and dependencies\<close>

definition duplicate_issues :: "string list \<Rightarrow> complex_issue list" where
  "duplicate_issues ids =
     (if card (set ids) = length ids then []
      else fst (fold (\<lambda>sid (errs, seen).
             (errs @ issue_if (sid \<in> seen) ''PLAN_STEP_DUPLICATE'' (Some sid), insert sid seen)) ids ([], {})))"

definition dependency_issues :: "string set \<Rightarrow> plan_step \<Rightarrow> complex_issue list" where
  "dependency_issues ids s =
     fst (fold (\<lambda>dep (errs, seen).
       (errs @ issue_if (dep \<notin> ids) ''PLAN_DEPENDENCY_MISSING'' (Some (ps_id s))
             @ issue_if (dep = ps_id s) ''PLAN_DEPENDENCY_MISSING'' (Some (ps_id s))
             @ issue_if (dep \<in> seen) ''PLAN_DEPENDENCY_MISSING'' (Some (ps_id s)), insert dep seen))
       (ps_depends_on s) ([], {}))"

subsection \<open>Reachability\<close>

text \<open>
  The breadth first search.  A node is expanded once and an edge appended at most once, so the fuel, the number of
  roots and edges, is enough (\<open>reach_total\<close>).
\<close>

fun reach :: "nat \<Rightarrow> (string, string list) dict \<Rightarrow> string list \<Rightarrow> string set \<Rightarrow> string set option" where
  "reach n adj [] seen = Some seen"
| "reach 0 adj (x # q) seen = None"
| "reach (Suc n) adj (x # q) seen =
     (if x \<in> seen then reach n adj q seen
      else reach n adj (q @ filter (\<lambda>y. y \<notin> insert x seen) (dict_get adj x [])) (insert x seen))"

definition edge_count :: "(string, string list) dict \<Rightarrow> nat" where
  "edge_count adj = sum_list (map (\<lambda>(_, ys). length ys) adj)"

definition reachable_from_roots :: "plan_step list \<Rightarrow> string set option" where
  "reachable_from_roots steps =
     (let adj = adjacency steps; roots = map ps_id (filter (\<lambda>s. ps_depends_on s = []) steps)
      in if roots = [] then Some {} else reach (length roots + edge_count adj) adj roots {})"

definition unreachable_issues :: "plan_step list \<Rightarrow> complex_issue list" where
  "unreachable_issues steps =
     (if steps = [] then []
      else case reachable_from_roots steps of
             None \<Rightarrow> []
           | Some r \<Rightarrow> map (\<lambda>sid. \<lparr>ci_code = ''PLAN_SCHEMA_INVALID'', ci_step = Some sid\<rparr>)
                         (sort (filter (\<lambda>sid. sid \<notin> r) (remdups (map ps_id steps)))))"

subsection \<open>Limits\<close>

definition limit_hard_bounds :: "plan_limits \<Rightarrow> complex_issue list" where
  "limit_hard_bounds L =
     issue_if (max_steps L > SYSTEM_HARD_MAX_STEPS) ''PLAN_LIMIT_EXCEEDED'' None @
     issue_if (max_duration_seconds L > SYSTEM_HARD_MAX_DURATION_SECONDS) ''PLAN_LIMIT_EXCEEDED'' None @
     issue_if (max_parallelism L > SYSTEM_HARD_MAX_PARALLELISM) ''PLAN_LIMIT_EXCEEDED'' None @
     issue_if (max_loop_iterations L > SYSTEM_HARD_MAX_LOOP_ITERATIONS) ''PLAN_LIMIT_EXCEEDED'' None"

subsection \<open>LOOP bodies\<close>

record loop_pass =
  lp_owner :: "(string, string) dict"
  lp_configs :: "(string, loop_config) dict"
  lp_issues :: "complex_issue list"

definition claim_body :: "string list \<Rightarrow> string \<Rightarrow> string \<Rightarrow> loop_pass \<Rightarrow> loop_pass" where
  "claim_body ids loop_id body_id z =
     (if body_id \<notin> set ids
      then z\<lparr>lp_issues := lp_issues z @ issue_if True ''PLAN_SCHEMA_INVALID'' (Some loop_id)\<rparr>
      else if body_id = loop_id
      then z\<lparr>lp_issues := lp_issues z @ issue_if True ''PLAN_SCHEMA_INVALID'' (Some loop_id)\<rparr>
      else if map_of (lp_owner z) body_id \<noteq> None
      then z\<lparr>lp_issues := lp_issues z @ issue_if True ''PLAN_SCHEMA_INVALID'' (Some body_id)\<rparr>
      else z\<lparr>lp_owner := dict_set body_id loop_id (lp_owner z)\<rparr>)"

definition claim_step :: "codec \<Rightarrow> string list \<Rightarrow> plan_step \<Rightarrow> loop_pass \<Rightarrow> loop_pass" where
  "claim_step C ids s z =
     (if ps_type s \<noteq> LOOP then z
      else case validate_loop_config C (ps_config s) of
             None \<Rightarrow> z
           | Some cfg \<Rightarrow>
               fold (claim_body ids (ps_id s)) (lc_body_step_ids cfg)
                 (z\<lparr>lp_configs := dict_set (ps_id s) cfg (lp_configs z)\<rparr>))"

definition loop_ownership :: "codec \<Rightarrow> execution_plan \<Rightarrow> loop_pass" where
  "loop_ownership C plan =
     fold (claim_step C (map ps_id (plan_steps plan))) (plan_steps plan)
       \<lparr>lp_owner = [], lp_configs = [], lp_issues = []\<rparr>"

definition response_issues :: "string set \<Rightarrow> string set \<Rightarrow> string list \<Rightarrow> complex_issue list" where
  "response_issues ids bodies rids =
     (if rids = [] then issue_if True ''PLAN_SCHEMA_INVALID'' None
      else if card (set rids) \<noteq> length rids then issue_if True ''PLAN_SCHEMA_INVALID'' None
      else concat (map (\<lambda>rid. issue_if (rid \<notin> ids \<or> rid \<in> bodies) ''PLAN_SCHEMA_INVALID'' None) rids))"

definition top_level_dep_issues :: "string set \<Rightarrow> plan_step \<Rightarrow> complex_issue list" where
  "top_level_dep_issues bodies s =
     (if ps_id s \<in> bodies then []
      else concat (map (\<lambda>dep. issue_if (dep \<in> bodies) ''PLAN_SCHEMA_INVALID'' (Some (ps_id s))) (ps_depends_on s)))"

definition body_scope_issues :: "plan_step list \<Rightarrow> string \<Rightarrow> loop_config \<Rightarrow> complex_issue list" where
  "body_scope_issues steps loop_id cfg =
     concat (map (\<lambda>body_id.
       case find (\<lambda>s. ps_id s = body_id) steps of
         None \<Rightarrow> []
       | Some s \<Rightarrow>
           concat (map (\<lambda>dep. issue_if (dep \<noteq> loop_id \<and> dep \<notin> set (lc_body_step_ids cfg))
             ''PLAN_SCHEMA_INVALID'' (Some body_id)) (ps_depends_on s))) (lc_body_step_ids cfg))"

text \<open>\<open>depth_of\<close>: the stack grows along the owners, and stays inside the table of owners.\<close>

function depth_of :: "(string, string) dict \<Rightarrow> string \<Rightarrow> string set \<Rightarrow> nat" where
  "depth_of owner loop_id stack =
     (if loop_id \<in> stack then MAX_LOOP_NESTING_DEPTH + 1
      else case map_of owner loop_id of
             None \<Rightarrow> 1
           | Some o' \<Rightarrow> 1 + depth_of owner o' (insert loop_id stack))"
  by auto

termination
proof (relation "measure (\<lambda>(owner, loop_id, stack). card (fst ` set owner - stack))")
  fix owner :: "(string, string) dict" and loop_id stack o'
  assume "loop_id \<notin> stack" "map_of owner loop_id = Some o'"
  then have "loop_id \<in> fst ` set owner - stack"
    by (force dest: map_of_SomeD)
  then have "card (fst ` set owner - insert loop_id stack) < card (fst ` set owner - stack)"
    by (intro psubset_card_mono) auto
  then show "((owner, o', insert loop_id stack), owner, loop_id, stack) \<in>
      measure (\<lambda>(owner, loop_id, stack). card (fst ` set owner - stack))"
    by simp
qed simp

declare depth_of.simps [simp del]

definition nesting_issues :: "loop_pass \<Rightarrow> complex_issue list" where
  "nesting_issues z =
     concat (map (\<lambda>loop_id. issue_if (depth_of (lp_owner z) loop_id {} > MAX_LOOP_NESTING_DEPTH)
       ''PLAN_LIMIT_EXCEEDED'' (Some loop_id)) (dict_keys (lp_configs z)))"

subsection \<open>Ancestors\<close>

text \<open>
  \<open>_transitive_ancestors\<close>, which unlike the walk of the binding resolver cuts a cycle off.  The stack is a
  chain of different steps, so one more than their number is enough fuel (\<open>static_walk_total\<close>).
\<close>

fun static_walk :: "nat \<Rightarrow> (string, string list) dict \<Rightarrow> string \<Rightarrow> string set \<Rightarrow> ancestor_map
    \<Rightarrow> (string set \<times> ancestor_map) result" where
  "static_walk 0 deps sid stack cache = Inl RecursionError"
| "static_walk (Suc fuel) deps sid stack cache =
     (case map_of cache sid of
        Some out \<Rightarrow> Inr (out, cache)
      | None \<Rightarrow>
          if sid \<in> stack then Inr ({}, cache)
          else and_then
            (foldE (\<lambda>dep (out, c).
               and_then (static_walk fuel deps dep (insert sid stack) c) (\<lambda>(s, c'). Inr (insert dep out \<union> s, c')))
               (dict_get deps sid []) ({}, cache))
            (\<lambda>(out, c). Inr (out, dict_set sid out c)))"

definition static_ancestors :: "execution_plan \<Rightarrow> ancestor_map result" where
  "static_ancestors plan =
     and_then (foldE (\<lambda>sid (res, cache).
        and_then (static_walk (Suc (length (plan_steps plan))) (plan_deps plan) sid {} cache) (\<lambda>(out, c).
          Inr (dict_set sid out res, c)))
       (map ps_id (plan_steps plan)) ([], [])) (\<lambda>(res, _). Inr res)"

subsection \<open>Bindings and configurations\<close>

definition step_output_rejected ::
    "string set \<Rightarrow> ancestor_map \<Rightarrow> (string, string) dict \<Rightarrow> string \<Rightarrow> string \<Rightarrow> bool" where
  "step_output_rejected ids anc owner me src =
     (if src = me then True
      else if src \<notin> ids then True
      else case map_of owner me of
        None \<Rightarrow> if map_of owner src \<noteq> None then True else src \<notin> ancestors_of anc me
      | Some l \<Rightarrow>
          if map_of owner src \<noteq> None \<and> map_of owner src \<noteq> Some l then True
          else if map_of owner src = Some l then src \<notin> ancestors_of anc me
          else src \<noteq> l \<and> src \<notin> ancestors_of anc l)"

definition binding_issues ::
    "string set \<Rightarrow> ancestor_map \<Rightarrow> (string, string) dict \<Rightarrow> string \<Rightarrow> plan_binding list \<Rightarrow> complex_issue list" where
  "binding_issues ids anc owner me bs =
     concat (map (\<lambda>b. case b of
         PlanStepOutputBinding src _ \<Rightarrow>
           issue_if (step_output_rejected ids anc owner me src) ''PLAN_BINDING_INVALID'' (Some me)
       | _ \<Rightarrow> []) bs)"

fun is_loop_context :: "plan_binding \<Rightarrow> bool" where
  "is_loop_context (PlanLoopContextBinding _) = True"
| "is_loop_context _ = False"

definition when_issues :: "codec \<Rightarrow> string set \<Rightarrow> ancestor_map \<Rightarrow> (string, string) dict \<Rightarrow> plan_step
    \<Rightarrow> complex_issue list" where
  "when_issues C ids anc owner s =
     (case ps_when s of
        None \<Rightarrow> []
      | Some j \<Rightarrow>
          if \<not> is_dict j then issue_if True ''PLAN_CONDITION_INVALID'' (Some (ps_id s))
          else (case validate_predicate C j of
                  None \<Rightarrow> issue_if True ''PLAN_CONDITION_INVALID'' (Some (ps_id s))
                | Some p \<Rightarrow>
                    issue_if (ps_type s = LOOP \<and> list_ex is_loop_context (iter_plan_bindings_in_predicate p))
                      ''PLAN_BINDING_INVALID'' (Some (ps_id s)) @
                    binding_issues ids anc owner (ps_id s) (iter_plan_bindings_in_predicate p)))"

definition loop_issues :: "plan_limits \<Rightarrow> string \<Rightarrow> loop_config \<Rightarrow> complex_issue list" where
  "loop_issues L sid cfg =
     issue_if (lc_max_iterations cfg > max_loop_iterations L) ''PLAN_LIMIT_EXCEEDED'' (Some sid) @
     (case lc_collection cfg of
        None \<Rightarrow> []
      | Some b \<Rightarrow> issue_if (is_loop_context b) ''PLAN_BINDING_INVALID'' (Some sid)) @
     (case lc_predicate cfg of
        None \<Rightarrow> []
      | Some p \<Rightarrow> issue_if (lc_mode cfg \<noteq> WHILE \<and> list_ex is_loop_context (iter_plan_bindings_in_predicate p))
                   ''PLAN_BINDING_INVALID'' (Some sid))"

definition loop_bindings :: "loop_config \<Rightarrow> plan_binding list" where
  "loop_bindings cfg =
     (case lc_collection cfg of None \<Rightarrow> [] | Some b \<Rightarrow> if is_loop_context b then [] else [b]) @
     (case lc_predicate cfg of None \<Rightarrow> [] | Some p \<Rightarrow> iter_plan_bindings_in_predicate p)"

definition config_issues :: "codec \<Rightarrow> string set \<Rightarrow> plan_limits \<Rightarrow> ancestor_map \<Rightarrow> (string, string) dict
    \<Rightarrow> (json \<Rightarrow> bool) \<Rightarrow> plan_step \<Rightarrow> complex_issue list" where
  "config_issues C ids L anc owner M s =
     (let sid = ps_id s; j = ps_config s;
          invalid = issue_if True (if ps_type s \<in> {CONDITION, LOOP} \<and> M j then ''PLAN_CONDITION_INVALID''
                                   else ''PLAN_SCHEMA_INVALID'') (Some sid)
      in if \<not> is_dict j then issue_if True ''PLAN_SCHEMA_INVALID'' (Some sid)
         else case ps_type s of
           TOOL \<Rightarrow> (case validate_tool_config C j of
                      None \<Rightarrow> invalid
                    | Some cfg \<Rightarrow> binding_issues ids anc owner sid (dict_values (tc_bindings cfg)))
         | JOIN \<Rightarrow> (case validate_join_config C j of None \<Rightarrow> invalid | Some _ \<Rightarrow> [])
         | APPROVAL \<Rightarrow> (case validate_approval_config C j of None \<Rightarrow> invalid | Some _ \<Rightarrow> [])
         | CONDITION \<Rightarrow> (case validate_condition_config C j of
                           None \<Rightarrow> invalid
                         | Some p \<Rightarrow> binding_issues ids anc owner sid (iter_plan_bindings_in_predicate p))
         | LOOP \<Rightarrow> (case validate_loop_config C j of
                      None \<Rightarrow> invalid
                    | Some cfg \<Rightarrow> loop_issues L sid cfg @ binding_issues ids anc owner sid (loop_bindings cfg)))"

subsection \<open>The validator\<close>

text \<open>
  The schema version of a parsed plan is the literal 1.0.  The set of ids is walked by the cycle check in an
  unspecified order, which does not matter (\<open>PlanCycle\<close>).
\<close>

definition validate_static :: "codec \<Rightarrow> (json \<Rightarrow> bool) \<Rightarrow> execution_plan \<Rightarrow> complex_issue list result" where
  "validate_static C M plan =
     (let steps = plan_steps plan; ids = map ps_id steps; z = loop_ownership C plan;
          owner = lp_owner z; bodies = set (dict_keys owner)
      in and_then (static_ancestors plan) (\<lambda>anc. Inr (
           issue_if (steps = []) ''PLAN_SCHEMA_INVALID'' None @
           concat (map (\<lambda>s. issue_if (\<not> non_blank (ps_id s)) ''PLAN_SCHEMA_INVALID'' (Some (ps_id s))) steps) @
           duplicate_issues ids @
           concat (map (dependency_issues (set ids)) steps) @
           issue_if (has_dependency_cycle (remdups ids) steps = Some True) ''PLAN_CYCLE_DETECTED'' None @
           unreachable_issues steps @
           limit_hard_bounds (plan_limits plan) @
           issue_if (int (length steps) > max_steps (plan_limits plan)) ''PLAN_LIMIT_EXCEEDED'' None @
           lp_issues z @
           response_issues (set ids) bodies (response_step_ids plan) @
           concat (map (top_level_dep_issues bodies) steps) @
           concat (map (\<lambda>s. when_issues C (set ids) anc owner s @
                            config_issues C (set ids) (plan_limits plan) anc owner M s) steps) @
           concat (map (\<lambda>(loop_id, cfg). body_scope_issues steps loop_id cfg) (lp_configs z)) @
           nesting_issues z @
           concat (map (\<lambda>s. issue_if (ps_type s = JOIN \<and> ps_depends_on s = []) ''PLAN_SCHEMA_INVALID'' (Some (ps_id s)))
             steps))))"

end
