(* ===== verification/StaticPlanSpec.thy ===== *)
theory StaticPlanSpec
  imports StaticPlan BindingCorrectness
begin

section \<open>What the static validator accepts\<close>

text \<open>
  \<open>static_plan_valid\<close> says in terms of the plan, without tables and accumulators, what a plan without issues
  is; \<open>no_issue_simps\<close> has one equivalence per check.  Ancestry is the transitive closure of the dependencies,
  ownership the list of pairs of a body step and its LOOP.
\<close>

named_theorems no_issue_simps \<open>when a check of the static validator reports nothing\<close>

lemma issue_if_Nil [simp, no_issue_simps]: "issue_if b c s = [] \<longleftrightarrow> \<not> b"
  by (simp add: issue_if_def)

lemma concat_map_Nil [simp]: "concat (map f xs) = [] \<longleftrightarrow> (\<forall>x \<in> set xs. f x = [])"
  by auto

lemma duplicate_issues_Nil [simp, no_issue_simps]: "duplicate_issues ids = [] \<longleftrightarrow> distinct ids"
proof -
  have run: "fst (fold (\<lambda>sid (errs, seen).
      (errs @ issue_if (sid \<in> seen) ''PLAN_STEP_DUPLICATE'' (Some sid), insert sid seen)) ids (errs, seen)) = [] \<longleftrightarrow>
      errs = [] \<and> distinct ids \<and> set ids \<inter> seen = {}" for ids errs seen
    by (induction ids arbitrary: errs seen) auto
  show ?thesis
    unfolding duplicate_issues_def using run [of ids "[]" "{}"] by (auto simp: distinct_card dest: card_distinct)
qed

lemma dependency_issues_Nil [simp, no_issue_simps]:
  "dependency_issues ids s = [] \<longleftrightarrow>
     set (ps_depends_on s) \<subseteq> ids \<and> ps_id s \<notin> set (ps_depends_on s) \<and> distinct (ps_depends_on s)"
proof -
  have "fst (fold (\<lambda>dep (errs, seen).
       (errs @ issue_if (dep \<notin> ids) ''PLAN_DEPENDENCY_MISSING'' (Some (ps_id s))
             @ issue_if (dep = ps_id s) ''PLAN_DEPENDENCY_MISSING'' (Some (ps_id s))
             @ issue_if (dep \<in> seen) ''PLAN_DEPENDENCY_MISSING'' (Some (ps_id s)), insert dep seen)) deps (errs, seen)) = [] \<longleftrightarrow>
      errs = [] \<and> set deps \<subseteq> ids \<and> ps_id s \<notin> set deps \<and> distinct deps \<and> set deps \<inter> seen = {}" for deps errs seen
    by (induction deps arbitrary: errs seen) auto
  then show ?thesis
    unfolding dependency_issues_def by auto
qed

subsection \<open>The breadth first search\<close>

definition open_edges :: "(string, string list) dict \<Rightarrow> string set \<Rightarrow> nat" where
  "open_edges adj seen = sum_list (map (\<lambda>(x, ys). if x \<in> seen then 0 else length ys) adj)"

lemma open_edges_insert:
  "x \<notin> seen \<Longrightarrow> open_edges adj (insert x seen) + length (dict_get adj x []) \<le> open_edges adj seen"
proof (induction adj)
  case (Cons kv adj)
  obtain k ys where kv: "kv = (k, ys)"
    by (cases kv)
  have mono: "open_edges adj (insert x seen) \<le> open_edges adj seen"
    unfolding open_edges_def by (rule sum_list_mono) auto
  from Cons mono show ?case
    by (auto simp: kv open_edges_def dict_get_def)
qed (simp add: open_edges_def dict_get_def)

lemma reach_total: "length q + open_edges adj seen \<le> n \<Longrightarrow> \<exists>r. reach n adj q seen = Some r"
proof (induction n adj q seen rule: reach.induct)
  case (3 n adj x q seen)
  show ?case
  proof (cases "x \<in> seen")
    case False
    define ys where "ys = filter (\<lambda>y. y \<notin> insert x seen) (dict_get adj x [])"
    have "length ys \<le> length (dict_get adj x [])"
      unfolding ys_def by (rule length_filter_le)
    with open_edges_insert [OF False, of adj] 3(3) have "length (q @ ys) + open_edges adj (insert x seen) \<le> n"
      by simp
    with 3(2) False show ?thesis
      by (simp add: ys_def)
  qed (use 3 in auto)
qed auto

lemma reach_closed:
  "reach n adj q seen = Some r \<Longrightarrow> edges adj `` seen \<subseteq> seen \<union> set q \<Longrightarrow>
     set q \<union> seen \<subseteq> r \<and> edges adj `` r \<subseteq> r"
proof (induction n adj q seen rule: reach.induct)
  case (3 n adj x q seen)
  show ?case
  proof (cases "x \<in> seen")
    case True
    with 3 show ?thesis
      by (auto simp: insert_absorb)
  next
    case False
    have "edges adj `` insert x seen \<subseteq> insert x seen \<union> set (q @ filter (\<lambda>y. y \<notin> insert x seen) (dict_get adj x []))"
      using 3(4) by (auto simp: edges_def)
    with 3(2) [OF False] 3(3) False show ?thesis
      by auto
  qed
qed auto

lemma reachable_total: "\<exists>r. reachable_from_roots steps = Some r"
proof -
  have "open_edges adj {} = edge_count adj" for adj
    unfolding open_edges_def edge_count_def by (rule arg_cong [where f = sum_list]) auto
  then show ?thesis
    unfolding reachable_from_roots_def Let_def using reach_total by (auto simp del: reach.simps)
qed

text \<open>In a graph without missing dependencies and cycles everything is reachable.\<close>

lemma reachable_all:
  assumes "acyclic (dependency_edges steps)" and "\<forall>s \<in> set steps. set (ps_depends_on s) \<subseteq> ps_id ` set steps"
    and "reachable_from_roots steps = Some r"
  shows "ps_id ` set steps \<subseteq> r"
proof
  let ?E = "dependency_edges steps"
  define roots where "roots = map ps_id (filter (\<lambda>s. ps_depends_on s = []) steps)"
  have run: "roots = [] \<and> r = {} \<or> reach (length roots + edge_count (adjacency steps)) (adjacency steps) roots {} = Some r"
    using assms(3) by (auto simp: reachable_from_roots_def roots_def Let_def split: if_splits)
  have closed: "set roots \<subseteq> r" "?E `` r \<subseteq> r"
    using run reach_closed [of _ "adjacency steps" roots "{}" r] by (auto simp: adjacency_edges)
  have "?E \<subseteq> ps_id ` set steps \<times> ps_id ` set steps"
    by (auto simp: dependency_edges_def)
  then have "finite ?E"
    by (rule finite_subset) simp
  with assms(1) have "wf ?E"
    by (rule finite_acyclic_wf [rotated])
  fix i assume "i \<in> ps_id ` set steps"
  with \<open>wf ?E\<close> show "i \<in> r"
  proof (induction i)
    case (less i)
    then obtain s where s: "s \<in> set steps" "i = ps_id s"
      by blast
    show ?case
    proof (cases "ps_depends_on s")
      case Nil
      with s closed(1) show ?thesis
        by (auto simp: roots_def)
    next
      case (Cons d ds)
      with assms(2) s have "d \<in> ps_id ` set steps"
        by auto
      with s Cons have "(d, i) \<in> ?E"
        by (auto simp: dependency_edges_def)
      with less.IH [OF this \<open>d \<in> ps_id ` set steps\<close>] closed(2) show ?thesis
        by blast
    qed
  qed
qed

lemma unreachable_issues_Nil:
  assumes "acyclic (dependency_edges steps)" and "\<forall>s \<in> set steps. set (ps_depends_on s) \<subseteq> ps_id ` set steps"
  shows "unreachable_issues steps = []"
proof -
  obtain r where r: "reachable_from_roots steps = Some r"
    using reachable_total by blast
  with reachable_all [OF assms r] have none: "filter (\<lambda>sid. sid \<notin> r) (remdups (map ps_id steps)) = []"
    by (auto simp: filter_empty_conv)
  show ?thesis
    by (simp add: unreachable_issues_def r none)
qed

subsection \<open>Ancestors\<close>

lemma foldE_cong: "(\<And>x z. x \<in> set xs \<Longrightarrow> f x z = g x z) \<Longrightarrow> foldE f xs z = foldE g xs z"
  by (induction xs arbitrary: z) (auto intro: and_then_cong)

text \<open>Without a cycle the stack is never hit, and the walk is the one of the binding resolver.\<close>

lemma static_walk_eq:
  assumes "acyclic (dep_edges deps)"
  shows "\<forall>t \<in> stack. (sid, t) \<in> (dep_edges deps)\<^sup>+ \<Longrightarrow> static_walk n deps sid stack cache = walk n deps sid cache"
proof (induction n arbitrary: sid stack cache)
  case (Suc n)
  have "sid \<notin> stack"
    using Suc.prems assms by (auto simp: acyclic_def)
  moreover have "foldE (\<lambda>dep (out, c).
        and_then (static_walk n deps dep (insert sid stack) c) (\<lambda>(s, c'). Inr (insert dep out \<union> s, c')))
        (dict_get deps sid []) z =
      foldE (\<lambda>dep (out, c). and_then (walk n deps dep c) (\<lambda>(s, c'). Inr (insert dep out \<union> s, c')))
        (dict_get deps sid []) z" for z
  proof (rule foldE_cong)
    fix dep z assume "dep \<in> set (dict_get deps sid [])"
    then have "(dep, sid) \<in> dep_edges deps"
      by (simp add: dep_edges_def)
    with Suc.prems have "\<forall>t \<in> insert sid stack. (dep, t) \<in> (dep_edges deps)\<^sup>+"
      by (auto intro: trancl_into_trancl2)
    from Suc.IH [OF this] show "(case z of (out, c) \<Rightarrow>
          and_then (static_walk n deps dep (insert sid stack) c) (\<lambda>(s, c'). Inr (insert dep out \<union> s, c'))) =
        (case z of (out, c) \<Rightarrow> and_then (walk n deps dep c) (\<lambda>(s, c'). Inr (insert dep out \<union> s, c')))"
      by (cases z) simp
  qed
  ultimately show ?case
    by (simp cong: option.case_cong)
qed simp

text \<open>It always returns, on a cycle too.\<close>

lemma static_walk_total:
  assumes "finite N" and "\<forall>x. set (dict_get deps x []) \<subseteq> N"
  shows "sid \<in> N \<Longrightarrow> card (N - stack) < n \<Longrightarrow> \<exists>r. static_walk n deps sid stack cache = Inr r"
proof (induction n arbitrary: sid stack cache)
  case (Suc n)
  show ?case
  proof (cases "map_of cache sid = None \<and> sid \<notin> stack")
    case True
    with Suc.prems(1) have "N - insert sid stack \<subset> N - stack"
      by auto
    then have "card (N - insert sid stack) < card (N - stack)"
      by (rule psubset_card_mono [rotated]) (simp add: assms(1))
    with Suc.prems(2) have less: "card (N - insert sid stack) < n"
      by simp
    have "\<exists>t. foldE (\<lambda>dep (out, c).
        and_then (static_walk n deps dep (insert sid stack) c) (\<lambda>(s, c'). Inr (insert dep out \<union> s, c')))
        (dict_get deps sid []) z = Inr t" for z
    proof (rule foldE_total)
      fix dep and z :: "string set \<times> ancestor_map" assume "dep \<in> set (dict_get deps sid [])"
      then have "dep \<in> N"
        using assms(2) by blast
      obtain out c where z: "z = (out, c)"
        by (cases z)
      obtain r where "static_walk n deps dep (insert sid stack) c = Inr r"
        using Suc.IH [OF \<open>dep \<in> N\<close> less] by blast
      then show "\<exists>t. (case z of (out, c) \<Rightarrow>
          and_then (static_walk n deps dep (insert sid stack) c) (\<lambda>(s, c'). Inr (insert dep out \<union> s, c'))) = Inr t"
        by (cases r) (simp add: z)
    qed
    then obtain t where "foldE (\<lambda>dep (out, c).
        and_then (static_walk n deps dep (insert sid stack) c) (\<lambda>(s, c'). Inr (insert dep out \<union> s, c')))
        (dict_get deps sid []) ({}, cache) = Inr t"
      by blast
    with True show ?thesis
      by (cases t) simp
  next
    case False
    then show ?thesis
      by (cases "map_of cache sid") auto
  qed
qed simp

lemma plan_deps_ids: "set (dict_get (plan_deps plan) x []) \<subseteq> set (map ps_id (plan_steps plan))"
  using dep_edges_plan [of plan] by (auto simp: dep_edges_def)

lemma static_ancestors_total: "\<exists>anc. static_ancestors plan = Inr anc"
proof -
  let ?N = "set (map ps_id (plan_steps plan))"
  have "\<exists>t. foldE (\<lambda>sid (res, cache).
        and_then (static_walk (Suc (length (plan_steps plan))) (plan_deps plan) sid {} cache) (\<lambda>(out, c).
          Inr (dict_set sid out res, c))) (map ps_id (plan_steps plan)) ([], []) = Inr t"
  proof (rule foldE_total)
    fix sid and z :: "ancestor_map \<times> ancestor_map" assume "sid \<in> ?N"
    moreover have "card (?N - {}) < Suc (length (plan_steps plan))"
      using card_length [of "map ps_id (plan_steps plan)"] by simp
    ultimately have "\<exists>r. static_walk (Suc (length (plan_steps plan))) (plan_deps plan) sid {} (snd z) = Inr r"
      using plan_deps_ids by (intro static_walk_total [where N = ?N]) auto
    then show "\<exists>t. (case z of (res, cache) \<Rightarrow>
        and_then (static_walk (Suc (length (plan_steps plan))) (plan_deps plan) sid {} cache) (\<lambda>(out, c).
          Inr (dict_set sid out res, c))) = Inr t"
      by (cases z) (auto simp del: static_walk.simps)
  qed
  then show ?thesis
    unfolding static_ancestors_def by fastforce
qed

lemma static_ancestors_closure:
  assumes "static_ancestors plan = Inr anc" and acyclic: "acyclic (dep_edges (plan_deps plan))"
  shows "ancestors_of anc sid = closure (plan_deps plan) sid"
proof -
  let ?deps = "plan_deps plan"
  define f where "f = (\<lambda>sid (res, cache).
        and_then (static_walk (Suc (length (plan_steps plan))) ?deps sid {} cache) (\<lambda>(out, c).
          Inr (dict_set sid out res, c)))"
  from assms(1) obtain res c where run: "foldE f (map ps_id (plan_steps plan)) ([], []) = Inr (res, c)" "anc = res"
    by (auto simp: static_ancestors_def f_def)
  let ?I = "\<lambda>ids (res, c). cache_ok ?deps c \<and>
    (\<forall>k. map_of res k = (if k \<in> set ids then Some (closure ?deps k) else None))"
  have "?I (map ps_id (plan_steps plan)) (res, c)"
    using run(1)
  proof (rule foldE_invariant [where I = ?I])
    show "?I [] ([], [])"
      by (simp add: cache_ok_def)
  next
    fix ids sid z t
    assume I: "?I ids z" and t: "f sid z = Inr t"
    obtain res c where z: "z = (res, c)"
      by (cases z)
    from t obtain out c' where w: "walk (Suc (length (plan_steps plan))) ?deps sid c = Inr (out, c')"
        "t = (dict_set sid out res, c')"
      using static_walk_eq [OF acyclic, of "{}"] by (auto simp: f_def z simp del: walk.simps static_walk.simps)
    from walk_sound [OF w(1)] I show "?I (ids @ [sid]) t"
      by (auto simp: z w(2))
  qed
  then have res: "map_of anc sid = (if sid \<in> set (map ps_id (plan_steps plan)) then Some (closure ?deps sid) else None)"
    using run(2) by simp
  show ?thesis
  proof (cases "sid \<in> set (map ps_id (plan_steps plan))")
    case False
    then have "dict_get ?deps sid [] = []"
      using dep_edges_plan [of plan] list.set_sel(1) [of "dict_get ?deps sid []"] unfolding dep_edges_def by blast
    then have "closure ?deps sid = {}"
      using closure_unfold [of ?deps sid] by simp
    with False res show ?thesis
      by (simp add: ancestors_of_def dict_get_def)
  qed (use res in \<open>simp add: ancestors_of_def dict_get_def\<close>)
qed

end
