(* ===== verification/StaticPlanValid.thy ===== *)
theory StaticPlanValid
  imports StaticPlanSpec
begin

section \<open>The plans the static validator accepts\<close>

text \<open>
  \<open>static_plan_valid\<close> is the contract of \<^verbatim>\<open>complex_plan_validator.py\<close> without its accumulators: LOOP
  bodies are a list of pairs, ancestry is the transitive closure of the dependencies, and what a step may
  read is one relation between steps.  The validator reports nothing exactly on these plans.
\<close>

subsection \<open>Ownership of LOOP bodies\<close>

definition loop_configs :: "codec \<Rightarrow> plan_step list \<Rightarrow> (string \<times> loop_config) list" where
  "loop_configs C steps =
     concat (map (\<lambda>s. if ps_type s \<noteq> LOOP then []
       else case validate_loop_config C (ps_config s) of None \<Rightarrow> [] | Some cfg \<Rightarrow> [(ps_id s, cfg)]) steps)"

definition body_pairs :: "codec \<Rightarrow> plan_step list \<Rightarrow> (string \<times> string) list" where
  "body_pairs C steps = concat (map (\<lambda>(l, cfg). map (\<lambda>b. (b, l)) (lc_body_step_ids cfg)) (loop_configs C steps))"

definition bodies_owned :: "string list \<Rightarrow> (string \<times> string) list \<Rightarrow> bool" where
  "bodies_owned ids pairs \<longleftrightarrow>
     distinct (map fst pairs) \<and> (\<forall>(b, l) \<in> set pairs. b \<in> set ids \<and> b \<noteq> l)"

lemma loop_configs_simps [simp]:
  "loop_configs C [] = []"
  "loop_configs C (s # ss) =
     (if ps_type s \<noteq> LOOP then []
      else case validate_loop_config C (ps_config s) of None \<Rightarrow> [] | Some cfg \<Rightarrow> [(ps_id s, cfg)]) @ loop_configs C ss"
  by (simp_all add: loop_configs_def)

lemma claim_body_issues_grow: "lp_issues (claim_body ids l b z) = [] \<Longrightarrow> lp_issues z = []"
  by (auto simp: claim_body_def split: if_splits)

lemma claim_bodies_issues_grow: "lp_issues (fold (claim_body ids l) bs z) = [] \<Longrightarrow> lp_issues z = []"
proof (induction bs arbitrary: z)
  case (Cons b bs)
  from Cons.prems have "lp_issues (fold (claim_body ids l) bs (claim_body ids l b z)) = []"
    by simp
  from claim_body_issues_grow [OF Cons.IH [OF this]] show ?case .
qed simp

lemma claim_body_ok:
  "b \<in> set ids \<Longrightarrow> b \<noteq> l \<Longrightarrow> b \<notin> fst ` set (lp_owner z) \<Longrightarrow>
     claim_body ids l b z = z\<lparr>lp_owner := lp_owner z @ [(b, l)]\<rparr>"
  by (simp add: claim_body_def map_of_eq_None_iff dict_set_new)

lemma claim_body_clean:
  "lp_issues (claim_body ids l b z) = [] \<longleftrightarrow>
     lp_issues z = [] \<and> b \<in> set ids \<and> b \<noteq> l \<and> b \<notin> fst ` set (lp_owner z)"
  by (auto simp: claim_body_def map_of_eq_None_iff)

lemma claim_bodies:
  "lp_issues (fold (claim_body ids l) bs z) = [] \<longleftrightarrow>
     lp_issues z = [] \<and> distinct bs \<and> set bs \<subseteq> set ids - {l} \<and> set bs \<inter> fst ` set (lp_owner z) = {}"
proof (induction bs arbitrary: z)
  case (Cons b bs)
  show ?case
  proof (cases "lp_issues (claim_body ids l b z) = []")
    case True
    with Cons.IH [of "claim_body ids l b z"] claim_body_ok [of b ids l z] show ?thesis
      by (auto simp: claim_body_clean)
  next
    case False
    with claim_bodies_issues_grow [of ids l bs "claim_body ids l b z"] show ?thesis
      by (auto simp: claim_body_clean)
  qed
qed simp

lemma claim_bodies_ok:
  "distinct bs \<Longrightarrow> set bs \<subseteq> set ids - {l} \<Longrightarrow> set bs \<inter> fst ` set (lp_owner z) = {} \<Longrightarrow>
     fold (claim_body ids l) bs z = z\<lparr>lp_owner := lp_owner z @ map (\<lambda>b. (b, l)) bs\<rparr>"
proof (induction bs arbitrary: z)
  case (Cons b bs)
  then show ?case
    using Cons.IH [of "z\<lparr>lp_owner := lp_owner z @ [(b, l)]\<rparr>"] by (auto simp: claim_body_ok)
qed simp

lemma claim_step_issues_grow: "lp_issues (claim_step C ids s z) = [] \<Longrightarrow> lp_issues z = []"
  by (auto simp: claim_step_def dest: claim_bodies_issues_grow split: if_splits option.splits)

lemma claim_steps_issues_grow: "lp_issues (fold (claim_step C ids) ss z) = [] \<Longrightarrow> lp_issues z = []"
proof (induction ss arbitrary: z)
  case (Cons s ss)
  from Cons.prems have "lp_issues (fold (claim_step C ids) ss (claim_step C ids s z)) = []"
    by simp
  from claim_step_issues_grow [OF Cons.IH [OF this]] show ?case .
qed simp

text \<open>The keys of the configurations are new, as the ids of the steps are different.\<close>

lemma claim_steps:
  assumes "distinct (map ps_id ss)" and "\<forall>s \<in> set ss. ps_id s \<notin> fst ` set (lp_configs z)"
    and "lp_issues z = []" and "bodies_owned ids (lp_owner z)"
  shows "(lp_issues (fold (claim_step C ids) ss z) = [] \<longleftrightarrow> bodies_owned ids (lp_owner z @ body_pairs C ss)) \<and>
    (bodies_owned ids (lp_owner z @ body_pairs C ss) \<longrightarrow> fold (claim_step C ids) ss z =
       z\<lparr>lp_owner := lp_owner z @ body_pairs C ss, lp_configs := lp_configs z @ loop_configs C ss\<rparr>)"
  using assms
proof (induction ss arbitrary: z)
  case (Cons s ss)
  consider (skip) "claim_step C ids s z = z" "loop_configs C (s # ss) = loop_configs C ss"
    | (loop) cfg where "ps_type s = LOOP" "validate_loop_config C (ps_config s) = Some cfg"
    by (cases "ps_type s = LOOP"; cases "validate_loop_config C (ps_config s)") (auto simp: claim_step_def)
  then show ?case
  proof cases
    case skip
    then show ?thesis
      using Cons by (simp add: body_pairs_def)
  next
    case (loop cfg)
    let ?bs = "lc_body_step_ids cfg" and ?l = "ps_id s"
    let ?z = "z\<lparr>lp_configs := lp_configs z @ [(?l, cfg)]\<rparr>"
    have step: "claim_step C ids s z = fold (claim_body ids ?l) ?bs ?z"
      using loop Cons.prems(2) by (simp add: claim_step_def dict_set_new)
    have pairs: "body_pairs C (s # ss) = map (\<lambda>b. (b, ?l)) ?bs @ body_pairs C ss"
      using loop by (simp add: body_pairs_def)
    have configs: "loop_configs C (s # ss) = (?l, cfg) # loop_configs C ss"
      using loop by simp
    show ?thesis
    proof (cases "bodies_owned ids (lp_owner z @ map (\<lambda>b. (b, ?l)) ?bs)")
      case True
      then have new: "distinct ?bs" "set ?bs \<subseteq> set ids - {?l}" "set ?bs \<inter> fst ` set (lp_owner ?z) = {}"
        by (auto simp: bodies_owned_def comp_def)
      define z1 where "z1 = ?z\<lparr>lp_owner := lp_owner z @ map (\<lambda>b. (b, ?l)) ?bs\<rparr>"
      have run: "fold (claim_step C ids) (s # ss) z = fold (claim_step C ids) ss z1"
        using claim_bodies_ok [OF new] by (simp add: step z1_def)
      have "\<forall>s \<in> set ss. ps_id s \<notin> fst ` set (lp_configs z1)"
      proof
        fix s' assume "s' \<in> set ss"
        then have "ps_id s' \<in> ps_id ` set ss"
          by (rule imageI)
        with Cons.prems(1) have "ps_id s' \<noteq> ps_id s"
          by auto
        with Cons.prems(2) \<open>s' \<in> set ss\<close> show "ps_id s' \<notin> fst ` set (lp_configs z1)"
          by (auto simp: z1_def)
      qed
      moreover have "lp_issues z1 = []" "bodies_owned ids (lp_owner z1)"
        using Cons.prems(3) True by (simp_all add: z1_def)
      moreover have "distinct (map ps_id ss)"
        using Cons.prems(1) by simp
      ultimately have IH: "(lp_issues (fold (claim_step C ids) ss z1) = [] \<longleftrightarrow> bodies_owned ids (lp_owner z1 @ body_pairs C ss)) \<and>
          (bodies_owned ids (lp_owner z1 @ body_pairs C ss) \<longrightarrow> fold (claim_step C ids) ss z1 =
             z1\<lparr>lp_owner := lp_owner z1 @ body_pairs C ss, lp_configs := lp_configs z1 @ loop_configs C ss\<rparr>)"
        by (intro Cons.IH)
      then show ?thesis
        unfolding run pairs configs by (simp add: z1_def)
    next
      case False
      have "lp_issues (claim_step C ids s z) \<noteq> []"
        using False Cons.prems(3,4) unfolding step claim_bodies by (auto simp: bodies_owned_def comp_def)
      moreover have "\<not> bodies_owned ids (lp_owner z @ body_pairs C (s # ss))"
        using False unfolding pairs by (auto simp: bodies_owned_def)
      ultimately show ?thesis
        using claim_steps_issues_grow [of C ids ss "claim_step C ids s z"] by auto
    qed
  qed
qed (simp add: body_pairs_def)

lemma loop_ownership_spec:
  assumes "distinct (map ps_id (plan_steps plan))"
  shows "lp_issues (loop_ownership C plan) = [] \<longleftrightarrow>
      bodies_owned (map ps_id (plan_steps plan)) (body_pairs C (plan_steps plan))"
    and "bodies_owned (map ps_id (plan_steps plan)) (body_pairs C (plan_steps plan)) \<Longrightarrow>
      loop_ownership C plan = \<lparr>lp_owner = body_pairs C (plan_steps plan),
        lp_configs = loop_configs C (plan_steps plan), lp_issues = []\<rparr>"
  unfolding loop_ownership_def
  using claim_steps [OF assms, of "\<lparr>lp_owner = [], lp_configs = [], lp_issues = []\<rparr>" "map ps_id (plan_steps plan)" C]
  by (auto simp: bodies_owned_def)

subsection \<open>The contract\<close>

text \<open>
  The steps form an acyclic graph over their own ids, within the limits; the bodies of LOOPs are different steps of
  the plan, and at most three LOOPs lie inside each other.  A dependency of a top-level step is top-level, one of a
  body step is its LOOP or a body of the same LOOP.
\<close>

definition graph_valid :: "plan_step list \<Rightarrow> bool" where
  "graph_valid steps \<longleftrightarrow>
     steps \<noteq> [] \<and> (\<forall>s \<in> set steps. non_blank (ps_id s)) \<and> distinct (map ps_id steps) \<and>
     (\<forall>s \<in> set steps. set (ps_depends_on s) \<subseteq> ps_id ` set steps \<and> distinct (ps_depends_on s)) \<and>
     acyclic (dependency_edges steps) \<and> (\<forall>s \<in> set steps. ps_type s = JOIN \<longrightarrow> ps_depends_on s \<noteq> [])"

definition limits_valid :: "execution_plan \<Rightarrow> bool" where
  "limits_valid plan \<longleftrightarrow>
     max_steps (plan_limits plan) \<le> SYSTEM_HARD_MAX_STEPS \<and>
     max_duration_seconds (plan_limits plan) \<le> SYSTEM_HARD_MAX_DURATION_SECONDS \<and>
     max_parallelism (plan_limits plan) \<le> SYSTEM_HARD_MAX_PARALLELISM \<and>
     max_loop_iterations (plan_limits plan) \<le> SYSTEM_HARD_MAX_LOOP_ITERATIONS \<and>
     int (length (plan_steps plan)) \<le> max_steps (plan_limits plan)"

definition scopes_valid :: "codec \<Rightarrow> execution_plan \<Rightarrow> bool" where
  "scopes_valid C plan \<longleftrightarrow>
     (let steps = plan_steps plan; pairs = body_pairs C steps; bodies = fst ` set pairs; rids = response_step_ids plan
      in bodies_owned (map ps_id steps) pairs \<and>
         (\<nexists>a b c d. (a, b) \<in> set pairs \<and> (b, c) \<in> set pairs \<and> (c, d) \<in> set pairs \<and> a \<in> fst ` set (loop_configs C steps)) \<and>
         rids \<noteq> [] \<and> distinct rids \<and> set rids \<subseteq> ps_id ` set steps - bodies \<and>
         (\<forall>s \<in> set steps. case map_of pairs (ps_id s) of
            None \<Rightarrow> set (ps_depends_on s) \<inter> bodies = {}
          | Some l \<Rightarrow> \<forall>d \<in> set (ps_depends_on s). d = l \<or> (d, l) \<in> set pairs))"

text \<open>
  What a step may read: a top-level step its top-level ancestors, a body step its ancestors in the body, its LOOP and
  the top-level ancestors of its LOOP.
\<close>

definition may_read :: "codec \<Rightarrow> plan_step list \<Rightarrow> string \<Rightarrow> string \<Rightarrow> bool" where
  "may_read C steps me src \<longleftrightarrow>
     (let own = map_of (body_pairs C steps); E = dependency_edges steps
      in src \<noteq> me \<and> src \<in> ps_id ` set steps \<and>
         (case own me of
            None \<Rightarrow> own src = None \<and> (src, me) \<in> E\<^sup>+
          | Some l \<Rightarrow> own src = Some l \<and> (src, me) \<in> E\<^sup>+ \<or> own src = None \<and> (src = l \<or> (src, l) \<in> E\<^sup>+)))"

definition reads_allowed :: "codec \<Rightarrow> plan_step list \<Rightarrow> string \<Rightarrow> plan_binding list \<Rightarrow> bool" where
  "reads_allowed C steps me bs \<longleftrightarrow> (\<forall>src path. PlanStepOutputBinding src path \<in> set bs \<longrightarrow> may_read C steps me src)"

definition predicate_allowed :: "codec \<Rightarrow> plan_step list \<Rightarrow> string \<Rightarrow> bool \<Rightarrow> predicate \<Rightarrow> bool" where
  "predicate_allowed C steps me loop_context p \<longleftrightarrow>
     reads_allowed C steps me (iter_plan_bindings_in_predicate p) \<and>
     (loop_context \<or> list_all (\<lambda>b. \<not> is_loop_context b) (iter_plan_bindings_in_predicate p))"

definition when_valid :: "codec \<Rightarrow> plan_step list \<Rightarrow> plan_step \<Rightarrow> bool" where
  "when_valid C steps s \<longleftrightarrow>
     (case ps_when s of
        None \<Rightarrow> True
      | Some j \<Rightarrow> is_dict j \<and> (\<exists>p. validate_predicate C j = Some p \<and> predicate_allowed C steps (ps_id s) (ps_type s \<noteq> LOOP) p))"

fun config_valid_as :: "step_type \<Rightarrow> codec \<Rightarrow> plan_limits \<Rightarrow> plan_step list \<Rightarrow> string \<Rightarrow> json \<Rightarrow> bool" where
  "config_valid_as TOOL C L steps me j \<longleftrightarrow>
     (\<exists>cfg. validate_tool_config C j = Some cfg \<and> reads_allowed C steps me (dict_values (tc_bindings cfg)))"
| "config_valid_as JOIN C L steps me j \<longleftrightarrow> validate_join_config C j \<noteq> None"
| "config_valid_as APPROVAL C L steps me j \<longleftrightarrow> validate_approval_config C j \<noteq> None"
| "config_valid_as CONDITION C L steps me j \<longleftrightarrow>
     (\<exists>p. validate_condition_config C j = Some p \<and> predicate_allowed C steps me True p)"
| "config_valid_as LOOP C L steps me j \<longleftrightarrow>
     (\<exists>cfg. validate_loop_config C j = Some cfg \<and> lc_max_iterations cfg \<le> max_loop_iterations L \<and>
        (\<forall>b. lc_collection cfg = Some b \<longrightarrow> \<not> is_loop_context b \<and> reads_allowed C steps me [b]) \<and>
        (\<forall>p. lc_predicate cfg = Some p \<longrightarrow> predicate_allowed C steps me (lc_mode cfg = WHILE) p))"

definition static_plan_valid :: "codec \<Rightarrow> execution_plan \<Rightarrow> bool" where
  "static_plan_valid C plan \<longleftrightarrow>
     graph_valid (plan_steps plan) \<and> limits_valid plan \<and> scopes_valid C plan \<and>
     (\<forall>s \<in> set (plan_steps plan). when_valid C (plan_steps plan) s \<and> is_dict (ps_config s) \<and>
        config_valid_as (ps_type s) C (plan_limits plan) (plan_steps plan) (ps_id s) (ps_config s))"

subsection \<open>Each check\<close>

lemma depth_of_pos: "1 \<le> depth_of owner l stack"
  by (subst depth_of.simps) (auto split: option.splits)

lemma depth_of_chain:
  "depth_of owner a {} > MAX_LOOP_NESTING_DEPTH \<longleftrightarrow>
     (\<exists>b c d. map_of owner a = Some b \<and> map_of owner b = Some c \<and> map_of owner c = Some d)"
proof -
  have unfold: "depth_of owner x stack = (if x \<in> stack then 4
      else case map_of owner x of None \<Rightarrow> 1 | Some o' \<Rightarrow> 1 + depth_of owner o' (insert x stack))" for x stack
    by (subst depth_of.simps) (simp add: MAX_LOOP_NESTING_DEPTH_def cong: option.case_cong)
  show ?thesis
  proof (cases "map_of owner a")
    case None
    then show ?thesis
      by (simp add: unfold [of a] MAX_LOOP_NESTING_DEPTH_def)
  next
    case a: (Some b)
    show ?thesis
    proof (cases "map_of owner b")
      case None
      then show ?thesis
        using a by (auto simp: unfold [of a] unfold [of b] MAX_LOOP_NESTING_DEPTH_def)
    next
      case b: (Some c)
      show ?thesis
      proof (cases "map_of owner c")
        case None
        then show ?thesis
          using a b by (auto simp: unfold [of a] unfold [of b] unfold [of c] MAX_LOOP_NESTING_DEPTH_def)
      next
        case c: (Some d)
        have "1 \<le> depth_of owner d {c, b, a}"
          by (rule depth_of_pos)
        with a b c show ?thesis
          by (auto simp: unfold [of a] unfold [of b] unfold [of c] MAX_LOOP_NESTING_DEPTH_def)
      qed
    qed
  qed
qed

lemma dep_edges_distinct:
  assumes "distinct (map ps_id (plan_steps plan))"
  shows "dep_edges (plan_deps plan) = dependency_edges (plan_steps plan)"
proof -
  let ?f = "\<lambda>s. filter (\<lambda>d. d \<in> set (map ps_id (plan_steps plan))) (ps_depends_on s)"
  have table: "plan_deps plan = map (\<lambda>s. (ps_id s, ?f s)) (plan_steps plan)"
    using assms by (simp add: plan_deps_def dict_of_distinct comp_def)
  have entry: "map_of (plan_deps plan) i = Some ds \<longleftrightarrow> (\<exists>s \<in> set (plan_steps plan). ps_id s = i \<and> ds = ?f s)" for i ds
    unfolding table using assms by (subst map_of_eq_Some_iff) (auto simp: comp_def)
  have edge: "(d, i) \<in> dep_edges (plan_deps plan) \<longleftrightarrow> (\<exists>ds. map_of (plan_deps plan) i = Some ds \<and> d \<in> set ds)" for d i
    by (cases "map_of (plan_deps plan) i") (auto simp: dep_edges_def dict_get_def)
  have "(d, i) \<in> dep_edges (plan_deps plan) \<longleftrightarrow> (\<exists>s \<in> set (plan_steps plan). ps_id s = i \<and> d \<in> set (?f s))" for d i
    unfolding edge entry by blast
  moreover have "(d, i) \<in> dependency_edges (plan_steps plan) \<longleftrightarrow>
      (\<exists>s \<in> set (plan_steps plan). ps_id s = i \<and> d \<in> set (?f s))" for d i
    unfolding dependency_edges_def set_filter set_map by blast
  ultimately show ?thesis
    by (intro set_eqI) (simp only: split_paired_all)
qed

text \<open>The tables of LOOPs.\<close>

lemma in_loop_configs:
  "(l, cfg) \<in> set (loop_configs C steps) \<longleftrightarrow>
     (\<exists>s \<in> set steps. ps_id s = l \<and> ps_type s = LOOP \<and> validate_loop_config C (ps_config s) = Some cfg)"
  by (induction steps) (auto split: option.splits)

lemma in_body_pairs:
  "(b, l) \<in> set (body_pairs C steps) \<longleftrightarrow> (\<exists>cfg. (l, cfg) \<in> set (loop_configs C steps) \<and> b \<in> set (lc_body_step_ids cfg))"
  by (force simp: body_pairs_def)

lemma loop_configs_functional:
  "distinct (map ps_id steps) \<Longrightarrow> (l, cfg) \<in> set (loop_configs C steps) \<Longrightarrow> (l, cfg') \<in> set (loop_configs C steps) \<Longrightarrow>
     cfg' = cfg"
  unfolding in_loop_configs by (metis (no_types, lifting) eq_key_imp_eq_value distinct_map inj_onD option.inject)

lemma find_step: "distinct (map ps_id steps) \<Longrightarrow> s \<in> set steps \<Longrightarrow> find (\<lambda>x. ps_id x = ps_id s) steps = Some s"
  by (induction steps) auto

lemma body_scope_Nil:
  assumes "distinct (map ps_id steps)" and "(l, cfg) \<in> set (loop_configs C steps)"
    and "set (lc_body_step_ids cfg) \<subseteq> ps_id ` set steps"
  shows "body_scope_issues steps l cfg = [] \<longleftrightarrow>
    (\<forall>s \<in> set steps. ps_id s \<in> set (lc_body_step_ids cfg) \<longrightarrow>
       (\<forall>d \<in> set (ps_depends_on s). d = l \<or> (d, l) \<in> set (body_pairs C steps)))"
proof -
  have pairs: "(d, l) \<in> set (body_pairs C steps) \<longleftrightarrow> d \<in> set (lc_body_step_ids cfg)" for d
    unfolding in_body_pairs using loop_configs_functional [OF assms(1,2)] assms(2) by blast
  have found: "find (\<lambda>x. ps_id x = ps_id s') steps = Some s'" if "s' \<in> set steps" for s'
    using find_step [OF assms(1) that] .
  let ?check = "\<lambda>b. case find (\<lambda>s. ps_id s = b) steps of None \<Rightarrow> []
    | Some s \<Rightarrow> concat (map (\<lambda>dep. issue_if (dep \<noteq> l \<and> dep \<notin> set (lc_body_step_ids cfg)) ''PLAN_SCHEMA_INVALID'' (Some b))
        (ps_depends_on s))"
  have check: "?check (ps_id s) = [] \<longleftrightarrow> (\<forall>d \<in> set (ps_depends_on s). d = l \<or> (d, l) \<in> set (body_pairs C steps))"
    if "s \<in> set steps" for s
    unfolding pairs using found [OF that] by auto
  have "body_scope_issues steps l cfg = [] \<longleftrightarrow> (\<forall>b \<in> set (lc_body_step_ids cfg). ?check b = [])"
    unfolding body_scope_issues_def by (rule concat_map_Nil)
  also have "\<dots> \<longleftrightarrow> (\<forall>s \<in> set steps. ps_id s \<in> set (lc_body_step_ids cfg) \<longrightarrow> ?check (ps_id s) = [])"
    using assms(3) by (auto simp del: concat_map_Nil)
  finally show ?thesis
    using check by simp
qed

text \<open>What a step reads.\<close>

lemma rejected_iff:
  assumes "\<And>x. ancestors_of anc x = {a. (a, x) \<in> (dependency_edges steps)\<^sup>+}"
  shows "step_output_rejected (ps_id ` set steps) anc (body_pairs C steps) me src \<longleftrightarrow> \<not> may_read C steps me src"
  unfolding step_output_rejected_def may_read_def Let_def assms by (auto split: option.splits)

lemma binding_issues_Nil:
  assumes "\<And>x. ancestors_of anc x = {a. (a, x) \<in> (dependency_edges steps)\<^sup>+}"
  shows "binding_issues (ps_id ` set steps) anc (body_pairs C steps) me bs = [] \<longleftrightarrow> reads_allowed C steps me bs"
proof -
  have "binding_issues (ps_id ` set steps) anc (body_pairs C steps) me bs = [] \<longleftrightarrow>
      (\<forall>b \<in> set bs. \<forall>src path. b = PlanStepOutputBinding src path \<longrightarrow> may_read C steps me src)"
    unfolding binding_issues_def by (auto simp: rejected_iff [OF assms] split: plan_binding.splits)
  then show ?thesis
    by (auto simp: reads_allowed_def)
qed

lemma reads_allowed_simps [simp]:
  "reads_allowed C steps me []"
  "reads_allowed C steps me (xs @ ys) \<longleftrightarrow> reads_allowed C steps me xs \<and> reads_allowed C steps me ys"
  "is_loop_context b \<Longrightarrow> reads_allowed C steps me [b]"
  by (auto simp: reads_allowed_def)

lemma no_loop_context: "list_ex is_loop_context bs \<longleftrightarrow> \<not> list_all (\<lambda>b. \<not> is_loop_context b) bs"
  by (simp add: list_ex_iff list_all_iff)

lemma when_issues_Nil:
  assumes "\<And>x. ancestors_of anc x = {a. (a, x) \<in> (dependency_edges steps)\<^sup>+}"
  shows "when_issues C (ps_id ` set steps) anc (body_pairs C steps) s = [] \<longleftrightarrow> when_valid C steps s"
  unfolding when_issues_def when_valid_def predicate_allowed_def
  by (auto simp: binding_issues_Nil [OF assms] no_loop_context split: option.splits)

lemma config_issues_Nil:
  assumes "\<And>x. ancestors_of anc x = {a. (a, x) \<in> (dependency_edges steps)\<^sup>+}"
  shows "config_issues C (ps_id ` set steps) L anc (body_pairs C steps) M s = [] \<longleftrightarrow>
    is_dict (ps_config s) \<and> config_valid_as (ps_type s) C L steps (ps_id s) (ps_config s)"
proof (cases "ps_type s")
  case LOOP
  have "loop_issues L sid cfg @ binding_issues (ps_id ` set steps) anc (body_pairs C steps) sid (loop_bindings cfg) = [] \<longleftrightarrow>
      lc_max_iterations cfg \<le> max_loop_iterations L \<and>
      (\<forall>b. lc_collection cfg = Some b \<longrightarrow> \<not> is_loop_context b \<and> reads_allowed C steps sid [b]) \<and>
      (\<forall>p. lc_predicate cfg = Some p \<longrightarrow> predicate_allowed C steps sid (lc_mode cfg = WHILE) p)" for sid cfg
    unfolding append_is_Nil_conv binding_issues_Nil [OF assms] loop_issues_def loop_bindings_def predicate_allowed_def
    by (auto simp: no_loop_context split: option.splits)
  with LOOP show ?thesis
    by (auto simp: config_issues_def Let_def split: option.splits)
qed (auto simp: config_issues_def Let_def predicate_allowed_def binding_issues_Nil [OF assms]
  split: option.splits)

text \<open>The scopes of LOOPs.\<close>

lemma map_of_pairs:
  "bodies_owned ids (body_pairs C steps) \<Longrightarrow> map_of (body_pairs C steps) b = Some l \<longleftrightarrow> (b, l) \<in> set (body_pairs C steps)"
  by (simp add: bodies_owned_def)

lemma nesting_Nil:
  assumes "bodies_owned ids (body_pairs C steps)" and "lp_owner z = body_pairs C steps" and "lp_configs z = loop_configs C steps"
  shows "nesting_issues z = [] \<longleftrightarrow>
    (\<nexists>a b c d. (a, b) \<in> set (body_pairs C steps) \<and> (b, c) \<in> set (body_pairs C steps) \<and> (c, d) \<in> set (body_pairs C steps) \<and>
       a \<in> fst ` set (loop_configs C steps))"
  unfolding nesting_issues_def concat_map_Nil issue_if_Nil depth_of_chain assms(2,3) map_of_pairs [OF assms(1)]
  by auto

lemma scope_Nil:
  assumes "distinct (map ps_id steps)" and "bodies_owned (map ps_id steps) (body_pairs C steps)"
  shows "(\<forall>s \<in> set steps. top_level_dep_issues (fst ` set (body_pairs C steps)) s = []) \<and>
    (\<forall>(l, cfg) \<in> set (loop_configs C steps). body_scope_issues steps l cfg = []) \<longleftrightarrow>
    (\<forall>s \<in> set steps. case map_of (body_pairs C steps) (ps_id s) of
       None \<Rightarrow> set (ps_depends_on s) \<inter> fst ` set (body_pairs C steps) = {}
     | Some l \<Rightarrow> \<forall>d \<in> set (ps_depends_on s). d = l \<or> (d, l) \<in> set (body_pairs C steps))"
proof -
  let ?P = "body_pairs C steps"
  let ?deps = "\<lambda>l s. \<forall>d \<in> set (ps_depends_on s). d = l \<or> (d, l) \<in> set ?P"
  have sub: "set (lc_body_step_ids cfg) \<subseteq> ps_id ` set steps" if "(l, cfg) \<in> set (loop_configs C steps)" for l cfg
    using assms(2) that unfolding bodies_owned_def by (fastforce simp: in_body_pairs)
  have scope: "body_scope_issues steps l cfg = [] \<longleftrightarrow>
      (\<forall>s \<in> set steps. ps_id s \<in> set (lc_body_step_ids cfg) \<longrightarrow> ?deps l s)" if "(l, cfg) \<in> set (loop_configs C steps)" for l cfg
    using body_scope_Nil [OF assms(1) that sub [OF that]] .
  have "(\<forall>(l, cfg) \<in> set (loop_configs C steps). body_scope_issues steps l cfg = []) \<longleftrightarrow>
      (\<forall>(l, cfg) \<in> set (loop_configs C steps). \<forall>s \<in> set steps. ps_id s \<in> set (lc_body_step_ids cfg) \<longrightarrow> ?deps l s)"
    using scope by (intro ball_cong) auto
  also have "\<dots> \<longleftrightarrow> (\<forall>s \<in> set steps. \<forall>l. (ps_id s, l) \<in> set ?P \<longrightarrow> ?deps l s)"
    unfolding in_body_pairs by blast
  finally have bodies: "(\<forall>(l, cfg) \<in> set (loop_configs C steps). body_scope_issues steps l cfg = []) \<longleftrightarrow>
      (\<forall>s \<in> set steps. \<forall>l. map_of ?P (ps_id s) = Some l \<longrightarrow> ?deps l s)"
    unfolding map_of_pairs [OF assms(2)] .
  have top: "top_level_dep_issues (fst ` set ?P) s = [] \<longleftrightarrow>
      (map_of ?P (ps_id s) = None \<longrightarrow> set (ps_depends_on s) \<inter> fst ` set ?P = {})" for s
    unfolding top_level_dep_issues_def map_of_eq_None_iff by auto
  show ?thesis
    unfolding bodies top by (simp only: split: option.split) blast
qed

subsection \<open>The validator and its contract\<close>

lemma static_ancestors_acyclic:
  assumes "distinct (map ps_id (plan_steps plan))" and "acyclic (dependency_edges (plan_steps plan))"
    and "static_ancestors plan = Inr anc"
  shows "ancestors_of anc x = {a. (a, x) \<in> (dependency_edges (plan_steps plan))\<^sup>+}"
  using static_ancestors_closure [OF assms(3)] assms(2) by (simp add: dep_edges_distinct [OF assms(1)] closure_def)

lemma response_issues_Nil:
  "response_issues ids bodies rids = [] \<longleftrightarrow> rids \<noteq> [] \<and> distinct rids \<and> set rids \<subseteq> ids - bodies"
  by (auto simp: response_issues_def distinct_card dest: card_distinct)

lemma limit_hard_bounds_Nil:
  "limit_hard_bounds L = [] \<longleftrightarrow> max_steps L \<le> SYSTEM_HARD_MAX_STEPS \<and> max_duration_seconds L \<le> SYSTEM_HARD_MAX_DURATION_SECONDS \<and>
     max_parallelism L \<le> SYSTEM_HARD_MAX_PARALLELISM \<and> max_loop_iterations L \<le> SYSTEM_HARD_MAX_LOOP_ITERATIONS"
  by (auto simp: limit_hard_bounds_def)

lemma graph_checks:
  "steps \<noteq> [] \<and> (\<forall>s \<in> set steps. non_blank (ps_id s)) \<and> distinct (map ps_id steps) \<and>
     (\<forall>s \<in> set steps. dependency_issues (set (map ps_id steps)) s = []) \<and>
     has_dependency_cycle (remdups (map ps_id steps)) steps \<noteq> Some True \<and> unreachable_issues steps = [] \<and>
     (\<forall>s \<in> set steps. \<not> (ps_type s = JOIN \<and> ps_depends_on s = [])) \<longleftrightarrow> graph_valid steps"
proof -
  have cycle: "has_dependency_cycle (remdups (map ps_id steps)) steps = Some (\<not> acyclic (dependency_edges steps))"
    by (rule cycle_check_spec) simp_all
  have self: "ps_id s \<notin> set (ps_depends_on s)" if "acyclic (dependency_edges steps)" "s \<in> set steps" for s
  proof
    assume "ps_id s \<in> set (ps_depends_on s)"
    with that(2) have "(ps_id s, ps_id s) \<in> dependency_edges steps"
      by (auto simp: dependency_edges_def)
    with that(1) show False
      unfolding acyclic_def by blast
  qed
  show ?thesis
    unfolding graph_valid_def cycle using self unreachable_issues_Nil [of steps] by auto
qed

definition loop_table_checks :: "codec \<Rightarrow> (json \<Rightarrow> bool) \<Rightarrow> execution_plan \<Rightarrow> ancestor_map \<Rightarrow> loop_pass \<Rightarrow> bool" where
  "loop_table_checks C M plan anc z \<longleftrightarrow>
     (let steps = plan_steps plan; ids = ps_id ` set steps; bodies = fst ` set (lp_owner z)
      in response_issues ids bodies (response_step_ids plan) = [] \<and>
         (\<forall>s \<in> set steps. top_level_dep_issues bodies s = []) \<and>
         (\<forall>s \<in> set steps. when_issues C ids anc (lp_owner z) s = [] \<and>
            config_issues C ids (plan_limits plan) anc (lp_owner z) M s = []) \<and>
         (\<forall>(l, cfg) \<in> set (lp_configs z). body_scope_issues steps l cfg = []) \<and> nesting_issues z = [])"

lemma validate_static_checks:
  assumes "static_ancestors plan = Inr anc"
  shows "validate_static C M plan = Inr [] \<longleftrightarrow>
    graph_valid (plan_steps plan) \<and> limits_valid plan \<and> lp_issues (loop_ownership C plan) = [] \<and>
    loop_table_checks C M plan anc (loop_ownership C plan)"
  unfolding validate_static_def Let_def assms and_then.simps graph_checks [symmetric] limits_valid_def loop_table_checks_def
    sum.inject append_is_Nil_conv concat_map_Nil issue_if_Nil limit_hard_bounds_Nil duplicate_issues_Nil
  by (auto simp del: dependency_issues_Nil)

lemma loop_table_checks_iff:
  assumes "graph_valid (plan_steps plan)" and "static_ancestors plan = Inr anc"
    and "bodies_owned (map ps_id (plan_steps plan)) (body_pairs C (plan_steps plan))"
  shows "loop_table_checks C M plan anc (loop_ownership C plan) \<longleftrightarrow> scopes_valid C plan \<and>
    (\<forall>s \<in> set (plan_steps plan). when_valid C (plan_steps plan) s \<and> is_dict (ps_config s) \<and>
       config_valid_as (ps_type s) C (plan_limits plan) (plan_steps plan) (ps_id s) (ps_config s))"
proof -
  have graph: "distinct (map ps_id (plan_steps plan))" "acyclic (dependency_edges (plan_steps plan))"
    using assms(1) by (simp_all add: graph_valid_def)
  note anc = static_ancestors_acyclic [OF graph assms(2)]
  let ?z = "loop_ownership C plan"
  have z: "lp_owner ?z = body_pairs C (plan_steps plan)" "lp_configs ?z = loop_configs C (plan_steps plan)"
    using loop_ownership_spec(2) [OF graph(1) assms(3)] by simp_all
  show ?thesis
    unfolding loop_table_checks_def Let_def nesting_Nil [OF assms(3) z] unfolding z
      when_issues_Nil [OF anc] config_issues_Nil [OF anc] response_issues_Nil scopes_valid_def Let_def
      scope_Nil [OF graph(1) assms(3), symmetric]
    using assms(3) by blast
qed

lemma validate_static_total: "\<exists>issues. validate_static C M plan = Inr issues"
  using static_ancestors_total [of plan] unfolding validate_static_def Let_def by auto

lemma static_plan_accepted: "validate_static C M plan = Inr [] \<longleftrightarrow> static_plan_valid C plan"
proof -
  obtain anc where anc: "static_ancestors plan = Inr anc"
    using static_ancestors_total by blast
  show ?thesis
  proof (cases "graph_valid (plan_steps plan) \<and> bodies_owned (map ps_id (plan_steps plan)) (body_pairs C (plan_steps plan))")
    case True
    then have "lp_issues (loop_ownership C plan) = []"
      using loop_ownership_spec(1) [of plan C] by (simp add: graph_valid_def)
    with True show ?thesis
      unfolding validate_static_checks [OF anc] static_plan_valid_def
      using loop_table_checks_iff [of plan anc C M] anc by blast
  next
    case False
    moreover have "bodies_owned (map ps_id (plan_steps plan)) (body_pairs C (plan_steps plan))"
      if "graph_valid (plan_steps plan)" "lp_issues (loop_ownership C plan) = []"
      using that loop_ownership_spec(1) [of plan C] by (simp add: graph_valid_def)
    ultimately show ?thesis
      unfolding validate_static_checks [OF anc] static_plan_valid_def scopes_valid_def Let_def by blast
  qed
qed

text \<open>C16: The static validator of complex plans reports no issue exactly when the plan meets the contract: different,
  non-blank ids, an acyclic graph over them, the limits, LOOP bodies with one owner and at most three LOOPs inside
  each other, dependencies and STEP_OUTPUT reads that stay in their scope, and valid configurations.\<close>

theorem static_plan_accepted_iff: "validate_static C M plan = Inr [] \<longleftrightarrow> static_plan_valid C plan"
  by (rule static_plan_accepted)

end
