(* ===== verification/Materialize.thy ===== *)
theory Materialize
  imports StaticPlanValid ExecutionDb DagCorrectness
begin

section \<open>Materialising an execution\<close>

text \<open>
  \<^verbatim>\<open>src/backend/app/execution/materialize.py\<close> with \<open>create_execution\<close> and \<open>create_step\<close> of
  \<^verbatim>\<open>src/backend/app/repositories/execution.py\<close>: the row of an execution and one PENDING row per
  top-level step of its plan, from a snapshot that is validated again.  \<open>vplan\<close> is
  \<open>ExecutionPlanV1.model_validate\<close>, \<open>eid\<close> and \<open>sid\<close> are the fresh \<open>uuid4\<close> of the
  execution and of the step with a sequence hint, \<open>ts\<close> the time of the event.  The columns
  \<open>requested_at\<close> and \<open>parent_execution_id\<close>, which no modelled operation reads, and the
  CHECK constraints of the tables on the lineage are not modelled.
\<close>

record materialize_params =
  mp_source_type :: string
  mp_trigger_type :: string
  mp_requester_id :: uuid
  mp_plan_snapshot :: json
  mp_plan_hash :: string
  mp_input_snapshot :: json
  mp_policy_snapshot :: json
  mp_agent_request_id :: "uuid option"
  mp_agent_version_id :: "uuid option"
  mp_workflow_version_id :: "uuid option"
  mp_schedule_occurrence_id :: "uuid option"
  mp_plan_validation_run_id :: "uuid option"
  mp_trace_id :: "string option"

record step_projection =
  pj_step_key :: string
  pj_step_type :: step_type
  pj_tool_version_id :: "uuid option"
  pj_sequence_hint :: nat
  pj_snapshot :: json

text \<open>The enumeration has five members, so the last branch of the code cannot be taken.\<close>

definition project_step :: "codec \<Rightarrow> plan_step \<Rightarrow> nat \<Rightarrow> step_projection result" where
  "project_step C s hint =
     and_then
       (case ps_type s of
          TOOL \<Rightarrow> and_then (opt_or (validate_tool_config C (ps_config s)) PRECONDITION_FAILED) (\<lambda>cfg.
                    Inr (Some (tc_tool_version_id cfg)))
        | CONDITION \<Rightarrow> and_then (opt_or (validate_condition_config C (ps_config s)) PRECONDITION_FAILED) (\<lambda>_. Inr None)
        | JOIN \<Rightarrow> and_then (opt_or (validate_join_config C (ps_config s)) PRECONDITION_FAILED) (\<lambda>_. Inr None)
        | APPROVAL \<Rightarrow> and_then (opt_or (validate_approval_config C (ps_config s)) PRECONDITION_FAILED) (\<lambda>_. Inr None)
        | LOOP \<Rightarrow> and_then (opt_or (validate_loop_config C (ps_config s)) PRECONDITION_FAILED) (\<lambda>_. Inr None))
       (\<lambda>tv. Inr \<lparr>pj_step_key = ps_id s, pj_step_type = ps_type s, pj_tool_version_id = tv,
                  pj_sequence_hint = hint, pj_snapshot = dump_plan_step C s\<rparr>)"

definition prepare :: "codec \<Rightarrow> (json \<Rightarrow> execution_plan option) \<Rightarrow> (rat \<Rightarrow> string) \<Rightarrow> (json \<Rightarrow> bool) \<Rightarrow> materialize_params
    \<Rightarrow> (execution_plan \<times> step_projection list) result" where
  "prepare C vplan fr M params =
     (if \<not> is_dict (mp_plan_snapshot params) then Inl PRECONDITION_FAILED
      else if str_strip (mp_plan_hash params) = [] then Inl PRECONDITION_FAILED
      else and_then (opt_or (vplan (mp_plan_snapshot params)) PRECONDITION_FAILED) (\<lambda>plan.
        if compute_plan_hash fr (mp_plan_snapshot params) \<noteq> mp_plan_hash params then Inl PRECONDITION_FAILED
        else and_then (validate_static C M plan) (\<lambda>issues.
          if issues \<noteq> [] then Inl PRECONDITION_FAILED
          else and_then (top_level_plan_steps C plan) (\<lambda>tops.
            and_then (mapE (\<lambda>(i, s). project_step C s i) (List.enumerate 0 tops)) (\<lambda>ps.
              Inr (plan, ps))))))"

definition create_execution :: "uuid \<Rightarrow> materialize_params \<Rightarrow> execution_row" where
  "create_execution eid params =
     \<lparr>ex_id = eid, source_type = mp_source_type params, trigger_type = mp_trigger_type params,
      trace_id = mp_trace_id params, input_snapshot = mp_input_snapshot params, ex_status = E_CREATED,
      requester_id = mp_requester_id params, agent_request_id = mp_agent_request_id params,
      agent_version_id = mp_agent_version_id params, workflow_version_id = mp_workflow_version_id params,
      schedule_occurrence_id = mp_schedule_occurrence_id params,
      plan_validation_run_id = mp_plan_validation_run_id params, plan_schema_version = ''1.0'',
      plan_snapshot = mp_plan_snapshot params, plan_hash = mp_plan_hash params,
      policy_snapshot = mp_policy_snapshot params, ex_error_code = None, queued_at = None, ex_started_at = None,
      ex_finished_at = None, worker_id = None, lease_token = None, lease_expires_at = None, heartbeat_at = None,
      ex_lock_version = 1, result_summary = JNull, cancel_requested_at = None, cancel_requested_by = None,
      cancel_reason = None\<rparr>"

definition create_step :: "uuid \<Rightarrow> (nat \<Rightarrow> uuid) \<Rightarrow> step_projection \<Rightarrow> execution_step" where
  "create_step eid sid pj =
     \<lparr>st_id = sid (pj_sequence_hint pj), st_execution_id = eid, step_key = pj_step_key pj, st_type = pj_step_type pj,
      mcp_tool_version_id = pj_tool_version_id pj, parent_step_id = None,
      sequence_hint = int (pj_sequence_hint pj), status = PENDING, step_snapshot = pj_snapshot pj,
      resolved_input = JNull, result_inline = JNull, condition_result = None, iteration_no = None, attempt_count = 0,
      ready_at = None, started_at = None, finished_at = None, error_code = None, error_message = None,
      lock_version = 1\<rparr>"

text \<open>\<open>emit_execution_status_changed\<close> with no previous status always writes the event.\<close>

definition emit_execution_created :: "execution_row \<Rightarrow> time \<Rightarrow> db \<Rightarrow> db" where
  "emit_execution_created ex ts d =
     d\<lparr>db_events := db_events d @
         [\<lparr>ev_type = execution_event_type (ex_status ex), ev_execution_id = ex_id ex, ev_step_id = None,
           ev_payload = execution_lifecycle_payload ex, ev_occurred_at = ts\<rparr>]\<rparr>"

definition materialize :: "codec \<Rightarrow> (json \<Rightarrow> execution_plan option) \<Rightarrow> (rat \<Rightarrow> string) \<Rightarrow> (json \<Rightarrow> bool) \<Rightarrow> uuid
    \<Rightarrow> (nat \<Rightarrow> uuid) \<Rightarrow> time \<Rightarrow> materialize_params \<Rightarrow> db \<Rightarrow> (execution_row \<times> execution_step list \<times> db) result" where
  "materialize C vplan fr M eid sid ts params d =
     and_then (prepare C vplan fr M params) (\<lambda>(_, ps).
       let ex = create_execution eid params; rows = map (create_step eid sid) ps;
           d' = put_execution ex d\<lparr>db_steps := db_steps d @ rows\<rparr>
       in Inr (ex, rows, emit_execution_created ex ts d'))"

subsection \<open>The runtime's own tables of a valid plan\<close>

lemma own_bodies:
  "distinct bs \<Longrightarrow> set bs \<subseteq> set ids - {l} \<Longrightarrow> set bs \<inter> fst ` set b2l = {} \<Longrightarrow>
     foldE (own_body ids l) bs b2l = Inr (b2l @ map (\<lambda>b. (b, l)) bs)"
proof (induction bs arbitrary: b2l)
  case (Cons b bs)
  then have "map_of b2l b = None"
    by (simp add: map_of_eq_None_iff)
  with Cons show ?case
    by (simp add: own_body_def dict_set_new)
qed simp

definition body_table :: "codec \<Rightarrow> plan_step list \<Rightarrow> (string \<times> string list) list" where
  "body_table C steps = map (\<lambda>(l, cfg). (l, lc_body_step_ids cfg)) (loop_configs C steps)"

lemma own_steps:
  assumes "distinct (map ps_id ss)" and "\<forall>s \<in> set ss. ps_type s = LOOP \<longrightarrow> validate_loop_config C (ps_config s) \<noteq> None"
    and "bodies_owned ids (b2l @ body_pairs C ss)" and "ps_id ` set ss \<inter> fst ` set l2b = {}"
  shows "foldE (own_step C ids) ss \<lparr>body_to_loop = b2l, loop_to_body = l2b\<rparr> =
    Inr \<lparr>body_to_loop = b2l @ body_pairs C ss, loop_to_body = l2b @ body_table C ss\<rparr>"
  using assms
proof (induction ss arbitrary: b2l l2b)
  case (Cons s ss)
  show ?case
  proof (cases "ps_type s = LOOP")
    case False
    then have "body_pairs C (s # ss) = body_pairs C ss" "body_table C (s # ss) = body_table C ss"
      by (simp_all add: body_pairs_def body_table_def)
    with False Cons show ?thesis
      by (simp add: own_step_other)
  next
    case True
    with Cons.prems(2) obtain cfg where cfg: "validate_loop_config C (ps_config s) = Some cfg"
      by auto
    let ?bs = "lc_body_step_ids cfg" and ?l = "ps_id s"
    have pairs: "body_pairs C (s # ss) = map (\<lambda>b. (b, ?l)) ?bs @ body_pairs C ss"
        "body_table C (s # ss) = (?l, ?bs) # body_table C ss"
      using True cfg by (simp_all add: body_pairs_def body_table_def)
    have own: "foldE (own_body ids ?l) ?bs b2l = Inr (b2l @ map (\<lambda>b. (b, ?l)) ?bs)"
      using Cons.prems(3) unfolding pairs by (intro own_bodies) (auto simp: bodies_owned_def comp_def)
    have new: "?l \<notin> fst ` set l2b" "?l \<notin> ps_id ` set ss"
      using Cons.prems(1,4) by auto
    have step: "own_step C ids s \<lparr>body_to_loop = b2l, loop_to_body = l2b\<rparr> =
        Inr \<lparr>body_to_loop = b2l @ map (\<lambda>b. (b, ?l)) ?bs, loop_to_body = l2b @ [(?l, ?bs)]\<rparr>"
      using True cfg own new(1) by (simp add: own_step_def dict_set_new)
    have "foldE (own_step C ids) ss \<lparr>body_to_loop = b2l @ map (\<lambda>b. (b, ?l)) ?bs, loop_to_body = l2b @ [(?l, ?bs)]\<rparr> =
        Inr \<lparr>body_to_loop = (b2l @ map (\<lambda>b. (b, ?l)) ?bs) @ body_pairs C ss,
             loop_to_body = (l2b @ [(?l, ?bs)]) @ body_table C ss\<rparr>"
      using Cons.prems new by (intro Cons.IH) (auto simp: pairs)
    then show ?thesis
      by (simp add: step pairs)
  qed
qed (simp add: body_pairs_def body_table_def)

lemma valid_ownership:
  assumes "static_plan_valid C plan"
  shows "build_loop_body_ownership C plan =
    Inr \<lparr>body_to_loop = body_pairs C (plan_steps plan), loop_to_body = body_table C (plan_steps plan)\<rparr>"
proof -
  have "validate_loop_config C (ps_config s) \<noteq> None" if "s \<in> set (plan_steps plan)" "ps_type s = LOOP" for s
    using assms that by (force simp: static_plan_valid_def)
  moreover have "distinct (map ps_id (plan_steps plan))"
      "bodies_owned (map ps_id (plan_steps plan)) (body_pairs C (plan_steps plan))"
    using assms by (simp_all add: static_plan_valid_def graph_valid_def scopes_valid_def Let_def)
  ultimately show ?thesis
    unfolding build_loop_body_ownership_def using own_steps [of "plan_steps plan" C _ "[]" "[]"] by simp
qed

definition top_steps :: "codec \<Rightarrow> execution_plan \<Rightarrow> plan_step list" where
  "top_steps C plan = filter (\<lambda>s. ps_id s \<notin> fst ` set (body_pairs C (plan_steps plan))) (plan_steps plan)"

lemma valid_tops: "static_plan_valid C plan \<Longrightarrow> top_level_plan_steps C plan = Inr (top_steps C plan)"
  by (simp add: top_level_plan_steps_def valid_ownership is_owned_def map_of_eq_None_iff top_steps_def)

subsection \<open>What is materialised\<close>

definition accepted_snapshot :: "codec \<Rightarrow> (json \<Rightarrow> execution_plan option) \<Rightarrow> (rat \<Rightarrow> string) \<Rightarrow> materialize_params
    \<Rightarrow> execution_plan option" where
  "accepted_snapshot C vplan fr params =
     (case vplan (mp_plan_snapshot params) of
        None \<Rightarrow> None
      | Some plan \<Rightarrow>
          if is_dict (mp_plan_snapshot params) \<and> non_blank (mp_plan_hash params) \<and>
             compute_plan_hash fr (mp_plan_snapshot params) = mp_plan_hash params \<and> static_plan_valid C plan
          then Some plan else None)"

definition tool_version_of :: "codec \<Rightarrow> plan_step \<Rightarrow> uuid option" where
  "tool_version_of C s =
     (if ps_type s = TOOL then map_option tc_tool_version_id (validate_tool_config C (ps_config s)) else None)"

text \<open>The row of the step at position \<open>i\<close> of the top level.\<close>

definition pending_row :: "codec \<Rightarrow> uuid \<Rightarrow> (nat \<Rightarrow> uuid) \<Rightarrow> nat \<Rightarrow> plan_step \<Rightarrow> execution_step" where
  "pending_row C eid sid i s =
     \<lparr>st_id = sid i, st_execution_id = eid, step_key = ps_id s, st_type = ps_type s,
      mcp_tool_version_id = tool_version_of C s, parent_step_id = None,
      sequence_hint = int i, status = PENDING, step_snapshot = dump_plan_step C s,
      resolved_input = JNull, result_inline = JNull, condition_result = None, iteration_no = None, attempt_count = 0,
      ready_at = None, started_at = None, finished_at = None, error_code = None, error_message = None,
      lock_version = 1\<rparr>"

definition initial_rows :: "codec \<Rightarrow> uuid \<Rightarrow> (nat \<Rightarrow> uuid) \<Rightarrow> execution_plan \<Rightarrow> execution_step list" where
  "initial_rows C eid sid plan = map (\<lambda>(i, s). pending_row C eid sid i s) (List.enumerate 0 (top_steps C plan))"

definition projection_of :: "codec \<Rightarrow> nat \<Rightarrow> plan_step \<Rightarrow> step_projection" where
  "projection_of C i s =
     \<lparr>pj_step_key = ps_id s, pj_step_type = ps_type s, pj_tool_version_id = tool_version_of C s,
      pj_sequence_hint = i, pj_snapshot = dump_plan_step C s\<rparr>"

lemma project_valid:
  "config_valid_as (ps_type s) C L steps me (ps_config s) \<Longrightarrow> project_step C s i = Inr (projection_of C i s)"
  by (cases "ps_type s") (auto simp: project_step_def projection_of_def tool_version_of_def)

lemma create_projection: "create_step eid sid (projection_of C i s) = pending_row C eid sid i s"
  by (simp add: create_step_def projection_of_def pending_row_def)

lemma mapE_map: "(\<And>x. x \<in> set xs \<Longrightarrow> f x = Inr (g x)) \<Longrightarrow> mapE f xs = Inr (map g xs)"
  by (induction xs) auto

lemma project_rows:
  assumes "\<And>s. s \<in> set ss \<Longrightarrow> config_valid_as (ps_type s) C L steps (ps_id s) (ps_config s)"
  shows "mapE (\<lambda>(i, s). project_step C s i) (List.enumerate n ss) =
    Inr (map (\<lambda>(i, s). projection_of C i s) (List.enumerate n ss))"
proof (rule mapE_map)
  fix x assume "x \<in> set (List.enumerate n ss)"
  then have "snd x \<in> set ss"
    by (metis in_set_zip enumerate_eq_zip nth_mem)
  from project_valid [OF assms [OF this]]
  show "(case x of (i, s) \<Rightarrow> project_step C s i) = Inr (case x of (i, s) \<Rightarrow> projection_of C i s)"
    by (simp add: case_prod_unfold)
qed

lemma materialize_spec:
  "materialize C vplan fr M eid sid ts params d =
     (case accepted_snapshot C vplan fr params of
        None \<Rightarrow> Inl PRECONDITION_FAILED
      | Some plan \<Rightarrow>
          let ex = create_execution eid params; rows = initial_rows C eid sid plan
          in Inr (ex, rows, emit_execution_created ex ts (put_execution ex d\<lparr>db_steps := db_steps d @ rows\<rparr>)))"
proof (cases "vplan (mp_plan_snapshot params)")
  case (Some plan)
  obtain issues where issues: "validate_static C M plan = Inr issues"
    using validate_static_total by blast
  show ?thesis
  proof (cases "static_plan_valid C plan")
    case True
    then have "validate_static C M plan = Inr []"
      by (rule static_plan_accepted [THEN iffD2])
    moreover have "mapE (\<lambda>(i, s). project_step C s i) (List.enumerate 0 (top_steps C plan)) =
        Inr (map (\<lambda>(i, s). projection_of C i s) (List.enumerate 0 (top_steps C plan)))"
      using True by (intro project_rows) (auto simp: static_plan_valid_def top_steps_def)
    moreover have "map (create_step eid sid) (map (\<lambda>(i, s). projection_of C i s) (List.enumerate 0 (top_steps C plan))) =
        initial_rows C eid sid plan"
      by (simp add: initial_rows_def create_projection case_prod_unfold)
    ultimately show ?thesis
      using Some True
      by (simp add: materialize_def prepare_def accepted_snapshot_def non_blank_def valid_tops Let_def)
  next
    case False
    with issues have "issues \<noteq> []"
      using static_plan_accepted [of C M plan] by auto
    with Some False issues show ?thesis
      by (simp add: materialize_def prepare_def accepted_snapshot_def)
  qed
qed (simp add: materialize_def prepare_def accepted_snapshot_def)

text \<open>C18: Materialising an execution has two outcomes.  For a snapshot that is an object, parses, has the given hash
  and meets the static contract it writes the CREATED row, one PENDING row per step outside the LOOP bodies, in plan
  order, and one event; in every other case, and with no other error, it raises a failed precondition.\<close>

theorem materialize_outcome:
  "materialize C vplan fr M eid sid ts params d =
     (case accepted_snapshot C vplan fr params of
        None \<Rightarrow> Inl PRECONDITION_FAILED
      | Some plan \<Rightarrow>
          let ex = create_execution eid params; rows = initial_rows C eid sid plan
          in Inr (ex, rows, emit_execution_created ex ts (put_execution ex d\<lparr>db_steps := db_steps d @ rows\<rparr>)))"
  by (rule materialize_spec)

end
