(* ===== verification/ExecutionCreation.thy ===== *)
theory ExecutionCreation
  imports ToolPreflight Materialize
begin

section \<open>Creating the execution of an agent request\<close>

text \<open>
  \<^verbatim>\<open>src/backend/app/services/execution_creation.py\<close>: a READY request becomes an execution, once per
  idempotency key.  \<open>creation_db\<close> holds the tables of planning, which are only read, and the tables the service
  writes: the rows of each execution, the idempotency records (\<^verbatim>\<open>models/idempotency.py\<close>) and the audit log.
  The preflight reads one state; \<open>others\<close> is what other transactions commit before the insert.  Columns the
  database fills and integrity errors other than that of the idempotency key are not modelled.
\<close>

record idempotency_record =
  ik_principal_key :: string
  ik_operation_scope :: string
  ik_key :: string
  ik_request_hash :: string
  ik_status :: string
  ik_response_status :: "int option"
  ik_response_body :: json
  ik_resource_type :: "string option"
  ik_resource_id :: "uuid option"
  ik_completed_at :: "time option"
  ik_expires_at :: "time option"

record create_result =
  cr_id :: uuid
  cr_status :: string
  cr_source_type :: string
  cr_trigger_type :: string
  cr_agent_request_id :: uuid
  cr_agent_version_id :: uuid
  cr_plan_hash :: string
  cr_requested_at :: time
  cr_step_count :: nat

record audit_event =
  al_actor_type :: string
  al_actor_id :: string
  al_action :: string
  al_outcome :: string
  al_resource_type :: string
  al_resource_id :: string
  al_execution_id :: uuid
  al_change_set :: json
  al_occurred_at :: time

record creation_outcome =
  co_result :: create_result
  co_http_status :: int
  co_replayed :: bool

record creation_db =
  cd_tables :: vdb
  cd_executions :: "(uuid, db) dict"
  cd_idempotency :: "idempotency_record list"
  cd_audit :: "audit_event list"

text \<open>
  What pydantic gives this module: the codecs of plan validation and of materialisation, the dump of a plan, and
  dump and validation of the response body.
\<close>

record creation_codec =
  cc_validator :: validator_codec
  cc_codec :: codec
  cc_dump_plan :: "execution_plan \<Rightarrow> json"
  cc_dump_result :: "create_result \<Rightarrow> json"
  cc_validate_result :: "json \<Rightarrow> create_result option"
  cc_mentions :: "json \<Rightarrow> bool"

definition OPERATION_SCOPE :: string where "OPERATION_SCOPE = ''AGENT_REQUEST_EXECUTION_CREATE_V1''"

abbreviation NOT_READY :: py_error where "NOT_READY \<equiv> AppError ''EXECUTION_NOT_READY'' 409"
abbreviation KEY_INVALID :: py_error where "KEY_INVALID \<equiv> AppError ''VALIDATION_ERROR'' 400"

definition request_hash :: "(rat \<Rightarrow> string) \<Rightarrow> uuid \<Rightarrow> string" where
  "request_hash fr rid =
     compute_canonical_json_hash fr
       (JObj [(''agent_request_id'', JStr (uuid_str rid)), (''source_type'', JStr ''AGENT_REQUEST''),
              (''trigger_type'', JStr ''USER'')])"

subsection \<open>Replay\<close>

definition get_idempotency :: "creation_db \<Rightarrow> string \<Rightarrow> string \<Rightarrow> idempotency_record option" where
  "get_idempotency d principal_key key =
     find (\<lambda>r. ik_principal_key r = principal_key \<and> ik_operation_scope r = OPERATION_SCOPE \<and> ik_key r = key)
       (cd_idempotency d)"

definition replay_or_conflict ::
    "creation_codec \<Rightarrow> creation_db \<Rightarrow> idempotency_record \<Rightarrow> string \<Rightarrow> creation_outcome result" where
  "replay_or_conflict K d r h =
     guard (ik_request_hash r = h) (AppError ''IDEMPOTENCY_KEY_REUSED'' 409)
     (guard (ik_status r = ''COMPLETED'') RESOURCE_CONFLICT
     (guard (ik_resource_type r = Some ''EXECUTION'') RESOURCE_CONFLICT
     (and_then (opt_or (ik_resource_id r) RESOURCE_CONFLICT) (\<lambda>eid.
     guard (map_of (cd_executions d) eid \<noteq> None) RESOURCE_CONFLICT
     (guard (ik_response_status r = Some 201 \<and> ik_response_body r \<noteq> JNull) RESOURCE_CONFLICT
     (and_then (opt_or (cc_validate_result K (ik_response_body r)) RESOURCE_CONFLICT) (\<lambda>result.
     guard (cr_id result = eid) RESOURCE_CONFLICT
       (Inr \<lparr>co_result = result, co_http_status = 201, co_replayed = True\<rparr>))))))))"

subsection \<open>Bindings\<close>

definition object_properties :: "json \<Rightarrow> ((string, json) dict \<times> (string, json) dict \<times> string list) result" where
  "object_properties schema =
     (case schema of
        JObj kvs \<Rightarrow>
          guard (get_or_none kvs ''type'' = JStr ''object'') PRECONDITION_FAILED
            (case get_or_none kvs ''properties'' of
               JObj props \<Rightarrow> and_then (opt_or (required_names kvs) PRECONDITION_FAILED) (\<lambda>required. Inr (kvs, props, required))
             | _ \<Rightarrow> Inl PRECONDITION_FAILED)
      | _ \<Rightarrow> Inl PRECONDITION_FAILED)"

text \<open>The two tests on the names, which both binding checks begin with.\<close>

definition check_names :: "(string, json) dict \<Rightarrow> string list \<Rightarrow> string list \<Rightarrow> unit result" where
  "check_names props required keys =
     guard (list_all (\<lambda>k. k \<in> set (dict_keys props)) keys) PRECONDITION_FAILED
       (raise_if (\<not> list_all (\<lambda>r. r \<in> set keys) required) PRECONDITION_FAILED)"

definition check_created_literal :: "(string, json) dict \<Rightarrow> string \<times> binding_value \<Rightarrow> unit result" where
  "check_created_literal props kb =
     (case kb of
        (k, SecretRefBindingValue _) \<Rightarrow> Inr ()
      | (k, LiteralBindingValue v) \<Rightarrow>
          (case get_or_none props k of
             JObj prop \<Rightarrow> (case get_or_none prop ''type'' of
                             JStr t \<Rightarrow> raise_if (\<not> literal_matches_type v t) PRECONDITION_FAILED
                           | _ \<Rightarrow> Inr ())
           | _ \<Rightarrow> Inr ()))"

definition create_validate_bindings :: "json \<Rightarrow> (string, binding_value) dict \<Rightarrow> unit result" where
  "create_validate_bindings schema bindings =
     and_then (object_properties schema) (\<lambda>(_, props, required).
     and_then (check_names props required (dict_keys bindings)) (\<lambda>_.
       eachE (check_created_literal props) bindings))"

definition check_companion ::
    "validator_codec \<Rightarrow> structured_request \<Rightarrow> json \<Rightarrow> string \<times> plan_binding \<Rightarrow> unit result" where
  "check_companion V sr schema kb =
     (case kb of
        (k, PlanStepOutputBinding step path) \<Rightarrow>
          guard (step = DETERMINISTIC_TOOL_STEP_ID) PRECONDITION_FAILED (raise_if (\<not> prefix ''/'' path) PRECONDITION_FAILED)
      | (k, PlanLiteralBinding v) \<Rightarrow>
          and_then (opt_or (companion_param_json_type schema k) PRECONDITION_FAILED) (\<lambda>t.
          and_then (companion_literal_matches_explicit_id (va_floats V) sr k v t) (\<lambda>matches.
            raise_if (\<not> matches) PRECONDITION_FAILED))
      | _ \<Rightarrow> Inl PRECONDITION_FAILED)"

definition create_validate_companion ::
    "validator_codec \<Rightarrow> structured_request \<Rightarrow> json \<Rightarrow> (string, plan_binding) dict \<Rightarrow> unit result" where
  "create_validate_companion V sr schema bindings =
     and_then (object_properties schema) (\<lambda>(_, props, required).
     and_then (check_names props required (dict_keys bindings)) (\<lambda>_.
       eachE (check_companion V sr schema) bindings))"

definition create_load_structured :: "validator_codec \<Rightarrow> agent_request \<Rightarrow> structured_request result" where
  "create_load_structured V request =
     guard (rq_structured_version request = Some ''1.0'') PRECONDITION_FAILED
     (guard (is_dict (rq_structured request)) PRECONDITION_FAILED
       (opt_or (va_structured V (rq_structured request)) PRECONDITION_FAILED))"

subsection \<open>The preflight\<close>

record creation_context =
  cx_validation :: validation_run
  cx_plan_run :: plan_run
  cx_plan :: execution_plan
  cx_policy_snapshot :: json

text \<open>The tests on the parameter build, the same for one tool and for two.\<close>

definition load_build :: "validator_codec \<Rightarrow> vdb \<Rightarrow> agent_request \<Rightarrow> plan_run \<Rightarrow> (build_run \<times> (string, binding_value) dict) result" where
  "load_build V d request run =
     and_then (opt_or (find (\<lambda>b. bd_id b = pr_parameter_build_run_id run) (vd_build_runs d)) PRECONDITION_FAILED) (\<lambda>b.
     guard (bd_agent_request_id b = rq_id request \<and> bd_is_complete b \<and> bd_missing_fields b = [] \<and>
            bd_constraints_snapshot b = JNull) PRECONDITION_FAILED
     (and_then (opt_or (va_params V (bd_bindings_snapshot b)) PRECONDITION_FAILED) (\<lambda>params. Inr (b, params))))"

definition same_projection :: "validator_codec \<Rightarrow> (string, binding_value) dict \<Rightarrow> (string, binding_value) dict \<Rightarrow> bool" where
  "same_projection V params bindings \<longleftrightarrow>
     py_eq (JObj (map (\<lambda>(k, b). (k, va_dump V b)) params)) (JObj (map (\<lambda>(k, b). (k, va_dump V b)) bindings))"

definition preflight_single :: "creation_codec \<Rightarrow> vdb \<Rightarrow> catalog \<Rightarrow> agent_request \<Rightarrow> validation_run \<Rightarrow> plan_run
    \<Rightarrow> execution_plan \<Rightarrow> creation_context result" where
  "preflight_single K d ct request validation run plan =
     (let V = cc_validator K; step = hd (plan_steps plan) in
      and_then (load_build V d request run) (\<lambda>(b, params).
      and_then (opt_or (va_tool V (ps_config step)) PRECONDITION_FAILED) (\<lambda>cfg.
      let refs = filter (\<lambda>r. rf_run_id r = pr_id run) (vd_tool_refs d) in
      guard (length refs = 1 \<and> rf_step_key (hd refs) = DETERMINISTIC_TOOL_STEP_ID) PRECONDITION_FAILED
      (guard (bd_tool_version_id b = ts_tool_version_id cfg \<and> ts_tool_version_id cfg = rf_tool_version_id (hd refs))
         PRECONDITION_FAILED
      (and_then (opt_or (ct_tool_version ct (ts_tool_version_id cfg)) PRECONDITION_FAILED) (\<lambda>tv.
      guard (py_eq (bd_input_schema_snapshot b) (tv_input_schema tv)) PRECONDITION_FAILED
      (guard (same_projection V params (ts_bindings cfg)) PRECONDITION_FAILED
      (and_then (create_validate_bindings (tv_input_schema tv) (ts_bindings cfg)) (\<lambda>_.
      and_then (assert_current_agent_tool_executable ct (rq_requester_id request) (rq_agent_version_id request) (tv_id tv)
          (vr_policy_snapshot validation) (Some (ps_timeout_seconds step))) (\<lambda>auth.
      and_then (if ta_confirmation_required auth
                then assert_answered_plan_confirmation d (rq_id request) (rq_requester_id request) (pr_id run)
                       (pr_plan_hash run) (ta_policy_snapshot auth)
                else Inr ()) (\<lambda>_.
        Inr \<lparr>cx_validation = validation, cx_plan_run = run, cx_plan = plan,
              cx_policy_snapshot = ta_policy_snapshot auth\<rparr>)))))))))))"

definition check_pair_entry :: "catalog \<Rightarrow> agent_request \<Rightarrow> (string, json) dict \<Rightarrow> plan_step \<times> tool_version \<Rightarrow> unit result" where
  "check_pair_entry ct request tool_steps sv =
     (case sv of (step, tv) \<Rightarrow>
       (case get_or_none tool_steps (ps_id step) of
          JObj entry \<Rightarrow>
            guard (is_dict (get_or_none entry ''policy'')) PRECONDITION_FAILED
            (guard (get_or_none entry ''tool_version_id'' = JStr (uuid_str (tv_id tv))) PRECONDITION_FAILED
            (and_then (assert_current_agent_tool_executable ct (rq_requester_id request) (rq_agent_version_id request)
               (tv_id tv) (get_or_none entry ''policy'') (Some (ps_timeout_seconds step))) (\<lambda>auth.
             raise_if (ta_confirmation_required auth \<or> \<not> is_safe_readonly_policy (ta_tool_policy auth)) PRECONDITION_FAILED)))
        | _ \<Rightarrow> Inl PRECONDITION_FAILED))"

definition pair_refs_ok :: "tool_ref list \<Rightarrow> build_run \<Rightarrow> tool_step_config \<Rightarrow> tool_config \<Rightarrow> bool" where
  "pair_refs_ok refs b cfg1 cfg2 \<longleftrightarrow>
     length refs = 2 \<and>
     (case (map_of (ref_by_step refs) DETERMINISTIC_TOOL_STEP_ID, map_of (ref_by_step refs) DETERMINISTIC_TOOL_STEP_ID_2) of
        (Some r1, Some r2) \<Rightarrow>
          rf_tool_version_id r1 = ts_tool_version_id cfg1 \<and> rf_tool_version_id r2 = tc_tool_version_id cfg2 \<and>
          bd_tool_version_id b = ts_tool_version_id cfg1
      | _ \<Rightarrow> False)"

definition pair_shape_ok :: "execution_plan \<Rightarrow> plan_step \<Rightarrow> plan_step \<Rightarrow> bool" where
  "pair_shape_ok plan first second \<longleftrightarrow>
     ps_id first = DETERMINISTIC_TOOL_STEP_ID \<and> ps_id second = DETERMINISTIC_TOOL_STEP_ID_2 \<and>
     ps_type first = TOOL \<and> ps_type second = TOOL \<and> ps_depends_on first = [] \<and>
     ps_depends_on second = [DETERMINISTIC_TOOL_STEP_ID] \<and>
     response_step_ids plan = [DETERMINISTIC_TOOL_STEP_ID_2]"

text \<open>\<open>policy_snapshot\<close> of a pair: the schema version and the entries of the steps.\<close>

definition pair_tool_steps :: "json \<Rightarrow> (string, json) dict result" where
  "pair_tool_steps snapshot =
     (case snapshot of
        JObj kvs \<Rightarrow>
          guard (get_or_none kvs ''schema_version'' = JStr ''agent_request_sequential_policy.v1'') PRECONDITION_FAILED
            (opt_or (as_dict (get_or_none kvs ''tool_steps'')) PRECONDITION_FAILED)
      | _ \<Rightarrow> Inl PRECONDITION_FAILED)"

definition preflight_sequential_pair :: "creation_codec \<Rightarrow> vdb \<Rightarrow> catalog \<Rightarrow> agent_request \<Rightarrow> validation_run \<Rightarrow> plan_run
    \<Rightarrow> execution_plan \<Rightarrow> creation_context result" where
  "preflight_sequential_pair K d ct request validation run plan =
     (let V = cc_validator K; first = plan_steps plan ! 0; second = plan_steps plan ! 1 in
      guard (pair_shape_ok plan first second) PRECONDITION_FAILED
      (and_then (pair_tool_steps (vr_policy_snapshot validation)) (\<lambda>tool_steps.
      and_then (load_build V d request run) (\<lambda>(b, params).
      and_then (opt_or (va_tool V (ps_config first)) PRECONDITION_FAILED) (\<lambda>cfg1.
      and_then (opt_or (va_complex V (ps_config second)) PRECONDITION_FAILED) (\<lambda>cfg2.
      guard (pair_refs_ok (filter (\<lambda>r. rf_run_id r = pr_id run) (vd_tool_refs d)) b cfg1 cfg2) PRECONDITION_FAILED
      (and_then (opt_or (ct_tool_version ct (ts_tool_version_id cfg1)) PRECONDITION_FAILED) (\<lambda>tv1.
      and_then (opt_or (ct_tool_version ct (tc_tool_version_id cfg2)) PRECONDITION_FAILED) (\<lambda>tv2.
      guard (py_eq (bd_input_schema_snapshot b) (tv_input_schema tv1)) PRECONDITION_FAILED
      (guard (same_projection V params (ts_bindings cfg1)) PRECONDITION_FAILED
      (and_then (create_validate_bindings (tv_input_schema tv1) (ts_bindings cfg1)) (\<lambda>_.
      and_then (create_load_structured V request) (\<lambda>sr.
      and_then (create_validate_companion V sr (tv_input_schema tv2) (tc_bindings cfg2)) (\<lambda>_.
      and_then (eachE (check_pair_entry ct request tool_steps) [(first, tv1), (second, tv2)]) (\<lambda>_.
        Inr \<lparr>cx_validation = validation, cx_plan_run = run, cx_plan = plan,
              cx_policy_snapshot = vr_policy_snapshot validation\<rparr>)))))))))))))))"

definition source_is_agent :: "execution_plan \<Rightarrow> uuid \<Rightarrow> bool" where
  "source_is_agent plan v \<longleftrightarrow> (case plan_src plan of PlanSourceAgent a \<Rightarrow> a = v | _ \<Rightarrow> False)"

definition preflight :: "creation_codec \<Rightarrow> vdb \<Rightarrow> catalog \<Rightarrow> agent_request \<Rightarrow> creation_context result" where
  "preflight K d ct request =
     (let V = cc_validator K in
      and_then (opt_or (find (\<lambda>v. vr_agent_request_id v = rq_id request) (vd_validations d)) NOT_READY) (\<lambda>validation.
      guard (vr_decision validation = V_READY \<and> \<not> vr_confirmation_required validation \<and>
             vr_clarification_request_id validation = None) NOT_READY
      (and_then (opt_or (find (\<lambda>r. pr_id r = vr_plan_generation_run_id validation) (vd_plan_runs d)) PRECONDITION_FAILED) (\<lambda>run.
      guard (map_option pr_id (find (\<lambda>r. pr_agent_request_id r = rq_id request) (vd_plan_runs d)) = Some (pr_id run))
        PRECONDITION_FAILED
      (guard (vr_plan_hash validation = pr_plan_hash run \<and>
              pr_plan_hash run = compute_plan_hash (va_repr V) (pr_plan_snapshot run)) PRECONDITION_FAILED
      (and_then (opt_or (va_plan V (pr_plan_snapshot run)) PRECONDITION_FAILED) (\<lambda>plan.
      guard (semantic_equal (cc_dump_plan K plan) (pr_plan_snapshot run)) PRECONDITION_FAILED
      (and_then (opt_or (ct_agent_version ct (rq_agent_version_id request)) PRECONDITION_FAILED) (\<lambda>schema.
      guard (pr_plan_schema_version run = ''1.0'' \<and> schema = ''1.0'') PRECONDITION_FAILED
      (guard (source_is_agent plan (rq_agent_version_id request) \<and> pr_agent_version_id run = rq_agent_version_id request)
         PRECONDITION_FAILED
      (guard (plan_inputs plan = []) PRECONDITION_FAILED
      (guard (length (plan_steps plan) \<in> {1, 2}) PRECONDITION_FAILED
      (guard (ps_id (hd (plan_steps plan)) = DETERMINISTIC_TOOL_STEP_ID \<and> ps_type (hd (plan_steps plan)) = TOOL)
         PRECONDITION_FAILED
        (if length (plan_steps plan) = 2 then preflight_sequential_pair K d ct request validation run plan
         else preflight_single K d ct request validation run plan))))))))))))))"

subsection \<open>The insert\<close>

definition create_params :: "agent_request \<Rightarrow> string option \<Rightarrow> creation_context \<Rightarrow> materialize_params" where
  "create_params request trace cx =
     \<lparr>mp_source_type = ''AGENT_REQUEST'', mp_trigger_type = ''USER'', mp_requester_id = rq_requester_id request,
      mp_plan_snapshot = pr_plan_snapshot (cx_plan_run cx), mp_plan_hash = pr_plan_hash (cx_plan_run cx),
      mp_input_snapshot = JObj [], mp_policy_snapshot = cx_policy_snapshot cx,
      mp_agent_request_id = Some (rq_id request), mp_agent_version_id = Some (rq_agent_version_id request),
      mp_workflow_version_id = None, mp_schedule_occurrence_id = None,
      mp_plan_validation_run_id = Some (vr_id (cx_validation cx)), mp_trace_id = trace\<rparr>"

definition empty_db :: db where
  "empty_db = \<lparr>db_execution = None, db_steps = [], db_attempts = [], db_calls = [], db_occurrences = [],
     db_schedules = [], db_approvals = [], db_inputs = [], db_events = []\<rparr>"

text \<open>The fields of the response have constraints; the row of the request fills the two that may be null.\<close>

definition result_of :: "agent_request \<Rightarrow> execution_row \<Rightarrow> nat \<Rightarrow> time \<Rightarrow> create_result result" where
  "result_of request ex n now =
     guard (length (plan_hash ex) = 64 \<and> 1 \<le> n) ValidationError
       (Inr \<lparr>cr_id = ex_id ex, cr_status = execution_status_value (ex_status ex), cr_source_type = source_type ex,
             cr_trigger_type = trigger_type ex, cr_agent_request_id = rq_id request,
             cr_agent_version_id = rq_agent_version_id request, cr_plan_hash = plan_hash ex,
             cr_requested_at = now, cr_step_count = n\<rparr>)"

text \<open>The audit event, without the columns that \<open>AuditWriter\<close> fills (its own id, the integrity hash, the trace).\<close>

definition creation_audit :: "agent_request \<Rightarrow> execution_row \<Rightarrow> time \<Rightarrow> audit_event" where
  "creation_audit request ex now =
     \<lparr>al_actor_type = ''USER'', al_actor_id = uuid_str (rq_requester_id request), al_action = ''execution.create'',
      al_outcome = ''SUCCESS'', al_resource_type = ''EXECUTION'', al_resource_id = uuid_str (ex_id ex),
      al_execution_id = ex_id ex,
      al_change_set = JObj [(''source_type'', JStr (source_type ex)), (''trigger_type'', JStr (trigger_type ex)),
        (''agent_request_id'', opt_json (\<lambda>u. JStr (uuid_str u)) (agent_request_id ex)),
        (''workflow_version_id'', JNull), (''schedule_occurrence_id'', JNull)],
      al_occurred_at = now\<rparr>"

text \<open>
  The fresh ids and the clock are \<open>eid\<close>, \<open>sid\<close> and \<open>now\<close>.  The rows of the new execution become visible with
  the commit, together with the idempotency record and the audit event.
\<close>

definition insert_created :: "creation_codec \<Rightarrow> agent_request \<Rightarrow> string option \<Rightarrow> creation_context \<Rightarrow> string \<Rightarrow> string
    \<Rightarrow> string \<Rightarrow> uuid \<Rightarrow> (nat \<Rightarrow> uuid) \<Rightarrow> time \<Rightarrow> creation_db \<Rightarrow> (creation_outcome \<times> creation_db) result" where
  "insert_created K request trace cx principal_key key h eid sid now d =
     (let V = cc_validator K in
      and_then (materialize (cc_codec K) (va_plan V) (va_repr V) (cc_mentions K) eid sid now
        (create_params request trace cx) empty_db) (\<lambda>(ex, rows, rows_db).
      guard (length rows = length (plan_steps (cx_plan cx))) AssertionError
      (and_then (result_of request ex (length rows) now) (\<lambda>result.
        Inr (\<lparr>co_result = result, co_http_status = 201, co_replayed = False\<rparr>,
             d\<lparr>cd_executions := cd_executions d @ [(eid, rows_db)],
               cd_idempotency := cd_idempotency d @
                 [\<lparr>ik_principal_key = principal_key, ik_operation_scope = OPERATION_SCOPE, ik_key = key, ik_request_hash = h,
                   ik_status = ''COMPLETED'', ik_response_status = Some 201, ik_response_body = cc_dump_result K result,
                   ik_resource_type = Some ''EXECUTION'', ik_resource_id = Some eid, ik_completed_at = Some now,
                   ik_expires_at = None\<rparr>],
               cd_audit := cd_audit d @ [creation_audit request ex now]\<rparr>)))))"

subsection \<open>The operation\<close>

text \<open>
  A collision of the idempotency key is what the commit of another creation leaves; the insert is rolled back and the
  other outcome replayed.  \<open>trace\<close> is the trace id of the request.
\<close>

definition create_from_agent_request :: "creation_codec \<Rightarrow> catalog \<Rightarrow> uuid \<Rightarrow> uuid \<Rightarrow> string \<Rightarrow> string option
    \<Rightarrow> uuid \<Rightarrow> (nat \<Rightarrow> uuid) \<Rightarrow> time \<Rightarrow> (creation_db \<Rightarrow> creation_db) \<Rightarrow> creation_db
    \<Rightarrow> creation_outcome result \<times> creation_db" where
  "create_from_agent_request K ct rid requester idempotency_key trace eid sid now others d =
     (let key = str_strip idempotency_key; principal_key = uuid_str requester; h = request_hash (va_repr (cc_validator K)) rid in
      if key = [] \<or> length key > 128 then (Inl KEY_INVALID, d)
      else (case find (\<lambda>r. rq_id r = rid) (vd_requests (cd_tables d)) of
        None \<Rightarrow> (Inl (AppError ''NOT_FOUND'' 404), d)
      | Some request \<Rightarrow>
          if rq_requester_id request \<noteq> requester then (Inl FORBIDDEN, d)
          else (case get_idempotency d principal_key key of
            Some r \<Rightarrow> (replay_or_conflict K d r h, d)
          | None \<Rightarrow>
              if rq_status request \<noteq> RQ_READY then (Inl NOT_READY, d)
              else (case preflight K (cd_tables d) ct request of
                Inl e \<Rightarrow> (Inl e, d)
              | Inr cx \<Rightarrow>
                  let d' = others d in
                  (case insert_created K request trace cx principal_key key h eid sid now d' of
                     Inl e \<Rightarrow> (Inl e, d')
                   | Inr (outcome, d'') \<Rightarrow>
                       (case get_idempotency d' principal_key key of
                          None \<Rightarrow> (Inr outcome, d'')
                        | Some r \<Rightarrow> (replay_or_conflict K d' r h, d')))))))"

end
