(* ===== verification/PlanAcceptance.thy ===== *)
theory PlanAcceptance
  imports PlanValidatorSafety Samples
begin

section \<open>What a validated plan has been checked for, and how the result is committed\<close>

text \<open>
  The properties of the plan validator: a plan that ends READY or waits for a confirmation passed the gate of every
  one of its tools, its inputs are the built ones, and of two validations of a request one commits.
\<close>

subsection \<open>A plan of two tools\<close>

text \<open>
  The sample the properties are evaluated at: a search tool whose result feeds a lookup tool, both read-only,
  granted and authorized.  The hash of the stored plan stays symbolic.
\<close>

definition pair_plan :: execution_plan where
  "pair_plan = (sample_plan
     [sample_step DETERMINISTIC_TOOL_STEP_ID TOOL [],
      sample_step DETERMINISTIC_TOOL_STEP_ID_2 TOOL [DETERMINISTIC_TOOL_STEP_ID]])
     \<lparr>response_step_ids := [DETERMINISTIC_TOOL_STEP_ID_2]\<rparr>"

definition pair_schema :: "string \<Rightarrow> json" where
  "pair_schema k = JObj [(''type'', JStr ''object''), (''properties'', JObj [(k, JObj [(''type'', JStr ''string'')])]),
     (''required'', JList [JStr k])]"

definition pair_params :: "(string, binding_value) dict" where
  "pair_params = [(''q'', LiteralBindingValue (JStr ''cats''))]"

definition pair_codec :: validator_codec where
  "pair_codec =
     \<lparr>va_plan = (\<lambda>j. Some pair_plan),
      va_tool = by_name [(DETERMINISTIC_TOOL_STEP_ID, \<lparr>ts_tool_version_id = 5, ts_bindings = pair_params\<rparr>)],
      va_complex = by_name [(DETERMINISTIC_TOOL_STEP_ID_2,
         \<lparr>tc_tool_version_id = 15, tc_bindings = [(''id'', PlanStepOutputBinding DETERMINISTIC_TOOL_STEP_ID ''/0/id'')]\<rparr>)],
      va_params = (\<lambda>j. Some pair_params),
      va_structured = (\<lambda>j. Some \<lparr>sr_request_text = ''find cats'', sr_intent = ''lookup'', sr_entities = [],
         sr_constraints = [], sr_expected_outputs = [], sr_required_capabilities = [], sr_missing_inputs = [],
         sr_ambiguities = [], sr_needs_clarification = False\<rparr>),
      va_dump = (\<lambda>b. case b of LiteralBindingValue v \<Rightarrow> v | SecretRefBindingValue u \<Rightarrow> JStr (uuid_str u)),
      va_repr = (\<lambda>_. ''0.0''),
      va_floats = \<lparr>float_of_str = (\<lambda>_. None), str_of_float = (\<lambda>_. ''0.0'')\<rparr>\<rparr>"

definition pair_request :: agent_request where
  "pair_request = \<lparr>rq_id = 1, rq_agent_version_id = 9, rq_requester_id = 4, rq_status = RQ_VALIDATING,
     rq_structured_version = Some ''1.0'', rq_structured = JObj [], rq_completed_at = None\<rparr>"

definition pair_run :: plan_run where
  "pair_run = \<lparr>pr_id = 2, pr_agent_request_id = 1, pr_parameter_build_run_id = 3, pr_agent_version_id = 9,
     pr_plan_schema_version = ''1.0'', pr_plan_snapshot = JObj [],
     pr_plan_hash = compute_canonical_json_hash (va_repr pair_codec) (JObj [])\<rparr>"

definition pair_version :: "uuid \<Rightarrow> uuid \<Rightarrow> string \<Rightarrow> tool_version" where
  "pair_version v t k = \<lparr>tv_id = v, tv_mcp_tool_id = t, tv_input_schema = pair_schema k, tv_validation_status = ''VALID''\<rparr>"

definition pair_tool :: "uuid \<Rightarrow> uuid \<Rightarrow> mcp_tool" where
  "pair_tool t v = \<lparr>mt_id = t, mt_mcp_server_id = 8, mt_status = ''ACTIVE'', mt_current_version_id = Some v,
     mt_deleted_at = None\<rparr>"

definition pair_policy :: "uuid \<Rightarrow> tool_policy" where
  "pair_policy t = \<lparr>tp_id = 20, tp_mcp_tool_id = t, tp_risk_class = ''READ_ONLY'', tp_requires_confirmation = False,
     tp_requires_approval = False, tp_approval_policy_id = None, tp_timeout_ms = 60000, tp_max_attempts = 1,
     tp_backoff_policy = JNull, tp_max_result_bytes = 1000, tp_allow_auto_select = True, tp_data_classification = None\<rparr>"

definition pair_grant :: "bool \<Rightarrow> uuid \<Rightarrow> tool_grant" where
  "pair_grant confirm t = \<lparr>gr_mcp_tool_id = t, gr_effect = ''ALLOW'', gr_parameter_constraints = JNull,
     gr_requires_confirmation = confirm\<rparr>"

definition pair_catalog :: "bool \<Rightarrow> catalog" where
  "pair_catalog confirm =
     \<lparr>ct_agent_version = (\<lambda>v. Some ''1.0''),
      ct_tool_version = (\<lambda>v. if v = 5 then Some (pair_version 5 6 ''q'')
         else if v = 15 then Some (pair_version 15 16 ''id'') else None),
      ct_tool = (\<lambda>t. if t = 6 then Some (pair_tool 6 5) else if t = 16 then Some (pair_tool 16 15) else None),
      ct_server = (\<lambda>s. Some \<lparr>ms_status = ''ACTIVE'', ms_transport_type = ''STDIO'', ms_protocol_era = ''CURRENT'',
         ms_deleted_at = None\<rparr>),
      ct_grants = (\<lambda>v. [pair_grant confirm 6, pair_grant False 16]),
      ct_policy = (\<lambda>t. Some (pair_policy t)),
      ct_approval_policy = (\<lambda>_. None),
      ct_authorization = (\<lambda>_ _ _ _. \<lparr>au_user_exists = True, au_user_active = True, au_permission_present = True,
         au_resource_grant_present = True\<rparr>)\<rparr>"

definition pair_vdb :: vdb where
  "pair_vdb = \<lparr>vd_requests = [pair_request], vd_plan_runs = [pair_run],
     vd_tool_refs = [\<lparr>rf_run_id = 2, rf_step_key = DETERMINISTIC_TOOL_STEP_ID, rf_tool_version_id = 5\<rparr>,
        \<lparr>rf_run_id = 2, rf_step_key = DETERMINISTIC_TOOL_STEP_ID_2, rf_tool_version_id = 15\<rparr>],
     vd_build_runs = [\<lparr>bd_id = 3, bd_agent_request_id = 1, bd_tool_version_id = 5,
        bd_input_schema_snapshot = pair_schema ''q'', bd_constraints_snapshot = JNull, bd_bindings_snapshot = JObj [],
        bd_missing_fields = [], bd_is_complete = True\<rparr>],
     vd_validations = [], vd_clarifications = []\<rparr>"

lemmas pair_sample_simps = pair_plan_def pair_schema_def pair_params_def pair_codec_def pair_request_def pair_run_def
  pair_version_def pair_tool_def pair_policy_def pair_grant_def pair_catalog_def pair_vdb_def sample_simps
  DETERMINISTIC_TOOL_STEP_ID_def DETERMINISTIC_TOOL_STEP_ID_2_def

lemma pair_structure:
  "validate_plan_structure pair_codec pair_plan (vd_tool_refs pair_vdb) acc = acc"
proof -
  have "has_dependency_cycle (remdups (map ps_id (plan_steps pair_plan))) (plan_steps pair_plan) \<noteq> Some True"
    by code_simp
  moreover have "non_blank ''tool_1'' \<and> non_blank ''tool_2''"
    by code_simp
  ultimately show ?thesis
    by (simp add: pair_sample_simps validate_plan_structure_def Let_def validate_sequential_pair_shape_def
        check_step_dependencies_def check_response_ids_def check_tool_refs_def check_timeout_def check_step_count_def
        fail_if_def reject_if_def ref_by_step_def dict_of_def dict_set_def tool_step_ids_def default_plan_limits_def)
qed

lemma pair_projection:
  "validate_binding_projection pair_codec pair_plan pair_params (pair_schema ''q'') acc = acc"
proof -
  have "py_eq (JObj [(''q'', JStr ''cats'')]) (JObj [(''q'', JStr ''cats'')])"
    by code_simp
  then show ?thesis
    by (simp add: pair_sample_simps validate_binding_projection_def Let_def get_or_none_def required_names_def
        fail_if_def check_binding_type_def literal_matches_type_def)
qed

lemma pair_companion:
  "validate_companion_bindings pair_codec DETERMINISTIC_TOOL_STEP_ID_2
     \<lparr>tc_tool_version_id = 15, tc_bindings = [(''id'', PlanStepOutputBinding DETERMINISTIC_TOOL_STEP_ID ''/0/id'')]\<rparr>
     (pair_schema ''id'') DETERMINISTIC_TOOL_STEP_ID (Some sr) acc = Inr acc"
  by (simp add: pair_sample_simps validate_companion_bindings_def check_companion_binding_def Let_def get_or_none_def
      fail_if_def List.map_filter_def)

lemma pair_step_sample:
  "check_pair_step (pair_catalog b) pair_request pair_plan (DETERMINISTIC_TOOL_STEP_ID, pair_version 5 6 ''q'') (n, c, acc) =
     (dict_set DETERMINISTIC_TOOL_STEP_ID (JObj [(''tool_version_id'', JStr (uuid_str 5)),
        (''policy'', build_safe_tool_policy_snapshot (pair_policy 6) None)]) n, c \<or> b,
      fold (\<lambda>k. note_check k True) [''tool_version_valid'', ''tool_active'', ''tool_version_current'', ''server_active'',
        ''agent_tool_grant_allow'', ''user_active'', ''mcp_tool_execute_permission'', ''mcp_tool_resource_grant''] acc)"
  "check_pair_step (pair_catalog b) pair_request pair_plan (DETERMINISTIC_TOOL_STEP_ID_2, pair_version 15 16 ''id'') (n, c, acc) =
     (dict_set DETERMINISTIC_TOOL_STEP_ID_2 (JObj [(''tool_version_id'', JStr (uuid_str 15)),
        (''policy'', build_safe_tool_policy_snapshot (pair_policy 16) None)]) n, c,
      fold (\<lambda>k. note_check k True) [''tool_version_valid'', ''tool_active'', ''tool_version_current'', ''server_active'',
        ''agent_tool_grant_allow'', ''user_active'', ''mcp_tool_execute_permission'', ''mcp_tool_resource_grant''] acc)"
  by (simp_all add: pair_sample_simps check_pair_step_def Let_def validate_tool_availability_def find_grant_def
      validate_agent_tool_grant_def validate_authorization_def validate_tool_policy_def check_approval_def
      is_safe_readonly_policy_def risk_class_known_def expected_timeout_def fail_if_def reject_if_def)

lemma pair_access_sample:
  "decision (validate_pair_access pair_vdb (pair_catalog b) pair_request pair_plan pair_run
     (pair_version 5 6 ''q'') (pair_version 15 16 ''id'') empty_validation) = (if b then V_WAITING_CONFIRMATION else V_READY)"
proof -
  have "\<not> has_satisfied_plan_confirmation pair_vdb pair_request pair_run j" for j
    by (simp add: has_satisfied_plan_confirmation_def pair_vdb_def)
  then show ?thesis
    unfolding validate_pair_access_def
    by (simp add: pair_step_sample) (simp add: dict_set_def DETERMINISTIC_TOOL_STEP_ID_def
        DETERMINISTIC_TOOL_STEP_ID_2_def require_confirmation_def decision_def note_check_def empty_validation_def
        has_blocking_errors_def Let_def)
qed

lemma pair_run_checks_at:
  assumes "vd_tool_refs d = vd_tool_refs pair_vdb" and "vd_build_runs d = vd_build_runs pair_vdb"
  shows "run_checks pair_codec d (pair_catalog b) pair_request pair_run =
     Inr (validate_pair_access d (pair_catalog b) pair_request pair_plan pair_run
       (pair_version 5 6 ''q'') (pair_version 15 16 ''id'') empty_validation)"
proof -
  have schema: "py_eq (pair_schema ''q'') (pair_schema ''q'')"
    by code_simp
  have refs: "filter (\<lambda>r. rf_run_id r = pr_id pair_run) (vd_tool_refs pair_vdb) = vd_tool_refs pair_vdb"
    "find (\<lambda>x. bd_id x = pr_parameter_build_run_id pair_run) (vd_build_runs pair_vdb) = Some (hd (vd_build_runs pair_vdb))"
    by (simp_all add: pair_vdb_def pair_run_def)
  have structured: "\<exists>sr. \<forall>a. load_structured_request pair_codec pair_request a = (Some sr, a)"
    by (simp add: load_structured_request_def pair_request_def pair_codec_def)
  then obtain sr where sr: "load_structured_request pair_codec pair_request a = (Some sr, a)" for a
    by blast
  have configs: "va_tool pair_codec (ps_config (plan_steps pair_plan ! 0)) = Some \<lparr>ts_tool_version_id = 5, ts_bindings = pair_params\<rparr>"
    "va_complex pair_codec (ps_config (plan_steps pair_plan ! 1)) = Some
       \<lparr>tc_tool_version_id = 15, tc_bindings = [(''id'', PlanStepOutputBinding DETERMINISTIC_TOOL_STEP_ID ''/0/id'')]\<rparr>"
    by (simp_all add: pair_sample_simps)
  have ref: "map_of (ref_by_step (vd_tool_refs pair_vdb)) DETERMINISTIC_TOOL_STEP_ID =
       Some \<lparr>rf_run_id = 2, rf_step_key = DETERMINISTIC_TOOL_STEP_ID, rf_tool_version_id = 5\<rparr>"
    "map_of (ref_by_step (vd_tool_refs pair_vdb)) DETERMINISTIC_TOOL_STEP_ID_2 =
       Some \<lparr>rf_run_id = 2, rf_step_key = DETERMINISTIC_TOOL_STEP_ID_2, rf_tool_version_id = 15\<rparr>"
    by (simp_all add: pair_vdb_def ref_by_step_def dict_of_def dict_set_def DETERMINISTIC_TOOL_STEP_ID_def
        DETERMINISTIC_TOOL_STEP_ID_2_def)
  have build: "bd_tool_version_id (hd (vd_build_runs pair_vdb)) = 5"
    "bd_input_schema_snapshot (hd (vd_build_runs pair_vdb)) = pair_schema ''q''"
    by (simp_all add: pair_vdb_def)
  have versions: "ct_tool_version (pair_catalog b) 5 = Some (pair_version 5 6 ''q'')"
    "ct_tool_version (pair_catalog b) 15 = Some (pair_version 15 16 ''id'')"
    "tv_input_schema (pair_version v t k) = pair_schema k" for v t k
    by (simp_all add: pair_catalog_def pair_version_def)
  have pair: "validate_sequential_pair_tools pair_codec d (pair_catalog b) pair_request pair_plan pair_run
      (hd (vd_build_runs pair_vdb)) pair_params (vd_tool_refs pair_vdb) empty_validation =
      Inr (validate_pair_access d (pair_catalog b) pair_request pair_plan pair_run
       (pair_version 5 6 ''q'') (pair_version 15 16 ''id'') empty_validation)"
    unfolding validate_sequential_pair_tools_def configs
    by (simp add: ref build versions schema sr pair_projection pair_companion ref_mismatch_def fail_if_def Let_def) (simp add: empty_validation_def)
  have codec: "va_plan pair_codec (pr_plan_snapshot pair_run) = Some pair_plan"
    "va_params pair_codec (bd_bindings_snapshot (hd (vd_build_runs pair_vdb))) = Some pair_params"
    by (simp_all add: pair_codec_def)
  have source: "check_source pair_request pair_plan a = a"
    "check_build_run pair_request (Some (hd (vd_build_runs pair_vdb))) a = a" for a
    by (simp_all add: check_source_def check_build_run_def pair_sample_simps fail_if_def)
  have fields: "rq_id pair_request = 1" "rq_agent_version_id pair_request = 9" "pr_agent_request_id pair_run = 1"
    "pr_agent_version_id pair_run = 9" "pr_plan_schema_version pair_run = ''1.0''"
    "pr_plan_hash pair_run = compute_canonical_json_hash (va_repr pair_codec) (pr_plan_snapshot pair_run)"
    "ct_agent_version (pair_catalog b) 9 = Some ''1.0''" "length (plan_steps pair_plan) = 2" "va_failed empty_validation = []"
    by (simp_all add: pair_request_def pair_run_def pair_catalog_def pair_plan_def sample_plan_def empty_validation_def)
  show ?thesis
    unfolding run_checks_def assms refs codec
    by (simp add: source pair pair_structure load_params_def codec fail_if_def Let_def fields)
qed

lemmas pair_run_checks = pair_run_checks_at [of pair_vdb, OF refl refl]

subsection \<open>Accepted plans\<close>

lemma plan_accepted_shape:
  assumes "plan_accepted V d request run plan b params refs"
  shows "\<exists>s t. plan_steps plan = [s] \<or>
    plan_steps plan = [s, t] \<and> ps_id s = DETERMINISTIC_TOOL_STEP_ID \<and> ps_id t = DETERMINISTIC_TOOL_STEP_ID_2"
  using assms by (auto simp: plan_accepted_def plan_structure_ok_def Let_def map_eq_Cons_conv)

text \<open>C12: A plan whose validation ends READY, or waiting for a confirmation, is the stored plan with the stored hash,
  comes from the agent of the request, has the structure the executor supports, and was built by a completed parameter
  build of the same request.  For every step the version it names is the current one of an available tool, the agent
  has an unconstrained ALLOW grant, the requester is authorized, and the policy is valid and agrees with the step's
  timeout; in a plan of two tools both are read-only.  READY means in addition that where the grant or the policy asks
  for a confirmation, the requester has confirmed this plan under this policy.\<close>

theorem validated_plan_safe:
  assumes "run_checks V d ct request run = Inr acc"
    and "decision acc \<in> {V_READY, V_WAITING_CONFIRMATION}"
  shows "\<exists>plan b params refs. plan_accepted V d request run plan b params refs \<and>
    (\<forall>s \<in> set (plan_steps plan). \<exists>v p. step_version V s v \<and> tool_gate ct request s v p \<and>
       (length (plan_steps plan) = 2 \<longrightarrow> is_safe_readonly_policy p) \<and>
       (decision acc = V_READY \<and> needs_confirmation ct request v \<longrightarrow>
          has_satisfied_plan_confirmation d request run (va_policy_snapshot acc)))"
proof -
  have ok: "ok acc"
    using assms(2) decision_ok(1) by blast
  obtain plan b params refs a4 where plan: "plan_accepted V d request run plan b params refs"
      "if length (plan_steps plan) = 2
       then validate_sequential_pair_tools V d ct request plan run b params refs a4 = Inr acc
       else acc = validate_single_tool V d ct request plan run (Some b) (Some params) refs a4"
    using run_checks_facts [OF assms(1) ok] by blast
  have ready: "decision acc = V_READY \<Longrightarrow> \<not> va_confirmation_required acc"
    by (rule decision_ok(2))
  from plan_accepted_shape [OF plan(1)] obtain s t where steps: "plan_steps plan = [s] \<or>
      plan_steps plan = [s, t] \<and> ps_id s = DETERMINISTIC_TOOL_STEP_ID \<and> ps_id t = DETERMINISTIC_TOOL_STEP_ID_2"
    by blast
  then have "\<forall>s \<in> set (plan_steps plan). \<exists>v p. step_version V s v \<and> tool_gate ct request s v p \<and>
       (length (plan_steps plan) = 2 \<longrightarrow> is_safe_readonly_policy p) \<and>
       (decision acc = V_READY \<and> needs_confirmation ct request v \<longrightarrow>
          has_satisfied_plan_confirmation d request run (va_policy_snapshot acc))"
  proof
    assume one: "plan_steps plan = [s]"
    with plan(2) ok_single_path [OF one, of acc V d ct request run b "Some params" refs a4] ok ready show ?thesis
      by (auto simp: step_version_def)
  next
    assume two: "plan_steps plan = [s, t] \<and> ps_id s = DETERMINISTIC_TOOL_STEP_ID \<and> ps_id t = DETERMINISTIC_TOOL_STEP_ID_2"
    then have run: "validate_sequential_pair_tools V d ct request plan run b params refs a4 = Inr acc"
      using plan(2) by simp
    from ok_pair_path [OF _ _ _ run ok] two ready show ?thesis
      by (fastforce simp: step_version_def)
  qed
  with plan(1) show ?thesis
    by blast
qed

theorem validated_plan_safe_witness:
  "\<exists>acc. run_checks pair_codec pair_vdb (pair_catalog False) pair_request pair_run = Inr acc \<and> decision acc = V_READY \<and>
    (\<exists>plan b params refs. plan_accepted pair_codec pair_vdb pair_request pair_run plan b params refs \<and>
      (\<forall>s \<in> set (plan_steps plan). \<exists>v p. step_version pair_codec s v \<and>
         tool_gate (pair_catalog False) pair_request s v p))"
proof -
  obtain acc where run: "run_checks pair_codec pair_vdb (pair_catalog False) pair_request pair_run = Inr acc"
      "decision acc = V_READY"
    using pair_run_checks [of False] pair_access_sample [of False] by simp
  with validated_plan_safe [OF run(1)] show ?thesis
    by fastforce
qed

definition inputs_bound ::
    "validator_codec \<Rightarrow> catalog \<Rightarrow> agent_request \<Rightarrow> execution_plan \<Rightarrow> build_run \<Rightarrow> (string, binding_value) dict \<Rightarrow> bool" where
  "inputs_bound V ct request plan b params \<longleftrightarrow>
     (\<exists>cfg tv. va_tool V (ps_config (hd (plan_steps plan))) = Some cfg \<and> bd_tool_version_id b = ts_tool_version_id cfg \<and>
        ct_tool_version ct (ts_tool_version_id cfg) = Some tv \<and> bindings_fit V cfg params (tv_input_schema tv)) \<and>
     (length (plan_steps plan) = 2 \<longrightarrow> (\<exists>cfg2 tv2 sr. va_complex V (ps_config (plan_steps plan ! 1)) = Some cfg2 \<and>
        ct_tool_version ct (tc_tool_version_id cfg2) = Some tv2 \<and> va_structured V (rq_structured request) = Some sr \<and>
        companion_fits V sr cfg2 (tv_input_schema tv2) DETERMINISTIC_TOOL_STEP_ID))"

text \<open>C25: The bindings of an accepted plan's first tool are exactly the ones the parameter build produced, cover the
  required inputs of the tool version's schema, name no other input and have the declared types; the second tool of a
  pair takes each of its inputs from the first one's result or from a literal the user's request states.\<close>

theorem validated_plan_bindings:
  assumes "run_checks V d ct request run = Inr acc"
    and "decision acc \<in> {V_READY, V_WAITING_CONFIRMATION}"
  shows "\<exists>plan b params refs. plan_accepted V d request run plan b params refs \<and>
    inputs_bound V ct request plan b params"
proof -
  have ok: "ok acc"
    using assms(2) decision_ok(1) by blast
  obtain plan b params refs a4 where plan: "plan_accepted V d request run plan b params refs"
      "if length (plan_steps plan) = 2
       then validate_sequential_pair_tools V d ct request plan run b params refs a4 = Inr acc
       else acc = validate_single_tool V d ct request plan run (Some b) (Some params) refs a4"
    using run_checks_facts [OF assms(1) ok] by blast
  from plan_accepted_shape [OF plan(1)] consider (one) s where "plan_steps plan = [s]"
    | (two) s t where "plan_steps plan = [s, t]"
    by blast
  then show ?thesis
  proof cases
    case one
    from one plan(2) have "acc = validate_single_tool V d ct request plan run (Some b) (Some params) refs a4"
      by simp
    from ok_single_path [OF one this ok] have "inputs_bound V ct request plan b params"
      unfolding inputs_bound_def by (auto simp: one)
    with plan(1) show ?thesis
      by blast
  next
    case two
    from two plan(2) have "validate_sequential_pair_tools V d ct request plan run b params refs a4 = Inr acc"
      by simp
    from pair_tools_facts [OF two this ok] have "inputs_bound V ct request plan b params"
      unfolding inputs_bound_def two by auto
    with plan(1) show ?thesis
      by blast
  qed
qed

theorem validated_plan_bindings_witness:
  "\<exists>acc. run_checks pair_codec pair_vdb (pair_catalog True) pair_request pair_run = Inr acc \<and>
    decision acc = V_WAITING_CONFIRMATION \<and>
    (\<exists>plan b params refs. plan_accepted pair_codec pair_vdb pair_request pair_run plan b params refs \<and>
      inputs_bound pair_codec (pair_catalog True) pair_request plan b params)"
proof -
  obtain acc where run: "run_checks pair_codec pair_vdb (pair_catalog True) pair_request pair_run = Inr acc"
      "decision acc = V_WAITING_CONFIRMATION"
    using pair_run_checks [of True] pair_access_sample [of True] by simp
  with validated_plan_bindings [OF run(1)] show ?thesis
    by simp
qed

subsection \<open>The commit\<close>

lemma compare_and_set_some:
  "compare_and_set_status rid new completed rows = Some rows' \<Longrightarrow>
     rows' = map (\<lambda>r. if rq_id r = rid \<and> rq_status r = RQ_VALIDATING
                      then r\<lparr>rq_status := new,
                             rq_completed_at := (case completed of None \<Rightarrow> rq_completed_at r | Some t \<Rightarrow> Some t)\<rparr> else r) rows \<and>
     (\<exists>r \<in> set rows. rq_id r = rid \<and> rq_status r = RQ_VALIDATING)"
  by (auto simp: compare_and_set_status_def list_ex_iff split: if_splits)

lemma compare_and_set_none:
  "compare_and_set_status rid new completed rows = None \<longleftrightarrow> (\<forall>r \<in> set rows. \<not> (rq_id r = rid \<and> rq_status r = RQ_VALIDATING))"
  by (auto simp: compare_and_set_status_def list_ex_iff)

lemma request_status_left: "request_status_of dec \<noteq> RQ_VALIDATING"
  by (cases dec) simp_all

lemma fail_from_missed:
  "\<forall>r \<in> set (vd_requests d). \<not> (rq_id r = rid \<and> rq_status r = RQ_VALIDATING) \<Longrightarrow> fail_from rid now d = d"
  using compare_and_set_none [of rid RQ_FAILED "Some now" "vd_requests d"] by (simp add: fail_from_def)

lemma fail_from_rows:
  "\<exists>rows. fail_from rid now d = d\<lparr>vd_requests := rows\<rparr> \<and>
     (\<forall>r \<in> set rows. r \<in> set (vd_requests d) \<or> rq_id r = rid \<and> rq_status r = RQ_FAILED)"
proof (cases "compare_and_set_status rid RQ_FAILED (Some now) (vd_requests d)")
  case None
  then have "fail_from rid now d = d\<lparr>vd_requests := vd_requests d\<rparr>"
    by (simp add: fail_from_def)
  then show ?thesis
    by blast
next
  case (Some rows)
  with compare_and_set_some [OF Some] have "\<forall>r \<in> set rows. r \<in> set (vd_requests d) \<or> rq_id r = rid \<and> rq_status r = RQ_FAILED"
    by auto
  moreover have "fail_from rid now d = d\<lparr>vd_requests := rows\<rparr>"
    using Some by (simp add: fail_from_def)
  ultimately show ?thesis
    by blast
qed

lemma finalize_error:
  "finalize request run acc now cid vid d = (Inl e, d') \<Longrightarrow> d' = d"
  by (auto simp: finalize_def Let_def split: if_splits option.splits)

lemma finalize_commits:
  assumes "finalize request run acc now cid vid d = (Inr outcome, d')"
  shows "\<exists>row. vd_validations d' = row # vd_validations d \<and> vr_decision row = vo_decision outcome \<and>
      vr_agent_request_id row = rq_id request \<and> vr_plan_hash row = pr_plan_hash run \<and>
      vr_clarification_request_id row = vo_clarification_request_id outcome"
    and "\<exists>r \<in> set (vd_requests d). rq_id r = rq_id request \<and> rq_status r = RQ_VALIDATING"
    and "vd_requests d' = map (\<lambda>r. if rq_id r = rq_id request \<and> rq_status r = RQ_VALIDATING
      then r\<lparr>rq_status := request_status_of (vo_decision outcome),
             rq_completed_at := (if vo_decision outcome = V_WAITING_CONFIRMATION then rq_completed_at r else Some now)\<rparr>
      else r) (vd_requests d)"
    and "vo_decision outcome = decision acc"
    and "vd_clarifications d' = (if vo_decision outcome = V_WAITING_CONFIRMATION
      then vd_clarifications d @ [\<lparr>cl_id = cid, cl_agent_request_id = rq_id request,
             cl_request_type = ''PLAN_CONFIRMATION'', cl_status = ''OPEN'', cl_response_payload = JNull,
             cl_answered_by = None\<rparr>]
      else vd_clarifications d)"
  using assms
  by (auto simp: finalize_def Let_def dest!: compare_and_set_some split: if_splits option.splits cong: if_cong)

lemma validate_outcome:
  assumes "validate V ct rid now cid vid others d = (Inr outcome, d')"
  shows "\<exists>request run acc. find (\<lambda>r. rq_id r = rid) (vd_requests d) = Some request \<and> rq_status request = RQ_VALIDATING \<and>
    rq_id request = rid \<and> find (\<lambda>r. pr_agent_request_id r = rid) (vd_plan_runs d) = Some run \<and>
    run_checks V d ct request run = Inr acc \<and>
    finalize request run acc now cid vid (others d) = (Inr outcome, d')"
proof -
  from assms obtain request where request: "find (\<lambda>r. rq_id r = rid) (vd_requests d) = Some request"
      "rq_status request = RQ_VALIDATING" "validate_locked V ct request now cid vid others d = (Inr outcome, d')"
    by (auto simp: validate_def split: option.splits if_splits prod.splits sum.splits py_error.splits)
  moreover from request(1) have "rq_id request = rid"
    by (auto simp: find_Some_iff)
  ultimately show ?thesis
    by (auto simp: validate_locked_def split: if_splits option.splits sum.splits)
qed

text \<open>C19: A validation that returns an outcome commits once: it adds one validation row, for the plan that was
  checked and with the decision of the checks; only a request of this id that is still VALIDATING changes, to the
  status of the decision, and is completed unless it waits for a confirmation; and a PLAN_CONFIRMATION
  clarification is opened exactly when it does.\<close>

theorem validation_commits_once:
  assumes "validate V ct rid now cid vid others d = (Inr outcome, d')"
  shows "\<exists>request run acc row. run_checks V d ct request run = Inr acc \<and> rq_id request = rid \<and>
    vo_decision outcome = decision acc \<and>
    vd_validations d' = row # vd_validations (others d) \<and> vr_decision row = vo_decision outcome \<and>
    vr_agent_request_id row = rid \<and> vr_plan_hash row = pr_plan_hash run \<and>
    (\<exists>r \<in> set (vd_requests (others d)). rq_id r = rid \<and> rq_status r = RQ_VALIDATING) \<and>
    vd_requests d' = map (\<lambda>r. if rq_id r = rid \<and> rq_status r = RQ_VALIDATING
      then r\<lparr>rq_status := request_status_of (vo_decision outcome),
             rq_completed_at := (if vo_decision outcome = V_WAITING_CONFIRMATION then rq_completed_at r else Some now)\<rparr>
      else r) (vd_requests (others d)) \<and>
    vd_clarifications d' = (if vo_decision outcome = V_WAITING_CONFIRMATION
      then vd_clarifications (others d) @ [\<lparr>cl_id = cid, cl_agent_request_id = rid,
             cl_request_type = ''PLAN_CONFIRMATION'', cl_status = ''OPEN'', cl_response_payload = JNull,
             cl_answered_by = None\<rparr>]
      else vd_clarifications (others d))"
proof -
  obtain request run acc where run: "rq_id request = rid" "run_checks V d ct request run = Inr acc"
      "finalize request run acc now cid vid (others d) = (Inr outcome, d')"
    using validate_outcome [OF assms] by blast
  note facts = finalize_commits [OF run(3), unfolded run(1)]
  from facts(1) obtain row where row: "vd_validations d' = row # vd_validations (others d)"
      "vr_decision row = vo_decision outcome" "vr_agent_request_id row = rid" "vr_plan_hash row = pr_plan_hash run"
    by blast
  show ?thesis
    by (rule exI [of _ request], rule exI [of _ run], rule exI [of _ acc], rule exI [of _ row])
      (intro conjI run row facts(2-5))
qed

text \<open>C20: Of two validations of one request that run their checks on the same state, at most one commits: when
  the other one commits in between, this one ends with an error, adds no row and changes nothing.\<close>

theorem concurrent_validations_one_commits:
  assumes "validate V1 ct1 rid now1 cid1 vid1 others d = (Inr outcome, d1)"
    and "validate V2 ct2 rid now2 cid2 vid2 (\<lambda>_. d1) d = (res, d2)"
  shows "(\<exists>e. res = Inl e) \<and> d2 = d1"
proof -
  obtain request run acc where first: "find (\<lambda>r. rq_id r = rid) (vd_requests d) = Some request"
      "rq_status request = RQ_VALIDATING" "rq_id request = rid"
      "finalize request run acc now1 cid1 vid1 (others d) = (Inr outcome, d1)"
    using validate_outcome [OF assms(1)] by blast
  have none: "\<forall>r \<in> set (vd_requests d1). \<not> (rq_id r = rid \<and> rq_status r = RQ_VALIDATING)"
    using finalize_commits(3) [OF first(4)] first(3) request_status_left by auto
  have missed: "fail_from rid now2 d1 = d1"
    by (rule fail_from_missed [OF none])
  have "\<exists>e. finalize request run' acc' now2 cid2 vid2 d1 = (Inl e, d1)" for run' acc'
    using none first(3) compare_and_set_none [of rid _ _ "vd_requests d1"] by (simp add: finalize_def Let_def)
  then have "\<exists>e. validate_locked V2 ct2 request now2 cid2 vid2 (\<lambda>_. d1) d = (Inl e, d1)"
    using missed first(3) by (auto simp: validate_locked_def split: option.splits sum.splits)
  then obtain e where "validate_locked V2 ct2 request now2 cid2 vid2 (\<lambda>_. d1) d = (Inl e, d1)"
    by blast
  with assms(2) first(1,2) missed show ?thesis
    by (cases e) (auto simp: validate_def)
qed

definition pair_outcome :: "validation_outcome" where
  "pair_outcome = \<lparr>vo_validation_run_id = Some 31, vo_plan_generation_run_id = Some 2,
     vo_plan_hash = Some (pr_plan_hash pair_run), vo_decision = V_READY, vo_request_status = RQ_READY,
     vo_clarification_request_id = None\<rparr>"

lemma pair_validates: "fst (validate pair_codec (pair_catalog False) 1 50 30 31 id pair_vdb) = Inr pair_outcome"
proof -
  have request: "find (\<lambda>r. rq_id r = 1) (vd_requests pair_vdb) = Some pair_request" "rq_id pair_request = 1"
    "rq_status pair_request = RQ_VALIDATING"
    "find (\<lambda>r. pr_agent_request_id r = 1) (vd_plan_runs pair_vdb) = Some pair_run" "vd_clarifications pair_vdb = []"
    by (simp_all add: pair_vdb_def pair_request_def pair_run_def)
  have cas: "\<exists>rows. compare_and_set_status 1 new completed (vd_requests pair_vdb) = Some rows" for new completed
    by (simp add: compare_and_set_status_def pair_vdb_def pair_request_def)
  have hash: "is_sha256_hex (pr_plan_hash pair_run)"
    by (simp add: pair_run_def)
  have "fst (finalize pair_request pair_run acc 50 30 31 pair_vdb) = Inr pair_outcome" if "decision acc = V_READY" for acc
    using that cas [of RQ_READY "Some 50"] hash
    by (auto simp: finalize_def Let_def request pair_outcome_def) (simp add: pair_run_def)
  then obtain d' where "finalize pair_request pair_run (validate_pair_access pair_vdb (pair_catalog False) pair_request
      pair_plan pair_run (pair_version 5 6 ''q'') (pair_version 15 16 ''id'') empty_validation) 50 30 31 pair_vdb =
      (Inr pair_outcome, d')"
    using pair_access_sample [of False] by (metis (full_types) prod.collapse)
  then show ?thesis
    by (simp add: validate_def validate_locked_def request pair_run_checks)
qed

theorem validation_commits_once_witness:
  "\<exists>d' row. validate pair_codec (pair_catalog False) 1 50 30 31 id pair_vdb = (Inr pair_outcome, d') \<and>
    vd_validations d' = [row] \<and> vr_decision row = V_READY \<and> map rq_status (vd_requests d') = [RQ_READY]"
proof -
  obtain d' where run: "validate pair_codec (pair_catalog False) 1 50 30 31 id pair_vdb = (Inr pair_outcome, d')"
    using pair_validates by (metis prod.collapse)
  from validation_commits_once [OF run] show ?thesis
    by (auto simp: run) (simp_all add: pair_vdb_def pair_request_def pair_outcome_def)
qed

theorem concurrent_validations_one_commits_witness:
  "\<exists>d1. validate pair_codec (pair_catalog False) 1 50 30 31 id pair_vdb = (Inr pair_outcome, d1) \<and>
    (\<exists>e. validate pair_codec (pair_catalog False) 1 51 32 33 (\<lambda>_. d1) pair_vdb = (Inl e, d1))"
proof -
  obtain d1 where run: "validate pair_codec (pair_catalog False) 1 50 30 31 id pair_vdb = (Inr pair_outcome, d1)"
    using pair_validates by (metis prod.collapse)
  obtain res d2 where second: "validate pair_codec (pair_catalog False) 1 51 32 33 (\<lambda>_. d1) pair_vdb = (res, d2)"
    by fastforce
  from concurrent_validations_one_commits [OF run second] run second show ?thesis
    by auto
qed

end
