(* ===== verification/RunnablePlan.thy ===== *)
theory RunnablePlan
  imports Materialize
begin

section \<open>From a valid plan to a runnable execution\<close>

text \<open>
  The composition of the static validator, the materialiser and the DAG check of the worker
  (\<^verbatim>\<open>src/backend/app/execution/dag.py\<close>).  The rows of a valid plan meet every condition of that check
  except three: a TOOL outside the LOOP bodies has at most one dependency, and no body step of a LOOP is itself a LOOP
  or an APPROVAL.  These the static validator does not know.
\<close>

text \<open>A dumped step is read back as it was, and is JSON without \<open>nan\<close>.\<close>

definition dumps_back :: "codec \<Rightarrow> execution_plan \<Rightarrow> bool" where
  "dumps_back C plan \<longleftrightarrow>
     (\<forall>s \<in> set (plan_steps plan). validate_plan_step C (dump_plan_step C s) = Some s \<and>
        wf_json (dump_plan_step C s) \<and> nan_free (dump_plan_step C s))"

definition runtime_supported :: "codec \<Rightarrow> execution_plan \<Rightarrow> bool" where
  "runtime_supported C plan \<longleftrightarrow>
     (\<forall>s \<in> set (plan_steps plan).
        if ps_id s \<in> fst ` set (body_pairs C (plan_steps plan)) then ps_type s \<notin> {LOOP, APPROVAL}
        else ps_type s = TOOL \<longrightarrow> length (ps_depends_on s) \<le> 1)"

subsection \<open>The rows\<close>

lemma pending_row_simps [simp]:
  "step_key (pending_row C eid sid i s) = ps_id s" "st_type (pending_row C eid sid i s) = ps_type s"
  "parent_step_id (pending_row C eid sid i s) = None" "iteration_no (pending_row C eid sid i s) = None"
  "status (pending_row C eid sid i s) = PENDING" "resolved_input (pending_row C eid sid i s) = JNull"
  "step_snapshot (pending_row C eid sid i s) = dump_plan_step C s" "st_id (pending_row C eid sid i s) = sid i"
  "mcp_tool_version_id (pending_row C eid sid i s) = tool_version_of C s"
  "is_toplevel (pending_row C eid sid i s)"
  by (simp_all add: pending_row_def is_toplevel_def)

lemma rows_of_enumerate:
  "map step_key (map (\<lambda>(i, s). pending_row C eid sid i s) (List.enumerate n ss)) = map ps_id ss"
  "map st_type (map (\<lambda>(i, s). pending_row C eid sid i s) (List.enumerate n ss)) = map ps_type ss"
  by (induction ss arbitrary: n) auto

lemma initial_rowD:
  assumes "row \<in> set (initial_rows C eid sid plan)"
  obtains i s where "s \<in> set (top_steps C plan)" and "row = pending_row C eid sid i s"
proof -
  from assms obtain i s where mem: "(i, s) \<in> set (List.enumerate 0 (top_steps C plan))" "row = pending_row C eid sid i s"
    by (auto simp: initial_rows_def)
  moreover from mem(1) have "s \<in> set (top_steps C plan)"
    unfolding enumerate_eq_zip by (rule set_zip_rightD)
  ultimately show thesis
    by (intro that)
qed

lemma initial_rows_keys: "map step_key (initial_rows C eid sid plan) = map ps_id (top_steps C plan)"
  unfolding initial_rows_def by (rule rows_of_enumerate)

lemma initial_rows_toplevel: "filter is_toplevel (initial_rows C eid sid plan) = initial_rows C eid sid plan"
    "filter (\<lambda>s. \<not> is_toplevel s) (initial_rows C eid sid plan) = []"
  by (auto simp: filter_id_conv filter_empty_conv elim: initial_rowD)

lemma initial_row_lookup:
  assumes "distinct (map ps_id (top_steps C plan))" and "s \<in> set (top_steps C plan)"
  obtains i where "map_of (by_step_key (initial_rows C eid sid plan)) (ps_id s) = Some (pending_row C eid sid i s)"
proof -
  from assms(2) obtain i where "(i, s) \<in> set (List.enumerate 0 (top_steps C plan))"
    by (metis in_set_conv_nth nth_enumerate_eq length_enumerate add_0 nth_mem)
  then have "pending_row C eid sid i s \<in> set (initial_rows C eid sid plan)"
    by (force simp: initial_rows_def)
  from by_step_key_lookup [OF _ this] assms(1) show thesis
    by (intro that) (simp add: initial_rows_keys)
qed

subsection \<open>What a valid plan gives\<close>

lemma valid_plan_facts:
  assumes "static_plan_valid C plan"
  shows "distinct (map ps_id (plan_steps plan))" and "acyclic (dependency_edges (plan_steps plan))"
    and "distinct (map ps_id (top_steps C plan))" and "top_steps C plan \<noteq> []"
    and "\<And>s. s \<in> set (plan_steps plan) \<Longrightarrow> distinct (ps_depends_on s)"
    and "\<And>s. s \<in> set (top_steps C plan) \<Longrightarrow> set (ps_depends_on s) \<subseteq> ps_id ` set (top_steps C plan)"
    and "\<And>s. s \<in> set (plan_steps plan) \<Longrightarrow>
      config_valid_as (ps_type s) C (plan_limits plan) (plan_steps plan) (ps_id s) (ps_config s)"
    and "\<And>s. s \<in> set (plan_steps plan) \<Longrightarrow> ps_type s = JOIN \<Longrightarrow> ps_depends_on s \<noteq> []"
proof -
  let ?bodies = "fst ` set (body_pairs C (plan_steps plan))"
  from assms have graph: "graph_valid (plan_steps plan)" and scopes: "scopes_valid C plan"
    by (simp_all add: static_plan_valid_def)
  show dist: "distinct (map ps_id (plan_steps plan))" and "acyclic (dependency_edges (plan_steps plan))"
    using graph by (simp_all add: graph_valid_def)
  from dist show "distinct (map ps_id (top_steps C plan))"
    unfolding top_steps_def by (rule distinct_map_filter)
  have "response_step_ids plan \<noteq> []" "set (response_step_ids plan) \<subseteq> ps_id ` set (plan_steps plan) - ?bodies"
    using scopes by (simp_all add: scopes_valid_def Let_def)
  then show "top_steps C plan \<noteq> []"
    by (fastforce simp: top_steps_def filter_empty_conv neq_Nil_conv)
  show "distinct (ps_depends_on s)" if "s \<in> set (plan_steps plan)" for s
    using graph that unfolding graph_valid_def by blast
  show "set (ps_depends_on s) \<subseteq> ps_id ` set (top_steps C plan)" if "s \<in> set (top_steps C plan)" for s
  proof -
    from that have s: "s \<in> set (plan_steps plan)" "map_of (body_pairs C (plan_steps plan)) (ps_id s) = None"
      by (simp_all add: top_steps_def map_of_eq_None_iff)
    from scopes s(1) have "case map_of (body_pairs C (plan_steps plan)) (ps_id s) of
        None \<Rightarrow> set (ps_depends_on s) \<inter> ?bodies = {}
      | Some l \<Rightarrow> \<forall>d \<in> set (ps_depends_on s). d = l \<or> (d, l) \<in> set (body_pairs C (plan_steps plan))"
      unfolding scopes_valid_def Let_def by blast
    then have "set (ps_depends_on s) \<inter> ?bodies = {}"
      by (simp add: s(2) del: map_of_eq_None_iff)
    moreover have "set (ps_depends_on s) \<subseteq> ps_id ` set (plan_steps plan)"
      using graph s(1) unfolding graph_valid_def by blast
    ultimately show ?thesis
      unfolding top_steps_def set_filter by blast
  qed
  show "config_valid_as (ps_type s) C (plan_limits plan) (plan_steps plan) (ps_id s) (ps_config s)"
    if "s \<in> set (plan_steps plan)" for s
    using assms that by (simp add: static_plan_valid_def)
  show "ps_depends_on s \<noteq> []" if "s \<in> set (plan_steps plan)" "ps_type s = JOIN" for s
    using graph that unfolding graph_valid_def by blast
qed

lemma plan_by_id_lookup:
  assumes "distinct (map ps_id (plan_steps plan))" and "s \<in> set (plan_steps plan)"
  shows "map_of (plan_by_id plan) (ps_id s) = Some s"
  using assms by (simp add: plan_by_id_def dict_of_distinct comp_def map_of_is_SomeI)

lemma body_tableD:
  "(l, bs) \<in> set (body_table C steps) \<longleftrightarrow>
     (\<exists>s cfg. s \<in> set steps \<and> ps_id s = l \<and> ps_type s = LOOP \<and> validate_loop_config C (ps_config s) = Some cfg \<and>
        bs = lc_body_step_ids cfg)"
proof -
  have "(l, bs) \<in> set (body_table C steps) \<longleftrightarrow> (\<exists>cfg. (l, cfg) \<in> set (loop_configs C steps) \<and> bs = lc_body_step_ids cfg)"
    by (force simp: body_table_def)
  then show ?thesis
    unfolding in_loop_configs by blast
qed

lemma in_pairs_table: "(b, l) \<in> set (body_pairs C steps) \<longleftrightarrow> (\<exists>bs. (l, bs) \<in> set (body_table C steps) \<and> b \<in> set bs)"
  unfolding body_tableD in_body_pairs in_loop_configs by blast

text \<open>Every LOOP has a body, so a plan without owned steps has no LOOP.\<close>

lemma no_pairs_no_loops:
  assumes "static_plan_valid C plan" and "codec_enforces C" and "body_pairs C (plan_steps plan) = []"
    and "s \<in> set (plan_steps plan)"
  shows "ps_type s \<noteq> LOOP"
proof
  assume loop: "ps_type s = LOOP"
  with valid_plan_facts(7) [OF assms(1,4)] obtain cfg where cfg: "validate_loop_config C (ps_config s) = Some cfg"
    by auto
  then have "lc_body_step_ids cfg \<noteq> []"
    using codec_enforcesD(2) [OF assms(2)] loop_config_validD(2) by blast
  with loop cfg assms(4) have "(hd (lc_body_step_ids cfg), ps_id s) \<in> set (body_pairs C (plan_steps plan))"
    unfolding in_pairs_table body_tableD by (intro exI conjI) (rule refl | assumption | simp)+
  with assms(3) show False
    by simp
qed

lemma flat_iff:
  assumes "static_plan_valid C plan"
  shows "(\<exists>own. assert_flat_foreach_runtime_compatible C plan = Inr own) \<longleftrightarrow>
    (\<forall>s \<in> set (plan_steps plan). ps_id s \<in> fst ` set (body_pairs C (plan_steps plan)) \<longrightarrow> ps_type s \<notin> {LOOP, APPROVAL})"
proof -
  let ?steps = "plan_steps plan"
  let ?own = "\<lparr>body_to_loop = body_pairs C ?steps, loop_to_body = body_table C ?steps\<rparr>"
  note lookup = plan_by_id_lookup [OF valid_plan_facts(1) [OF assms]]
  have owned: "is_owned ?own i \<longleftrightarrow> i \<in> fst ` set (body_pairs C ?steps)" for i
    by (simp add: is_owned_def map_of_eq_None_iff)
  have body: "assert_flat_body (plan_by_id plan) (ps_id s) = Inr () \<longleftrightarrow> ps_type s \<notin> {LOOP, APPROVAL}"
    if "s \<in> set ?steps" for s
    using lookup [OF that] by (cases "ps_type s") (simp_all add: assert_flat_body_def dict_at_def)
  have ids: "b \<in> ps_id ` set ?steps" if "(b, l) \<in> set (body_pairs C ?steps)" for b l
    using assms that by (force simp: static_plan_valid_def scopes_valid_def bodies_owned_def Let_def)
  let ?check = "\<lambda>(loop_id, body_ids). and_then (dict_at (plan_by_id plan) loop_id) (\<lambda>loop_step.
      and_then (opt_or (validate_loop_config C (ps_config loop_step)) ValidationError) (\<lambda>cfg.
        if is_owned ?own loop_id then Inl LOOP_RUNTIME_UNSUPPORTED
        else eachE (assert_flat_body (plan_by_id plan)) body_ids))"
  have check: "?check (l, bs) = Inr () \<longleftrightarrow>
      l \<notin> fst ` set (body_pairs C ?steps) \<and> (\<forall>b \<in> set bs. assert_flat_body (plan_by_id plan) b = Inr ())"
    if "(l, bs) \<in> set (body_table C ?steps)" for l bs
  proof -
    from that obtain s cfg where s: "s \<in> set ?steps" "l = ps_id s" "validate_loop_config C (ps_config s) = Some cfg"
      unfolding body_tableD by blast
    have "dict_at (plan_by_id plan) l = Inr s"
      using lookup [OF s(1)] by (simp add: s(2))
    with s(3) show ?thesis
      by (simp add: owned)
  qed
  have "(\<exists>own. assert_flat_foreach_runtime_compatible C plan = Inr own) \<longleftrightarrow>
      (\<forall>x \<in> set (body_table C ?steps). ?check x = Inr ())"
    unfolding assert_flat_foreach_runtime_compatible_def valid_ownership [OF assms] and_then.simps
      loop_body_ownership.simps and_then_Inr_iff eachE_Inr_iff by blast
  also have "\<dots> \<longleftrightarrow> (\<forall>(l, bs) \<in> set (body_table C ?steps). l \<notin> fst ` set (body_pairs C ?steps) \<and>
         (\<forall>b \<in> set bs. assert_flat_body (plan_by_id plan) b = Inr ()))"
    using check by (intro ball_cong refl) (simp only: split_paired_all prod.case)
  also have "\<dots> \<longleftrightarrow> (\<forall>s \<in> set ?steps. ps_id s \<in> fst ` set (body_pairs C ?steps) \<longrightarrow> ps_type s \<notin> {LOOP, APPROVAL})"
  proof (intro iffI ballI impI)
    fix s assume flat: "\<forall>(l, bs) \<in> set (body_table C ?steps). l \<notin> fst ` set (body_pairs C ?steps) \<and>
         (\<forall>b \<in> set bs. assert_flat_body (plan_by_id plan) b = Inr ())"
      and s: "s \<in> set ?steps" "ps_id s \<in> fst ` set (body_pairs C ?steps)"
    then obtain l bs where "(l, bs) \<in> set (body_table C ?steps)" "ps_id s \<in> set bs"
      by (auto simp: in_pairs_table)
    with flat body [OF s(1)] show "ps_type s \<notin> {LOOP, APPROVAL}"
      by blast
  next
    fix x assume flat: "\<forall>s \<in> set ?steps. ps_id s \<in> fst ` set (body_pairs C ?steps) \<longrightarrow> ps_type s \<notin> {LOOP, APPROVAL}"
      and x: "x \<in> set (body_table C ?steps)"
    obtain l bs where lbs: "x = (l, bs)"
      by (cases x)
    from x obtain s where s: "s \<in> set ?steps" "ps_id s = l" "ps_type s = LOOP"
      unfolding lbs body_tableD by blast
    with flat have "l \<notin> fst ` set (body_pairs C ?steps)"
      by blast
    moreover have "assert_flat_body (plan_by_id plan) b = Inr ()" if "b \<in> set bs" for b
    proof -
      from that x have b: "(b, l) \<in> set (body_pairs C ?steps)"
        unfolding lbs in_pairs_table by blast
      from ids [OF this] obtain t where "t \<in> set ?steps" "ps_id t = b"
        by blast
      with flat body [of t] b show ?thesis
        by force
    qed
    ultimately show "case x of (l, bs) \<Rightarrow> l \<notin> fst ` set (body_pairs C ?steps) \<and>
         (\<forall>b \<in> set bs. assert_flat_body (plan_by_id plan) b = Inr ())"
      by (simp add: lbs)
  qed
  finally show ?thesis .
qed

subsection \<open>The DAG check on the rows\<close>

lemma exact_projection:
  assumes "dumps_back C plan" and "s \<in> set (plan_steps plan)"
  shows "assert_exact_plan_projection C s (pending_row C eid sid i s) = Inr ()"
  using assms py_eq_refl [of "dump_plan_step C s"]
  by (simp add: assert_exact_plan_projection_def dumps_back_def)

lemma typed_config:
  assumes "config_valid_as (ps_type s) C L steps me (ps_config s)" and "ps_type s = JOIN \<longrightarrow> ps_depends_on s \<noteq> []"
    and "ps_type s = LOOP \<longrightarrow> allow"
  shows "validate_typed_config C s (pending_row C eid sid i s) (ps_depends_on s) allow = Inr () \<longleftrightarrow>
    (ps_type s = TOOL \<longrightarrow> length (ps_depends_on s) \<le> 1)"
  using assms by (cases "ps_type s") (auto simp: validate_typed_config_def tool_version_of_def)

lemma foldE_guarded:
  assumes "\<And>x z. x \<in> set xs \<Longrightarrow> (\<exists>z'. f x z = Inr z') \<longleftrightarrow> P x"
  shows "(\<exists>z'. foldE f xs z = Inr z') \<longleftrightarrow> (\<forall>x \<in> set xs. P x)"
  using assms
proof (induction xs arbitrary: z)
  case (Cons x xs)
  have IH: "(\<exists>z'. foldE f xs z = Inr z') \<longleftrightarrow> (\<forall>x \<in> set xs. P x)" for z
    using Cons by simp
  show ?case
    using Cons.prems [of x z] IH by (auto simp: and_then_Inr_iff)
qed simp

lemma graph_iff:
  assumes "static_plan_valid C plan" and "dumps_back C plan" and "codec_enforces C"
    and own: "build_loop_body_ownership C plan = Inr own"
  shows "(\<exists>g. build_graph C plan own (top_steps C plan) (initial_rows C eid sid plan) = Inr g) \<longleftrightarrow>
    (\<forall>s \<in> set (top_steps C plan). ps_type s = TOOL \<longrightarrow> length (ps_depends_on s) \<le> 1)"
proof -
  let ?rows = "initial_rows C eid sid plan" and ?tops = "top_steps C plan"
  note V = valid_plan_facts [OF assms(1)]
  have own_eq: "own = \<lparr>body_to_loop = body_pairs C (plan_steps plan), loop_to_body = body_table C (plan_steps plan)\<rparr>"
    using own valid_ownership [OF assms(1)] by simp
  let ?step = "dag_top_step C (body_to_loop own \<noteq> []) (by_step_key ?rows) (map ps_id ?tops)"
  have "(\<exists>z'. ?step s z = Inr z') \<longleftrightarrow> (ps_type s = TOOL \<longrightarrow> length (ps_depends_on s) \<le> 1)" if s: "s \<in> set ?tops" for s z
  proof -
    have mem: "s \<in> set (plan_steps plan)"
      using s by (simp add: top_steps_def)
    obtain i where row: "map_of (by_step_key ?rows) (ps_id s) = Some (pending_row C eid sid i s)"
      using initial_row_lookup [OF V(3) s] by blast
    have "ps_type s = LOOP \<longrightarrow> body_to_loop own \<noteq> []"
      using no_pairs_no_loops [OF assms(1,3) _ mem] by (auto simp: own_eq)
    then have typed: "validate_typed_config C s (pending_row C eid sid i s) (ps_depends_on s) (body_to_loop own \<noteq> []) = Inr () \<longleftrightarrow>
        (ps_type s = TOOL \<longrightarrow> length (ps_depends_on s) \<le> 1)"
      using typed_config [OF V(7) [OF mem]] V(8) [OF mem] by blast
    have "dag_top_step C (body_to_loop own \<noteq> []) (by_step_key ?rows) (map ps_id ?tops) s z =
        and_then (validate_typed_config C s (pending_row C eid sid i s) (ps_depends_on s) (body_to_loop own \<noteq> []))
          (\<lambda>_. Inr (add_node (ps_id s) (ps_depends_on s) z))"
      using row exact_projection [OF assms(2) mem] V(5) [OF mem] V(6) [OF s]
      by (simp add: dag_top_step_def dict_at_def distinct_card)
    with typed show ?thesis
      by simp
  qed
  then have "(\<exists>z'. foldE ?step ?tops ([], []) = Inr z') \<longleftrightarrow>
      (\<forall>s \<in> set ?tops. ps_type s = TOOL \<longrightarrow> length (ps_depends_on s) \<le> 1)"
    by (rule foldE_guarded)
  then show ?thesis
    by (simp add: build_graph_def Let_def initial_rows_toplevel)
qed

lemma rows_check:
  assumes "static_plan_valid C plan" and "codec_enforces C" and own: "build_loop_body_ownership C plan = Inr own"
  shows "(if body_to_loop own \<noteq> [] then assert_rows_with_loops (top_steps C plan) (initial_rows C eid sid plan)
     else assert_rows_without_loops plan (initial_rows C eid sid plan)) = Inr ()"
proof -
  let ?rows = "initial_rows C eid sid plan"
  have keys: "step_key ` set ?rows = ps_id ` set (top_steps C plan)"
    using arg_cong [OF initial_rows_keys, of set C eid sid plan] by simp
  have "own = \<lparr>body_to_loop = body_pairs C (plan_steps plan), loop_to_body = body_table C (plan_steps plan)\<rparr>"
    using own valid_ownership [OF assms(1)] by simp
  then have own_eq: "body_to_loop own = body_pairs C (plan_steps plan)"
    by simp
  show ?thesis
  proof (cases "body_pairs C (plan_steps plan) = []")
    case True
    then have tops: "top_steps C plan = plan_steps plan"
      by (simp add: top_steps_def)
    have "length ?rows = length (plan_steps plan)"
      using arg_cong [OF initial_rows_keys, of length C eid sid plan] tops by simp
    moreover have "st_type row \<noteq> LOOP" "is_toplevel row" if "row \<in> set ?rows" for row
      using initial_rowD [OF that] no_pairs_no_loops [OF assms(1,2) True] tops by (metis pending_row_simps)+
    ultimately show ?thesis
      using True keys tops by (auto simp: own_eq assert_rows_without_loops_def)
  next
    case False
    have "iteration_no row = None" if "row \<in> set ?rows" for row
      using initial_rowD [OF that] by (metis pending_row_simps(4))
    with False keys show ?thesis
      by (auto simp: own_eq assert_rows_with_loops_def)
  qed
qed

lemma while_rows_check:
  assumes "static_plan_valid C plan" and "dumps_back C plan" and "row \<in> set (initial_rows C eid sid plan)"
  shows "check_while_row C plan (initial_rows C eid sid plan) row = Inr ()"
proof -
  let ?rows = "initial_rows C eid sid plan"
  note dist = valid_plan_facts(1) [OF assms(1)]
  from initial_rowD [OF assms(3)] obtain i s where s: "s \<in> set (top_steps C plan)" "row = pending_row C eid sid i s"
    by blast
  then have mem: "s \<in> set (plan_steps plan)"
    by (simp add: top_steps_def)
  have "parent_step_id r = None" if "r \<in> set ?rows" for r
    using initial_rowD [OF that] by (metis pending_row_simps(3))
  then have kids: "filter (\<lambda>r. parent_step_id r = Some p) ?rows = []" for p
    by (auto simp: filter_empty_conv)
  have "py_eq (dump_plan_step C s) (dump_plan_step C s)"
    using assms(2) mem py_eq_refl by (auto simp: dumps_back_def)
  with assms(2) mem show ?thesis
    unfolding s(2) check_while_row_def pending_row_simps plan_by_id_lookup [OF dist mem]
    by (simp add: assert_while_parent_control_state_def find_step [OF dist mem] kids dumps_back_def Let_def split: option.split)
qed

lemma schedule_valid:
  assumes "static_plan_valid C plan"
    and g: "build_graph C plan own (top_steps C plan) (initial_rows C eid sid plan) = Inr g"
  shows "\<exists>xs. schedule C plan (initial_rows C eid sid plan) g = Inr xs"
    and "\<exists>roots. root_tools (top_steps C plan) (by_step_key (initial_rows C eid sid plan)) (fst g) = Inr roots"
proof -
  let ?rows = "initial_rows C eid sid plan" and ?tops = "top_steps C plan"
  note V = valid_plan_facts [OF assms(1)]
  have keys: "distinct (map step_key ?rows)"
    using V(3) by (simp add: initial_rows_keys)
  note ok = build_graph_ok [OF g V(3) keys]
  have "edges_of (fst g) \<subseteq> dependency_edges (plan_steps plan)"
  proof
    fix e assume "e \<in> edges_of (fst g)"
    then obtain d n where e: "e = (d, n)" "n \<in> fst ` set (fst g)" "d \<in> set (dict_get (fst g) n [])"
      by (auto simp: edges_of_def)
    then obtain s where s: "s \<in> set ?tops" "n = ps_id s"
      unfolding ok(2) initial_rows_toplevel by auto
    with e ok(3) [OF s(1)] have "d \<in> set (ps_depends_on s)" "d \<in> ps_id ` set ?tops" "s \<in> set (plan_steps plan)"
      by (auto simp: top_steps_def)
    then show "e \<in> dependency_edges (plan_steps plan)"
      unfolding e s(2) dependency_edges_def by (auto simp: top_steps_def)
  qed
  with V(2) have "acyclic (edges_of (fst g))"
    by (rule acyclic_subset)
  then show "\<exists>xs. schedule C plan ?rows g = Inr xs"
    using schedule_complete [OF g V(3) keys] by (simp add: initial_rows_toplevel)
  show "\<exists>roots. root_tools ?tops (by_step_key ?rows) (fst g) = Inr roots"
    unfolding root_tools_def
  proof (rule foldE_total)
    fix s acc assume s: "s \<in> set ?tops"
    obtain i where "map_of (by_step_key ?rows) (ps_id s) = Some (pending_row C eid sid i s)"
      using initial_row_lookup [OF V(3) s] by blast
    then show "\<exists>t. (if dict_get (fst g) (ps_id s) [] \<noteq> [] then Inr acc
        else and_then (dict_at (by_step_key ?rows) (ps_id s)) (\<lambda>r. Inr (if st_type r = TOOL then acc @ [ps_id s] else acc))) = Inr t"
      by (simp add: dict_at_def)
  qed
qed

lemma valid_dag_iff:
  assumes "static_plan_valid C plan" and "codec_enforces C" and "dumps_back C plan"
    and par: "1 \<le> max_parallelism (plan_limits plan)"
  shows "(\<exists>dag. validate_tool_join_dag C plan (initial_rows C eid sid plan) = Inr dag) \<longleftrightarrow> runtime_supported C plan"
proof -
  let ?rows = "initial_rows C eid sid plan" and ?tops = "top_steps C plan"
  note V = valid_plan_facts [OF assms(1)]
  obtain own where own: "build_loop_body_ownership C plan = Inr own"
      and own_eq: "own = \<lparr>body_to_loop = body_pairs C (plan_steps plan), loop_to_body = body_table C (plan_steps plan)\<rparr>"
    using valid_ownership [OF assms(1)] by blast
  let ?flat = "if body_to_loop own \<noteq> [] then and_then (assert_flat_foreach_runtime_compatible C plan) (\<lambda>_. Inr ()) else Inr ()"
  let ?bodies = "fst ` set (body_pairs C (plan_steps plan))"
  have flat: "?flat = Inr () \<longleftrightarrow> (\<forall>s \<in> set (plan_steps plan). ps_id s \<in> ?bodies \<longrightarrow> ps_type s \<notin> {LOOP, APPROVAL})"
    using flat_iff [OF assms(1)] by (simp add: own_eq)
  have rows: "?rows \<noteq> []"
    using V(4) arg_cong [OF initial_rows_keys, of length C eid sid plan] by auto
  have keys: "length (by_step_key ?rows) = length ?rows"
    using V(3) by (simp add: by_step_key_distinct initial_rows_keys)
  have while: "eachE (check_while_row C plan ?rows) ?rows = Inr ()"
    using while_rows_check [OF assms(1,3)] by simp
  have "(\<exists>dag. validate_tool_join_dag C plan ?rows = Inr dag) \<longleftrightarrow>
      ?flat = Inr () \<and> (\<exists>g. build_graph C plan own ?tops ?rows = Inr g)"
  proof (cases "?flat = Inr () \<and> (\<exists>g. build_graph C plan own ?tops ?rows = Inr g)")
    case True
    then obtain g where g: "build_graph C plan own ?tops ?rows = Inr g"
      by blast
    obtain xs where xs: "schedule C plan ?rows g = Inr xs"
      using schedule_valid(1) [OF assms(1) g] by blast
    obtain roots where roots: "root_tools ?tops (by_step_key ?rows) (fst g) = Inr roots"
      using schedule_valid(2) [OF assms(1) g] by blast
    have "\<exists>dag. validate_tool_join_dag C plan ?rows = Inr dag"
      unfolding validate_tool_join_dag_def Let_def own and_then.simps conjunct1 [OF True] valid_tops [OF assms(1)]
        rows_check [OF assms(1,2) own] g initial_rows_toplevel while xs roots
      using rows keys par by simp
    with True show ?thesis
      by blast
  next
    case False
    have "validate_tool_join_dag C plan ?rows \<noteq> Inr dag" for dag
    proof
      assume "validate_tool_join_dag C plan ?rows = Inr dag"
      then have "(\<exists>u. ?flat = Inr u) \<and> (\<exists>g. build_graph C plan own ?tops ?rows = Inr g)"
        unfolding validate_tool_join_dag_def Let_def own valid_tops [OF assms(1)] if_not_P [OF rows]
        using keys by (simp only: and_then.simps and_then_Inr_iff simp_thms if_False) blast
      with False show False
        by simp
    qed
    with False show ?thesis
      by blast
  qed
  also have "\<dots> \<longleftrightarrow> runtime_supported C plan"
    unfolding flat graph_iff [OF assms(1,3,2) own] unfolding runtime_supported_def top_steps_def set_filter by auto
  finally show ?thesis .
qed

subsection \<open>A plan that is valid and never runs\<close>

text \<open>Two TOOLs, and a third that depends on both.\<close>

definition fan_step :: "string \<Rightarrow> string list \<Rightarrow> plan_step" where
  "fan_step i deps =
     \<lparr>ps_id = i, ps_name = i, ps_type = TOOL, ps_required = True, ps_depends_on = deps, ps_when = None,
      ps_timeout_seconds = 60, ps_on_error = FAIL_EXECUTION, ps_config = JObj []\<rparr>"

definition fan_steps :: "plan_step list" where
  "fan_steps = [fan_step ''a'' [], fan_step ''b'' [], fan_step ''c'' [''a'', ''b'']]"

definition fan_plan :: execution_plan where
  "fan_plan = (sample_plan fan_steps)\<lparr>response_step_ids := [''c'']\<rparr>"

definition fan_codec :: codec where
  "fan_codec = (table_codec fan_steps [] [] [] [])
     \<lparr>validate_tool_config := (\<lambda>j. Some \<lparr>tc_tool_version_id = 5, tc_bindings = []\<rparr>)\<rparr>"

definition fan_params :: "(rat \<Rightarrow> string) \<Rightarrow> materialize_params" where
  "fan_params fr =
     \<lparr>mp_source_type = ''AGENT_REQUEST'', mp_trigger_type = ''MANUAL'', mp_requester_id = 1, mp_plan_snapshot = JObj [],
      mp_plan_hash = compute_plan_hash fr (JObj []), mp_input_snapshot = JObj [], mp_policy_snapshot = JObj [],
      mp_agent_request_id = None, mp_agent_version_id = None, mp_workflow_version_id = None,
      mp_schedule_occurrence_id = None, mp_plan_validation_run_id = None, mp_trace_id = None\<rparr>"

lemma fan_pairs: "body_pairs C fan_steps = []"
  by (simp add: fan_steps_def fan_step_def body_pairs_def)

lemma fan_edges: "dependency_edges fan_steps \<subseteq> {(''a'', ''c''), (''b'', ''c'')}"
  by (auto simp: dependency_edges_def fan_steps_def fan_step_def)

lemma fan_acyclic: "acyclic (dependency_edges fan_steps)"
proof -
  have "(x, y) \<in> (dependency_edges fan_steps)\<^sup>+ \<Longrightarrow> y = ''c'' \<and> x \<noteq> ''c''" for x y
    by (induction rule: trancl_induct) (use fan_edges in auto)
  then show ?thesis
    by (auto simp: acyclic_def)
qed

lemma fan_valid: "static_plan_valid fan_codec fan_plan"
proof -
  have steps: "plan_steps fan_plan = fan_steps"
    by (simp add: fan_plan_def sample_plan_def)
  have "graph_valid fan_steps"
    unfolding graph_valid_def using fan_acyclic
    by (auto simp: fan_steps_def fan_step_def non_blank_def str_strip_def py_space_def)
  moreover have "limits_valid fan_plan"
    by (simp add: limits_valid_def fan_plan_def sample_plan_def default_plan_limits_def fan_steps_def
        SYSTEM_HARD_MAX_STEPS_def SYSTEM_HARD_MAX_DURATION_SECONDS_def SYSTEM_HARD_MAX_PARALLELISM_def
        SYSTEM_HARD_MAX_LOOP_ITERATIONS_def)
  moreover have "scopes_valid fan_codec fan_plan"
    unfolding scopes_valid_def Let_def steps fan_pairs
    by (simp add: bodies_owned_def fan_plan_def) (simp add: fan_steps_def fan_step_def)
  moreover have "when_valid fan_codec fan_steps s \<and> is_dict (ps_config s) \<and>
      config_valid_as (ps_type s) fan_codec (plan_limits fan_plan) fan_steps (ps_id s) (ps_config s)"
    if "s \<in> set fan_steps" for s
    using that by (auto simp: fan_steps_def fan_step_def when_valid_def fan_codec_def)
  ultimately show ?thesis
    by (simp add: static_plan_valid_def steps)
qed

text \<open>C17: The rows materialised from a plan pass the DAG check of the worker exactly when the plan stays within what the
  runtime supports: no TOOL outside the LOOP bodies has two dependencies, and no body step is a LOOP or an APPROVAL.  Any
  other execution is created and can never run.\<close>

theorem materialized_runnable:
  assumes "materialize C vplan fr M eid sid ts params d = Inr (ex, rows, d')"
    and "vplan (mp_plan_snapshot params) = Some plan" and "1 \<le> max_parallelism (plan_limits plan)"
    and "codec_enforces C" and "dumps_back C plan"
  shows "(\<exists>dag. validate_tool_join_dag C plan rows = Inr dag) \<longleftrightarrow> runtime_supported C plan"
proof -
  have "static_plan_valid C plan" "rows = initial_rows C eid sid plan"
    using assms(1,2) unfolding materialize_spec
    by (auto simp: accepted_snapshot_def Let_def split: if_splits)
  with valid_dag_iff [OF _ assms(4,5,3)] show ?thesis
    by simp
qed

theorem materialized_runnable_witness:
  "\<forall>d. \<exists>ex rows d'. materialize fan_codec (\<lambda>_. Some fan_plan) (\<lambda>_. []) (\<lambda>_. False) 7 of_nat 0 (fan_params (\<lambda>_. [])) d =
     Inr (ex, rows, d') \<and> (\<nexists>dag. validate_tool_join_dag fan_codec fan_plan rows = Inr dag)"
proof
  fix d
  let ?fr = "\<lambda>_ :: rat. [] :: string"
  have hash: "is_sha256_hex (compute_plan_hash ?fr (JObj []))"
    by (simp add: compute_plan_hash_def compute_canonical_json_hash_def)
  then have "non_blank (compute_plan_hash ?fr (JObj []))"
    by (auto simp: non_blank_def is_sha256_hex_def str_strip_hex)
  then have "accepted_snapshot fan_codec (\<lambda>_. Some fan_plan) ?fr (fan_params ?fr) = Some fan_plan"
    using fan_valid by (simp add: accepted_snapshot_def fan_params_def)
  then obtain ex rows d' where run:
      "materialize fan_codec (\<lambda>_. Some fan_plan) ?fr (\<lambda>_. False) 7 of_nat 0 (fan_params ?fr) d = Inr (ex, rows, d')"
    by (simp add: materialize_spec Let_def)
  have "1 \<le> max_parallelism (plan_limits fan_plan)"
    by (simp add: fan_plan_def sample_plan_def default_plan_limits_def)
  moreover have "codec_enforces fan_codec"
    by (auto simp: codec_enforces_def fan_codec_def table_codec_def by_name_def fan_steps_def fan_step_def
        plan_step_valid_def non_blank_def str_strip_def py_space_def split: json.splits if_splits)
  moreover have "dumps_back fan_codec fan_plan"
    by (auto simp: dumps_back_def fan_codec_def fan_plan_def fan_steps_def fan_step_def sample_plan_def table_codec_def by_name_def)
  moreover have "\<not> runtime_supported fan_codec fan_plan"
    by (simp add: runtime_supported_def fan_plan_def sample_plan_def fan_pairs)
      (simp add: fan_steps_def fan_step_def)
  ultimately have "\<nexists>dag. validate_tool_join_dag fan_codec fan_plan rows = Inr dag"
    using materialized_runnable [OF run] by simp
  with run show "\<exists>ex rows d'. materialize fan_codec (\<lambda>_. Some fan_plan) ?fr (\<lambda>_. False) 7 of_nat 0 (fan_params ?fr) d =
      Inr (ex, rows, d') \<and> (\<nexists>dag. validate_tool_join_dag fan_codec fan_plan rows = Inr dag)"
    by blast
qed

end
