(* ===== verification/CreationSafety.thy ===== *)
theory CreationSafety
  imports ExecutionCreation PlanAcceptance RunnablePlan
begin

section \<open>What the preflight guarantees, and that a key creates one execution\<close>

text \<open>
  The gate of the runtime is the gate of the plan validator (\<open>tool_gate\<close> of \<^verbatim>\<open>PlanValidatorSafety\<close>) plus
  the equality of the policy snapshot; the preflight of \<^verbatim>\<open>ExecutionCreation\<close> passes only plans all of whose
  tools pass it.  The rest is idempotency: replays, and two creations at once.
\<close>

subsection \<open>The gate\<close>

definition approval_in_force :: "catalog \<Rightarrow> tool_policy \<Rightarrow> approval_policy option" where
  "approval_in_force ct p =
     (if tp_requires_approval p then Option.bind (tp_approval_policy_id p) (ct_approval_policy ct) else None)"

definition current_snapshot :: "catalog \<Rightarrow> tool_policy \<Rightarrow> json" where
  "current_snapshot ct p = build_safe_tool_policy_snapshot p (approval_in_force ct p)"

lemma required_approval_iff:
  "required_approval_policy ct p = Inr a \<longleftrightarrow> approval_valid ct p \<and> a = approval_in_force ct p"
  by (auto simp: required_approval_policy_def approval_valid_def approval_in_force_def)

lemma policy_integrity_iff:
  "policy_integrity p (Some (ps_timeout_seconds s)) = Inr u \<longleftrightarrow> policy_valid s p"
  by (auto simp: policy_integrity_def policy_valid_def)

lemma current_tool_iff:
  "current_tool ct tv = Inr tool \<longleftrightarrow> ct_tool ct (tv_mcp_tool_id tv) = Some tool \<and> mt_deleted_at tool = None \<and>
     mt_status tool = ''ACTIVE'' \<and> mt_current_version_id tool = Some (tv_id tv)"
  by (auto simp: current_tool_def)

lemma active_server_iff:
  "active_server ct tool = Inr s \<longleftrightarrow> ct_server ct (mt_mcp_server_id tool) = Some s \<and> ms_deleted_at s = None \<and>
     ms_status s = ''ACTIVE'' \<and> ms_transport_type s \<in> {''STDIO'', ''STREAMABLE_HTTP'', ''LEGACY_HTTP_SSE''} \<and>
     ms_protocol_era s \<in> {''CURRENT'', ''LEGACY''}"
  by (auto simp: active_server_def)

lemma common_gate:
  assumes "assert_common_tool_executable ct requester v expected (Some (ps_timeout_seconds s)) = Inr core"
  shows "\<exists>tv. ct_tool_version ct v = Some tv \<and> ct_tool ct (tv_mcp_tool_id tv) = Some (ta_logical_tool core) \<and>
    tool_available ct tv (ta_logical_tool core) \<and>
    authorized (ct_authorization ct requester ''mcp.tool.execute'' ''MCP_TOOL'' (mt_id (ta_logical_tool core))) \<and>
    ct_policy ct (mt_id (ta_logical_tool core)) = Some (ta_tool_policy core) \<and> policy_valid s (ta_tool_policy core) \<and>
    approval_valid ct (ta_tool_policy core) \<and> py_eq (current_snapshot ct (ta_tool_policy core)) expected \<and>
    ta_policy_snapshot core = current_snapshot ct (ta_tool_policy core)"
  using assms
  by (auto simp: assert_common_tool_executable_def Let_def required_approval_iff policy_integrity_iff current_tool_iff
      active_server_iff tool_available_def current_snapshot_def)

lemma common_gate_complete:
  assumes "ct_tool_version ct v = Some tv" and "ct_tool ct (tv_mcp_tool_id tv) = Some tool" and "tool_available ct tv tool"
    and "authorized (ct_authorization ct requester ''mcp.tool.execute'' ''MCP_TOOL'' (mt_id tool))"
    and "ct_policy ct (mt_id tool) = Some p" and "policy_valid s p" and "approval_valid ct p"
    and "py_eq (current_snapshot ct p) expected"
  shows "\<exists>core. assert_common_tool_executable ct requester v expected (Some (ps_timeout_seconds s)) = Inr core \<and>
    ta_logical_tool core = tool \<and> ta_tool_policy core = p"
proof -
  obtain srv where "active_server ct tool = Inr srv"
    using assms(3) by (auto simp: tool_available_def active_server_iff)
  moreover have "current_tool ct tv = Inr tool" "tv_validation_status tv = ''VALID''"
    using assms(2,3) by (simp_all add: tool_available_def current_tool_iff)
  moreover have "policy_integrity p (Some (ps_timeout_seconds s)) = Inr ()"
    using assms(6) by (simp add: policy_integrity_iff)
  moreover have "required_approval_policy ct p = Inr (approval_in_force ct p)"
    using assms(7) by (simp add: required_approval_iff)
  moreover have "py_eq (build_safe_tool_policy_snapshot p (approval_in_force ct p)) expected"
    using assms(8) by (simp add: current_snapshot_def)
  ultimately show ?thesis
    using assms(1,4,5) by (simp add: assert_common_tool_executable_def Let_def)
qed

text \<open>The call of the runtime for a step of an agent request.\<close>

abbreviation agent_gate ::
    "catalog \<Rightarrow> agent_request \<Rightarrow> plan_step \<Rightarrow> uuid \<Rightarrow> json \<Rightarrow> runtime_tool_authorization result" where
  "agent_gate ct request s v expected \<equiv> assert_current_agent_tool_executable ct (rq_requester_id request)
     (rq_agent_version_id request) v expected (Some (ps_timeout_seconds s))"

lemma runtime_authorization_simps [simp]:
  "ta_tool_policy (runtime_authorization core g b) = ta_tool_policy core"
  "ta_logical_tool (runtime_authorization core g b) = ta_logical_tool core"
  "ta_policy_snapshot (runtime_authorization core g b) = ta_policy_snapshot core"
  "ta_confirmation_required (runtime_authorization core g b) = b"
  by (simp_all add: runtime_authorization_def common_tool_auth.defs)

lemma access_granted_iff:
  "access_granted ct request tool \<longleftrightarrow>
     (\<exists>g. find_grant ct request tool = Some g \<and> gr_effect g = ''ALLOW'' \<and> gr_parameter_constraints g = JNull) \<and>
     authorized (ct_authorization ct (rq_requester_id request) ''mcp.tool.execute'' ''MCP_TOOL'' (mt_id tool))"
  by (simp add: access_granted_def authorized_def Let_def)

lemma agent_gate_sound:
  assumes "agent_gate ct request s v expected = Inr a"
  shows "ct_agent_version ct (rq_agent_version_id request) \<noteq> None \<and> tool_gate ct request s v (ta_tool_policy a) \<and>
    py_eq (current_snapshot ct (ta_tool_policy a)) expected \<and> ta_policy_snapshot a = current_snapshot ct (ta_tool_policy a) \<and>
    (ta_confirmation_required a \<longleftrightarrow> needs_confirmation ct request v)"
proof -
  obtain core g where core: "assert_common_tool_executable ct (rq_requester_id request) v expected
      (Some (ps_timeout_seconds s)) = Inr core" "find_grant ct request (ta_logical_tool core) = Some g"
      "gr_effect g = ''ALLOW''" "gr_parameter_constraints g = JNull"
      "a = runtime_authorization core (Some g) (gr_requires_confirmation g \<or> tp_requires_confirmation (ta_tool_policy core))"
      "ct_agent_version ct (rq_agent_version_id request) \<noteq> None"
    using assms by (auto simp: assert_current_agent_tool_executable_def find_grant_def split: option.splits)
  from common_gate [OF core(1)] obtain tv where tv: "ct_tool_version ct v = Some tv"
      "ct_tool ct (tv_mcp_tool_id tv) = Some (ta_logical_tool core)" "tool_available ct tv (ta_logical_tool core)"
      "authorized (ct_authorization ct (rq_requester_id request) ''mcp.tool.execute'' ''MCP_TOOL'' (mt_id (ta_logical_tool core)))"
      "ct_policy ct (mt_id (ta_logical_tool core)) = Some (ta_tool_policy core)" "policy_valid s (ta_tool_policy core)"
      "approval_valid ct (ta_tool_policy core)" "py_eq (current_snapshot ct (ta_tool_policy core)) expected"
      "ta_policy_snapshot core = current_snapshot ct (ta_tool_policy core)"
    by blast
  have "tool_gate ct request s v (ta_tool_policy core)"
    using tv core(2-4) by (auto simp: tool_gate_def access_granted_iff)
  moreover have "needs_confirmation ct request v \<longleftrightarrow> gr_requires_confirmation g \<or> tp_requires_confirmation (ta_tool_policy core)"
    using tv core(2) by (auto simp: needs_confirmation_def)
  ultimately show ?thesis
    using core tv by simp
qed

lemma agent_gate_complete:
  assumes "ct_agent_version ct (rq_agent_version_id request) \<noteq> None" and "tool_gate ct request s v p"
    and "py_eq (current_snapshot ct p) expected"
  shows "\<exists>a. agent_gate ct request s v expected = Inr a \<and> ta_tool_policy a = p"
proof -
  from assms(2) obtain tv tool where tv: "ct_tool_version ct v = Some tv" "ct_tool ct (tv_mcp_tool_id tv) = Some tool"
      "tool_available ct tv tool" "access_granted ct request tool" "ct_policy ct (mt_id tool) = Some p" "policy_valid s p"
      "approval_valid ct p"
    by (auto simp: tool_gate_def)
  from tv(4) obtain g where g: "find_grant ct request tool = Some g" "gr_effect g = ''ALLOW''" "gr_parameter_constraints g = JNull"
      "authorized (ct_authorization ct (rq_requester_id request) ''mcp.tool.execute'' ''MCP_TOOL'' (mt_id tool))"
    by (auto simp: access_granted_iff)
  from common_gate_complete [OF tv(1-3) g(4) tv(5-7) assms(3)] g assms(1) show ?thesis
    by (auto simp: assert_current_agent_tool_executable_def find_grant_def)
qed

text \<open>C23: The check before an agent's tool is called passes exactly when the agent version exists, the tool passes the
  gate of plan validation now (the version is the current one of an available tool on an active server, the agent has an
  unconstrained ALLOW grant, the requester is authorized, the policy and its approval policy are valid and the step's
  timeout is the policy's), and the policy still is the one that was validated.\<close>

theorem preflight_is_gate:
  "(\<exists>a. assert_current_agent_tool_executable ct (rq_requester_id request) (rq_agent_version_id request) v expected
     (Some (ps_timeout_seconds s)) = Inr a) \<longleftrightarrow>
   ct_agent_version ct (rq_agent_version_id request) \<noteq> None \<and>
   (\<exists>p. tool_gate ct request s v p \<and> py_eq (current_snapshot ct p) expected)"
  using agent_gate_sound agent_gate_complete by blast

subsection \<open>Bindings\<close>

text \<open>The schema is an object schema whose required names are among the keys, which are all declared.\<close>

definition schema_names :: "json \<Rightarrow> string list \<Rightarrow> (string, json) dict \<Rightarrow> bool" where
  "schema_names schema keys props \<longleftrightarrow>
     (\<exists>kvs required. schema = JObj kvs \<and> get_or_none kvs ''type'' = JStr ''object'' \<and>
        get_or_none kvs ''properties'' = JObj props \<and> required_names kvs = Some required \<and>
        set required \<subseteq> set keys \<and> set keys \<subseteq> set (dict_keys props))"

lemma object_properties_iff:
  "object_properties schema = Inr (kvs, props, required) \<longleftrightarrow> schema = JObj kvs \<and>
     get_or_none kvs ''type'' = JStr ''object'' \<and> get_or_none kvs ''properties'' = JObj props \<and>
     required_names kvs = Some required"
  by (auto simp: object_properties_def split: json.splits)

lemma names_iff:
  "(\<exists>r. object_properties schema = Inr r \<and> (case r of (_, props, required) \<Rightarrow>
       check_names props required keys = Inr () \<and> P props)) \<longleftrightarrow> (\<exists>props. schema_names schema keys props \<and> P props)"
  by (auto simp: schema_names_def check_names_def list_all_iff subset_iff) (fastforce simp: object_properties_iff)+

lemma created_literal_iff: "check_created_literal props kb = Inr () \<longleftrightarrow> literals_typed props [kb]"
  by (cases kb) (auto simp: check_created_literal_def literals_typed_def split: binding_value.splits json.splits)

lemma create_bindings_iff:
  "create_validate_bindings schema bs = Inr () \<longleftrightarrow>
     (\<exists>props. schema_names schema (dict_keys bs) props \<and> literals_typed props bs)"
proof -
  have "literals_typed props bs \<longleftrightarrow> eachE (check_created_literal props) bs = Inr ()" for props
    by (auto simp: created_literal_iff) (auto simp: literals_typed_def)
  then show ?thesis
    using names_iff [of schema "dict_keys bs" "\<lambda>props. literals_typed props bs"]
    by (simp add: create_validate_bindings_def case_prod_unfold)
qed

lemma companion_iff:
  "check_companion V sr schema (k, b) = Inr () \<longleftrightarrow> companion_binding_ok V sr schema DETERMINISTIC_TOOL_STEP_ID k b"
  by (cases b) (auto simp: check_companion_def companion_binding_ok_def)

lemma create_companion_iff:
  "create_validate_companion V sr schema bs = Inr () \<longleftrightarrow>
     (\<exists>props. schema_names schema (dict_keys bs) props) \<and>
     (\<forall>(k, b) \<in> set bs. companion_binding_ok V sr schema DETERMINISTIC_TOOL_STEP_ID k b)"
proof -
  have "eachE (check_companion V sr schema) bs = Inr () \<longleftrightarrow>
      (\<forall>(k, b) \<in> set bs. companion_binding_ok V sr schema DETERMINISTIC_TOOL_STEP_ID k b)"
    by (auto simp: companion_iff)
  then show ?thesis
    using names_iff [of schema "dict_keys bs" "\<lambda>props. eachE (check_companion V sr schema) bs = Inr ()"]
    by (simp add: create_validate_companion_def case_prod_unfold del: eachE_Inr_iff)
qed

subsection \<open>The preflight\<close>

text \<open>The requester has answered yes to the confirmation of this plan under this policy.\<close>

definition confirmed_by :: "vdb \<Rightarrow> agent_request \<Rightarrow> plan_run \<Rightarrow> json \<Rightarrow> bool" where
  "confirmed_by d request run snapshot \<longleftrightarrow>
     (\<exists>v c. v \<in> set (vd_validations d) \<and> vr_agent_request_id v = rq_id request \<and> vr_decision v = V_WAITING_CONFIRMATION \<and>
        vr_plan_generation_run_id v = pr_id run \<and> vr_plan_hash v = pr_plan_hash run \<and>
        py_eq (vr_policy_snapshot v) snapshot \<and> vr_clarification_request_id v = Some (cl_id c) \<and>
        c \<in> set (vd_clarifications d) \<and> cl_request_type c = ''PLAN_CONFIRMATION'' \<and> cl_status c = ''ANSWERED'' \<and>
        py_eq (cl_response_payload c) (JObj [(''confirmed'', JBool True)]) \<and> cl_answered_by c = Some (rq_requester_id request))"

lemma answered_confirmation:
  assumes "assert_answered_plan_confirmation d (rq_id request) (rq_requester_id request) (pr_id run) (pr_plan_hash run) snapshot = Inr ()"
  shows "confirmed_by d request run snapshot"
proof -
  obtain v cid where v: "get_latest_waiting_confirmation_for_plan d (rq_id request) (pr_id run) (pr_plan_hash run) snapshot = Some v"
      "vr_clarification_request_id v = Some cid"
    using assms by (auto simp: assert_answered_plan_confirmation_def bind_eq_Some_conv split: option.splits)
  with assms obtain c where c: "find (\<lambda>c. cl_id c = cid) (vd_clarifications d) = Some c"
      "cl_request_type c = ''PLAN_CONFIRMATION''" "cl_status c = ''ANSWERED''"
      "py_eq (cl_response_payload c) (JObj [(''confirmed'', JBool True)])" "cl_answered_by c = Some (rq_requester_id request)"
    by (auto simp: assert_answered_plan_confirmation_def split: option.splits)
  from v(1) have "v \<in> set (vd_validations d)" "vr_agent_request_id v = rq_id request" "vr_decision v = V_WAITING_CONFIRMATION"
      "vr_plan_generation_run_id v = pr_id run" "vr_plan_hash v = pr_plan_hash run" "py_eq (vr_policy_snapshot v) snapshot"
    by (auto simp: get_latest_waiting_confirmation_for_plan_def dest!: find_SomeD split: option.splits if_splits)
  with v(2) c find_SomeD [OF c(1)] show ?thesis
    by (auto simp: confirmed_by_def)
qed

text \<open>What is established for each step before an execution is created.\<close>

definition step_cleared :: "validator_codec \<Rightarrow> vdb \<Rightarrow> catalog \<Rightarrow> agent_request \<Rightarrow> plan_run \<Rightarrow> bool \<Rightarrow> plan_step \<Rightarrow> bool" where
  "step_cleared V d ct request run pair s \<longleftrightarrow> ps_type s = TOOL \<and>
     (\<exists>v p. step_version V s v \<and> tool_gate ct request s v p \<and>
        (if pair then is_safe_readonly_policy p \<and> \<not> needs_confirmation ct request v
         else needs_confirmation ct request v \<longrightarrow> confirmed_by d request run (current_snapshot ct p)))"

lemma single_facts:
  assumes "preflight_single K d ct request validation run plan = Inr cx"
  shows "\<exists>b params cfg tv auth. load_build (cc_validator K) d request run = Inr (b, params) \<and>
    va_tool (cc_validator K) (ps_config (hd (plan_steps plan))) = Some cfg \<and> bd_tool_version_id b = ts_tool_version_id cfg \<and>
    ct_tool_version ct (ts_tool_version_id cfg) = Some tv \<and> same_projection (cc_validator K) params (ts_bindings cfg) \<and>
    create_validate_bindings (tv_input_schema tv) (ts_bindings cfg) = Inr () \<and>
    agent_gate ct request (hd (plan_steps plan)) (tv_id tv) (vr_policy_snapshot validation) = Inr auth \<and>
    (ta_confirmation_required auth \<longrightarrow> assert_answered_plan_confirmation d (rq_id request) (rq_requester_id request)
       (pr_id run) (pr_plan_hash run) (ta_policy_snapshot auth) = Inr ()) \<and>
    cx_validation cx = validation \<and> cx_plan_run cx = run \<and> cx_plan cx = plan"
  using assms unfolding preflight_single_def Let_def by (auto simp del: eachE_Inr_iff split: if_splits)

lemma pair_facts:
  assumes "preflight_sequential_pair K d ct request validation run plan = Inr cx"
  shows "\<exists>br cfg1 cfg2 tv1 tv2 sr tool_steps. load_build (cc_validator K) d request run = Inr br \<and>
    pair_shape_ok plan (plan_steps plan ! 0) (plan_steps plan ! 1) \<and>
    va_tool (cc_validator K) (ps_config (plan_steps plan ! 0)) = Some cfg1 \<and>
    va_complex (cc_validator K) (ps_config (plan_steps plan ! 1)) = Some cfg2 \<and>
    bd_tool_version_id (fst br) = ts_tool_version_id cfg1 \<and>
    ct_tool_version ct (ts_tool_version_id cfg1) = Some tv1 \<and> ct_tool_version ct (tc_tool_version_id cfg2) = Some tv2 \<and>
    same_projection (cc_validator K) (snd br) (ts_bindings cfg1) \<and>
    create_validate_bindings (tv_input_schema tv1) (ts_bindings cfg1) = Inr () \<and>
    create_load_structured (cc_validator K) request = Inr sr \<and>
    create_validate_companion (cc_validator K) sr (tv_input_schema tv2) (tc_bindings cfg2) = Inr () \<and>
    check_pair_entry ct request tool_steps (plan_steps plan ! 0, tv1) = Inr () \<and>
    check_pair_entry ct request tool_steps (plan_steps plan ! 1, tv2) = Inr () \<and>
    cx_validation cx = validation \<and> cx_plan_run cx = run \<and> cx_plan cx = plan"
proof -
  have refs: "pair_refs_ok refs b cfg1 cfg2 \<Longrightarrow> bd_tool_version_id b = ts_tool_version_id cfg1" for refs b cfg1 cfg2
    by (auto simp: pair_refs_ok_def split: option.splits)
  have entries: "eachE f [x, y] = Inr u \<longleftrightarrow> f x = Inr () \<and> f y = Inr ()"
    for f :: "plan_step \<times> tool_version \<Rightarrow> unit result" and x y u
    by simp
  have units: "(r :: unit result) = Inr u \<Longrightarrow> r = Inr ()" for r u
    by simp
  have cx_eq: "Inr c = (Inr cx :: creation_context result) \<longleftrightarrow> cx = c" for c
    by auto
  show ?thesis
    using assms unfolding preflight_sequential_pair_def Let_def and_then_Inr_iff case_prod_unfold opt_or_Inr_iff raise_if_Inr_iff
      entries cx_eq not_not
    by (elim exE conjE) (intro exI conjI; (assumption | rule refs, assumption | rule units, assumption | simp; fail))
qed

lemma pair_entry_gate:
  assumes "check_pair_entry ct request tool_steps (s, tv) = Inr u"
  shows "\<exists>p. tool_gate ct request s (tv_id tv) p \<and> is_safe_readonly_policy p \<and> \<not> needs_confirmation ct request (tv_id tv)"
proof -
  obtain expected auth where "agent_gate ct request s (tv_id tv) expected = Inr auth" "\<not> ta_confirmation_required auth"
      "is_safe_readonly_policy (ta_tool_policy auth)"
    using assms by (auto simp: check_pair_entry_def split: json.splits)
  with agent_gate_sound [OF this(1)] show ?thesis
    by blast
qed

text \<open>The lookup of a tool version is by its primary key.\<close>

definition versions_by_id :: "catalog \<Rightarrow> bool" where
  "versions_by_id ct \<longleftrightarrow> (\<forall>v tv. ct_tool_version ct v = Some tv \<longrightarrow> tv_id tv = v)"

lemma single_cleared:
  assumes "versions_by_id ct" and "plan_steps plan = [s]" and "ps_type s = TOOL"
    and "preflight_single K d ct request validation run plan = Inr cx"
  shows "step_cleared (cc_validator K) d ct request run False s"
proof -
  from single_facts [OF assms(4)] assms(2) obtain cfg tv auth where facts: "va_tool (cc_validator K) (ps_config s) = Some cfg"
      "ct_tool_version ct (ts_tool_version_id cfg) = Some tv"
      "agent_gate ct request s (tv_id tv) (vr_policy_snapshot validation) = Inr auth"
      "ta_confirmation_required auth \<longrightarrow> assert_answered_plan_confirmation d (rq_id request) (rq_requester_id request)
         (pr_id run) (pr_plan_hash run) (ta_policy_snapshot auth) = Inr ()"
    by auto
  have "step_version (cc_validator K) s (tv_id tv)"
    using facts(1,2) assms(1) by (auto simp: step_version_def versions_by_id_def)
  moreover have "tool_gate ct request s (tv_id tv) (ta_tool_policy auth)"
      "needs_confirmation ct request (tv_id tv) \<longrightarrow> confirmed_by d request run (current_snapshot ct (ta_tool_policy auth))"
    using agent_gate_sound [OF facts(3)] facts(4) answered_confirmation [of d request run] by simp_all
  ultimately show ?thesis
    using assms(3) unfolding step_cleared_def by (simp only: if_False) blast
qed

lemma pair_cleared:
  assumes "versions_by_id ct" and "plan_steps plan = [s, t]"
    and "preflight_sequential_pair K d ct request validation run plan = Inr cx"
  shows "step_cleared (cc_validator K) d ct request run True s \<and> step_cleared (cc_validator K) d ct request run True t"
proof -
  from pair_facts [OF assms(3)] assms(2) obtain cfg1 cfg2 tv1 tv2 tool_steps where facts: "pair_shape_ok plan s t"
      "va_tool (cc_validator K) (ps_config s) = Some cfg1" "va_complex (cc_validator K) (ps_config t) = Some cfg2"
      "ct_tool_version ct (ts_tool_version_id cfg1) = Some tv1" "ct_tool_version ct (tc_tool_version_id cfg2) = Some tv2"
      "check_pair_entry ct request tool_steps (s, tv1) = Inr ()" "check_pair_entry ct request tool_steps (t, tv2) = Inr ()"
    by auto
  have "step_version (cc_validator K) s (tv_id tv1)" "step_version (cc_validator K) t (tv_id tv2)"
    using facts(2-5) assms(1) by (auto simp: step_version_def versions_by_id_def)
  with pair_entry_gate [OF facts(6)] pair_entry_gate [OF facts(7)] facts(1) show ?thesis
    unfolding step_cleared_def pair_shape_ok_def by auto
qed

text \<open>The records behind a successful preflight: the latest validation, the plan run it validated, which is still the
  latest one of the request, and their hashes and plan.\<close>

definition lineage_ok :: "creation_codec \<Rightarrow> vdb \<Rightarrow> agent_request \<Rightarrow> creation_context \<Rightarrow> bool" where
  "lineage_ok K d request cx \<longleftrightarrow>
     find (\<lambda>v. vr_agent_request_id v = rq_id request) (vd_validations d) = Some (cx_validation cx) \<and>
     vr_decision (cx_validation cx) = V_READY \<and>
     find (\<lambda>r. pr_id r = vr_plan_generation_run_id (cx_validation cx)) (vd_plan_runs d) = Some (cx_plan_run cx) \<and>
     map_option pr_id (find (\<lambda>r. pr_agent_request_id r = rq_id request) (vd_plan_runs d)) = Some (pr_id (cx_plan_run cx)) \<and>
     vr_plan_hash (cx_validation cx) = pr_plan_hash (cx_plan_run cx) \<and>
     pr_plan_hash (cx_plan_run cx) = compute_plan_hash (va_repr (cc_validator K)) (pr_plan_snapshot (cx_plan_run cx)) \<and>
     va_plan (cc_validator K) (pr_plan_snapshot (cx_plan_run cx)) = Some (cx_plan cx) \<and>
     plan_src (cx_plan cx) = PlanSourceAgent (rq_agent_version_id request)"

lemma source_agent_iff: "source_is_agent plan v \<longleftrightarrow> plan_src plan = PlanSourceAgent v"
  by (auto simp: source_is_agent_def split: plan_source.splits)

lemma preflight_split:
  assumes "preflight K d ct request = Inr cx"
  shows "\<exists>validation run plan. lineage_ok K d request
      \<lparr>cx_validation = validation, cx_plan_run = run, cx_plan = plan, cx_policy_snapshot = JNull\<rparr> \<and>
    length (plan_steps plan) \<in> {1, 2} \<and> ps_type (hd (plan_steps plan)) = TOOL \<and>
    (if length (plan_steps plan) = 2 then preflight_sequential_pair K d ct request validation run plan = Inr cx
     else preflight_single K d ct request validation run plan = Inr cx)"
  using assms unfolding preflight_def Let_def and_then_Inr_iff opt_or_Inr_iff raise_if_Inr_iff not_not
  by (elim exE conjE) (auto simp: lineage_ok_def source_agent_iff simp del: insert_iff split: if_splits)

lemma preflight_cases:
  assumes "preflight K d ct request = Inr cx"
  shows "lineage_ok K d request cx \<and>
    ((\<exists>s. plan_steps (cx_plan cx) = [s] \<and> ps_type s = TOOL \<and>
        preflight_single K d ct request (cx_validation cx) (cx_plan_run cx) (cx_plan cx) = Inr cx) \<or>
     (\<exists>s t. plan_steps (cx_plan cx) = [s, t] \<and> ps_type s = TOOL \<and> ps_type t = TOOL \<and>
        preflight_sequential_pair K d ct request (cx_validation cx) (cx_plan_run cx) (cx_plan cx) = Inr cx))"
proof -
  from preflight_split [OF assms] obtain validation run plan where split: "lineage_ok K d request
      \<lparr>cx_validation = validation, cx_plan_run = run, cx_plan = plan, cx_policy_snapshot = JNull\<rparr>"
      "length (plan_steps plan) \<in> {1, 2}" "ps_type (hd (plan_steps plan)) = TOOL"
      "if length (plan_steps plan) = 2 then preflight_sequential_pair K d ct request validation run plan = Inr cx
       else preflight_single K d ct request validation run plan = Inr cx"
    by blast
  have same: "cx_validation cx = validation \<and> cx_plan_run cx = run \<and> cx_plan cx = plan"
    using split(4) single_facts pair_facts by (metis (no_types, lifting))
  with split(1) have lineage: "lineage_ok K d request cx"
    by (simp add: lineage_ok_def)
  from split(2) consider s where "plan_steps plan = [s]" | s t where "plan_steps plan = [s, t]"
    by (auto simp: length_Suc_conv numeral_2_eq_2)
  then show ?thesis
  proof cases
    case 1
    with split(3,4) same lineage show ?thesis
      by simp
  next
    case 2
    with split(4) have pair: "preflight_sequential_pair K d ct request validation run plan = Inr cx"
      by simp
    from pair_facts [OF pair] 2 have "ps_type t = TOOL"
      by (auto simp: pair_shape_ok_def)
    with pair 2 split(3) same lineage show ?thesis
      by simp
  qed
qed

lemma preflight_cleared:
  assumes "versions_by_id ct" and "preflight K d ct request = Inr cx"
  shows "lineage_ok K d request cx \<and> length (plan_steps (cx_plan cx)) \<in> {1, 2} \<and>
    (\<forall>s \<in> set (plan_steps (cx_plan cx)).
       step_cleared (cc_validator K) d ct request (cx_plan_run cx) (length (plan_steps (cx_plan cx)) = 2) s)"
  using preflight_cases [OF assms(2)] single_cleared [OF assms(1)] pair_cleared [OF assms(1)]
  by (elim conjE disjE exE) simp_all

lemma preflight_steps: "preflight K d ct request = Inr cx \<Longrightarrow> \<forall>s \<in> set (plan_steps (cx_plan cx)). ps_type s = TOOL"
  using preflight_cases by fastforce

subsection \<open>The two ways a creation returns\<close>

lemma replayD: "replay_or_conflict K d r h = Inr outcome \<Longrightarrow> co_replayed outcome"
  by (auto simp: replay_or_conflict_def)

lemma insertD: "insert_created K request trace cx pk key h eid sid now d = Inr (outcome, d') \<Longrightarrow> \<not> co_replayed outcome"
  by (auto simp: insert_created_def Let_def)

abbreviation creation_key :: "creation_db \<Rightarrow> uuid \<Rightarrow> string \<Rightarrow> idempotency_record option" where
  "creation_key d requester k \<equiv> get_idempotency d (uuid_str requester) (str_strip k)"

lemma create_cases:
  assumes "create_from_agent_request K ct rid requester k trace eid sid now others d = (Inr outcome, d1)"
  shows "(\<exists>r. (d1 = d \<or> d1 = others d) \<and> creation_key d1 requester k = Some r \<and>
      replay_or_conflict K d1 r (request_hash (va_repr (cc_validator K)) rid) = Inr outcome) \<or>
    (\<exists>request cx. find (\<lambda>r. rq_id r = rid) (vd_requests (cd_tables d)) = Some request \<and> rq_requester_id request = requester \<and>
      rq_status request = RQ_READY \<and> preflight K (cd_tables d) ct request = Inr cx \<and>
      creation_key d requester k = None \<and> creation_key (others d) requester k = None \<and>
      insert_created K request trace cx (uuid_str requester) (str_strip k) (request_hash (va_repr (cc_validator K)) rid)
        eid sid now (others d) = Inr (outcome, d1))"
  using assms unfolding create_from_agent_request_def Let_def
  by (auto split: option.splits sum.splits if_splits prod.splits)

subsection \<open>The insert\<close>

definition creatable :: "creation_codec \<Rightarrow> creation_context \<Rightarrow> bool" where
  "creatable K cx \<longleftrightarrow> is_dict (pr_plan_snapshot (cx_plan_run cx)) \<and> static_plan_valid (cc_codec K) (cx_plan cx)"

text \<open>The response, and the rows of the new execution.\<close>

definition created_result :: "agent_request \<Rightarrow> creation_context \<Rightarrow> uuid \<Rightarrow> time \<Rightarrow> create_result" where
  "created_result request cx eid now =
     \<lparr>cr_id = eid, cr_status = ''CREATED'', cr_source_type = ''AGENT_REQUEST'', cr_trigger_type = ''USER'',
      cr_agent_request_id = rq_id request, cr_agent_version_id = rq_agent_version_id request,
      cr_plan_hash = pr_plan_hash (cx_plan_run cx), cr_requested_at = now, cr_step_count = length (plan_steps (cx_plan cx))\<rparr>"

definition created_rows :: "creation_codec \<Rightarrow> agent_request \<Rightarrow> string option \<Rightarrow> creation_context \<Rightarrow> uuid \<Rightarrow> (nat \<Rightarrow> uuid) \<Rightarrow> time
    \<Rightarrow> db" where
  "created_rows K request trace cx eid sid now =
     (let ex = create_execution eid (create_params request trace cx)
      in emit_execution_created ex now
           (put_execution ex empty_db\<lparr>db_steps := initial_rows (cc_codec K) eid sid (cx_plan cx)\<rparr>))"

definition created_record :: "creation_codec \<Rightarrow> agent_request \<Rightarrow> creation_context \<Rightarrow> string \<Rightarrow> string \<Rightarrow> string \<Rightarrow> uuid \<Rightarrow> time
    \<Rightarrow> idempotency_record" where
  "created_record K request cx pk key h eid now =
     \<lparr>ik_principal_key = pk, ik_operation_scope = OPERATION_SCOPE, ik_key = key, ik_request_hash = h,
      ik_status = ''COMPLETED'', ik_response_status = Some 201,
      ik_response_body = cc_dump_result K (created_result request cx eid now),
      ik_resource_type = Some ''EXECUTION'', ik_resource_id = Some eid, ik_completed_at = Some now, ik_expires_at = None\<rparr>"

definition created_state :: "creation_codec \<Rightarrow> agent_request \<Rightarrow> string option \<Rightarrow> creation_context \<Rightarrow> string \<Rightarrow> string \<Rightarrow> string
    \<Rightarrow> uuid \<Rightarrow> (nat \<Rightarrow> uuid) \<Rightarrow> time \<Rightarrow> creation_db \<Rightarrow> creation_db" where
  "created_state K request trace cx pk key h eid sid now d =
     d\<lparr>cd_executions := cd_executions d @ [(eid, created_rows K request trace cx eid sid now)],
       cd_idempotency := cd_idempotency d @ [created_record K request cx pk key h eid now],
       cd_audit := cd_audit d @ [creation_audit request (create_execution eid (create_params request trace cx)) now]\<rparr>"

text \<open>The constraints on the fields of the response model in \<^verbatim>\<open>schemas/execution.py\<close>.\<close>

definition valid_result :: "create_result \<Rightarrow> bool" where
  "valid_result r \<longleftrightarrow> length (cr_plan_hash r) = 64 \<and> 1 \<le> cr_step_count r"

lemma plan_hash_shape: "is_sha256_hex (compute_plan_hash fr j)"
  by (simp add: compute_plan_hash_def)

lemma tools_own_nothing: "\<forall>s \<in> set steps. ps_type s = TOOL \<Longrightarrow> body_pairs C steps = []"
  by (simp add: body_pairs_def loop_configs_def)

lemma empty_steps: "db_steps empty_db = []"
  by (simp add: empty_db_def)

lemma insert_spec:
  assumes "lineage_ok K dt request cx" and "\<forall>s \<in> set (plan_steps (cx_plan cx)). ps_type s = TOOL"
    and "length (plan_steps (cx_plan cx)) \<in> {1, 2}"
  shows "insert_created K request trace cx pk key h eid sid now d =
    (if creatable K cx
     then Inr (\<lparr>co_result = created_result request cx eid now, co_http_status = 201, co_replayed = False\<rparr>,
               created_state K request trace cx pk key h eid sid now d)
     else Inl PRECONDITION_FAILED)"
proof -
  let ?params = "create_params request trace cx" and ?run = "cx_plan_run cx"
  have hash: "pr_plan_hash ?run = compute_plan_hash (va_repr (cc_validator K)) (pr_plan_snapshot ?run)"
      "va_plan (cc_validator K) (pr_plan_snapshot ?run) = Some (cx_plan cx)"
    using assms(1) by (simp_all add: lineage_ok_def)
  then have shape: "length (pr_plan_hash ?run) = 64" "non_blank (pr_plan_hash ?run)"
    using plan_hash_shape [of "va_repr (cc_validator K)" "pr_plan_snapshot ?run"]
    by (auto simp: is_sha256_hex_def non_blank_def str_strip_hex)
  have params: "mp_plan_snapshot ?params = pr_plan_snapshot ?run" "mp_plan_hash ?params = pr_plan_hash ?run"
      "mp_source_type ?params = ''AGENT_REQUEST''" "mp_trigger_type ?params = ''USER''"
    by (simp_all add: create_params_def)
  have accepted: "accepted_snapshot (cc_codec K) (va_plan (cc_validator K)) (va_repr (cc_validator K)) ?params =
      (if creatable K cx then Some (cx_plan cx) else None)"
    using hash shape(2) by (auto simp: accepted_snapshot_def params creatable_def)
  have count: "length (initial_rows (cc_codec K) eid sid (cx_plan cx)) = length (plan_steps (cx_plan cx))"
      "1 \<le> length (plan_steps (cx_plan cx))"
    using assms(2,3) by (auto simp: initial_rows_def top_steps_def tools_own_nothing)
  show ?thesis
  proof (cases "creatable K cx")
    case True
    with count shape(1) show ?thesis
      by (simp add: insert_created_def Let_def materialize_spec accepted result_of_def params create_execution_def
          created_result_def created_state_def created_rows_def created_record_def empty_steps)
  qed (simp add: insert_created_def Let_def materialize_spec accepted)
qed

lemma preflight_valid_result:
  assumes "preflight K dt ct request = Inr cx"
  shows "valid_result (created_result request' cx eid now)"
proof -
  have "pr_plan_hash (cx_plan_run cx) =
      compute_plan_hash (va_repr (cc_validator K)) (pr_plan_snapshot (cx_plan_run cx))"
    using preflight_cases [OF assms] by (simp add: lineage_ok_def)
  then have "length (pr_plan_hash (cx_plan_run cx)) = 64"
    using plan_hash_shape [of "va_repr (cc_validator K)" "pr_plan_snapshot (cx_plan_run cx)"]
    by (simp add: is_sha256_hex_def)
  moreover have "1 \<le> length (plan_steps (cx_plan cx))"
    using preflight_cases [OF assms] by auto
  ultimately show ?thesis
    by (simp add: valid_result_def created_result_def)
qed

lemma preflight_insert:
  assumes "preflight K dt ct request = Inr cx"
  shows "insert_created K request trace cx pk key h eid sid now d =
    (if creatable K cx
     then Inr (\<lparr>co_result = created_result request cx eid now, co_http_status = 201, co_replayed = False\<rparr>,
               created_state K request trace cx pk key h eid sid now d)
     else Inl PRECONDITION_FAILED)"
proof (rule insert_spec)
  show "lineage_ok K dt request cx" "length (plan_steps (cx_plan cx)) \<in> {1, 2}"
    using preflight_cases [OF assms] by auto
qed (rule preflight_steps [OF assms])

subsection \<open>Created executions\<close>

lemma create_fresh:
  assumes "create_from_agent_request K ct rid requester k trace eid sid now others d = (Inr outcome, d1)"
    and "\<not> co_replayed outcome"
  shows "\<exists>request cx. find (\<lambda>r. rq_id r = rid) (vd_requests (cd_tables d)) = Some request \<and>
    rq_requester_id request = requester \<and> rq_status request = RQ_READY \<and> preflight K (cd_tables d) ct request = Inr cx \<and>
    creation_key (others d) requester k = None \<and> creatable K cx \<and>
    outcome = \<lparr>co_result = created_result request cx eid now, co_http_status = 201, co_replayed = False\<rparr> \<and>
    d1 = created_state K request trace cx (uuid_str requester) (str_strip k) (request_hash (va_repr (cc_validator K)) rid)
           eid sid now (others d)"
proof -
  from create_cases [OF assms(1)] replayD assms(2) obtain request cx where
    facts: "find (\<lambda>r. rq_id r = rid) (vd_requests (cd_tables d)) = Some request" "rq_requester_id request = requester"
      "rq_status request = RQ_READY" "preflight K (cd_tables d) ct request = Inr cx" "creation_key (others d) requester k = None"
      "insert_created K request trace cx (uuid_str requester) (str_strip k) (request_hash (va_repr (cc_validator K)) rid)
        eid sid now (others d) = Inr (outcome, d1)"
    by blast
  from facts(6) show ?thesis
    unfolding preflight_insert [OF facts(4)] using facts(1-5) by (auto split: if_splits)
qed

text \<open>C13: An execution is created only for a READY request of its requester whose latest validation, latest plan run, hash and
  parsed plan belong together, when at that moment every step's tool passes the gate of plan validation.  A tool that
  asks for a confirmation needs the requester's recorded yes to this plan under the policy now in force, and no tool of a
  pair may ask for one.  What is written is the plan's snapshot and hash, and one PENDING row per step in plan order.\<close>

theorem created_execution_cleared:
  assumes "create_from_agent_request K ct rid requester k trace eid sid now others d = (Inr outcome, d1)"
    and "\<not> co_replayed outcome" and "versions_by_id ct"
  shows "\<exists>request cx ex rows. find (\<lambda>r. rq_id r = rid) (vd_requests (cd_tables d)) = Some request \<and>
    rq_requester_id request = requester \<and> rq_status request = RQ_READY \<and> lineage_ok K (cd_tables d) request cx \<and>
    (\<forall>s \<in> set (plan_steps (cx_plan cx)). step_cleared (cc_validator K) (cd_tables d) ct request (cx_plan_run cx)
       (length (plan_steps (cx_plan cx)) = 2) s) \<and>
    cd_executions d1 = cd_executions (others d) @ [(eid, rows)] \<and> db_execution rows = Some ex \<and>
    ex_status ex = E_CREATED \<and> requester_id ex = requester \<and> plan_snapshot ex = pr_plan_snapshot (cx_plan_run cx) \<and>
    plan_hash ex = pr_plan_hash (cx_plan_run cx) \<and> db_steps rows = initial_rows (cc_codec K) eid sid (cx_plan cx) \<and>
    map step_key (db_steps rows) = map ps_id (plan_steps (cx_plan cx)) \<and>
    cr_id (co_result outcome) = eid \<and> cr_step_count (co_result outcome) = length (db_steps rows)"
proof -
  from create_fresh [OF assms(1,2)] obtain request cx where fresh:
      "find (\<lambda>r. rq_id r = rid) (vd_requests (cd_tables d)) = Some request" "rq_requester_id request = requester"
      "rq_status request = RQ_READY" "preflight K (cd_tables d) ct request = Inr cx"
      "outcome = \<lparr>co_result = created_result request cx eid now, co_http_status = 201, co_replayed = False\<rparr>"
      "d1 = created_state K request trace cx (uuid_str requester) (str_strip k) (request_hash (va_repr (cc_validator K)) rid)
           eid sid now (others d)"
    by blast
  let ?rows = "created_rows K request trace cx eid sid now"
  have steps: "db_steps ?rows = initial_rows (cc_codec K) eid sid (cx_plan cx)"
      "db_execution ?rows = Some (create_execution eid (create_params request trace cx))"
    by (simp_all add: created_rows_def Let_def emit_execution_created_def put_execution_def)
  have keys: "map step_key (initial_rows (cc_codec K) eid sid (cx_plan cx)) = map ps_id (plan_steps (cx_plan cx))"
    using tools_own_nothing [OF preflight_steps [OF fresh(4)]] by (simp add: initial_rows_keys top_steps_def)
  have ex: "ex_status (create_execution eid (create_params request trace cx)) = E_CREATED"
      "requester_id (create_execution eid (create_params request trace cx)) = requester"
      "plan_snapshot (create_execution eid (create_params request trace cx)) = pr_plan_snapshot (cx_plan_run cx)"
      "plan_hash (create_execution eid (create_params request trace cx)) = pr_plan_hash (cx_plan_run cx)"
    using fresh(2) by (simp_all add: create_execution_def create_params_def)
  have result: "cr_id (co_result outcome) = eid" "cr_step_count (co_result outcome) = length (plan_steps (cx_plan cx))"
      "cd_executions d1 = cd_executions (others d) @ [(eid, ?rows)]"
    using fresh(5,6) by (simp_all add: created_result_def created_state_def)
  note cleared = preflight_cleared [OF assms(3) fresh(4)]
  show ?thesis
    by (intro exI [of _ request] exI [of _ cx] exI [of _ "create_execution eid (create_params request trace cx)"]
        exI [of _ ?rows] conjI)
      (use fresh(1-3) cleared steps keys ex result map_eq_imp_length_eq [OF keys] in simp_all)
qed

lemma one_or_two_supported:
  assumes "\<forall>s \<in> set (plan_steps plan). ps_type s = TOOL" and "static_plan_valid C plan"
    and "plan_steps plan = [s] \<or> plan_steps plan = [s, t] \<and> ps_depends_on s = [] \<and> ps_depends_on t = [ps_id s]"
  shows "runtime_supported C plan"
proof -
  have "set (ps_depends_on u) \<subseteq> ps_id ` set (plan_steps plan) \<and> distinct (ps_depends_on u)" if "u \<in> set (plan_steps plan)" for u
    using assms(2) that unfolding static_plan_valid_def graph_valid_def by blast
  then have "length (ps_depends_on u) \<le> 1" if "u \<in> set (plan_steps plan)" for u
    using assms(3) that by (elim disjE) (auto dest: card_mono [rotated] simp: distinct_card)
  then show ?thesis
    using assms(1) by (simp add: runtime_supported_def tools_own_nothing)
qed

text \<open>C22: Every execution created from an agent request can run: if the validators enforce their models and the dumps of the
  steps parse back, the rows the worker will find pass the check of the DAG it makes before the first step.\<close>

theorem created_execution_runnable:
  assumes "create_from_agent_request K ct rid requester k trace eid sid now others d = (Inr outcome, d1)"
    and "\<not> co_replayed outcome" and "codec_enforces (cc_codec K)"
    and "\<And>j plan. va_plan (cc_validator K) j = Some plan \<Longrightarrow>
      dumps_back (cc_codec K) plan \<and> 1 \<le> max_parallelism (plan_limits plan)"
  shows "\<exists>rows ex plan dag. (eid, rows) \<in> set (cd_executions d1) \<and>
    db_execution rows = Some ex \<and> va_plan (cc_validator K) (plan_snapshot ex) = Some plan \<and>
    validate_tool_join_dag (cc_codec K) plan (db_steps rows) = Inr dag"
proof -
  from create_fresh [OF assms(1,2)] obtain request cx where fresh: "preflight K (cd_tables d) ct request = Inr cx"
      "creatable K cx" "d1 = created_state K request trace cx (uuid_str requester) (str_strip k)
           (request_hash (va_repr (cc_validator K)) rid) eid sid now (others d)"
    by blast
  let ?rows = "created_rows K request trace cx eid sid now" and ?plan = "cx_plan cx"
  have rows: "db_steps ?rows = initial_rows (cc_codec K) eid sid ?plan"
      "db_execution ?rows = Some (create_execution eid (create_params request trace cx))"
      "(eid, ?rows) \<in> set (cd_executions d1)"
    by (simp_all add: created_rows_def Let_def emit_execution_created_def put_execution_def fresh(3) created_state_def)
  have parsed: "va_plan (cc_validator K) (pr_plan_snapshot (cx_plan_run cx)) = Some ?plan"
    using preflight_cases [OF fresh(1)] by (simp add: lineage_ok_def)
  have valid: "static_plan_valid (cc_codec K) ?plan"
    using fresh(2) by (simp add: creatable_def)
  have "\<exists>s t. plan_steps ?plan = [s] \<or> plan_steps ?plan = [s, t] \<and> ps_depends_on s = [] \<and> ps_depends_on t = [ps_id s]"
    using preflight_cases [OF fresh(1)] pair_facts by (fastforce simp: pair_shape_ok_def)
  then have "runtime_supported (cc_codec K) ?plan"
    using one_or_two_supported [OF preflight_steps [OF fresh(1)] valid] by blast
  then obtain dag where "validate_tool_join_dag (cc_codec K) ?plan (initial_rows (cc_codec K) eid sid ?plan) = Inr dag"
    using valid_dag_iff [OF valid assms(3)] assms(4) [OF parsed] by blast
  moreover have "plan_snapshot (create_execution eid (create_params request trace cx)) = pr_plan_snapshot (cx_plan_run cx)"
    by (simp add: create_execution_def create_params_def)
  ultimately show ?thesis
    using rows parsed by auto
qed

subsection \<open>Idempotency\<close>

text \<open>What pydantic promises for the model of the response: an instance, which satisfies the constraints of its fields,
  is read back from its dump.\<close>

definition response_roundtrip :: "creation_codec \<Rightarrow> bool" where
  "response_roundtrip K \<longleftrightarrow>
     (\<forall>r. valid_result r \<longrightarrow> cc_validate_result K (cc_dump_result K r) = Some r \<and> cc_dump_result K r \<noteq> JNull)"

text \<open>A later state: records stay, and so do executions.\<close>

definition keeps_creations :: "creation_db \<Rightarrow> creation_db \<Rightarrow> bool" where
  "keeps_creations d d' \<longleftrightarrow>
     (\<forall>pk key r. get_idempotency d pk key = Some r \<longrightarrow> get_idempotency d' pk key = Some r) \<and>
     fst ` set (cd_executions d) \<subseteq> fst ` set (cd_executions d')"

lemma execution_stored: "map_of xs i \<noteq> None \<longleftrightarrow> i \<in> fst ` set xs"
  by (simp add: map_of_eq_None_iff)

lemma replay_later:
  assumes "replay_or_conflict K d r h = Inr outcome" and "keeps_creations d d'"
  shows "replay_or_conflict K d' r h = Inr \<lparr>co_result = co_result outcome, co_http_status = 201, co_replayed = True\<rparr>"
proof -
  have "map_of (cd_executions d) i \<noteq> None \<Longrightarrow> map_of (cd_executions d') i \<noteq> None" for i
    using assms(2) unfolding execution_stored keeps_creations_def by blast
  with assms(1) show ?thesis
    unfolding replay_or_conflict_def by auto
qed

lemma find_snoc: "find P xs = None \<Longrightarrow> P x \<Longrightarrow> find P (xs @ [x]) = Some x"
  by (induction xs) (auto split: if_splits)

lemma created_found:
  assumes "get_idempotency d pk key = None"
  shows "get_idempotency (created_state K request trace cx pk key h eid sid now d) pk key =
    Some (created_record K request cx pk key h eid now)"
  using assms unfolding get_idempotency_def created_state_def
  by (simp add: find_snoc created_record_def)

lemma created_replays:
  assumes "response_roundtrip K" and "valid_result (created_result request cx eid now)"
  shows "replay_or_conflict K (created_state K request trace cx pk key h eid sid now d)
      (created_record K request cx pk key h eid now) h =
    Inr \<lparr>co_result = created_result request cx eid now, co_http_status = 201, co_replayed = True\<rparr>"
proof -
  let ?r = "created_result request cx eid now"
  have "cc_validate_result K (cc_dump_result K ?r) = Some ?r" "cc_dump_result K ?r \<noteq> JNull"
    using assms by (simp_all add: response_roundtrip_def)
  moreover have "cr_id ?r = eid"
    by (simp add: created_result_def)
  ultimately show ?thesis
    unfolding replay_or_conflict_def execution_stored by (simp add: created_record_def created_state_def)
qed

text \<open>After a creation has returned, the record of its key answers with its result.\<close>

lemma answered_key:
  assumes "create_from_agent_request K ct rid requester k trace eid sid now others d = (Inr outcome, d1)"
    and "response_roundtrip K"
  shows "\<exists>r. creation_key d1 requester k = Some r \<and>
    replay_or_conflict K d1 r (request_hash (va_repr (cc_validator K)) rid) =
      Inr \<lparr>co_result = co_result outcome, co_http_status = 201, co_replayed = True\<rparr>"
proof (cases "co_replayed outcome")
  case True
  with create_cases [OF assms(1)] insertD obtain r where "creation_key d1 requester k = Some r"
      "replay_or_conflict K d1 r (request_hash (va_repr (cc_validator K)) rid) = Inr outcome"
    by blast
  with replay_later [OF this(2)] show ?thesis
    by (simp add: keeps_creations_def)
next
  case False
  from create_fresh [OF assms(1) False] obtain request cx where fresh: "creation_key (others d) requester k = None"
      "preflight K (cd_tables d) ct request = Inr cx" "outcome = \<lparr>co_result = created_result request cx eid now, co_http_status = 201, co_replayed = False\<rparr>"
      "d1 = created_state K request trace cx (uuid_str requester) (str_strip k) (request_hash (va_repr (cc_validator K)) rid)
           eid sid now (others d)"
    by blast
  then show ?thesis
    using created_found created_replays [OF assms(2) preflight_valid_result [OF fresh(2)]] by simp
qed

lemma valid_key:
  "create_from_agent_request K ct rid requester k trace eid sid now others d = (Inr outcome, d1) \<Longrightarrow>
     str_strip k \<noteq> [] \<and> length (str_strip k) \<le> 128"
  by (auto simp: create_from_agent_request_def Let_def split: if_splits)

lemma stored_key_answers:
  assumes "find (\<lambda>r. rq_id r = rid) (vd_requests (cd_tables d)) = Some request" and "rq_requester_id request = requester"
    and "str_strip k \<noteq> [] \<and> length (str_strip k) \<le> 128" and "creation_key d requester k = Some r"
  shows "create_from_agent_request K ct rid requester k trace eid sid now others d =
    (replay_or_conflict K d r (request_hash (va_repr (cc_validator K)) rid), d)"
  using assms by (simp add: create_from_agent_request_def Let_def)

text \<open>C14: Creation is idempotent, if a response that meets the constraints of its model reads back from its dump.  Once a creation has returned, every later call for the same request, requester and
  stripped key returns the same result and changes nothing, whatever has happened to the plan, the policies and the
  grants since, and whatever the catalogue says; only the flag says that it was replayed.\<close>

theorem creation_idempotent:
  assumes "create_from_agent_request K ct rid requester k trace eid sid now others d = (Inr outcome, d1)"
    and "response_roundtrip K" and "keeps_creations d1 d2" and "str_strip k' = str_strip k"
    and "find (\<lambda>r. rq_id r = rid) (vd_requests (cd_tables d2)) = Some request" and "rq_requester_id request = requester"
  shows "create_from_agent_request K ct' rid requester k' trace' eid' sid' now' others' d2 =
    (Inr \<lparr>co_result = co_result outcome, co_http_status = 201, co_replayed = True\<rparr>, d2)"
proof -
  from answered_key [OF assms(1,2)] obtain r where r: "creation_key d1 requester k = Some r"
      "replay_or_conflict K d1 r (request_hash (va_repr (cc_validator K)) rid) =
         Inr \<lparr>co_result = co_result outcome, co_http_status = 201, co_replayed = True\<rparr>"
    by blast
  have "creation_key d2 requester k' = Some r"
    using r(1) assms(3,4) by (simp add: keeps_creations_def)
  with replay_later [OF r(2) assms(3)] stored_key_answers [OF assms(5,6)] valid_key [OF assms(1)] assms(4) show ?thesis
    by simp
qed

text \<open>C15: Of two creations with one key that both start before either has committed, the one whose insert comes second
  rolls back: it leaves the state the first one wrote, with one execution, and answers with the first one's result.\<close>

theorem concurrent_creations_one_commits:
  assumes "create_from_agent_request K ct rid requester k trace eid sid now others d = (Inr outcome, d1)"
    and "\<not> co_replayed outcome" and "response_roundtrip K"
    and "create_from_agent_request K ct' rid requester k trace' eid' sid' now' (\<lambda>_. d1) d = (Inr outcome', d2)"
  shows "d2 = d1 \<and> outcome' = \<lparr>co_result = co_result outcome, co_http_status = 201, co_replayed = True\<rparr>"
proof -
  from answered_key [OF assms(1,3)] obtain r where r: "creation_key d1 requester k = Some r"
      "replay_or_conflict K d1 r (request_hash (va_repr (cc_validator K)) rid) =
         Inr \<lparr>co_result = co_result outcome, co_http_status = 201, co_replayed = True\<rparr>"
    by blast
  from create_cases [OF assms(1)] replayD assms(2) have "creation_key d requester k = None"
    by blast
  with create_cases [OF assms(4)] r show ?thesis
    by auto
qed

text \<open>The ledger: keys are unique, executions have their own ids, and every record of this operation tells what it created.\<close>

definition record_ok :: "creation_codec \<Rightarrow> creation_db \<Rightarrow> idempotency_record \<Rightarrow> bool" where
  "record_ok K d r \<longleftrightarrow>
     (\<exists>res. ik_status r = ''COMPLETED'' \<and> ik_resource_type r = Some ''EXECUTION'' \<and> ik_resource_id r = Some (cr_id res) \<and>
        ik_response_status r = Some 201 \<and> ik_response_body r = cc_dump_result K res \<and> valid_result res \<and>
        cr_id res \<in> fst ` set (cd_executions d))"

definition ledger_key :: "idempotency_record \<Rightarrow> string \<times> string \<times> string" where
  "ledger_key r = (ik_principal_key r, ik_operation_scope r, ik_key r)"

definition ledger_ok :: "creation_codec \<Rightarrow> creation_db \<Rightarrow> bool" where
  "ledger_ok K d \<longleftrightarrow>
     distinct (map ledger_key (cd_idempotency d)) \<and> distinct (map fst (cd_executions d)) \<and>
     (\<forall>r \<in> set (cd_idempotency d). ik_operation_scope r = OPERATION_SCOPE \<longrightarrow> record_ok K d r)"

lemma no_record_iff:
  "get_idempotency d pk key = None \<longleftrightarrow> (pk, OPERATION_SCOPE, key) \<notin> ledger_key ` set (cd_idempotency d)"
  unfolding get_idempotency_def find_None_iff ledger_key_def image_iff by (simp add: eq_commute) blast

lemma created_ledger:
  assumes "ledger_ok K d" and "get_idempotency d pk key = None" and "eid \<notin> fst ` set (cd_executions d)"
    and "valid_result (created_result request cx eid now)"
  shows "ledger_ok K (created_state K request trace cx pk key h eid sid now d)" (is "ledger_ok K ?d")
proof -
  let ?r = "created_record K request cx pk key h eid now"
  have new: "ledger_key ?r \<notin> ledger_key ` set (cd_idempotency d)"
    using assms(2) unfolding no_record_iff by (simp add: ledger_key_def created_record_def)
  have executions: "cd_executions ?d = cd_executions d @ [(eid, created_rows K request trace cx eid sid now)]"
      "cd_idempotency ?d = cd_idempotency d @ [?r]"
    by (simp_all add: created_state_def)
  have "record_ok K ?d ?r"
    unfolding record_ok_def executions
    by (rule exI [of _ "created_result request cx eid now"])
      (use assms(4) in \<open>simp add: created_record_def, simp add: created_result_def\<close>)
  moreover have "record_ok K ?d r" if "record_ok K d r" for r
    using that unfolding record_ok_def executions by auto
  ultimately show ?thesis
    using assms(1,3) new unfolding ledger_ok_def executions by (auto simp: image_iff)
qed

lemma create_states:
  assumes "create_from_agent_request K ct rid requester k trace eid sid now others d = (res, d1)"
  shows "d1 = d \<or> d1 = others d \<or> (\<exists>request cx h. creation_key (others d) requester k = None \<and>
    valid_result (created_result request cx eid now) \<and>
    d1 = created_state K request trace cx (uuid_str requester) (str_strip k) h eid sid now (others d))"
  using assms unfolding create_from_agent_request_def Let_def
  by (auto simp: preflight_insert dest: preflight_valid_result split: option.splits sum.splits if_splits prod.splits)

lemma stored_record_answers:
  assumes "ledger_ok K d" and "response_roundtrip K" and "creation_key d requester k = Some r"
  shows "replay_or_conflict K d r h =
    (if ik_request_hash r \<noteq> h then Inl (AppError ''IDEMPOTENCY_KEY_REUSED'' 409)
     else Inr \<lparr>co_result = the (cc_validate_result K (ik_response_body r)), co_http_status = 201, co_replayed = True\<rparr>)"
proof -
  have "r \<in> set (cd_idempotency d)" "ik_operation_scope r = OPERATION_SCOPE"
    using assms(3) by (auto simp: get_idempotency_def dest: find_SomeD)
  with assms(1) have "record_ok K d r"
    by (simp add: ledger_ok_def)
  then obtain res where "ik_status r = ''COMPLETED''" "ik_resource_type r = Some ''EXECUTION''"
      "ik_resource_id r = Some (cr_id res)" "ik_response_status r = Some 201"
      "ik_response_body r = cc_dump_result K res" "valid_result res" "map_of (cd_executions d) (cr_id res) \<noteq> None"
    unfolding record_ok_def execution_stored by blast
  with assms(2) show ?thesis
    by (simp add: replay_or_conflict_def response_roundtrip_def raise_if_def)
qed

text \<open>C21: The ledger of idempotency stays sound: whatever a creation returns or raises, no key has two records, no id two
  executions, and every record of the operation is completed and names an execution that exists.  So a stored key is
  answered with the recorded result, or refused as reused for another request, and never as a damaged record.\<close>

theorem creation_ledger_sound:
  assumes "create_from_agent_request K ct rid requester k trace eid sid now others d = (res, d1)"
    and "ledger_ok K d" and "ledger_ok K (others d)" and "eid \<notin> fst ` set (cd_executions (others d))"
    and "response_roundtrip K"
  shows "ledger_ok K d1 \<and> (\<forall>r. creation_key d1 requester k = Some r \<longrightarrow>
    (\<forall>h. replay_or_conflict K d1 r h =
      (if ik_request_hash r \<noteq> h then Inl (AppError ''IDEMPOTENCY_KEY_REUSED'' 409)
       else Inr \<lparr>co_result = the (cc_validate_result K (ik_response_body r)), co_http_status = 201, co_replayed = True\<rparr>)))"
proof -
  have "ledger_ok K d1"
    using create_states [OF assms(1)] assms(2-4) created_ledger by blast
  with stored_record_answers [OF this assms(5)] show ?thesis
    by blast
qed

subsection \<open>A pair whose tool asks for a confirmation\<close>

lemma pair_never_confirmed:
  assumes "preflight_sequential_pair K d ct request validation run plan = Inr cx" and "versions_by_id ct"
    and "va_tool (cc_validator K) (ps_config (plan_steps plan ! 0)) = Some cfg1"
    and "va_complex (cc_validator K) (ps_config (plan_steps plan ! 1)) = Some cfg2"
  shows "\<not> needs_confirmation ct request (ts_tool_version_id cfg1) \<and>
    \<not> needs_confirmation ct request (tc_tool_version_id cfg2)"
proof -
  from pair_facts [OF assms(1)] assms(3,4) obtain tv1 tv2 tool_steps where
    tv: "ct_tool_version ct (ts_tool_version_id cfg1) = Some tv1" "ct_tool_version ct (tc_tool_version_id cfg2) = Some tv2"
    and entries: "check_pair_entry ct request tool_steps (plan_steps plan ! 0, tv1) = Inr ()"
      "check_pair_entry ct request tool_steps (plan_steps plan ! 1, tv2) = Inr ()"
    by auto
  from tv assms(2) have "tv_id tv1 = ts_tool_version_id cfg1" "tv_id tv2 = tc_tool_version_id cfg2"
    unfolding versions_by_id_def by blast+
  with pair_entry_gate [OF entries(1)] pair_entry_gate [OF entries(2)] show ?thesis
    by auto
qed

text \<open>Which tools ask for a confirmation depends on the request only through its agent version.\<close>

lemma needs_confirmation_same_agent:
  "rq_agent_version_id request' = rq_agent_version_id request \<Longrightarrow>
     needs_confirmation ct request' v = needs_confirmation ct request v"
  by (simp add: needs_confirmation_def find_grant_def)

text \<open>The plan a preflight of the request accepts is the one of its latest plan run.\<close>

lemma preflight_latest_run:
  assumes "preflight K d ct request = Inr cx"
    and "find (\<lambda>r. pr_agent_request_id r = rq_id request) (vd_plan_runs d) = Some run" and "distinct (map pr_id (vd_plan_runs d))"
  shows "cx_plan_run cx = run \<and> va_plan (cc_validator K) (pr_plan_snapshot run) = Some (cx_plan cx)"
proof -
  have lineage: "lineage_ok K d request cx"
    using preflight_cases [OF assms(1)] by blast
  then have "pr_id (cx_plan_run cx) = pr_id run" "cx_plan_run cx \<in> set (vd_plan_runs d)"
    using assms(2) by (auto simp: lineage_ok_def dest: find_SomeD)
  with assms(3) find_SomeD [OF assms(2)] have "cx_plan_run cx = run"
    by (auto simp: distinct_map dest: inj_onD)
  with lineage show ?thesis
    by (auto simp: lineage_ok_def)
qed

lemma asking_pair_refused:
  assumes "preflight K d ct request = Inr cx" and "versions_by_id ct"
    and "find (\<lambda>r. pr_agent_request_id r = rq_id request) (vd_plan_runs d) = Some run" and "distinct (map pr_id (vd_plan_runs d))"
    and "va_plan (cc_validator K) (pr_plan_snapshot run) = Some plan" and "plan_steps plan = [s, t]"
    and "va_tool (cc_validator K) (ps_config s) = Some cfg1" and "va_complex (cc_validator K) (ps_config t) = Some cfg2"
  shows "\<not> needs_confirmation ct request (ts_tool_version_id cfg1) \<and>
    \<not> needs_confirmation ct request (tc_tool_version_id cfg2)"
proof -
  have "cx_plan_run cx = run" "cx_plan cx = plan"
    using preflight_latest_run [OF assms(1,3,4)] assms(5) by simp_all
  with preflight_cases [OF assms(1)] assms(6)
  have "preflight_sequential_pair K d ct request (cx_validation cx) run plan = Inr cx"
    by auto
  from pair_never_confirmed [OF this assms(2)] assms(6-8) show ?thesis
    by simp
qed

lemma preflight_fails_nothing:
  assumes "find (\<lambda>r. rq_id r = rid) (vd_requests (cd_tables d)) = Some request" and "preflight K (cd_tables d) ct request = Inl e"
    and "create_from_agent_request K ct rid requester k trace eid sid now others d = (res, d1)"
  shows "d1 = d \<and> (if creation_key d requester k = None then \<exists>e. res = Inl e
    else \<forall>outcome. res = Inr outcome \<longrightarrow> co_replayed outcome)"
  using assms unfolding create_from_agent_request_def Let_def
  by (auto dest: replayD split: option.splits if_splits)

lemma ready_pair_confirmed:
  assumes "run_checks V d ct request run = Inr acc" and "decision acc = V_READY"
    and "va_plan V (pr_plan_snapshot run) = Some plan" and "plan_steps plan = [s, t]"
    and "va_tool V (ps_config s) = Some cfg1" and "va_complex V (ps_config t) = Some cfg2"
    and "needs_confirmation ct request (ts_tool_version_id cfg1) \<or> needs_confirmation ct request (tc_tool_version_id cfg2)"
  shows "has_satisfied_plan_confirmation d request run (va_policy_snapshot acc)"
proof -
  have ok: "ok acc" "\<not> va_confirmation_required acc"
    using decision_ok [of acc] assms(2) by simp_all
  from run_checks_facts [OF assms(1) ok(1)] assms(3,4) obtain b params refs a4 where
    accepted: "plan_accepted V d request run plan b params refs"
    and tools: "validate_sequential_pair_tools V d ct request plan run b params refs a4 = Inr acc"
    by (auto simp: plan_accepted_def)
  from plan_accepted_shape [OF accepted] assms(4)
  have ids: "ps_id s = DETERMINISTIC_TOOL_STEP_ID" "ps_id t = DETERMINISTIC_TOOL_STEP_ID_2"
    by auto
  from ok_pair_path [OF assms(4) ids tools ok(1)] assms(5-7) ok(2) show ?thesis
    by auto
qed

text \<open>C24: A pair of tools of which one asks for a confirmation can be confirmed and validated, and still never be executed.
  Where the plan validator finds the latest plan of a request READY, it has seen the requester's recorded yes to this
  plan; but under the same catalogue no creation for the request ever succeeds, whatever the records of its validation
  say: the state stays as it is and, unless the key already has a record to replay, the call raises.\<close>

theorem confirmed_pair_never_created:
  assumes "run_checks (cc_validator K) dv ct request run = Inr acc" and "decision acc = V_READY"
    and "va_plan (cc_validator K) (pr_plan_snapshot run) = Some plan" and "plan_steps plan = [s, t]"
    and "va_tool (cc_validator K) (ps_config s) = Some cfg1" and "va_complex (cc_validator K) (ps_config t) = Some cfg2"
    and "needs_confirmation ct request (ts_tool_version_id cfg1) \<or> needs_confirmation ct request (tc_tool_version_id cfg2)"
    and "versions_by_id ct" and "find (\<lambda>r. rq_id r = rid) (vd_requests (cd_tables d)) = Some request'"
    and "rq_agent_version_id request' = rq_agent_version_id request"
    and "find (\<lambda>r. pr_agent_request_id r = rid) (vd_plan_runs (cd_tables d)) = Some run"
    and "distinct (map pr_id (vd_plan_runs (cd_tables d)))"
    and "create_from_agent_request K ct rid requester k trace eid sid now others d = (res, d1)"
  shows "has_satisfied_plan_confirmation dv request run (va_policy_snapshot acc) \<and> d1 = d \<and>
    (if creation_key d requester k = None then \<exists>e. res = Inl e
     else \<forall>outcome. res = Inr outcome \<longrightarrow> co_replayed outcome)"
proof -
  have "rq_id request' = rid"
    using find_SomeD [OF assms(9)] by simp
  then have "preflight K (cd_tables d) ct request' \<noteq> Inr cx" for cx
    using asking_pair_refused [of K "cd_tables d" ct request' cx run plan s t cfg1 cfg2] assms(3-8,11,12)
      needs_confirmation_same_agent [OF assms(10)] by auto
  then obtain e where "preflight K (cd_tables d) ct request' = Inl e"
    by (cases "preflight K (cd_tables d) ct request'") auto
  from preflight_fails_nothing [OF assms(9) this assms(13)] ready_pair_confirmed [OF assms(1-7)] show ?thesis
    by blast
qed

definition confirmed_snapshot :: json where
  "confirmed_snapshot = build_agent_request_sequential_policy_snapshot 9
     [(DETERMINISTIC_TOOL_STEP_ID, JObj [(''tool_version_id'', JStr (uuid_str 5)),
        (''policy'', build_safe_tool_policy_snapshot (pair_policy 6) None)]),
      (DETERMINISTIC_TOOL_STEP_ID_2, JObj [(''tool_version_id'', JStr (uuid_str 15)),
        (''policy'', build_safe_tool_policy_snapshot (pair_policy 16) None)])]"

text \<open>The state after the requester has said yes to the pair.\<close>

definition confirmed_vdb :: vdb where
  "confirmed_vdb = pair_vdb
     \<lparr>vd_validations := [\<lparr>vr_id = 40, vr_agent_request_id = 1, vr_plan_generation_run_id = 2,
        vr_plan_hash = pr_plan_hash pair_run, vr_decision = V_WAITING_CONFIRMATION, vr_errors = [], vr_checks = [],
        vr_policy_snapshot = confirmed_snapshot, vr_confirmation_required = True, vr_clarification_request_id = Some 41\<rparr>],
      vd_clarifications := [\<lparr>cl_id = 41, cl_agent_request_id = 1, cl_request_type = ''PLAN_CONFIRMATION'',
        cl_status = ''ANSWERED'', cl_response_payload = JObj [(''confirmed'', JBool True)], cl_answered_by = Some 4\<rparr>]\<rparr>"

lemma confirmed_snapshot_refl: "py_eq confirmed_snapshot confirmed_snapshot"
  by (rule py_eq_refl)
    (simp_all add: confirmed_snapshot_def build_agent_request_sequential_policy_snapshot_def build_safe_tool_policy_snapshot_def
       pair_policy_def opt_json_def DETERMINISTIC_TOOL_STEP_ID_def DETERMINISTIC_TOOL_STEP_ID_2_def)

lemma confirmed_satisfied: "has_satisfied_plan_confirmation confirmed_vdb pair_request pair_run confirmed_snapshot"
  using confirmed_snapshot_refl
  by (simp add: has_satisfied_plan_confirmation_def confirmed_vdb_def pair_request_def) (simp add: pair_run_def)

lemma confirmed_access:
  "decision (validate_pair_access confirmed_vdb (pair_catalog True) pair_request pair_plan pair_run
     (pair_version 5 6 ''q'') (pair_version 15 16 ''id'') empty_validation) = V_READY"
proof -
  have ids: "rq_agent_version_id pair_request = 9" "DETERMINISTIC_TOOL_STEP_ID \<noteq> DETERMINISTIC_TOOL_STEP_ID_2"
    by (simp_all add: pair_request_def DETERMINISTIC_TOOL_STEP_ID_def DETERMINISTIC_TOOL_STEP_ID_2_def)
  show ?thesis
    using confirmed_satisfied ids unfolding validate_pair_access_def
    by (simp add: pair_step_sample dict_set_def require_confirmation_def confirmed_snapshot_def [symmetric] Let_def
        has_blocking_errors_def) (simp add: decision_def note_check_def empty_validation_def has_blocking_errors_def)
qed

lemma pair_catalog_by_id: "versions_by_id (pair_catalog b)"
  by (simp add: versions_by_id_def pair_catalog_def pair_version_def)

lemma pair_asks: "needs_confirmation (pair_catalog True) pair_request 5"
  unfolding needs_confirmation_def
  by (rule exI [of _ "pair_version 5 6 ''q''"], rule exI [of _ "pair_tool 6 5"], rule exI [of _ "pair_grant True 6"],
      rule exI [of _ "pair_policy 6"])
    (simp add: pair_catalog_def pair_version_def pair_tool_def pair_grant_def find_grant_def)

subsection \<open>A creation\<close>

text \<open>A READY request with a plan of one tool, and an executable instance of the codecs.\<close>

definition ready_step :: plan_step where
  "ready_step = (sample_step DETERMINISTIC_TOOL_STEP_ID TOOL [])\<lparr>ps_config := JObj []\<rparr>"

definition ready_plan :: execution_plan where
  "ready_plan = (sample_plan [ready_step])\<lparr>response_step_ids := [DETERMINISTIC_TOOL_STEP_ID]\<rparr>"

definition dump_created :: "create_result \<Rightarrow> json" where
  "dump_created r = JList [JInt (uint (cr_id r)), JStr (cr_status r), JStr (cr_source_type r), JStr (cr_trigger_type r),
     JInt (uint (cr_agent_request_id r)), JInt (uint (cr_agent_version_id r)), JStr (cr_plan_hash r), JInt (cr_requested_at r),
     JInt (int (cr_step_count r))]"

definition validate_created :: "json \<Rightarrow> create_result option" where
  "validate_created j =
     (case j of
        JList [JInt i, JStr st, JStr src, JStr trig, JInt rid, JInt vid, JStr h, JInt t, JInt n] \<Rightarrow>
          if length h \<noteq> 64 \<or> n < 1 then None
          else Some \<lparr>cr_id = word_of_int i, cr_status = st, cr_source_type = src, cr_trigger_type = trig,
            cr_agent_request_id = word_of_int rid, cr_agent_version_id = word_of_int vid, cr_plan_hash = h,
            cr_requested_at = t, cr_step_count = nat n\<rparr>
      | _ \<Rightarrow> None)"

definition ready_codec :: creation_codec where
  "ready_codec =
     \<lparr>cc_validator = pair_codec\<lparr>va_plan := \<lambda>_. Some ready_plan,
        va_tool := \<lambda>_. Some \<lparr>ts_tool_version_id = 5, ts_bindings = pair_params\<rparr>\<rparr>,
      cc_codec = (table_codec [ready_step] [] [] [] [])
        \<lparr>validate_tool_config := (\<lambda>j. Some \<lparr>tc_tool_version_id = 5, tc_bindings = []\<rparr>)\<rparr>,
      cc_dump_plan = (\<lambda>_. JObj []), cc_dump_result = dump_created, cc_validate_result = validate_created,
      cc_mentions = (\<lambda>_. False)\<rparr>"

definition ready_request :: agent_request where
  "ready_request = pair_request\<lparr>rq_status := RQ_READY\<rparr>"

definition ready_validation :: validation_run where
  "ready_validation = \<lparr>vr_id = 40, vr_agent_request_id = 1, vr_plan_generation_run_id = 2,
     vr_plan_hash = pr_plan_hash pair_run, vr_decision = V_READY, vr_errors = [], vr_checks = [],
     vr_policy_snapshot = current_snapshot (pair_catalog False) (pair_policy 6), vr_confirmation_required = False,
     vr_clarification_request_id = None\<rparr>"

definition ready_db :: creation_db where
  "ready_db =
     \<lparr>cd_tables = pair_vdb\<lparr>vd_requests := [ready_request], vd_tool_refs := [hd (vd_tool_refs pair_vdb)],
        vd_validations := [ready_validation]\<rparr>,
      cd_executions = [], cd_idempotency = [], cd_audit = []\<rparr>"

lemma ready_roundtrip: "response_roundtrip ready_codec"
  by (simp add: response_roundtrip_def valid_result_def ready_codec_def dump_created_def validate_created_def)

lemma ready_ledger: "ledger_ok ready_codec ready_db"
  by (simp add: ledger_ok_def ready_db_def)

lemma current_pair_snapshot: "current_snapshot (pair_catalog b) (pair_policy 6) = build_safe_tool_policy_snapshot (pair_policy 6) None"
  by (simp add: current_snapshot_def approval_in_force_def pair_policy_def)

lemma ready_gate:
  "\<exists>a. agent_gate (pair_catalog False) ready_request ready_step 5 (vr_policy_snapshot ready_validation) = Inr a \<and>
     \<not> ta_confirmation_required a"
proof -
  have gate: "tool_gate (pair_catalog False) ready_request ready_step 5 (pair_policy 6)"
    unfolding tool_gate_def
    by (rule exI [of _ "pair_version 5 6 ''q''"], rule exI [of _ "pair_tool 6 5"])
      (simp add: pair_sample_simps tool_available_def access_granted_def find_grant_def policy_valid_def approval_valid_def
        risk_class_known_def expected_timeout_def ready_step_def ready_request_def)
  have "py_eq (current_snapshot (pair_catalog False) (pair_policy 6)) (vr_policy_snapshot ready_validation)"
    unfolding current_pair_snapshot
    by (simp add: ready_validation_def current_pair_snapshot)
      (rule py_eq_refl; simp add: build_safe_tool_policy_snapshot_def pair_policy_def opt_json_def)
  from agent_gate_complete [OF _ gate this] obtain a
    where a: "agent_gate (pair_catalog False) ready_request ready_step 5 (vr_policy_snapshot ready_validation) = Inr a"
    by (auto simp: pair_catalog_def)
  moreover have "\<not> needs_confirmation (pair_catalog False) ready_request 5"
    by (auto simp: needs_confirmation_def find_grant_def pair_catalog_def pair_version_def pair_grant_def pair_policy_def
        pair_tool_def split: if_splits)
  ultimately show ?thesis
    using agent_gate_sound [OF a] by blast
qed

lemma ready_valid: "static_plan_valid (cc_codec ready_codec) ready_plan"
proof -
  have steps: "plan_steps ready_plan = [ready_step]" "response_step_ids ready_plan = [DETERMINISTIC_TOOL_STEP_ID]"
      "plan_limits ready_plan = default_plan_limits"
    by (simp_all add: ready_plan_def sample_plan_def)
  have step: "ps_id ready_step = DETERMINISTIC_TOOL_STEP_ID" "ps_type ready_step = TOOL" "ps_depends_on ready_step = []"
      "ps_when ready_step = None" "ps_config ready_step = JObj []"
    by (simp_all add: ready_step_def sample_step_def)
  have "body_pairs C [ready_step] = []" "loop_configs C [ready_step] = []" for C
    by (simp_all add: tools_own_nothing step loop_configs_def)
  moreover have "non_blank DETERMINISTIC_TOOL_STEP_ID"
    unfolding DETERMINISTIC_TOOL_STEP_ID_def by code_simp
  moreover have "acyclic (dependency_edges [ready_step])"
    by (simp add: dependency_edges_def step acyclic_def)
  ultimately show ?thesis
    by (simp add: static_plan_valid_def graph_valid_def limits_valid_def scopes_valid_def Let_def steps step when_valid_def
        bodies_owned_def default_plan_limits_def SYSTEM_HARD_MAX_STEPS_def SYSTEM_HARD_MAX_DURATION_SECONDS_def
        SYSTEM_HARD_MAX_PARALLELISM_def SYSTEM_HARD_MAX_LOOP_ITERATIONS_def) (simp add: ready_codec_def)
qed

lemma ready_build:
  "load_build (cc_validator ready_codec) (cd_tables ready_db) ready_request pair_run =
     Inr (hd (vd_build_runs pair_vdb), pair_params)"
  by (simp add: load_build_def ready_db_def ready_codec_def ready_request_def pair_sample_simps)

lemma ready_bindings: "create_validate_bindings (pair_schema ''q'') pair_params = Inr ()"
proof -
  have "schema_names (pair_schema ''q'') (dict_keys pair_params) [(''q'', JObj [(''type'', JStr ''string'')])]"
    by (simp add: schema_names_def pair_schema_def pair_params_def get_or_none_def required_names_def)
  moreover have "literals_typed [(''q'', JObj [(''type'', JStr ''string'')])] pair_params"
    by (auto simp: literals_typed_def pair_params_def get_or_none_def literal_matches_type_def)
  ultimately show ?thesis
    unfolding create_bindings_iff by blast
qed

lemma ready_single:
  "\<exists>cx. preflight_single ready_codec (cd_tables ready_db) (pair_catalog False) ready_request ready_validation pair_run ready_plan =
     Inr cx \<and> cx_plan cx = ready_plan \<and> cx_plan_run cx = pair_run"
proof -
  obtain a where gate: "agent_gate (pair_catalog False) ready_request ready_step 5 (vr_policy_snapshot ready_validation) = Inr a"
      "\<not> ta_confirmation_required a"
    using ready_gate by blast
  have steps: "plan_steps ready_plan = [ready_step]"
    by (simp add: ready_plan_def sample_plan_def)
  have cfg: "va_tool (cc_validator ready_codec) j = Some \<lparr>ts_tool_version_id = 5, ts_bindings = pair_params\<rparr>" for j
    by (simp add: ready_codec_def)
  have refs: "filter (\<lambda>r. rf_run_id r = pr_id pair_run) (vd_tool_refs (cd_tables ready_db)) =
      [\<lparr>rf_run_id = 2, rf_step_key = DETERMINISTIC_TOOL_STEP_ID, rf_tool_version_id = 5\<rparr>]"
    by (simp add: ready_db_def pair_vdb_def pair_run_def)
  have tv: "ct_tool_version (pair_catalog False) 5 = Some (pair_version 5 6 ''q'')" "tv_id (pair_version 5 6 ''q'') = 5"
      "tv_input_schema (pair_version 5 6 ''q'') = pair_schema ''q''"
    by (simp_all add: pair_catalog_def pair_version_def)
  have build: "bd_tool_version_id (hd (vd_build_runs pair_vdb)) = 5"
      "bd_input_schema_snapshot (hd (vd_build_runs pair_vdb)) = pair_schema ''q''"
    by (simp_all add: pair_vdb_def)
  have same: "py_eq (pair_schema ''q'') (pair_schema ''q'')" "same_projection (cc_validator ready_codec) pair_params pair_params"
    by (simp_all add: py_eq_refl pair_schema_def same_projection_def pair_params_def ready_codec_def pair_codec_def)
  show ?thesis
    unfolding preflight_single_def Let_def steps list.sel ready_build and_then.simps case_prod_conv cfg opt_or.simps refs
    by (simp add: tv build same ready_bindings gate)
qed

lemma ready_preflight:
  "\<exists>cx. preflight ready_codec (cd_tables ready_db) (pair_catalog False) ready_request = Inr cx \<and> cx_plan cx = ready_plan \<and>
     cx_plan_run cx = pair_run"
proof -
  have tables: "find (\<lambda>v. vr_agent_request_id v = rq_id ready_request) (vd_validations (cd_tables ready_db)) = Some ready_validation"
      "find (\<lambda>r. pr_id r = vr_plan_generation_run_id ready_validation) (vd_plan_runs (cd_tables ready_db)) = Some pair_run"
      "find (\<lambda>r. pr_agent_request_id r = rq_id ready_request) (vd_plan_runs (cd_tables ready_db)) = Some pair_run"
    by (simp_all add: ready_db_def ready_request_def ready_validation_def pair_vdb_def pair_request_def pair_run_def)
  have rows: "vr_decision ready_validation = V_READY" "\<not> vr_confirmation_required ready_validation"
      "vr_clarification_request_id ready_validation = None" "vr_plan_hash ready_validation = pr_plan_hash pair_run"
    by (simp_all add: ready_validation_def)
  have run: "pr_plan_hash pair_run = compute_plan_hash (va_repr (cc_validator ready_codec)) (pr_plan_snapshot pair_run)"
      "va_plan (cc_validator ready_codec) (pr_plan_snapshot pair_run) = Some ready_plan"
      "semantic_equal (cc_dump_plan ready_codec ready_plan) (pr_plan_snapshot pair_run)"
      "pr_plan_schema_version pair_run = ''1.0''" "pr_agent_version_id pair_run = rq_agent_version_id ready_request"
    by (simp_all add: pair_run_def ready_codec_def compute_plan_hash_def semantic_equal_def py_eq_refl ready_request_def
        pair_request_def)
  have plan: "plan_steps ready_plan = [ready_step]" "ps_id ready_step = DETERMINISTIC_TOOL_STEP_ID" "ps_type ready_step = TOOL"
      "plan_inputs ready_plan = []" "source_is_agent ready_plan (rq_agent_version_id ready_request)"
    by (simp_all add: ready_plan_def sample_plan_def ready_step_def sample_step_def source_is_agent_def ready_request_def
        pair_request_def)
  have version: "ct_agent_version (pair_catalog False) v = Some ''1.0''" for v
    by (simp add: pair_catalog_def)
  show ?thesis
    using ready_single unfolding preflight_def Let_def
    by (simp add: tables rows run plan version del: insert_iff) (simp add: run(1) [symmetric])
qed

lemma ready_creates:
  "\<exists>outcome d1. create_from_agent_request ready_codec (pair_catalog False) 1 4 ''k'' None 70 of_nat 99 id ready_db =
     (Inr outcome, d1) \<and> \<not> co_replayed outcome \<and> cr_id (co_result outcome) = 70 \<and> cr_step_count (co_result outcome) = 1 \<and>
     cd_tables d1 = cd_tables ready_db"
proof -
  obtain cx where cx: "preflight ready_codec (cd_tables ready_db) (pair_catalog False) ready_request = Inr cx"
      "cx_plan cx = ready_plan" "cx_plan_run cx = pair_run"
    using ready_preflight by blast
  have "creatable ready_codec cx"
    using ready_valid by (simp add: creatable_def cx(2,3) pair_run_def)
  moreover have "str_strip ''k'' = ''k''"
    by code_simp
  moreover have "find (\<lambda>r. rq_id r = 1) (vd_requests (cd_tables ready_db)) = Some ready_request"
      "rq_requester_id ready_request = 4" "rq_status ready_request = RQ_READY"
    by (simp_all add: ready_db_def ready_request_def pair_request_def)
  moreover have "get_idempotency ready_db pk key = None" for pk key
    by (simp add: get_idempotency_def ready_db_def)
  moreover have "length (plan_steps (cx_plan cx)) = 1"
    by (simp add: cx(2) ready_plan_def sample_plan_def)
  ultimately show ?thesis
    by (simp add: create_from_agent_request_def Let_def cx(1) preflight_insert [OF cx(1)])
      (simp add: created_result_def created_state_def)
qed

theorem created_execution_cleared_witness:
  "\<exists>outcome d1 request cx. create_from_agent_request ready_codec (pair_catalog False) 1 4 ''k'' None 70 of_nat 99 id ready_db =
     (Inr outcome, d1) \<and> rq_requester_id request = 4 \<and> lineage_ok ready_codec (cd_tables ready_db) request cx \<and>
     map fst (cd_executions d1) = [70]"
proof -
  obtain outcome d1 where run: "create_from_agent_request ready_codec (pair_catalog False) 1 4 ''k'' None 70 of_nat 99 id ready_db =
     (Inr outcome, d1)" "\<not> co_replayed outcome"
    using ready_creates by blast
  moreover have "cd_executions ready_db = []"
    by (simp add: ready_db_def)
  ultimately show ?thesis
    using created_execution_cleared [OF run pair_catalog_by_id] by fastforce
qed

theorem created_execution_runnable_witness:
  "\<exists>outcome d1 rows plan dag. create_from_agent_request ready_codec (pair_catalog False) 1 4 ''k'' None 70 of_nat 99 id ready_db =
     (Inr outcome, d1) \<and> (70, rows) \<in> set (cd_executions d1) \<and>
     validate_tool_join_dag (cc_codec ready_codec) plan (db_steps rows) = Inr dag"
proof -
  obtain outcome d1 where run: "create_from_agent_request ready_codec (pair_catalog False) 1 4 ''k'' None 70 of_nat 99 id ready_db =
     (Inr outcome, d1)" "\<not> co_replayed outcome"
    using ready_creates by blast
  have step: "ps_id ready_step = DETERMINISTIC_TOOL_STEP_ID" "plan_steps ready_plan = [ready_step]"
      "1 \<le> max_parallelism (plan_limits ready_plan)"
    by (simp_all add: ready_step_def sample_step_def ready_plan_def sample_plan_def default_plan_limits_def)
  have "plan_step_valid ready_step"
    by (simp add: plan_step_valid_def ready_step_def sample_step_def DETERMINISTIC_TOOL_STEP_ID_def non_blank_def
        str_strip_def py_space_def)
  then have "codec_enforces (cc_codec ready_codec)"
    by (auto simp: codec_enforces_def ready_codec_def table_codec_def by_name_def split: json.splits if_splits)
  moreover have "dumps_back (cc_codec ready_codec) plan \<and> 1 \<le> max_parallelism (plan_limits plan)"
    if "va_plan (cc_validator ready_codec) j = Some plan" for j plan
    using that step by (auto simp: ready_codec_def dumps_back_def table_codec_def by_name_def)
  ultimately show ?thesis
    using created_execution_runnable [OF run] run by blast
qed

theorem creation_idempotent_witness:
  "\<exists>outcome d1. create_from_agent_request ready_codec (pair_catalog False) 1 4 ''k'' None 70 of_nat 99 id ready_db =
     (Inr outcome, d1) \<and>
     create_from_agent_request ready_codec (pair_catalog True) 1 4 '' k '' None 71 of_nat 100 id d1 =
       (Inr \<lparr>co_result = co_result outcome, co_http_status = 201, co_replayed = True\<rparr>, d1)"
proof -
  obtain outcome d1 where run: "create_from_agent_request ready_codec (pair_catalog False) 1 4 ''k'' None 70 of_nat 99 id ready_db =
     (Inr outcome, d1)" "cd_tables d1 = cd_tables ready_db"
    using ready_creates by blast
  have "find (\<lambda>r. rq_id r = 1) (vd_requests (cd_tables d1)) = Some ready_request" "rq_requester_id ready_request = 4"
    by (simp_all add: run(2) ready_db_def ready_request_def pair_request_def)
  moreover have "str_strip '' k '' = str_strip ''k''"
    by code_simp
  moreover have "keeps_creations d1 d1"
    by (simp add: keeps_creations_def)
  ultimately show ?thesis
    using creation_idempotent [OF run(1) ready_roundtrip] run(1) by blast
qed

theorem concurrent_creations_one_commits_witness:
  "\<exists>outcome outcome' d1. create_from_agent_request ready_codec (pair_catalog False) 1 4 ''k'' None 70 of_nat 99 id ready_db =
     (Inr outcome, d1) \<and> cr_id (co_result outcome') = 70 \<and>
     create_from_agent_request ready_codec (pair_catalog False) 1 4 ''k'' None 71 of_nat 99 (\<lambda>_. d1) ready_db = (Inr outcome', d1)"
proof -
  obtain outcome d1 where run: "create_from_agent_request ready_codec (pair_catalog False) 1 4 ''k'' None 70 of_nat 99 id ready_db =
     (Inr outcome, d1)" "\<not> co_replayed outcome" "cr_id (co_result outcome) = 70"
    using ready_creates by blast
  from create_fresh [OF run(1,2)] obtain request cx where fresh:
      "find (\<lambda>r. rq_id r = 1) (vd_requests (cd_tables ready_db)) = Some request" "rq_requester_id request = 4"
      "rq_status request = RQ_READY" "preflight ready_codec (cd_tables ready_db) (pair_catalog False) request = Inr cx"
      "creation_key ready_db 4 ''k'' = None" "creatable ready_codec cx"
    by auto
  from answered_key [OF run(1) ready_roundtrip] obtain r where r: "creation_key d1 4 ''k'' = Some r"
      "replay_or_conflict ready_codec d1 r (request_hash (va_repr (cc_validator ready_codec)) 1) =
         Inr \<lparr>co_result = co_result outcome, co_http_status = 201, co_replayed = True\<rparr>"
    by blast
  have "\<exists>outcome'. create_from_agent_request ready_codec (pair_catalog False) 1 4 ''k'' None 71 of_nat 99 (\<lambda>_. d1) ready_db =
      (Inr outcome', d1)"
    using valid_key [OF run(1)] fresh r by (simp add: create_from_agent_request_def Let_def preflight_insert [OF fresh(4)])
  with concurrent_creations_one_commits [OF run(1,2) ready_roundtrip] run(1,3) show ?thesis
    by fastforce
qed

theorem creation_ledger_sound_witness:
  "\<exists>res d1. create_from_agent_request ready_codec (pair_catalog False) 1 4 ''k'' None 70 of_nat 99 id ready_db = (res, d1) \<and>
     ledger_ok ready_codec d1 \<and> creation_key d1 4 ''k'' \<noteq> None"
proof -
  obtain outcome d1 where run: "create_from_agent_request ready_codec (pair_catalog False) 1 4 ''k'' None 70 of_nat 99 id ready_db =
     (Inr outcome, d1)"
    using ready_creates by blast
  have "70 \<notin> fst ` set (cd_executions (id ready_db))"
    by (simp add: ready_db_def)
  with creation_ledger_sound [OF run] ready_ledger ready_roundtrip answered_key [OF run ready_roundtrip] run show ?thesis
    by fastforce
qed

text \<open>The confirmed pair after its second validation, which was READY.\<close>

definition confirmed_codec :: creation_codec where
  "confirmed_codec = ready_codec\<lparr>cc_validator := pair_codec\<rparr>"

definition confirmed_db :: creation_db where
  "confirmed_db = ready_db\<lparr>cd_tables := confirmed_vdb\<lparr>vd_requests := [ready_request],
     vd_validations := \<lparr>vr_id = 42, vr_agent_request_id = 1, vr_plan_generation_run_id = 2,
        vr_plan_hash = pr_plan_hash pair_run, vr_decision = V_READY, vr_errors = [], vr_checks = [],
        vr_policy_snapshot = confirmed_snapshot, vr_confirmation_required = False, vr_clarification_request_id = None\<rparr>
        # vd_validations confirmed_vdb\<rparr>\<rparr>"

theorem confirmed_pair_never_created_witness:
  "\<exists>e. create_from_agent_request confirmed_codec (pair_catalog True) 1 4 ''k'' None 70 of_nat 99 id confirmed_db =
     (Inl e, confirmed_db)"
proof -
  let ?s = "sample_step DETERMINISTIC_TOOL_STEP_ID TOOL []"
  let ?t = "sample_step DETERMINISTIC_TOOL_STEP_ID_2 TOOL [DETERMINISTIC_TOOL_STEP_ID]"
  let ?cfg2 = "\<lparr>tc_tool_version_id = 15, tc_bindings = [(''id'', PlanStepOutputBinding DETERMINISTIC_TOOL_STEP_ID ''/0/id'')]\<rparr>"
  have codec: "cc_validator confirmed_codec = pair_codec"
    by (simp add: confirmed_codec_def)
  have tables: "vd_tool_refs confirmed_vdb = vd_tool_refs pair_vdb" "vd_build_runs confirmed_vdb = vd_build_runs pair_vdb"
    by (simp_all add: confirmed_vdb_def)
  obtain acc where acc: "run_checks (cc_validator confirmed_codec) confirmed_vdb (pair_catalog True) pair_request pair_run =
      Inr acc" "decision acc = V_READY"
    unfolding codec pair_run_checks_at [OF tables] using confirmed_access by blast
  have plan: "va_plan (cc_validator confirmed_codec) (pr_plan_snapshot pair_run) = Some pair_plan" "plan_steps pair_plan = [?s, ?t]"
      "va_tool (cc_validator confirmed_codec) (ps_config ?s) = Some \<lparr>ts_tool_version_id = 5, ts_bindings = pair_params\<rparr>"
      "va_complex (cc_validator confirmed_codec) (ps_config ?t) = Some ?cfg2"
    unfolding codec by (simp_all add: pair_codec_def pair_plan_def sample_plan_def sample_step_def by_name_def)
  have rows: "find (\<lambda>r. rq_id r = 1) (vd_requests (cd_tables confirmed_db)) = Some ready_request"
      "rq_agent_version_id ready_request = rq_agent_version_id pair_request"
      "find (\<lambda>r. pr_agent_request_id r = 1) (vd_plan_runs (cd_tables confirmed_db)) = Some pair_run"
      "distinct (map pr_id (vd_plan_runs (cd_tables confirmed_db)))" "creation_key confirmed_db 4 ''k'' = None"
    by (simp_all add: confirmed_db_def ready_request_def pair_request_def confirmed_vdb_def pair_vdb_def pair_run_def
        get_idempotency_def ready_db_def)
  obtain res d1 where run: "create_from_agent_request confirmed_codec (pair_catalog True) 1 4 ''k'' None 70 of_nat 99 id
      confirmed_db = (res, d1)"
    by (rule prod.exhaust)
  from confirmed_pair_never_created [OF acc plan _ pair_catalog_by_id rows(1-4) run] pair_asks rows(5) run show ?thesis
    by auto
qed

end
