(* ===== verification/Spec2Isabelle.thy ===== *)
theory Spec2Isabelle
  imports CancelRecovery PredicateEvaluator Recurrence CreationSafety
begin

text \<open>
  \<^bold>\<open>A verification library for the execution engine of mcp-flow\<close>

  mcp-flow runs plans: directed graphs of TOOL, CONDITION, JOIN, APPROVAL and LOOP steps, produced by an agent, a
  workflow or a schedule.  An execution is a row with a pinned plan; a worker claims it under a lease, runs the
  steps that are eligible, and completes it; when the worker dies, another one recovers it.  The backend is Python
  (\<^verbatim>\<open>src/backend/app\<close>).  This library models its decision logic and proves what the rest relies on.

  \<^bold>\<open>Conventions.\<close>  A function that may raise returns \<open>'a result\<close> (\<open>Inl\<close> the exception, \<open>Inr\<close> the
  value); loops are folds or recursive functions over the result type; a dict is an association list in insertion
  order; Python integers are \<open>int\<close>, UUIDs 128 bit words, times microseconds since the epoch; JSON is a datatype.
  A handler that works in one database transaction under a row lock is a function from the state before to the
  state after.  Human-readable messages are dropped.

  \<^bold>\<open>Theories and the sources they model\<close>
  \<^item> \<open>Prelude\<close>, \<open>Json\<close>, \<open>PyStr\<close>, \<open>PyUuid\<close>, \<open>Sha256\<close>: results and their rules (\<open>only_raises\<close> and the
    collection \<open>raises_intros\<close> say which exceptions a computation can raise), dictionaries, JSON values with Python
    equality, strings, UUIDs, SHA-256.
  \<^item> \<open>JsonPointer\<close> (\<^verbatim>\<open>execution/json_pointer.py\<close>, the pattern of \<^verbatim>\<open>schemas/plan_binding.py\<close>):
    resolution reads the value at the address.
  \<^item> \<open>CanonicalHash\<close> (\<^verbatim>\<open>core/canonical_hash.py\<close>): independence of key order.
  \<^item> \<open>PlanSchema\<close>, \<open>ExecutionModel\<close>, \<open>ExecutionDb\<close> (\<^verbatim>\<open>schemas/*\<close>, \<^verbatim>\<open>models/execution.py\<close>,
    \<^verbatim>\<open>execution/events.py\<close>, \<^verbatim>\<open>execution/schedule_lineage.py\<close>): plans, rows, the rows of one
    execution as a state, and the event log.
  \<^item> \<open>LoopRuntime\<close>, \<open>WhileControl\<close> (\<^verbatim>\<open>execution/loop_runtime.py\<close>): LOOP bodies, iteration keys, the WHILE
    history is append-only, accepted WHILE rows ran what their gates say.
  \<^item> \<open>KahnOrder\<close>, \<open>RuntimeDag\<close>, \<open>DagCorrectness\<close> (\<^verbatim>\<open>execution/dag.py\<close>): the scheduling loop is a stable
    topological sort that fails exactly on cycles; shape of LOOP iterations; eligibility; stop sweeps.
  \<^item> \<open>Completion\<close> (\<^verbatim>\<open>execution/completion.py\<close>): the final status of an execution.
  \<^item> \<open>BindingResolver\<close>, \<open>BindingCorrectness\<close> (\<^verbatim>\<open>execution/binding_resolver.py\<close>): where a step input comes from;
    secrets stay references.
  \<^item> \<open>PredicateEvaluator\<close> (\<^verbatim>\<open>execution/predicate_evaluator.py\<close>): conditions, negation laws, strict equality.
  \<^item> \<open>Recurrence\<close> (\<^verbatim>\<open>scheduler/recurrence.py\<close>): next runs and previews of schedules.
  \<^item> \<open>ClaimService\<close>, \<open>RecoveryService\<close>, \<open>LeaseSafety\<close>, \<open>RecoverySafety\<close> (\<^verbatim>\<open>execution/claim.py\<close>,
    \<^verbatim>\<open>recovery.py\<close>, \<^verbatim>\<open>retry_decision.py\<close>, \<^verbatim>\<open>lineage.py\<close>): claims, renewals and recoveries as handlers and
    as the steps of a transition system with fencing (for AgentRequest executions; approval and input waits are not
    among the steps), and what recovery does to expired leases and interrupted tool calls.
  \<^item> \<open>CancelService\<close>, \<open>CancelSafety\<close>, \<open>CancelRecovery\<close> (\<^verbatim>\<open>execution/cancellation.py\<close>): requesting, reconciling and
    recovering a cancellation, and what each leaves behind.
  \<^item> \<open>ToolPolicy\<close>, \<open>SequentialPair\<close> (\<^verbatim>\<open>services/policy_snapshot.py\<close>,
    \<^verbatim>\<open>agent/sequential_readonly_pair.py\<close>): plans that feed the id of one read-only tool's result to another.
  \<^item> \<open>PlanCycle\<close>, \<open>PlanValidator\<close>, \<open>PlanValidatorSafety\<close>, \<open>PlanAcceptance\<close>
    (\<^verbatim>\<open>agent/plan_validator.py\<close>): the checks a generated plan passes before its request becomes READY, what
    passing them guarantees (\<open>blocking_simps\<close> says it check by check), and the commit of the result.
  \<^item> \<open>StaticPlan\<close>, \<open>StaticPlanSpec\<close>, \<open>StaticPlanValid\<close> (\<^verbatim>\<open>agent/complex_plan_validator.py\<close>): the static
    validator of complex plans reports nothing exactly on the plans that meet a contract stated without its tables.
  \<^item> \<open>Materialize\<close>, \<open>RunnablePlan\<close> (\<^verbatim>\<open>execution/materialize.py\<close>): the rows of a new execution, and when the DAG
    check of the worker accepts them: validator, materialiser and DAG check composed.
  \<^item> \<open>ToolPreflight\<close>, \<open>ExecutionCreation\<close>, \<open>CreationSafety\<close> (\<^verbatim>\<open>execution/runtime_preflight.py\<close>,
    \<^verbatim>\<open>services/execution_creation.py\<close>): the check before a tool is called is the gate of the plan validator; a
    READY request becomes an execution only through it, once per idempotency key, and the execution can run.  What is
    assumed of the response model (\<open>response_roundtrip\<close>) is that an instance within the constraints of its fields
    reads back from its dump.

  \<^bold>\<open>Interfaces.\<close>  The locales \<open>operand_source\<close> (a predicate is evaluated over any source of operands),
  \<open>recurrence\<close> (a preview only needs a next-run function that moves forward) and \<open>lease_protocol\<close> (fencing by
  tokens) state what a client needs; each is interpreted on the definitions that model the code.

  \<^bold>\<open>Parameters\<close> stand for code outside the repository: pydantic's validators and dumps (\<open>codec\<close>,
  \<open>validator_codec\<close>, \<open>vplan\<close>, \<open>vtool\<close>), whether the text of its error mentions a predicate (\<open>M\<close>), the repr of floats, zoneinfo, croniter, \<open>uuid.uuid4()\<close> and the clock.  The record
  \<open>recovery_modules\<close> holds the recovery of workflow executions, which \<open>recover\<close> hands over to; the
  records \<open>catalog\<close> and \<open>workflow_catalog\<close> the rows plan validation and the preflight look up.  Strings have code points below 256, so the Korean tokens
  of the sequential pair cannot occur in them.

  \<^bold>\<open>Bounds.\<close>  The ancestor walk has fuel one more than the number of steps: a deeper recursion is a cycle, where
  Python raises \<open>RecursionError\<close>.  The cron scan keeps the bound of the code (10000 candidates), a preview its 50
  entries.  The cycle search of the plan validator has fuel one more than the number of
  steps, which \<open>dependency_cycle_iff\<close> shows is enough; the breadth first search and the ancestor walk of the
  static validator have the number of roots and edges and one more than the number of steps, enough by \<open>reach_total\<close>
  and \<open>static_walk_total\<close>.  All other functions are total without fuel.  CPython's own recursion limit,
  which only a chain of about a thousand dependent steps would meet, is not modelled.

  \<^bold>\<open>Not modelled.\<close>  The user interface, HTTP layer, repositories beyond the queries above, migrations, model
  providers and MCP transport are input and output.  The orchestrator's wave loop, LOOP reconciliation,
  approvals, queues and policy selection are decision logic that is left for
  later; the lineage of LOOP children and the float arithmetic of \<open>remaining_step_timeout_ms\<close> too.
\<close>

end
